(* ===== verification/Prelude.thy ===== *)
theory Prelude
  imports Main "HOL-Library.Word" "HOL-Library.Signed_Division"
begin

text \<open>
  Shared vocabulary of the development.
  \<^item> Machine integers. A Rust \<open>u64\<close> or \<open>usize\<close> is a natural number below \<open>2 ^ 64\<close>, a Rust
    \<open>i64\<close> an integer in \<open>[-2 ^ 63, 2 ^ 63)\<close>; the \<open>checked_\<close>, \<open>saturating_\<close> and plain
    (wrapping) operations of the language are written out below.  The workspace builds its
    release profile without overflow checks (\<open>src/Cargo.toml\<close>), so a plain operator wraps.
    Bytes are \<open>8 word\<close>, the U256 of the virtual machine is \<open>256 word\<close>.
  \<^item> Big-endian byte strings (\<open>to_be_bytes\<close>, \<open>from_be_bytes\<close>, \<open>to_big_endian\<close>) with their
    round trips.
  \<^item> Results: \<open>error + 'a\<close> with a bind, and state transformers that return the state
    reached also when they fail, because the node writes its stores in place.
  The collections \<open>result_simps\<close> and \<open>machine_defs\<close> carry the component proofs.
\<close>

named_theorems result_simps \<open>unfolding of the result and state-transformer combinators\<close>
named_theorems machine_defs \<open>definitions of the machine-integer operations\<close>

section \<open>Types\<close>

type_synonym byte = "8 word"
type_synonym bytes = "byte list"
type_synonym u256 = "256 word"
type_synonym u64 = nat
type_synonym usize = nat
type_synonym i64 = int

section \<open>Unsigned 64-bit arithmetic on \<open>nat\<close>\<close>

definition u64_max :: nat where
  "u64_max = 2 ^ 64 - 1"

definition u64_wrap :: "nat \<Rightarrow> nat" where
  "u64_wrap n = n mod 2 ^ 64"

definition u64_checked_add :: "nat \<Rightarrow> nat \<Rightarrow> nat option" where
  "u64_checked_add a b = (if a + b < 2 ^ 64 then Some (a + b) else None)"

definition u64_sat_add :: "nat \<Rightarrow> nat \<Rightarrow> nat" where
  "u64_sat_add a b = min (a + b) u64_max"

definition u64_sat_mul :: "nat \<Rightarrow> nat \<Rightarrow> nat" where
  "u64_sat_mul a b = min (a * b) u64_max"

definition u64_wrap_sub :: "nat \<Rightarrow> nat \<Rightarrow> nat" where
  "u64_wrap_sub a b = (if b \<le> a then a - b else (a + 2 ^ 64 - b) mod 2 ^ 64)"

lemma u64_wrap_less [simp]: "u64_wrap n < 2 ^ 64"
  by (simp add: u64_wrap_def)

lemma u64_wrap_id: "n < 2 ^ 64 \<Longrightarrow> u64_wrap n = n"
  by (simp add: u64_wrap_def)

lemma u64_sat_add_less [simp]: "u64_sat_add a b < 2 ^ 64"
  by (simp add: u64_sat_add_def u64_max_def)

lemma u64_sat_add_exact: "a + b < 2 ^ 64 \<Longrightarrow> u64_sat_add a b = a + b"
  by (simp add: u64_sat_add_def u64_max_def)

lemma u64_sat_add_ge: "a < 2 ^ 64 \<Longrightarrow> a \<le> u64_sat_add a b"
  by (simp add: u64_sat_add_def u64_max_def)

lemma u64_wrap_sub_less [simp]: "a < 2 ^ 64 \<Longrightarrow> u64_wrap_sub a b < 2 ^ 64"
  by (auto simp: u64_wrap_sub_def)

section \<open>Signed 64-bit arithmetic on \<open>int\<close>\<close>

definition i64_max :: int where
  "i64_max = 2 ^ 63 - 1"

definition i64_min :: int where
  "i64_min = - (2 ^ 63)"

definition in_i64 :: "int \<Rightarrow> bool" where
  "in_i64 x \<longleftrightarrow> i64_min \<le> x \<and> x \<le> i64_max"

definition i64_wrap :: "int \<Rightarrow> int" where
  "i64_wrap x = (x + 2 ^ 63) mod 2 ^ 64 - 2 ^ 63"

definition i64_checked :: "int \<Rightarrow> int option" where
  "i64_checked x = (if in_i64 x then Some x else None)"

definition i64_checked_add :: "int \<Rightarrow> int \<Rightarrow> int option" where
  "i64_checked_add a b = i64_checked (a + b)"

definition i64_checked_sub :: "int \<Rightarrow> int \<Rightarrow> int option" where
  "i64_checked_sub a b = i64_checked (a - b)"

definition i64_checked_mul :: "int \<Rightarrow> int \<Rightarrow> int option" where
  "i64_checked_mul a b = i64_checked (a * b)"

definition i64_sat :: "int \<Rightarrow> int" where
  "i64_sat x = max i64_min (min i64_max x)"

definition i64_sat_add :: "int \<Rightarrow> int \<Rightarrow> int" where
  "i64_sat_add a b = i64_sat (a + b)"

definition i64_sat_sub :: "int \<Rightarrow> int \<Rightarrow> int" where
  "i64_sat_sub a b = i64_sat (a - b)"

lemmas i64_bounds_defs = in_i64_def i64_min_def i64_max_def

lemmas [machine_defs] =
  u64_checked_add_def i64_checked_add_def i64_checked_sub_def i64_checked_mul_def
  i64_checked_def i64_sat_add_def i64_sat_sub_def i64_sat_def i64_bounds_defs

lemma i64_wrap_id [simp]: "in_i64 x \<Longrightarrow> i64_wrap x = x"
  by (simp add: i64_wrap_def i64_bounds_defs)

lemma in_i64_wrap [simp]: "in_i64 (i64_wrap x)"
proof -
  have "0 \<le> (x + 2 ^ 63) mod 2 ^ 64" and "(x + 2 ^ 63) mod 2 ^ 64 < (2::int) ^ 64"
    by (simp_all del: power_numeral_even power_numeral_odd)
  then show ?thesis
    by (simp add: i64_wrap_def i64_bounds_defs)
qed

lemma in_i64_sat [simp]: "in_i64 (i64_sat x)"
  by (simp add: i64_sat_def i64_bounds_defs)

lemma i64_sat_id [simp]: "in_i64 x \<Longrightarrow> i64_sat x = x"
  by (simp add: i64_sat_def i64_bounds_defs)

lemma in_i64_0 [simp]: "in_i64 0"
  by (simp add: i64_bounds_defs)

lemma i64_checked_Some [simp]: "i64_checked x = Some y \<longleftrightarrow> in_i64 x \<and> y = x"
  by (auto simp: i64_checked_def)

lemma i64_checked_None [simp]: "i64_checked x = None \<longleftrightarrow> \<not> in_i64 x"
  by (simp add: i64_checked_def)

lemma i64_checked_add_Some [simp]:
  "i64_checked_add a b = Some c \<longleftrightarrow> in_i64 (a + b) \<and> c = a + b"
  by (simp add: i64_checked_add_def)

lemma i64_checked_sub_Some [simp]:
  "i64_checked_sub a b = Some c \<longleftrightarrow> in_i64 (a - b) \<and> c = a - b"
  by (simp add: i64_checked_sub_def)

lemma i64_checked_mul_Some [simp]:
  "i64_checked_mul a b = Some c \<longleftrightarrow> in_i64 (a * b) \<and> c = a * b"
  by (simp add: i64_checked_mul_def)

lemma i64_checked_add_None [simp]: "i64_checked_add a b = None \<longleftrightarrow> \<not> in_i64 (a + b)"
  by (simp add: i64_checked_add_def)

lemma i64_checked_sub_None [simp]: "i64_checked_sub a b = None \<longleftrightarrow> \<not> in_i64 (a - b)"
  by (simp add: i64_checked_sub_def)

lemma i64_checked_mul_None [simp]: "i64_checked_mul a b = None \<longleftrightarrow> \<not> in_i64 (a * b)"
  by (simp add: i64_checked_mul_def)

section \<open>Big-endian byte strings\<close>

text \<open>
  \<open>be_bytes n v\<close> is the \<open>n\<close>-byte big-endian encoding of the low \<open>8 * n\<close> bits of \<open>v\<close>, and
  \<open>be_val\<close> reads a byte string back.
\<close>

fun be_bytes :: "nat \<Rightarrow> nat \<Rightarrow> bytes" where
  "be_bytes 0 v = []"
| "be_bytes (Suc n) v = be_bytes n (v div 256) @ [of_nat (v mod 256)]"

definition be_val :: "bytes \<Rightarrow> nat" where
  "be_val bs = foldl (\<lambda>a b. a * 256 + unat b) 0 bs"

lemma length_be_bytes [simp]: "length (be_bytes n v) = n"
  by (induction n arbitrary: v) auto

lemma be_val_snoc [simp]: "be_val (bs @ [b]) = be_val bs * 256 + unat b"
  by (simp add: be_val_def)

lemma be_val_Nil [simp]: "be_val [] = 0"
  by (simp add: be_val_def)

lemma unat_byte_less [simp]: "unat (b :: byte) < 256"
  using unsigned_less [of b, where ?'a = nat] by simp

lemma unat_of_nat_byte [simp]: "unat (of_nat (v mod 256) :: byte) = v mod 256"
  by (simp add: unat_of_nat)

lemma be_val_less: "be_val bs < 256 ^ length bs"
proof (induction bs rule: rev_induct)
  case Nil
  then show ?case by simp
next
  case (snoc b bs)
  have "be_val bs * 256 + unat b < (be_val bs + 1) * 256"
    by (simp add: add_mult_distrib)
  also have "\<dots> \<le> 256 ^ length bs * 256"
    using snoc.IH by (intro mult_le_mono1) simp
  finally show ?case by (simp add: mult.commute)
qed

theorem be_val_be_bytes: "be_val (be_bytes n v) = v mod 256 ^ n"
proof (induction n arbitrary: v)
  case 0
  then show ?case by simp
next
  case (Suc n)
  have "v div 256 mod 256 ^ n * 256 + v mod 256 = v mod (256 * 256 ^ n)"
    by (simp add: mod_mult2_eq mult.commute)
  with Suc show ?case by simp
qed

theorem be_bytes_be_val: "length bs = n \<Longrightarrow> be_bytes n (be_val bs) = bs"
proof (induction bs arbitrary: n rule: rev_induct)
  case Nil
  then show ?case by simp
next
  case (snoc b bs)
  then obtain m where "n = Suc m" and "length bs = m" by auto
  moreover have "(be_val bs * 256 + unat b) div 256 = be_val bs"
    by (simp add: div_add1_eq)
  moreover have "(of_nat ((be_val bs * 256 + unat b) mod 256) :: byte) = b"
    by (simp add: mod_add_eq)
  ultimately show ?case using snoc.IH by simp
qed

text \<open>Rust \<open>i64::to_be_bytes\<close> and \<open>i64::from_be_bytes\<close> (two's complement).\<close>

definition i64_to_be_bytes :: "i64 \<Rightarrow> bytes" where
  "i64_to_be_bytes x = be_bytes 8 (nat (x mod 2 ^ 64))"

definition i64_from_be_bytes :: "bytes \<Rightarrow> i64" where
  "i64_from_be_bytes bs = i64_wrap (int (be_val bs))"

lemma length_i64_to_be_bytes [simp]: "length (i64_to_be_bytes x) = 8"
  by (simp add: i64_to_be_bytes_def)

lemma i64_from_to_be_bytes: "i64_from_be_bytes (i64_to_be_bytes x) = i64_wrap x"
proof -
  have "be_val (i64_to_be_bytes x) = nat (x mod 2 ^ 64) mod 256 ^ 8"
    unfolding i64_to_be_bytes_def by (rule be_val_be_bytes)
  moreover have "nat (x mod 2 ^ 64) < 256 ^ 8"
    by simp
  ultimately have "int (be_val (i64_to_be_bytes x)) = x mod 2 ^ 64"
    by simp
  then show ?thesis
    unfolding i64_from_be_bytes_def i64_wrap_def by (simp add: mod_simps)
qed

lemma i64_be_roundtrip [simp]: "in_i64 x \<Longrightarrow> i64_from_be_bytes (i64_to_be_bytes x) = x"
  by (simp add: i64_from_to_be_bytes)

section \<open>Results and state transformers\<close>

fun rbind :: "'e + 'a \<Rightarrow> ('a \<Rightarrow> 'e + 'b) \<Rightarrow> 'e + 'b" where
  "rbind (Inl e) f = Inl e"
| "rbind (Inr x) f = f x"

definition ensure :: "bool \<Rightarrow> 'e \<Rightarrow> 'e + unit" where
  "ensure b e = (if b then Inr () else Inl e)"

definition ok_or :: "'a option \<Rightarrow> 'e \<Rightarrow> 'e + 'a" where
  "ok_or x e = (case x of None \<Rightarrow> Inl e | Some v \<Rightarrow> Inr v)"

text \<open>
  A state transformer returns its result (an error or a value) together with the state it
  has reached, so writes made before an error stay visible.
\<close>

type_synonym ('s, 'e, 'a) st = "'s \<Rightarrow> ('e + 'a) \<times> 's"

definition st_return :: "'a \<Rightarrow> ('s, 'e, 'a) st" where
  "st_return x s = (Inr x, s)"

definition st_fail :: "'e \<Rightarrow> ('s, 'e, 'a) st" where
  "st_fail e s = (Inl e, s)"

definition st_bind :: "('s, 'e, 'a) st \<Rightarrow> ('a \<Rightarrow> ('s, 'e, 'b) st) \<Rightarrow> ('s, 'e, 'b) st" where
  "st_bind m f s = (case m s of (Inl e, s') \<Rightarrow> (Inl e, s') | (Inr x, s') \<Rightarrow> f x s')"

definition st_lift :: "'e + 'a \<Rightarrow> ('s, 'e, 'a) st" where
  "st_lift r s = (r, s)"

definition st_gets :: "('s \<Rightarrow> 'a) \<Rightarrow> ('s, 'e, 'a) st" where
  "st_gets f s = (Inr (f s), s)"

definition st_modify :: "('s \<Rightarrow> 's) \<Rightarrow> ('s, 'e, unit) st" where
  "st_modify f s = (Inr (), f s)"

lemma rbind_Inr [result_simps]: "rbind m f = Inr y \<longleftrightarrow> (\<exists>x. m = Inr x \<and> f x = Inr y)"
  by (cases m) auto

lemma rbind_Inl [result_simps]:
  "rbind m f = Inl e \<longleftrightarrow> m = Inl e \<or> (\<exists>x. m = Inr x \<and> f x = Inl e)"
  by (cases m) auto

lemma ensure_Inr [result_simps, simp]: "ensure b e = Inr u \<longleftrightarrow> b"
  by (simp add: ensure_def)

lemma ensure_Inl [result_simps, simp]: "ensure b e = Inl e' \<longleftrightarrow> \<not> b \<and> e' = e"
  by (auto simp: ensure_def)

lemma ok_or_Inr [result_simps, simp]: "ok_or x e = Inr v \<longleftrightarrow> x = Some v"
  by (simp add: ok_or_def split: option.split)

lemma ok_or_Inl [result_simps, simp]: "ok_or x e = Inl e' \<longleftrightarrow> x = None \<and> e' = e"
  by (auto simp: ok_or_def split: option.split)

lemma st_bind_Inr [result_simps]:
  "st_bind m f s = (Inr y, s'') \<longleftrightarrow> (\<exists>x s'. m s = (Inr x, s') \<and> f x s' = (Inr y, s''))"
  by (auto simp: st_bind_def split: prod.splits sum.splits)

lemma st_bind_Inl [result_simps]:
  "st_bind m f s = (Inl e, s'') \<longleftrightarrow>
     m s = (Inl e, s'') \<or> (\<exists>x s'. m s = (Inr x, s') \<and> f x s' = (Inl e, s''))"
  by (auto simp: st_bind_def split: prod.splits sum.splits)

lemma st_prim_simps [result_simps]:
  "st_return x s = (Inr x, s)"
  "st_fail e s = (Inl e, s)"
  "st_lift r s = (r, s)"
  "st_gets g s = (Inr (g s), s)"
  "st_modify h s = (Inr (), h s)"
  by (simp_all add: st_return_def st_fail_def st_lift_def st_gets_def st_modify_def)

lemmas st_eval = st_bind_def st_prim_simps ensure_def ok_or_def

section \<open>Lists\<close>

text \<open>Rust slice access with a default: \<open>xs.get(i).copied().unwrap_or(d)\<close>.\<close>

definition get_or :: "'a list \<Rightarrow> nat \<Rightarrow> 'a \<Rightarrow> 'a" where
  "get_or xs i d = (if i < length xs then xs ! i else d)"

text \<open>Rust \<open>slice.get(a..b)\<close>: None when the range is reversed or runs past the end.\<close>

definition get_range :: "'a list \<Rightarrow> nat \<Rightarrow> nat \<Rightarrow> 'a list option" where
  "get_range xs a b = (if a \<le> b \<and> b \<le> length xs then Some (take (b - a) (drop a xs)) else None)"

text \<open>\<open>Vec::resize(n, d)\<close>: cut, or pad with \<open>d\<close>.\<close>

definition resize :: "nat \<Rightarrow> 'a \<Rightarrow> 'a list \<Rightarrow> 'a list" where
  "resize n d xs = take n xs @ replicate (n - length xs) d"

text \<open>\<open>v[a..a + ys.len()].copy_from_slice(ys)\<close> for a range inside the vector.\<close>

definition overwrite :: "'a list \<Rightarrow> nat \<Rightarrow> 'a list \<Rightarrow> 'a list" where
  "overwrite xs a ys = take a xs @ ys @ drop (a + length ys) xs"

lemma length_resize [simp]: "length (resize n d xs) = n"
  by (simp add: resize_def)

lemma length_overwrite [simp]: "a + length ys \<le> length xs \<Longrightarrow> length (overwrite xs a ys) = length xs"
  by (simp add: overwrite_def)

lemma nth_resize: "i < n \<Longrightarrow> resize n d xs ! i = (if i < length xs then xs ! i else d)"
  by (simp add: resize_def nth_append min_def)

lemma nth_overwrite:
  "a + length ys \<le> length xs \<Longrightarrow> i < length xs \<Longrightarrow>
   overwrite xs a ys ! i = (if a \<le> i \<and> i < a + length ys then ys ! (i - a) else xs ! i)"
  by (auto simp: overwrite_def nth_append min_def)

section \<open>Division\<close>

lemma sdiv_nonneg: "0 \<le> a \<Longrightarrow> 0 < b \<Longrightarrow> a sdiv b = a div b" for a b :: int
  by (cases "a = 0") (simp_all add: signed_divide_int_def)

lemma div_le_times: "0 < c \<Longrightarrow> a div c * c \<le> a" for a c :: int
  using div_mult_mod_eq [of a c] pos_mod_sign [of c a] by linarith

lemma times_less_div: "0 < c \<Longrightarrow> a < (a div c + 1) * c" for a c :: int
  using div_mult_mod_eq [of a c] pos_mod_bound [of c a] unfolding distrib_right by linarith

section \<open>Sums over finite sets\<close>

lemma sum_fun_upd_int:
  fixes f :: "'a \<Rightarrow> int"
  assumes "finite S" and "a \<in> S"
  shows "(\<Sum>x\<in>S. (f(a := b)) x) = (\<Sum>x\<in>S. f x) - f a + b"
proof -
  have "(\<Sum>x\<in>S. (f(a := b)) x) = b + (\<Sum>x\<in>S - {a}. f x)"
    using assms by (simp add: sum.remove [of S a])
  moreover have "(\<Sum>x\<in>S. f x) = f a + (\<Sum>x\<in>S - {a}. f x)"
    using assms by (rule sum.remove)
  ultimately show ?thesis by simp
qed

end
