(* ===== verification/Tron_Types.thy ===== *)
theory Tron_Types
  imports Prelude "HOL-Library.List_Lexorder"
begin

text \<open>
  The primitive types of \<open>src/crates/types/src/lib.rs\<close>: the 21-byte address (prefix \<open>0x41\<close>
  and a 20-byte body), the 32-byte hash, and their conversions.  A Rust array type \<open>[u8; n]\<close>
  is a byte list of length \<open>n\<close>; \<open>to_array n\<close> is the checked conversion \<open>try_into\<close>.
  The hex and Base58Check codecs are the external crates \<open>hex\<close> and \<open>bs58\<close>: they are
  arguments of the functions that call them.
\<close>

definition ADDRESS_PREFIX :: byte where
  "ADDRESS_PREFIX = 0x41"

definition ADDRESS_LEN :: nat where
  "ADDRESS_LEN = 21"

datatype type_error =
    InvalidLength nat nat
  | InvalidPrefix byte
  | HexError string
  | Base58Error string

datatype address = Address (as_bytes: bytes)

text \<open>The array a slice converts to (\<open>&[u8]\<close> to \<open>[u8; n]\<close>).\<close>

definition to_array :: "nat \<Rightarrow> bytes \<Rightarrow> bytes option" where
  "to_array n bs = (if length bs = n then Some bs else None)"

definition from_body :: "bytes \<Rightarrow> address" where
  "from_body b = Address (ADDRESS_PREFIX # b)"

definition from_bytes :: "bytes \<Rightarrow> type_error + address" where
  "from_bytes bs =
     (if bs ! 0 \<noteq> ADDRESS_PREFIX then Inl (InvalidPrefix (bs ! 0)) else Inr (Address bs))"

definition body :: "address \<Rightarrow> bytes" where
  "body a = drop 1 (as_bytes a)"

definition to_hex :: "(bytes \<Rightarrow> string) \<Rightarrow> address \<Rightarrow> string" where
  "to_hex hex_encode a = hex_encode (as_bytes a)"

text \<open>Rust \<open>str::trim_start_matches("0x")\<close>: every leading \<open>0x\<close> is removed.\<close>

fun trim_0x :: "string \<Rightarrow> string" where
  "trim_0x (c # d # s) = (if c = CHR ''0'' \<and> d = CHR ''x'' then trim_0x s else c # d # s)"
| "trim_0x s = s"

definition from_hex :: "(string \<Rightarrow> string + bytes) \<Rightarrow> string \<Rightarrow> type_error + address" where
  "from_hex hex_decode s =
     (case hex_decode (trim_0x s) of
        Inl e \<Rightarrow> Inl (HexError e)
      | Inr bs \<Rightarrow>
          rbind (ok_or (to_array ADDRESS_LEN bs) (InvalidLength ADDRESS_LEN (length bs))) from_bytes)"

definition to_base58check :: "(bytes \<Rightarrow> string) \<Rightarrow> address \<Rightarrow> string" where
  "to_base58check b58_encode a = b58_encode (as_bytes a)"

definition from_base58check :: "(string \<Rightarrow> string + bytes) \<Rightarrow> string \<Rightarrow> type_error + address" where
  "from_base58check b58_decode s =
     (case b58_decode s of
        Inl e \<Rightarrow> Inl (Base58Error e)
      | Inr bs \<Rightarrow>
          rbind (ok_or (to_array ADDRESS_LEN bs) (InvalidLength ADDRESS_LEN (length bs))) from_bytes)"

datatype h256 = H256 (h256_bytes: bytes)

definition h256_zero :: h256 where
  "h256_zero = H256 (replicate 32 0)"

definition h256_from_slice :: "bytes \<Rightarrow> type_error + h256" where
  "h256_from_slice s =
     rbind (ok_or (to_array 32 s) (InvalidLength 32 (length s))) (\<lambda>arr. Inr (H256 arr))"

text \<open>
  Every address the constructors build is 21 bytes with the prefix: the fields of the Rust
  type are private, so this is the type's invariant.
\<close>

definition wf_address :: "address \<Rightarrow> bool" where
  "wf_address a \<longleftrightarrow> length (as_bytes a) = ADDRESS_LEN \<and> as_bytes a ! 0 = ADDRESS_PREFIX"

lemma to_array_Some [simp]: "to_array n bs = Some arr \<longleftrightarrow> length bs = n \<and> arr = bs"
  by (auto simp: to_array_def)

lemma to_array_None [simp]: "to_array n bs = None \<longleftrightarrow> length bs \<noteq> n"
  by (simp add: to_array_def)

lemma wf_from_body: "length b = 20 \<Longrightarrow> wf_address (from_body b)"
  by (simp add: wf_address_def from_body_def ADDRESS_LEN_def)

lemma from_bytes_Inr [simp]:
  "from_bytes bs = Inr a \<longleftrightarrow> bs ! 0 = ADDRESS_PREFIX \<and> a = Address bs"
  by (auto simp: from_bytes_def)

lemma body_from_body [simp]: "body (from_body b) = b"
  by (simp add: body_def from_body_def)

lemma from_body_body: "wf_address a \<Longrightarrow> from_body (body a) = a"
  by (cases a; cases "as_bytes a") (auto simp: wf_address_def body_def from_body_def ADDRESS_LEN_def)

lemma from_body_inject [simp]: "from_body b = from_body b' \<longleftrightarrow> b = b'"
  by (simp add: from_body_def)

text \<open>
  Both textual forms use the same last step: an accepted byte string is a well-formed
  address, and a well-formed address is accepted.
\<close>

lemma array_from_bytes:
  "rbind (ok_or (to_array ADDRESS_LEN bs) e) from_bytes = Inr a \<longleftrightarrow> wf_address a \<and> as_bytes a = bs"
  by (cases a) (auto simp: result_simps wf_address_def)

lemma from_hex_wf: "from_hex dec s = Inr a \<Longrightarrow> wf_address a"
  by (auto simp: from_hex_def array_from_bytes split: sum.splits)

lemma from_base58check_roundtrip:
  assumes "wf_address a" and "dec (enc (as_bytes a)) = Inr (as_bytes a)"
  shows "from_base58check dec (to_base58check enc a) = Inr a"
  using assms by (simp add: from_base58check_def to_base58check_def array_from_bytes)

lemma trim_0x_id: "(\<forall>t. s \<noteq> CHR ''0'' # CHR ''x'' # t) \<Longrightarrow> trim_0x s = s"
  by (cases s rule: trim_0x.cases) auto

lemma from_hex_roundtrip:
  assumes "wf_address a"
    and "dec (enc (as_bytes a)) = Inr (as_bytes a)"
    and "\<forall>t. enc (as_bytes a) \<noteq> CHR ''0'' # CHR ''x'' # t"
  shows "from_hex dec (to_hex enc a) = Inr a"
  using assms by (simp add: from_hex_def to_hex_def trim_0x_id array_from_bytes)

section \<open>The order of addresses\<close>

text \<open>
  Addresses are compared by their bytes (the lexicographic order of byte strings, which is
  also the iteration order of the persistent store).
\<close>

instantiation address :: linorder
begin

definition less_eq_address :: "address \<Rightarrow> address \<Rightarrow> bool" where
  "less_eq_address a b \<longleftrightarrow> as_bytes a \<le> as_bytes b"

definition less_address :: "address \<Rightarrow> address \<Rightarrow> bool" where
  "less_address a b \<longleftrightarrow> as_bytes a < as_bytes b"

instance
  by intro_classes (auto simp: less_eq_address_def less_address_def address.expand)

end

lemma as_bytes_inject [simp]: "as_bytes a = as_bytes b \<longleftrightarrow> a = b"
  by (auto simp: address.expand)

end
