(* ===== verification/Vm_Opcode.thy ===== *)
theory Vm_Opcode
  imports Tron_Types
begin

text \<open>
  The opcodes of the virtual machine (\<open>src/crates/vm/src/opcode.rs\<close>) and their energy
  costs (\<open>src/crates/vm/src/energy.rs\<close>): the enum with its discriminants, the decoder
  \<open>from_u8\<close>, the static tiers and the dynamic cost helpers.  Costs are \<open>u64\<close> values.
\<close>

section \<open>Opcodes\<close>

datatype opcode =
    Stop
  | Add
  | Mul
  | Sub
  | Div
  | Sdiv
  | Mod
  | Exp
  | Lt
  | Gt
  | Eq
  | IsZero
  | And
  | Or
  | Xor
  | CallDataLoad
  | CallDataSize
  | CallDataCopy
  | ReturnDataSize
  | ReturnDataCopy
  | Pop
  | Mload
  | Mstore
  | Mstore8
  | Sload
  | Sstore
  | Jump
  | Jumpi
  | Jumpdest
  | Push1
  | Push2
  | Dup1
  | Swap1
  | CallToken
  | TokenBalance
  | CallTokenValue
  | CallTokenId
  | IsContract
  | Freeze
  | Unfreeze
  | FreezeExpireTime
  | VoteWitness
  | WithdrawReward
  | FreezeBalanceV2
  | UnfreezeBalanceV2
  | CancelAllUnfreezeV2
  | WithdrawExpireUnfreeze
  | DelegateResource
  | UnDelegateResource
  | Call
  | Return
  | Revert
  | Invalid
  | SelfDestruct

primrec opcode_u8 :: "opcode \<Rightarrow> byte" where
  "opcode_u8 Stop = 0x00"
| "opcode_u8 Add = 0x01"
| "opcode_u8 Mul = 0x02"
| "opcode_u8 Sub = 0x03"
| "opcode_u8 Div = 0x04"
| "opcode_u8 Sdiv = 0x05"
| "opcode_u8 Mod = 0x06"
| "opcode_u8 Exp = 0x0a"
| "opcode_u8 Lt = 0x10"
| "opcode_u8 Gt = 0x11"
| "opcode_u8 Eq = 0x14"
| "opcode_u8 IsZero = 0x15"
| "opcode_u8 And = 0x16"
| "opcode_u8 Or = 0x17"
| "opcode_u8 Xor = 0x18"
| "opcode_u8 CallDataLoad = 0x35"
| "opcode_u8 CallDataSize = 0x36"
| "opcode_u8 CallDataCopy = 0x37"
| "opcode_u8 ReturnDataSize = 0x3d"
| "opcode_u8 ReturnDataCopy = 0x3e"
| "opcode_u8 Pop = 0x50"
| "opcode_u8 Mload = 0x51"
| "opcode_u8 Mstore = 0x52"
| "opcode_u8 Mstore8 = 0x53"
| "opcode_u8 Sload = 0x54"
| "opcode_u8 Sstore = 0x55"
| "opcode_u8 Jump = 0x56"
| "opcode_u8 Jumpi = 0x57"
| "opcode_u8 Jumpdest = 0x5b"
| "opcode_u8 Push1 = 0x60"
| "opcode_u8 Push2 = 0x61"
| "opcode_u8 Dup1 = 0x80"
| "opcode_u8 Swap1 = 0x90"
| "opcode_u8 CallToken = 0xd0"
| "opcode_u8 TokenBalance = 0xd1"
| "opcode_u8 CallTokenValue = 0xd2"
| "opcode_u8 CallTokenId = 0xd3"
| "opcode_u8 IsContract = 0xd4"
| "opcode_u8 Freeze = 0xd5"
| "opcode_u8 Unfreeze = 0xd6"
| "opcode_u8 FreezeExpireTime = 0xd7"
| "opcode_u8 VoteWitness = 0xd8"
| "opcode_u8 WithdrawReward = 0xd9"
| "opcode_u8 FreezeBalanceV2 = 0xda"
| "opcode_u8 UnfreezeBalanceV2 = 0xdb"
| "opcode_u8 CancelAllUnfreezeV2 = 0xdc"
| "opcode_u8 WithdrawExpireUnfreeze = 0xdd"
| "opcode_u8 DelegateResource = 0xde"
| "opcode_u8 UnDelegateResource = 0xdf"
| "opcode_u8 Call = 0xf1"
| "opcode_u8 Return = 0xf3"
| "opcode_u8 Revert = 0xfd"
| "opcode_u8 Invalid = 0xfe"
| "opcode_u8 SelfDestruct = 0xff"

definition opcode_table :: "(byte \<times> opcode) list" where
  "opcode_table =
    [(0x00, Stop), (0x01, Add), (0x02, Mul), (0x03, Sub),
     (0x04, Div), (0x05, Sdiv), (0x06, Mod), (0x0a, Exp),
     (0x10, Lt), (0x11, Gt), (0x14, Eq), (0x15, IsZero),
     (0x16, And), (0x17, Or), (0x18, Xor), (0x35, CallDataLoad),
     (0x36, CallDataSize), (0x37, CallDataCopy), (0x3d, ReturnDataSize), (0x3e, ReturnDataCopy),
     (0x50, Pop), (0x51, Mload), (0x52, Mstore), (0x53, Mstore8),
     (0x54, Sload), (0x55, Sstore), (0x56, Jump), (0x57, Jumpi),
     (0x5b, Jumpdest), (0x60, Push1), (0x61, Push2), (0x80, Dup1),
     (0x90, Swap1), (0xd0, CallToken), (0xd1, TokenBalance), (0xd2, CallTokenValue),
     (0xd3, CallTokenId), (0xd4, IsContract), (0xd5, Freeze), (0xd6, Unfreeze),
     (0xd7, FreezeExpireTime), (0xd8, VoteWitness), (0xd9, WithdrawReward), (0xda, FreezeBalanceV2),
     (0xdb, UnfreezeBalanceV2), (0xdc, CancelAllUnfreezeV2), (0xdd, WithdrawExpireUnfreeze), (0xde, DelegateResource),
     (0xdf, UnDelegateResource), (0xf1, Call), (0xf3, Return), (0xfd, Revert),
     (0xfe, Invalid), (0xff, SelfDestruct)]"

definition from_u8 :: "byte \<Rightarrow> opcode option" where
  "from_u8 b = map_of opcode_table b"

definition is_tron_specific :: "opcode \<Rightarrow> bool" where
  "is_tron_specific op \<longleftrightarrow> 0xd0 \<le> opcode_u8 op \<and> opcode_u8 op \<le> 0xdf"

text \<open>The decoder inverts the discriminants, in both directions.\<close>

lemma from_u8_opcode_u8: "from_u8 (opcode_u8 op) = Some op"
  by (cases op) (simp_all add: from_u8_def opcode_table_def)

lemma opcode_u8_from_u8: "from_u8 b = Some op \<Longrightarrow> opcode_u8 op = b"
proof -
  have "\<forall>(b, op) \<in> set opcode_table. opcode_u8 op = b"
    by (simp add: opcode_table_def)
  then show "from_u8 b = Some op \<Longrightarrow> opcode_u8 op = b"
    unfolding from_u8_def by (blast dest: map_of_SomeD)
qed

lemma from_u8_Some_iff: "from_u8 b = Some op \<longleftrightarrow> b = opcode_u8 op"
  using from_u8_opcode_u8 opcode_u8_from_u8 by metis

section \<open>Energy costs\<close>

definition ZERO_TIER :: u64 where
  "ZERO_TIER = 0"

definition BASE_TIER :: u64 where
  "BASE_TIER = 2"

definition VERY_LOW_TIER :: u64 where
  "VERY_LOW_TIER = 3"

definition LOW_TIER :: u64 where
  "LOW_TIER = 5"

definition MID_TIER :: u64 where
  "MID_TIER = 8"

definition HIGH_TIER :: u64 where
  "HIGH_TIER = 10"

definition EXP_ENERGY :: u64 where
  "EXP_ENERGY = 10"

definition SLOAD :: u64 where
  "SLOAD = 50"

definition SET_SSTORE :: u64 where
  "SET_SSTORE = 20000"

definition CLEAR_SSTORE :: u64 where
  "CLEAR_SSTORE = 5000"

definition RESET_SSTORE :: u64 where
  "RESET_SSTORE = 5000"

definition MEMORY_WORD :: u64 where
  "MEMORY_WORD = 3"

definition NEW_ACCT_CALL :: u64 where
  "NEW_ACCT_CALL = 25000"

definition SUICIDE :: u64 where
  "SUICIDE = 0"

definition VOTE_WITNESS :: u64 where
  "VOTE_WITNESS = 30000"

lemmas tier_defs =
  ZERO_TIER_def BASE_TIER_def VERY_LOW_TIER_def LOW_TIER_def MID_TIER_def HIGH_TIER_def
  EXP_ENERGY_def SLOAD_def SET_SSTORE_def CLEAR_SSTORE_def RESET_SSTORE_def MEMORY_WORD_def
  NEW_ACCT_CALL_def SUICIDE_def VOTE_WITNESS_def

definition suicide_cost :: "bool \<Rightarrow> u64" where
  "suicide_cost beneficiary_exists = SUICIDE + (if beneficiary_exists then 0 else NEW_ACCT_CALL)"

definition vote_witness_mem_needed :: "u64 \<Rightarrow> u64 \<Rightarrow> u64 \<Rightarrow> u64 \<Rightarrow> u64" where
  "vote_witness_mem_needed witness_offset witness_len amount_offset amount_len =
     (let extent = (\<lambda>off len. u64_sat_add (u64_sat_add off (u64_sat_mul len 32)) 32)
      in max (extent witness_offset witness_len) (extent amount_offset amount_len))"

primrec base_cost :: "opcode \<Rightarrow> u64" where
  "base_cost Stop = ZERO_TIER"
| "base_cost Return = ZERO_TIER"
| "base_cost Revert = ZERO_TIER"
| "base_cost Invalid = ZERO_TIER"
| "base_cost Add = VERY_LOW_TIER"
| "base_cost Sub = VERY_LOW_TIER"
| "base_cost Lt = VERY_LOW_TIER"
| "base_cost Gt = VERY_LOW_TIER"
| "base_cost Eq = VERY_LOW_TIER"
| "base_cost IsZero = VERY_LOW_TIER"
| "base_cost And = VERY_LOW_TIER"
| "base_cost Or = VERY_LOW_TIER"
| "base_cost Xor = VERY_LOW_TIER"
| "base_cost Pop = VERY_LOW_TIER"
| "base_cost Mul = LOW_TIER"
| "base_cost Div = LOW_TIER"
| "base_cost Sdiv = LOW_TIER"
| "base_cost Mod = LOW_TIER"
| "base_cost Push1 = VERY_LOW_TIER"
| "base_cost Push2 = VERY_LOW_TIER"
| "base_cost Dup1 = VERY_LOW_TIER"
| "base_cost Swap1 = VERY_LOW_TIER"
| "base_cost Jumpdest = 1"
| "base_cost Jump = MID_TIER"
| "base_cost Jumpi = HIGH_TIER"
| "base_cost Mload = VERY_LOW_TIER"
| "base_cost Mstore = VERY_LOW_TIER"
| "base_cost Mstore8 = VERY_LOW_TIER"
| "base_cost CallDataLoad = VERY_LOW_TIER"
| "base_cost CallDataSize = BASE_TIER"
| "base_cost ReturnDataSize = BASE_TIER"
| "base_cost CallDataCopy = VERY_LOW_TIER"
| "base_cost ReturnDataCopy = VERY_LOW_TIER"
| "base_cost Exp = EXP_ENERGY"
| "base_cost Sload = SLOAD"
| "base_cost Sstore = 0"
| "base_cost SelfDestruct = SUICIDE"
| "base_cost VoteWitness = ZERO_TIER"
| "base_cost IsContract = BASE_TIER"
| "base_cost TokenBalance = BASE_TIER"
| "base_cost CallTokenValue = BASE_TIER"
| "base_cost CallTokenId = BASE_TIER"
| "base_cost Call = 40"
| "base_cost CallToken = 40"
| "base_cost Freeze = BASE_TIER"
| "base_cost Unfreeze = BASE_TIER"
| "base_cost FreezeExpireTime = BASE_TIER"
| "base_cost WithdrawReward = BASE_TIER"
| "base_cost FreezeBalanceV2 = BASE_TIER"
| "base_cost UnfreezeBalanceV2 = BASE_TIER"
| "base_cost CancelAllUnfreezeV2 = BASE_TIER"
| "base_cost WithdrawExpireUnfreeze = BASE_TIER"
| "base_cost DelegateResource = BASE_TIER"
| "base_cost UnDelegateResource = BASE_TIER"

fun sstore_cost :: "bool \<Rightarrow> bool \<Rightarrow> u64" where
  "sstore_cost True False = SET_SSTORE"
| "sstore_cost False True = CLEAR_SSTORE"
| "sstore_cost _ _ = RESET_SSTORE"

text \<open>
  The quadratic memory cost.  Multiplication, addition and the final subtraction are plain
  \<open>u64\<close> operators, so each wraps.
\<close>

definition memory_cost :: "u64 \<Rightarrow> u64" where
  "memory_cost w = u64_wrap (u64_wrap (MEMORY_WORD * w) + u64_wrap (w * w) div 512)"

definition memory_expansion_cost :: "u64 \<Rightarrow> u64 \<Rightarrow> u64" where
  "memory_expansion_cost cur_words new_words =
     (if new_words \<le> cur_words then 0
      else u64_wrap_sub (memory_cost new_words) (memory_cost cur_words))"

definition vote_witness_cost :: "u64 \<Rightarrow> u64 \<Rightarrow> u64 \<Rightarrow> u64 \<Rightarrow> u64 \<Rightarrow> u64" where
  "vote_witness_cost old_mem_bytes witness_offset witness_len amount_offset amount_len =
     (let needed = vote_witness_mem_needed witness_offset witness_len amount_offset amount_len;
          new_words = u64_wrap (needed + 31) div 32;
          old_words = old_mem_bytes div 32
      in u64_wrap (VOTE_WITNESS + memory_expansion_cost old_words new_words))"

text \<open>\<open>energy_to_sun\<close> of \<open>src/crates/vm/src/lib.rs\<close>: an exact 128-bit product, clamped.\<close>

definition energy_to_sun :: "u64 \<Rightarrow> i64 \<Rightarrow> i64" where
  "energy_to_sun energy_used energy_price_sun =
     max 0 (min i64_max (int energy_used * energy_price_sun))"

section \<open>The energy meter\<close>

record energy_meter =
  meter_limit :: u64
  meter_used :: u64

definition meter_new :: "u64 \<Rightarrow> energy_meter" where
  "meter_new limit = \<lparr>meter_limit = limit, meter_used = 0\<rparr>"

text \<open>\<open>charge\<close> returns None where the Rust method returns false and leaves the meter alone.\<close>

definition charge :: "energy_meter \<Rightarrow> u64 \<Rightarrow> energy_meter option" where
  "charge m amount =
     (case u64_checked_add (meter_used m) amount of
        Some u \<Rightarrow> if u \<le> meter_limit m then Some (m\<lparr>meter_used := u\<rparr>) else None
      | None \<Rightarrow> None)"

definition remaining :: "energy_meter \<Rightarrow> u64" where
  "remaining m = meter_limit m - meter_used m"

lemma charge_Some:
  "charge m a = Some m' \<longleftrightarrow>
     meter_used m + a < 2 ^ 64 \<and> meter_used m + a \<le> meter_limit m \<and>
     m' = m\<lparr>meter_used := meter_used m + a\<rparr>"
  by (auto simp: charge_def u64_checked_add_def)

lemma charge_None:
  "meter_limit m < 2 ^ 64 \<Longrightarrow> charge m a = None \<longleftrightarrow> remaining m < a \<or> meter_limit m < meter_used m"
  by (auto simp: charge_def u64_checked_add_def remaining_def)

lemma charge_remaining:
  "charge m a = Some m' \<Longrightarrow> remaining m' + a = remaining m \<and> meter_limit m' = meter_limit m"
  by (auto simp: charge_Some remaining_def)

lemma base_cost_pos:
  "op \<notin> {Stop, Return, Revert, Invalid, Sstore, SelfDestruct, VoteWitness} \<Longrightarrow> 0 < base_cost op"
  by (cases op) (simp_all add: tier_defs)

lemma sstore_cost_ge: "5000 \<le> sstore_cost a b"
  by (cases a; cases b) (simp_all add: tier_defs)

lemma memory_cost_exact:
  assumes "w < 2 ^ 32"
  shows "memory_cost w = 3 * w + w * w div 512"
proof -
  have "w * w < 2 ^ 32 * 2 ^ 32"
    using assms by (intro mult_strict_mono) auto
  moreover from this have "w * w div 512 < 2 ^ 55"
    by (simp add: less_mult_imp_div_less)
  ultimately show ?thesis
    using assms by (simp add: memory_cost_def tier_defs u64_wrap_def)
qed

lemma memory_cost_mono: "v \<le> w \<Longrightarrow> w < 2 ^ 32 \<Longrightarrow> memory_cost v \<le> memory_cost w"
  by (simp add: memory_cost_exact add_mono div_le_mono mult_le_mono)

section \<open>Properties\<close>

text \<open>
  Decoding is exactly the inverse of the discriminants: a byte decodes to an opcode if and
  only if it is that opcode's byte, so every opcode is reachable and no byte is ambiguous.
\<close>

theorem opcode_decode_roundtrip: "from_u8 b = Some op \<longleftrightarrow> b = opcode_u8 op"
  by (rule from_u8_Some_iff)

end
