(* ===== verification/Vm_Memory.thy ===== *)
theory Vm_Memory
  imports Vm_Opcode
begin

text \<open>
  Byte-addressed memory of the virtual machine (\<open>src/crates/vm/src/memory.rs\<close>) and the
  precompiled contracts (\<open>src/crates/vm/src/precompile.rs\<close>).

  A memory is its data vector.  \<open>expand_to\<close> grows it in 32-byte words and returns the energy
  to charge; \<open>load\<close> and \<open>store\<close> read and write a big-endian 256-bit word.  A Rust panic
  (capacity overflow of \<open>Vec::resize\<close>, slice index out of range) is a value of \<open>panic\<close>.
  Exhaustion of the machine's memory below the capacity limit is not modelled.

  The hash functions and the signature recovery of the precompiles are those of
  \<open>tron_crypto\<close>, thin wrappers around external crates: the record \<open>crypto\<close> carries them.
\<close>

datatype panic = CapacityOverflow | IndexOutOfBounds | SliceOutOfRange

section \<open>U256 and bytes\<close>

definition u256_to_be :: "u256 \<Rightarrow> bytes" where
  "u256_to_be w = be_bytes 32 (unat w)"

definition u256_from_be :: "bytes \<Rightarrow> u256" where
  "u256_from_be bs = of_nat (be_val bs)"

definition low_u64 :: "u256 \<Rightarrow> u64" where
  "low_u64 w = unat w mod 2 ^ 64"

lemma length_u256_to_be [simp]: "length (u256_to_be w) = 32"
  by (simp add: u256_to_be_def)

lemma unat_u256_less: "unat (w :: u256) < 256 ^ 32"
  using unsigned_less [of w, where ?'a = nat] by simp

lemma u256_be_roundtrip [simp]: "u256_from_be (u256_to_be w) = w"
  using unat_u256_less [of w]
  by (simp add: u256_from_be_def u256_to_be_def be_val_be_bytes)

lemma u256_to_from_be: "length bs = 32 \<Longrightarrow> u256_to_be (u256_from_be bs) = bs"
  using be_val_less [of bs] be_bytes_be_val [of bs 32]
  by (simp add: u256_to_be_def u256_from_be_def unat_of_nat)

lemma low_u64_less [simp]: "low_u64 w < 2 ^ 64"
  by (simp add: low_u64_def)

section \<open>Memory\<close>

type_synonym memory = bytes

definition isize_max :: nat where
  "isize_max = 2 ^ 63 - 1"

definition words :: "memory \<Rightarrow> u64" where
  "words data = (length data + 31) div 32"

definition expand_to :: "usize \<Rightarrow> memory \<Rightarrow> panic + memory \<times> u64" where
  "expand_to end data =
     (if end \<le> length data then Inr (data, 0)
      else
        let cur = words data;
            new_words = u64_wrap (end + 31) div 32
        in if isize_max < new_words * 32 then Inl CapacityOverflow
           else Inr (resize (new_words * 32) 0 data, memory_expansion_cost cur new_words))"

definition load :: "memory \<Rightarrow> usize \<Rightarrow> u256" where
  "load data off = u256_from_be (map (\<lambda>i. get_or data (u64_wrap (off + i)) 0) [0..<32])"

definition store :: "memory \<Rightarrow> usize \<Rightarrow> u256 \<Rightarrow> panic + memory" where
  "store data off val =
     (let e = u64_wrap (off + 32)
      in if off \<le> e \<and> e \<le> length data then Inr (overwrite data off (u256_to_be val))
         else Inl SliceOutOfRange)"

text \<open>
  The memory a frame can reach: whole words, and no longer than a Rust vector can be.
\<close>

definition wf_memory :: "memory \<Rightarrow> bool" where
  "wf_memory data \<longleftrightarrow> length data mod 32 = 0 \<and> length data \<le> isize_max"

lemma wf_memory_Nil [simp]: "wf_memory []"
  by (simp add: wf_memory_def)

lemma expand_to_wf: "expand_to e data = Inr (data', c) \<Longrightarrow> wf_memory data \<Longrightarrow> wf_memory data'"
  by (auto simp: expand_to_def wf_memory_def Let_def split: if_splits)

lemma expand_to_cases:
  assumes "expand_to e data = Inr (data', c)" and "e + 31 < 2 ^ 64"
  shows "data' = data \<and> c = 0 \<and> e \<le> length data
       \<or> length data < e \<and> data' = resize ((e + 31) div 32 * 32) 0 data
         \<and> c = memory_expansion_cost (words data) ((e + 31) div 32)"
  using assms by (auto simp: expand_to_def Let_def u64_wrap_id split: if_splits)

text \<open>
  Away from the top of the address space an expansion makes the requested range
  addressable, keeps every byte, and adds zeros.
\<close>

lemma expand_to_covers:
  assumes "expand_to e data = Inr (data', c)" and "e + 31 < 2 ^ 64"
  shows "e \<le> length data'" and "length data \<le> length data'"
    and "\<And>i. i < length data' \<Longrightarrow> data' ! i = get_or data i 0"
proof -
  have len: "e \<le> (e + 31) div 32 * 32" by presburger
  from expand_to_cases [OF assms] len show "e \<le> length data'" and "length data \<le> length data'"
    by auto
  from expand_to_cases [OF assms] len
  show "\<And>i. i < length data' \<Longrightarrow> data' ! i = get_or data i 0"
    by (auto simp: get_or_def nth_resize)
qed

text \<open>The charged energy telescopes: growing in two steps costs what one step costs.\<close>

lemma memory_expansion_telescope:
  assumes "a \<le> b" and "b \<le> c" and "c < 2 ^ 32"
  shows "memory_expansion_cost a b + memory_expansion_cost b c = memory_expansion_cost a c"
proof -
  have "memory_cost a \<le> memory_cost b" and "memory_cost b \<le> memory_cost c"
    using assms memory_cost_mono by auto
  with assms show ?thesis
    by (auto simp: memory_expansion_cost_def u64_wrap_sub_def)
qed

lemma nth_map_range: "length f = n \<Longrightarrow> map (\<lambda>i. f ! i) [0..<n] = f"
  by (rule nth_equalityI) auto

lemma store_in_range:
  "off + 32 \<le> length data \<Longrightarrow> length data \<le> isize_max \<Longrightarrow>
   store data off val = Inr (overwrite data off (u256_to_be val))"
  by (simp add: store_def u64_wrap_id isize_max_def)

lemma load_overwrite_same:
  assumes "off + 32 \<le> length data" and "length data \<le> isize_max"
  shows "load (overwrite data off (u256_to_be val)) off = val"
proof -
  have "get_or (overwrite data off (u256_to_be val)) (u64_wrap (off + i)) 0 = u256_to_be val ! i"
    if "i < 32" for i
    using assms that by (simp add: get_or_def u64_wrap_id isize_max_def nth_overwrite)
  then have "map (\<lambda>i. get_or (overwrite data off (u256_to_be val)) (u64_wrap (off + i)) 0) [0..<32]
      = map (\<lambda>i. u256_to_be val ! i) [0..<32]"
    by (intro map_cong) auto
  then show ?thesis
    by (simp add: load_def nth_map_range)
qed

lemma load_overwrite_other:
  assumes "off + 32 \<le> length data" and "length data \<le> isize_max"
    and "off' + 32 \<le> off \<or> off + 32 \<le> off'" and "off' + 32 \<le> length data"
  shows "load (overwrite data off (u256_to_be val)) off' = load data off'"
proof -
  have "get_or (overwrite data off (u256_to_be val)) (u64_wrap (off' + i)) 0
      = get_or data (u64_wrap (off' + i)) 0" if "i < 32" for i
    using assms that by (auto simp: get_or_def u64_wrap_id isize_max_def nth_overwrite)
  then have "map (\<lambda>i. get_or (overwrite data off (u256_to_be val)) (u64_wrap (off' + i)) 0) [0..<32]
      = map (\<lambda>i. get_or data (u64_wrap (off' + i)) 0) [0..<32]"
    by (intro map_cong) auto
  then show ?thesis
    by (simp only: load_def)
qed

section \<open>Precompiled contracts\<close>

text \<open>
  \<open>c_recover hash rs id\<close> is the uncompressed serialisation of the recovered public key
  (65 bytes), or None where \<open>tron_crypto::recover\<close> fails.
\<close>

record crypto =
  c_sha256 :: "bytes \<Rightarrow> bytes"
  c_keccak256 :: "bytes \<Rightarrow> bytes"
  c_recover :: "bytes \<Rightarrow> bytes \<Rightarrow> nat \<Rightarrow> bytes option"

definition ECRECOVER_ENERGY :: u64 where
  "ECRECOVER_ENERGY = 3000"

definition precompile_words :: "usize \<Rightarrow> u64" where
  "precompile_words len = (len + 31) div 32"

definition energy_for :: "byte \<Rightarrow> bytes \<Rightarrow> u64 option" where
  "energy_for address data =
     (if address = 0x01 then Some ECRECOVER_ENERGY
      else if address = 0x02 then Some (60 + precompile_words (length data) * 12)
      else if address = 0x03 then Some (600 + precompile_words (length data) * 120)
      else if address = 0x04 then Some (15 + precompile_words (length data) * 3)
      else None)"

definition ecrecover :: "crypto \<Rightarrow> bytes \<Rightarrow> bytes" where
  "ecrecover cr data =
     (let n = min (length data) 128;
          input = take n data @ replicate (128 - n) 0;
          hash = take 32 input;
          v = input ! 63
      in if \<not> (v = 27 \<or> v = 28) then replicate 32 0
         else
           let rs = drop 64 input
           in case c_recover cr hash rs (unat (v - 27)) of
                Some pk \<Rightarrow> replicate 12 0 @ drop 12 (c_keccak256 cr (drop 1 pk))
              | None \<Rightarrow> replicate 32 0)"

definition ripemd160_like :: "crypto \<Rightarrow> bytes \<Rightarrow> bytes" where
  "ripemd160_like cr data = c_sha256 cr (take 20 (c_sha256 cr data))"

definition precompile_execute :: "crypto \<Rightarrow> byte \<Rightarrow> bytes \<Rightarrow> bytes option" where
  "precompile_execute cr address data =
     (if address = 0x01 then Some (ecrecover cr data)
      else if address = 0x02 then Some (c_sha256 cr data)
      else if address = 0x03 then Some (ripemd160_like cr data)
      else if address = 0x04 then Some data
      else None)"

lemma precompile_total: "energy_for a d = None \<longleftrightarrow> precompile_execute cr a d = None"
  by (simp add: energy_for_def precompile_execute_def)

lemma energy_for_pos: "energy_for a d = Some c \<Longrightarrow> 15 \<le> c"
  by (auto simp: energy_for_def ECRECOVER_ENERGY_def split: if_splits)

section \<open>Properties\<close>

text \<open>
  Memory is a faithful store.  Once \<open>expand_to\<close> has made the word at \<open>off\<close> addressable,
  \<open>store\<close> succeeds there, \<open>load\<close> returns the stored word, and every word that does not overlap
  it reads as before the expansion (zero where memory was not yet allocated).
\<close>

theorem memory_store_load:
  assumes "expand_to (off + 32) data = Inr (data', c)" and "wf_memory data" and "off + 63 < 2 ^ 64"
  shows "\<exists>data''. store data' off val = Inr data'' \<and> load data'' off = val \<and> wf_memory data''
       \<and> (\<forall>off'. off' + 32 \<le> length data' \<and> (off' + 32 \<le> off \<or> off + 32 \<le> off')
             \<longrightarrow> load data'' off' = load data off')"
proof -
  have wf: "wf_memory data'" using assms(1,2) by (rule expand_to_wf)
  have cover: "off + 32 \<le> length data'" "length data \<le> length data'"
    and nth: "\<And>i. i < length data' \<Longrightarrow> data' ! i = get_or data i 0"
    using expand_to_covers [OF assms(1)] assms(3) by auto
  have len: "length data' \<le> isize_max" using wf by (simp add: wf_memory_def)
  have same: "load data' off' = load data off'" if "off' + 32 \<le> length data'" for off'
  proof -
    have "get_or data' (u64_wrap (off' + i)) 0 = get_or data (u64_wrap (off' + i)) 0" if "i < 32" for i
      using that \<open>off' + 32 \<le> length data'\<close> len nth [of "off' + i"]
      by (simp add: get_or_def u64_wrap_id isize_max_def)
    then have "map (\<lambda>i. get_or data' (u64_wrap (off' + i)) 0) [0..<32]
        = map (\<lambda>i. get_or data (u64_wrap (off' + i)) 0) [0..<32]"
      by (intro map_cong) auto
    then show ?thesis by (simp only: load_def)
  qed
  show ?thesis
  proof (intro exI conjI allI impI)
    show "store data' off val = Inr (overwrite data' off (u256_to_be val))"
      using cover len by (simp add: store_in_range)
    show "load (overwrite data' off (u256_to_be val)) off = val"
      using cover len by (simp add: load_overwrite_same)
    show "wf_memory (overwrite data' off (u256_to_be val))"
      using wf cover by (simp add: wf_memory_def)
    show "load (overwrite data' off (u256_to_be val)) off' = load data off'"
      if "off' + 32 \<le> length data' \<and> (off' + 32 \<le> off \<or> off + 32 \<le> off')" for off'
      using that cover len same by (simp add: load_overwrite_other)
  qed
qed

theorem memory_store_load_witness:
  "\<exists>data''. store (replicate 64 0) 32 7 = Inr data'' \<and> load data'' 32 = 7"
proof -
  have "expand_to (32 + 32) [] = Inr (replicate 64 0, 6)"
    by (simp add: expand_to_def words_def u64_wrap_def isize_max_def resize_def
        memory_expansion_cost_def memory_cost_def tier_defs u64_wrap_sub_def)
  from memory_store_load [OF this, of 7] show ?thesis by auto
qed

text \<open>
  The energy for memory does not depend on how it grows: for sizes below \<open>2 ^ 32\<close> words the
  costs of successive expansions add up to the cost of one expansion to the final size, which
  is \<open>3 * w + w * w div 512\<close> from empty memory.
\<close>

theorem memory_cost_path_independent:
  assumes "a \<le> b" and "b \<le> c" and "c < 2 ^ 32"
  shows "memory_expansion_cost a b + memory_expansion_cost b c = memory_expansion_cost a c
       \<and> memory_expansion_cost 0 c = 3 * c + c * c div 512"
  using memory_expansion_telescope [OF assms] assms memory_cost_exact [of c] memory_cost_exact [of 0]
  by (auto simp: memory_expansion_cost_def u64_wrap_sub_def)

theorem memory_cost_path_independent_witness:
  "memory_expansion_cost 2 5 + memory_expansion_cost 5 100 = memory_expansion_cost 2 100
   \<and> memory_expansion_cost 0 100 = 3 * 100 + 100 * 100 div 512"
  by (rule memory_cost_path_independent) simp_all

end
