(* ===== verification/Vm_World.thy ===== *)
theory Vm_World
  imports Vm_Memory
begin

text \<open>
  The journaled multi-account state of the virtual machine (\<open>src/crates/vm/src/frame.rs\<close>):
  contract storage and code, balances, account existence, deletion marks, the burned total
  and the undo journal behind \<open>checkpoint\<close>, \<open>commit\<close> and \<open>revert_to\<close>.

  Hash maps are partial functions, the account hash set is a set, and the journal is a list
  with its newest entry first (the Rust vector has it last).  The three storage backends are
  the constructors of \<open>backend\<close>: the in-world map, a bound single-contract host (its slot
  map), and read-through chain state (a record of the four methods of \<open>StateBackend\<close>).
  Engine addresses are 20-byte bodies, accounts are full 21-byte addresses.

  \<open>world_eq\<close> is equality of everything an execution can observe.  The main facts: reverting
  to a checkpoint restores the observable world after any sequence of journaled mutations,
  and \<open>suicide\<close> and \<open>world_transfer\<close> move balances without creating any.
\<close>

section \<open>State\<close>

type_synonym slot_key = "bytes \<times> u256"

datatype journal_entry =
    JStorage slot_key "u256 option"
  | JBalance address i64
  | JAccountCreate address
  | JSuicide address
  | JBurn i64

record state_backend =
  sb_get_code :: "bytes \<Rightarrow> bytes"
  sb_sload :: "bytes \<Rightarrow> u256 \<Rightarrow> u256"
  sb_balance :: "address \<Rightarrow> i64"
  sb_account_exists :: "address \<Rightarrow> bool"

text \<open>The slot map of a bound host, with the reading and writing of \<open>MemoryHost\<close>
  (\<open>src/crates/vm/src/interp.rs\<close>): an absent slot is zero and writing zero removes it.\<close>

type_synonym host = "u256 \<rightharpoonup> u256"

definition host_sload :: "host \<Rightarrow> u256 \<Rightarrow> u256" where
  "host_sload h key = (case h key of None \<Rightarrow> 0 | Some v \<Rightarrow> v)"

definition host_sstore :: "host \<Rightarrow> u256 \<Rightarrow> u256 \<Rightarrow> host" where
  "host_sstore h key val = (if val = 0 then h(key := None) else h(key \<mapsto> val))"

datatype backend = BackendWorld | BackendHost host | BackendState state_backend

record world =
  w_storage :: "slot_key \<rightharpoonup> u256"
  w_code :: "bytes \<rightharpoonup> bytes"
  w_balances :: "address \<rightharpoonup> i64"
  w_accounts :: "address set"
  w_suicides :: "address list"
  w_burned :: i64
  w_journal :: "journal_entry list"
  w_backend :: backend

definition world_with :: "backend \<Rightarrow> world" where
  "world_with b =
     \<lparr>w_storage = Map.empty, w_code = Map.empty, w_balances = Map.empty, w_accounts = {},
      w_suicides = [], w_burned = 0, w_journal = [], w_backend = b\<rparr>"

definition world_new :: world where
  "world_new = world_with BackendWorld"

definition with_host :: "host \<Rightarrow> world" where
  "with_host h = world_with (BackendHost h)"

definition with_state :: "state_backend \<Rightarrow> world" where
  "with_state b = world_with (BackendState b)"

definition host_backed :: "world \<Rightarrow> bool" where
  "host_backed w = (case w_backend w of BackendHost _ \<Rightarrow> True | _ \<Rightarrow> False)"

section \<open>Operations\<close>

definition set_code :: "bytes \<Rightarrow> bytes \<Rightarrow> world \<Rightarrow> world" where
  "set_code addr code w = w\<lparr>w_code := (w_code w)(addr \<mapsto> code)\<rparr>"

definition get_code :: "world \<Rightarrow> bytes \<Rightarrow> bytes" where
  "get_code w addr =
     (case w_code w addr of
        Some c \<Rightarrow> c
      | None \<Rightarrow> (case w_backend w of BackendState b \<Rightarrow> sb_get_code b addr | _ \<Rightarrow> []))"

definition world_sload :: "world \<Rightarrow> bytes \<Rightarrow> u256 \<Rightarrow> u256" where
  "world_sload w addr slot =
     (case w_backend w of
        BackendHost h \<Rightarrow> host_sload h slot
      | BackendWorld \<Rightarrow> (case w_storage w (addr, slot) of None \<Rightarrow> 0 | Some v \<Rightarrow> v)
      | BackendState b \<Rightarrow>
          (case w_storage w (addr, slot) of Some v \<Rightarrow> v | None \<Rightarrow> sb_sload b addr slot))"

definition push_journal :: "journal_entry \<Rightarrow> world \<Rightarrow> world" where
  "push_journal e w = w\<lparr>w_journal := e # w_journal w\<rparr>"

definition world_sstore :: "bytes \<Rightarrow> u256 \<Rightarrow> u256 \<Rightarrow> world \<Rightarrow> world" where
  "world_sstore addr slot val w =
     (case w_backend w of
        BackendHost h \<Rightarrow> w\<lparr>w_backend := BackendHost (host_sstore h slot val)\<rparr>
      | _ \<Rightarrow>
          (let key = (addr, slot);
               w1 = push_journal (JStorage key (w_storage w key)) w
           in w1\<lparr>w_storage := (w_storage w1)(key \<mapsto> val)\<rparr>))"

definition set_balance :: "address \<Rightarrow> i64 \<Rightarrow> world \<Rightarrow> world" where
  "set_balance addr bal w =
     w\<lparr>w_accounts := insert addr (w_accounts w), w_balances := (w_balances w)(addr \<mapsto> bal)\<rparr>"

definition world_create_account :: "address \<Rightarrow> world \<Rightarrow> world" where
  "world_create_account addr w =
     w\<lparr>w_accounts := insert addr (w_accounts w),
       w_balances :=
         (case w_balances w addr of
            None \<Rightarrow> (w_balances w)(addr \<mapsto> 0)
          | Some _ \<Rightarrow> w_balances w)\<rparr>"

definition world_balance :: "world \<Rightarrow> address \<Rightarrow> i64" where
  "world_balance w addr =
     (case w_balances w addr of
        Some b \<Rightarrow> b
      | None \<Rightarrow> (case w_backend w of BackendState b \<Rightarrow> sb_balance b addr | _ \<Rightarrow> 0))"

definition world_account_exists :: "world \<Rightarrow> address \<Rightarrow> bool" where
  "world_account_exists w addr \<longleftrightarrow>
     addr \<in> w_accounts w \<or>
     (case w_backend w of BackendState b \<Rightarrow> sb_account_exists b addr | _ \<Rightarrow> False)"

definition is_suicided :: "world \<Rightarrow> address \<Rightarrow> bool" where
  "is_suicided w addr \<longleftrightarrow> addr \<in> set (w_suicides w)"

definition write_balance :: "address \<Rightarrow> i64 \<Rightarrow> world \<Rightarrow> world" where
  "write_balance addr new w =
     (let w1 = push_journal (JBalance addr (world_balance w addr)) w
      in w1\<lparr>w_balances := (w_balances w1)(addr \<mapsto> new)\<rparr>)"

definition ensure_account :: "address \<Rightarrow> world \<Rightarrow> world" where
  "ensure_account addr w =
     (if addr \<in> w_accounts w then w
      else push_journal (JAccountCreate addr) (w\<lparr>w_accounts := insert addr (w_accounts w)\<rparr>))"

definition world_transfer :: "address \<Rightarrow> address \<Rightarrow> i64 \<Rightarrow> world \<Rightarrow> world" where
  "world_transfer from to amount w =
     (if amount = 0 then w
      else
        let fb = world_balance w from;
            tb = world_balance w to;
            w1 = ensure_account to (ensure_account from w)
        in write_balance to (i64_wrap (tb + amount))
             (write_balance from (i64_wrap (fb - amount)) w1))"

text \<open>The first half of \<open>suicide\<close>: what happens to the balance.\<close>

definition suicide_balances :: "address \<Rightarrow> address \<Rightarrow> world \<Rightarrow> world" where
  "suicide_balances contract beneficiary w =
     (let bal = world_balance w contract
      in if beneficiary = contract then
           let w1 = write_balance contract 0 w
           in if bal \<noteq> 0
              then (push_journal (JBurn bal) w1)\<lparr>w_burned := i64_sat_add (w_burned w1) bal\<rparr>
              else w1
         else
           let w1 = ensure_account beneficiary w;
               benef_bal = world_balance w1 beneficiary
           in write_balance beneficiary (i64_sat_add benef_bal bal) (write_balance contract 0 w1))"

text \<open>The second half: the deletion mark.\<close>

definition suicide_mark :: "address \<Rightarrow> world \<Rightarrow> world" where
  "suicide_mark contract w =
     (if contract \<in> set (w_suicides w) then w
      else (push_journal (JSuicide contract) w)\<lparr>w_suicides := w_suicides w @ [contract]\<rparr>)"

definition suicide :: "address \<Rightarrow> address \<Rightarrow> world \<Rightarrow> world" where
  "suicide contract beneficiary w = suicide_mark contract (suicide_balances contract beneficiary w)"

definition checkpoint :: "world \<Rightarrow> nat" where
  "checkpoint w = length (w_journal w)"

fun undo :: "journal_entry \<Rightarrow> world \<Rightarrow> world" where
  "undo (JStorage key prev) w = w\<lparr>w_storage := (w_storage w)(key := prev)\<rparr>"
| "undo (JBalance addr prev) w = w\<lparr>w_balances := (w_balances w)(addr \<mapsto> prev)\<rparr>"
| "undo (JAccountCreate addr) w = w\<lparr>w_accounts := w_accounts w - {addr}\<rparr>"
| "undo (JSuicide addr) w = w\<lparr>w_suicides := filter (\<lambda>a. a \<noteq> addr) (w_suicides w)\<rparr>"
| "undo (JBurn amount) w = w\<lparr>w_burned := i64_wrap (w_burned w - amount)\<rparr>"

definition revert_to :: "nat \<Rightarrow> world \<Rightarrow> world" where
  "revert_to cp w =
     (let n = length (w_journal w) - cp
      in fold undo (take n (w_journal w)) (w\<lparr>w_journal := drop n (w_journal w)\<rparr>))"

definition commit :: "nat \<Rightarrow> world \<Rightarrow> world" where
  "commit cp w = w\<lparr>w_journal := drop (length (w_journal w) - cp) (w_journal w)\<rparr>"

lemmas world_defs =
  get_code_def world_sload_def world_balance_def world_account_exists_def is_suicided_def
  push_journal_def world_sstore_def write_balance_def ensure_account_def Let_def

section \<open>Observable equality\<close>

definition world_eq :: "world \<Rightarrow> world \<Rightarrow> bool" where
  "world_eq w w' \<longleftrightarrow>
     w_backend w = w_backend w' \<and> w_code w = w_code w' \<and>
     (\<forall>a s. world_sload w a s = world_sload w' a s) \<and>
     (\<forall>a. world_balance w a = world_balance w' a) \<and>
     (\<forall>a. world_account_exists w a = world_account_exists w' a) \<and>
     w_suicides w = w_suicides w' \<and> w_burned w = w_burned w'"

lemma world_eq_refl [simp]: "world_eq w w"
  by (simp add: world_eq_def)

lemma world_eq_trans: "world_eq u v \<Longrightarrow> world_eq v w \<Longrightarrow> world_eq u w"
  by (simp add: world_eq_def)

text \<open>How each field update shows in the observations.\<close>

definition backend_sload :: "backend \<Rightarrow> bytes \<Rightarrow> u256 \<Rightarrow> u256" where
  "backend_sload b a s = (case b of BackendState sb \<Rightarrow> sb_sload sb a s | _ \<Rightarrow> 0)"

lemma obs_journal [simp]:
  "world_sload (w\<lparr>w_journal := j\<rparr>) = world_sload w"
  "world_balance (w\<lparr>w_journal := j\<rparr>) = world_balance w"
  "world_account_exists (w\<lparr>w_journal := j\<rparr>) = world_account_exists w"
  by (simp_all add: fun_eq_iff world_sload_def world_balance_def world_account_exists_def
        split: backend.split)

lemma obs_balances [simp]:
  "world_sload (w\<lparr>w_balances := m\<rparr>) = world_sload w"
  "world_account_exists (w\<lparr>w_balances := m\<rparr>) = world_account_exists w"
  "world_balance (w\<lparr>w_balances := (w_balances w)(a \<mapsto> b)\<rparr>) = (world_balance w)(a := b)"
  by (simp_all add: fun_eq_iff world_sload_def world_balance_def world_account_exists_def
        split: backend.split)

lemma obs_accounts [simp]:
  "world_sload (w\<lparr>w_accounts := A\<rparr>) = world_sload w"
  "world_balance (w\<lparr>w_accounts := A\<rparr>) = world_balance w"
  by (simp_all add: fun_eq_iff world_sload_def world_balance_def split: backend.split)

lemma obs_suicides [simp]:
  "world_sload (w\<lparr>w_suicides := l\<rparr>) = world_sload w"
  "world_balance (w\<lparr>w_suicides := l\<rparr>) = world_balance w"
  "world_account_exists (w\<lparr>w_suicides := l\<rparr>) = world_account_exists w"
  by (simp_all add: fun_eq_iff world_sload_def world_balance_def world_account_exists_def
        split: backend.split)

lemma obs_burned [simp]:
  "world_sload (w\<lparr>w_burned := n\<rparr>) = world_sload w"
  "world_balance (w\<lparr>w_burned := n\<rparr>) = world_balance w"
  "world_account_exists (w\<lparr>w_burned := n\<rparr>) = world_account_exists w"
  by (simp_all add: fun_eq_iff world_sload_def world_balance_def world_account_exists_def
        split: backend.split)

lemma obs_storage [simp]:
  "world_balance (w\<lparr>w_storage := m\<rparr>) = world_balance w"
  "world_account_exists (w\<lparr>w_storage := m\<rparr>) = world_account_exists w"
  by (simp_all add: fun_eq_iff world_balance_def world_account_exists_def split: backend.split)

lemma sload_storage:
  "world_sload (w\<lparr>w_storage := (w_storage w)(key := prev)\<rparr>) a s =
     (if (a, s) = key \<and> \<not> host_backed w
      then (case prev of Some v \<Rightarrow> v | None \<Rightarrow> backend_sload (w_backend w) a s)
      else world_sload w a s)"
  by (auto simp: world_sload_def backend_sload_def host_backed_def split: backend.splits option.splits)

lemma exists_accounts:
  "world_account_exists (w\<lparr>w_accounts := A\<rparr>) a \<longleftrightarrow>
     a \<in> A \<or> (case w_backend w of BackendState b \<Rightarrow> sb_account_exists b a | _ \<Rightarrow> False)"
  by (simp add: world_account_exists_def)

lemma world_eq_journal [simp]:
  "world_eq (w\<lparr>w_journal := j\<rparr>) w' = world_eq w w'"
  "world_eq w (w'\<lparr>w_journal := j\<rparr>) = world_eq w w'"
  by (simp_all add: world_eq_def)

lemma undo_journal [simp]: "w_journal (undo e w) = w_journal w"
  by (cases e) auto

lemma undo_set_journal: "undo e (w\<lparr>w_journal := j\<rparr>) = (undo e w)\<lparr>w_journal := j\<rparr>"
  by (cases e) auto

lemma fold_undo_keeps_journal [simp]: "w_journal (fold undo es w) = w_journal w"
  by (induction es arbitrary: w) auto

lemma fold_undo_set_journal: "fold undo es (w\<lparr>w_journal := j\<rparr>) = (fold undo es w)\<lparr>w_journal := j\<rparr>"
  by (induction es arbitrary: w) (auto simp: undo_set_journal)

lemma undo_world_eq:
  assumes "world_eq w w'"
  shows "world_eq (undo e w) (undo e w')"
proof (cases e)
  case (JStorage key prev)
  have "host_backed w = host_backed w'"
    using assms by (simp add: world_eq_def host_backed_def)
  with JStorage assms show ?thesis
    by (simp add: world_eq_def sload_storage split: option.split)
next
  case (JAccountCreate addr)
  with assms show ?thesis
    by (auto simp: world_eq_def exists_accounts world_account_exists_def)
qed (use assms in \<open>simp_all add: world_eq_def\<close>)

section \<open>The contract of an undo log\<close>

text \<open>
  What the engine relies on: a state with a journal of undo records.  \<open>logged w w'\<close> says
  that \<open>w'\<close> extends the journal of \<open>w\<close> by records whose undoing leads back to \<open>w\<close>, up to
  what can be observed.  Logged steps compose, and rolling back to the length of the old
  journal restores the old state.
\<close>

locale undo_log =
  fixes journal :: "'w \<Rightarrow> 'e list"
    and set_journal :: "'e list \<Rightarrow> 'w \<Rightarrow> 'w"
    and undo_entry :: "'e \<Rightarrow> 'w \<Rightarrow> 'w"
    and eqv :: "'w \<Rightarrow> 'w \<Rightarrow> bool"
  assumes eqv_refl: "eqv w w"
    and eqv_trans: "eqv u v \<Longrightarrow> eqv v w \<Longrightarrow> eqv u w"
    and eqv_set_journal: "eqv (set_journal j w) w' = eqv w w'"
    and journal_set_journal: "journal (set_journal j w) = j"
    and undo_eqv: "eqv w w' \<Longrightarrow> eqv (undo_entry e w) (undo_entry e w')"
    and undo_keeps_journal: "journal (undo_entry e w) = journal w"
    and undo_set_journal: "undo_entry e (set_journal j w) = set_journal j (undo_entry e w)"
begin

definition logged :: "'w \<Rightarrow> 'w \<Rightarrow> bool" where
  "logged w w' \<longleftrightarrow> (\<exists>es. journal w' = es @ journal w \<and> eqv (fold undo_entry es w') w)"

lemma fold_undo_eqv: "eqv w w' \<Longrightarrow> eqv (fold undo_entry es w) (fold undo_entry es w')"
  by (induction es arbitrary: w w') (auto intro: undo_eqv)

lemma fold_undo_journal: "journal (fold undo_entry es w) = journal w"
  by (induction es arbitrary: w) (auto simp: undo_keeps_journal)

lemma fold_undo_set: "fold undo_entry es (set_journal j w) = set_journal j (fold undo_entry es w)"
  by (induction es arbitrary: w) (auto simp: undo_set_journal)

lemma logged_refl: "logged w w"
  unfolding logged_def by (rule exI [of _ "[]"]) (simp add: eqv_refl)

lemma logged_trans:
  assumes "logged u v" and "logged v w"
  shows "logged u w"
proof -
  obtain es fs where es: "journal v = es @ journal u" "eqv (fold undo_entry es v) u"
    and fs: "journal w = fs @ journal v" "eqv (fold undo_entry fs w) v"
    using assms unfolding logged_def by blast
  from fs(2) have "eqv (fold undo_entry es (fold undo_entry fs w)) (fold undo_entry es v)"
    by (rule fold_undo_eqv)
  with es fs show ?thesis
    unfolding logged_def by (intro exI [of _ "fs @ es"]) (auto intro: eqv_trans)
qed

lemma logged_step: "journal w' = e # journal w \<Longrightarrow> eqv (undo_entry e w') w \<Longrightarrow> logged w w'"
  unfolding logged_def by (rule exI [of _ "[e]"]) simp

lemma rollback:
  assumes "logged w w'" and "n = length (journal w') - length (journal w)"
  defines "r \<equiv> fold undo_entry (take n (journal w')) (set_journal (drop n (journal w')) w')"
  shows "eqv r w" and "journal r = journal w"
  using assms by (auto simp: logged_def fold_undo_set eqv_set_journal journal_set_journal)

end

interpretation wj: undo_log w_journal "\<lambda>j w. w\<lparr>w_journal := j\<rparr>" undo world_eq
  by unfold_locales (auto simp: undo_set_journal intro: world_eq_trans undo_world_eq)

lemma revert_to_logged:
  assumes "wj.logged w w'"
  shows "world_eq (revert_to (checkpoint w) w') w"
    and "w_journal (revert_to (checkpoint w) w') = w_journal w"
  using wj.rollback [OF assms refl] by (simp_all add: revert_to_def checkpoint_def Let_def)

section \<open>Every mutation is logged\<close>

lemma sstore_logged: "\<not> host_backed w \<Longrightarrow> wj.logged w (world_sstore a s v w)"
  by (rule wj.logged_step [where e = "JStorage (a, s) (w_storage w (a, s))"])
    (auto simp: world_sstore_def push_journal_def host_backed_def Let_def split: backend.splits)

lemma write_balance_logged: "wj.logged w (write_balance a b w)"
  by (rule wj.logged_step [where e = "JBalance a (world_balance w a)"])
    (auto simp: write_balance_def push_journal_def Let_def world_eq_def world_balance_def
      split: option.split)

lemma ensure_account_logged: "wj.logged w (ensure_account a w)"
proof (cases "a \<in> w_accounts w")
  case True
  then show ?thesis by (simp add: ensure_account_def wj.logged_refl)
next
  case False
  then show ?thesis
    by (intro wj.logged_step [where e = "JAccountCreate a"])
      (simp_all add: ensure_account_def push_journal_def)
qed

lemma burn_logged:
  assumes "in_i64 (w_burned w)" and "in_i64 (w_burned w + bal)"
  shows "wj.logged w ((push_journal (JBurn bal) w)\<lparr>w_burned := i64_sat_add (w_burned w) bal\<rparr>)"
  using assms
  by (intro wj.logged_step [where e = "JBurn bal"])
    (simp_all add: push_journal_def i64_sat_add_def world_eq_def)

lemma filter_neq_notin: "a \<notin> set xs \<Longrightarrow> filter (\<lambda>x. x \<noteq> a) xs = xs"
  by (induction xs) auto

lemma suicide_mark_logged: "wj.logged w (suicide_mark c w)"
proof (cases "c \<in> set (w_suicides w)")
  case True
  then show ?thesis by (simp add: suicide_mark_def wj.logged_refl)
next
  case False
  then show ?thesis
    by (intro wj.logged_step [where e = "JSuicide c"])
      (simp_all add: suicide_mark_def push_journal_def filter_neq_notin world_eq_def)
qed

lemmas logged_intros =
  wj.logged_refl
  write_balance_logged [THEN wj.logged_trans [rotated]]
  ensure_account_logged [THEN wj.logged_trans [rotated]]
  suicide_mark_logged [THEN wj.logged_trans [rotated]]

lemma write_balance_burned [simp]: "w_burned (write_balance a b w) = w_burned w"
  by (simp add: write_balance_def push_journal_def Let_def)

lemma transfer_logged: "wj.logged w (world_transfer f t n w)"
  unfolding world_transfer_def Let_def
  by (auto intro!: logged_intros)

text \<open>
  Burning is undone exactly when the burned total does not saturate (\<open>burn_fits\<close>), which is
  always the case while the supply fits in an \<open>i64\<close>.
\<close>

definition burn_fits :: "address \<Rightarrow> address \<Rightarrow> world \<Rightarrow> bool" where
  "burn_fits c b w \<longleftrightarrow>
     in_i64 (w_burned w) \<and> (b = c \<longrightarrow> in_i64 (w_burned w + world_balance w c))"

lemma suicide_logged:
  assumes "burn_fits c b w"
  shows "wj.logged w (suicide c b w)"
proof -
  let ?w1 = "write_balance c 0 w"
  have "wj.logged w (suicide_balances c b w)"
  proof (cases "b = c")
    case True
    with assms have "wj.logged ?w1 ((push_journal (JBurn (world_balance w c)) ?w1)
        \<lparr>w_burned := i64_sat_add (w_burned ?w1) (world_balance w c)\<rparr>)"
      by (intro burn_logged) (simp_all add: burn_fits_def)
    with True show ?thesis
      by (auto simp: suicide_balances_def Let_def intro: logged_intros wj.logged_trans [rotated])
  next
    case False
    then show ?thesis
      unfolding suicide_balances_def Let_def by (auto intro!: logged_intros)
  qed
  then show ?thesis
    unfolding suicide_def by (rule logged_intros)
qed

section \<open>Sequences of mutations\<close>

datatype world_op =
    OpSstore bytes u256 u256
  | OpTransfer address address i64
  | OpSuicide address address

fun apply_op :: "world_op \<Rightarrow> world \<Rightarrow> world" where
  "apply_op (OpSstore a s v) w = world_sstore a s v w"
| "apply_op (OpTransfer f t n) w = world_transfer f t n w"
| "apply_op (OpSuicide c b) w = suicide c b w"

fun op_fits :: "world_op \<Rightarrow> world \<Rightarrow> bool" where
  "op_fits (OpSuicide c b) w = burn_fits c b w"
| "op_fits _ w = True"

fun ops_fit :: "world_op list \<Rightarrow> world \<Rightarrow> bool" where
  "ops_fit [] w = True"
| "ops_fit (x # xs) w = (op_fits x w \<and> ops_fit xs (apply_op x w))"

lemma backend_write_balance [simp]: "w_backend (write_balance a b w) = w_backend w"
  by (simp add: write_balance_def push_journal_def Let_def)

lemma backend_ensure_account [simp]: "w_backend (ensure_account a w) = w_backend w"
  by (simp add: ensure_account_def push_journal_def)

lemma backend_transfer [simp]: "w_backend (world_transfer f t n w) = w_backend w"
  by (simp add: world_transfer_def Let_def)

lemma backend_suicide [simp]: "w_backend (suicide c b w) = w_backend w"
  by (simp add: suicide_def suicide_mark_def suicide_balances_def push_journal_def Let_def)

lemma host_backed_sstore [simp]: "host_backed (world_sstore a s v w) = host_backed w"
  by (auto simp: host_backed_def world_sstore_def push_journal_def Let_def split: backend.splits)

lemma host_backed_apply_op [simp]: "host_backed (apply_op x w) = host_backed w"
  by (cases x) (simp_all, simp_all add: host_backed_def)

lemma apply_op_logged: "\<not> host_backed w \<Longrightarrow> op_fits x w \<Longrightarrow> wj.logged w (apply_op x w)"
  by (cases x) (auto intro: sstore_logged transfer_logged suicide_logged)

lemma apply_ops_logged: "\<not> host_backed w \<Longrightarrow> ops_fit xs w \<Longrightarrow> wj.logged w (fold apply_op xs w)"
proof (induction xs arbitrary: w)
  case Nil
  then show ?case by (simp add: wj.logged_refl)
next
  case (Cons x xs)
  then have "wj.logged w (apply_op x w)" and "wj.logged (apply_op x w) (fold apply_op xs (apply_op x w))"
    by (auto intro: apply_op_logged)
  then show ?case by (auto intro: wj.logged_trans)
qed

section \<open>Balances\<close>

definition total_balance :: "world \<Rightarrow> address set \<Rightarrow> int" where
  "total_balance w S = (\<Sum>a\<in>S. world_balance w a)"

lemma balance_write_balance [simp]:
  "world_balance (write_balance a b w) = (world_balance w)(a := b)"
  by (auto simp: fun_eq_iff write_balance_def push_journal_def Let_def world_balance_def
      split: option.split)

lemma balance_ensure_account [simp]: "world_balance (ensure_account a w) = world_balance w"
  by (simp add: ensure_account_def push_journal_def)

lemma balance_suicide_mark [simp]: "world_balance (suicide_mark c w) = world_balance w"
  by (simp add: suicide_mark_def push_journal_def)

lemma burned_ensure_account [simp]: "w_burned (ensure_account a w) = w_burned w"
  by (simp add: ensure_account_def push_journal_def)

lemma burned_suicide_mark [simp]: "w_burned (suicide_mark c w) = w_burned w"
  by (simp add: suicide_mark_def push_journal_def)

lemma balance_suicide:
  "world_balance (suicide c b w) =
     (if b = c then (world_balance w)(c := 0)
      else (world_balance w)(c := 0, b := i64_sat_add (world_balance w b) (world_balance w c)))"
  by (auto simp: suicide_def suicide_balances_def push_journal_def Let_def fun_eq_iff)

lemma burned_suicide:
  "w_burned (suicide c b w) =
     (if b = c \<and> world_balance w c \<noteq> 0 then i64_sat_add (w_burned w) (world_balance w c)
      else w_burned w)"
  by (simp add: suicide_def suicide_balances_def push_journal_def Let_def)

lemma balance_transfer:
  "world_balance (world_transfer f t n w) =
     (if n = 0 then world_balance w
      else (world_balance w)(f := i64_wrap (world_balance w f - n),
                             t := i64_wrap (world_balance w t + n)))"
  by (simp add: world_transfer_def Let_def)

section \<open>Properties\<close>

text \<open>
  C1: Rolling back to a checkpoint undoes every journaled mutation made since: after any
  sequence of storage writes, value transfers and self-destructs (whose burned total does not
  saturate), \<open>revert_to\<close> restores all that can be observed (storage, code, balances, account
  existence, deletion marks, burned total) and the journal itself.
\<close>

theorem revert_restores_world:
  assumes "\<not> host_backed w" and "ops_fit xs w"
  shows "world_eq (revert_to (checkpoint w) (fold apply_op xs w)) w
       \<and> w_journal (revert_to (checkpoint w) (fold apply_op xs w)) = w_journal w"
  using revert_to_logged [OF apply_ops_logged [OF assms]] by blast

theorem revert_restores_world_witness:
  "world_eq
     (revert_to (checkpoint (set_balance (Address [1]) 50 world_new))
        (fold apply_op
           [OpSstore [7] 1 9, OpTransfer (Address [1]) (Address [2]) 20,
            OpSuicide (Address [1]) (Address [1])]
           (set_balance (Address [1]) 50 world_new)))
     (set_balance (Address [1]) 50 world_new)
   \<and> w_journal
     (revert_to (checkpoint (set_balance (Address [1]) 50 world_new))
        (fold apply_op
           [OpSstore [7] 1 9, OpTransfer (Address [1]) (Address [2]) 20,
            OpSuicide (Address [1]) (Address [1])]
           (set_balance (Address [1]) 50 world_new))) = []"
proof -
  let ?w = "set_balance (Address [1]) 50 world_new"
  let ?xs = "[OpSstore [7] 1 9, OpTransfer (Address [1]) (Address [2]) 20,
              OpSuicide (Address [1]) (Address [1])]"
  have "\<not> host_backed ?w"
    by (simp add: set_balance_def world_new_def world_with_def host_backed_def)
  moreover have "ops_fit ?xs ?w"
    by (simp add: burn_fits_def balance_transfer i64_bounds_defs i64_wrap_def world_sstore_def
        push_journal_def world_transfer_def ensure_account_def write_balance_def Let_def
        set_balance_def world_new_def world_with_def world_balance_def)
  ultimately have "world_eq (revert_to (checkpoint ?w) (fold apply_op ?xs ?w)) ?w
      \<and> w_journal (revert_to (checkpoint ?w) (fold apply_op ?xs ?w)) = w_journal ?w"
    by (rule revert_restores_world)
  then show ?thesis
    by (simp add: set_balance_def world_new_def world_with_def)
qed

text \<open>
  Self-destruction conserves value: over any finite set of accounts that holds the contract
  and the beneficiary, balances plus the burned total do not change, whether the balance is
  moved or burned (as long as the two sums fit in an \<open>i64\<close>).
\<close>

theorem suicide_conserves_value:
  assumes "finite S" and "c \<in> S" and "b \<in> S"
    and "in_i64 (w_burned w + world_balance w c)"
    and "in_i64 (world_balance w b + world_balance w c)"
  shows "total_balance (suicide c b w) S + w_burned (suicide c b w)
       = total_balance w S + w_burned w"
proof (cases "b = c")
  case True
  with assms show ?thesis
    by (simp add: total_balance_def balance_suicide burned_suicide sum_fun_upd_int i64_sat_add_def
        del: fun_upd_apply)
next
  case False
  with assms show ?thesis
    by (simp add: total_balance_def balance_suicide burned_suicide sum_fun_upd_int i64_sat_add_def
        fun_upd_other del: fun_upd_apply)
qed

theorem suicide_conserves_value_witness:
  "total_balance (suicide (Address [1]) (Address [2]) (set_balance (Address [1]) 50 world_new))
       {Address [1], Address [2]}
     + w_burned (suicide (Address [1]) (Address [2]) (set_balance (Address [1]) 50 world_new)) = 50"
proof -
  let ?w = "set_balance (Address [1]) 50 world_new"
  have "total_balance (suicide (Address [1]) (Address [2]) ?w) {Address [1], Address [2]}
      + w_burned (suicide (Address [1]) (Address [2]) ?w)
      = total_balance ?w {Address [1], Address [2]} + w_burned ?w"
    by (rule suicide_conserves_value)
      (simp_all add: i64_bounds_defs set_balance_def world_new_def world_with_def world_balance_def)
  then show ?thesis
    by (simp add: total_balance_def set_balance_def world_new_def world_with_def world_balance_def)
qed

text \<open>
  A value transfer between two different accounts conserves the total, but a transfer of an
  account to itself adds the amount to its balance: \<open>transfer\<close> reads both balances before it
  writes either, so the second write overwrites the debit.
\<close>

theorem transfer_total_balance:
  assumes "finite S" and "f \<in> S" and "t \<in> S"
    and "in_i64 (world_balance w f - n)" and "in_i64 (world_balance w t + n)"
  shows "total_balance (world_transfer f t n w) S = total_balance w S + (if f = t then n else 0)"
  using assms
  by (auto simp: total_balance_def balance_transfer sum_fun_upd_int fun_upd_other
      simp del: fun_upd_apply)

theorem transfer_total_balance_witness:
  "total_balance (world_transfer (Address [1]) (Address [1]) 7 (set_balance (Address [1]) 50 world_new))
     {Address [1]} = 57"
proof -
  let ?w = "set_balance (Address [1]) 50 world_new"
  have "total_balance (world_transfer (Address [1]) (Address [1]) 7 ?w) {Address [1]}
      = total_balance ?w {Address [1]} + (if Address [1] = Address [1] then 7 else 0)"
    by (rule transfer_total_balance)
      (simp_all add: i64_bounds_defs set_balance_def world_new_def world_with_def world_balance_def)
  then show ?thesis
    by (simp add: total_balance_def set_balance_def world_new_def world_with_def world_balance_def)
qed

end
