(* ===== verification/Vm_Engine.thy ===== *)
theory Vm_Engine
  imports Vm_World
begin

unbundle bit_operations_syntax

text \<open>
  The execution loop of the virtual machine (\<open>src/crates/vm/src/engine.rs\<close>).

  A frame is the local state of \<open>run_frame\<close>: program counter, stack (its top first),
  memory, last return data and energy meter, together with the world it mutates.  The
  macros \<open>pop!\<close>, \<open>push!\<close>, \<open>charge!\<close>, \<open>stop!\<close> and \<open>stop_out!\<close> are the primitives of a
  small machine monad whose outcomes are a value, a halt with its output, a Rust panic, or
  exhausted fuel.  \<open>exec_op\<close> is the \<open>match op\<close> of the source; it tells whether the loop
  advances the program counter or continues at a jump target.

  The loop and the nested frames of CALL share one fuel argument.  \<open>run_frame\<close> starts with
  \<open>energy_limit + 1\<close> units: every iteration that does not stop consumes energy, and a callee
  receives at most what its caller has left, so this fuel is never exhausted
  (\<open>run_loop_fuel\<close>).
\<close>

section \<open>Frames and outcomes\<close>

definition MAX_CALL_DEPTH :: nat where
  "MAX_CALL_DEPTH = 1024"

definition STACK_LIMIT :: nat where
  "STACK_LIMIT = 1024"

datatype halt =
    HaltStop
  | HaltReturn
  | HaltRevert
  | HaltSelfDestruct
  | HaltOutOfEnergy
  | HaltStackUnderflow
  | HaltStackOverflow
  | HaltBadOpcode byte
  | HaltBadJump
  | HaltDepthLimit

record exec =
  e_halt :: halt
  e_energy_used :: u64
  e_return_data :: bytes
  e_stack_top :: "u256 option"

record frame =
  f_pc :: usize
  f_stack :: "u256 list"
  f_mem :: memory
  f_ret :: bytes
  f_meter :: energy_meter
  f_world :: world

record frame_ctx =
  ctx_address :: bytes
  ctx_code :: bytes
  ctx_calldata :: bytes
  ctx_depth :: usize

datatype 'r frame_out = Finished 'r world | Crashed panic | OutOfFuel

datatype 'a vm_out = Val 'a frame | Stopped halt bytes frame | Panicked panic | NoFuel

type_synonym 'a vm = "frame \<Rightarrow> 'a vm_out"

fun halt_is_success :: "halt \<Rightarrow> bool" where
  "halt_is_success HaltStop = True"
| "halt_is_success HaltReturn = True"
| "halt_is_success HaltSelfDestruct = True"
| "halt_is_success _ = False"

section \<open>The macros of the loop\<close>

definition vm_return :: "'a \<Rightarrow> 'a vm" where
  "vm_return x f = Val x f"

definition vm_bind :: "'a vm \<Rightarrow> ('a \<Rightarrow> 'b vm) \<Rightarrow> 'b vm" where
  "vm_bind m k f =
     (case m f of
        Val x f' \<Rightarrow> k x f'
      | Stopped h out f' \<Rightarrow> Stopped h out f'
      | Panicked p \<Rightarrow> Panicked p
      | NoFuel \<Rightarrow> NoFuel)"

definition vm_gets :: "(frame \<Rightarrow> 'a) \<Rightarrow> 'a vm" where
  "vm_gets g f = Val (g f) f"

definition stop_out :: "halt \<Rightarrow> bytes \<Rightarrow> 'a vm" where
  "stop_out h out f = Stopped h out f"

definition stop :: "halt \<Rightarrow> 'a vm" where
  "stop h = stop_out h []"

definition pop :: "u256 vm" where
  "pop f =
     (case f_stack f of
        v # st \<Rightarrow> Val v (f\<lparr>f_stack := st\<rparr>)
      | [] \<Rightarrow> Stopped HaltStackUnderflow [] f)"

definition pop_u64 :: "u64 vm" where
  "pop_u64 = vm_bind pop (\<lambda>w. vm_return (low_u64 w))"

definition push :: "u256 \<Rightarrow> unit vm" where
  "push v f =
     (if STACK_LIMIT \<le> length (f_stack f) then Stopped HaltStackOverflow [] f
      else Val () (f\<lparr>f_stack := v # f_stack f\<rparr>))"

definition vm_charge :: "u64 \<Rightarrow> unit vm" where
  "vm_charge amount f =
     (case charge (f_meter f) amount of
        Some m \<Rightarrow> Val () (f\<lparr>f_meter := m\<rparr>)
      | None \<Rightarrow> Stopped HaltOutOfEnergy [] f)"

text \<open>\<open>charge!(mem.expand_to(end))\<close>: the memory is grown before the energy is charged.\<close>

definition vm_expand :: "usize \<Rightarrow> unit vm" where
  "vm_expand end f =
     (case expand_to end (f_mem f) of
        Inl p \<Rightarrow> Panicked p
      | Inr (mem, cost) \<Rightarrow> vm_charge cost (f\<lparr>f_mem := mem\<rparr>))"

text \<open>A write to memory that panics when it is out of range.\<close>

definition vm_mem :: "(memory \<Rightarrow> panic + memory) \<Rightarrow> unit vm" where
  "vm_mem g f =
     (case g (f_mem f) of
        Inl p \<Rightarrow> Panicked p
      | Inr mem \<Rightarrow> Val () (f\<lparr>f_mem := mem\<rparr>))"

definition vm_world :: "(world \<Rightarrow> world) \<Rightarrow> unit vm" where
  "vm_world g f = Val () (f\<lparr>f_world := g (f_world f)\<rparr>)"

section \<open>Memory writes of the opcodes\<close>

text \<open>
  The byte loop of CALLDATACOPY and RETURNDATACOPY,
  \<open>mem.data[dest + i] = src.get(off + i).unwrap_or(0)\<close> for each \<open>i\<close>.
\<close>

definition copy_byte :: "bytes \<Rightarrow> usize \<Rightarrow> usize \<Rightarrow> nat \<Rightarrow> memory \<Rightarrow> panic + memory" where
  "copy_byte src dest off i mem =
     (let j = u64_wrap (dest + i)
      in if j < length mem then Inr (mem[j := get_or src (u64_wrap (off + i)) 0])
         else Inl IndexOutOfBounds)"

fun copy_loop :: "bytes \<Rightarrow> usize \<Rightarrow> usize \<Rightarrow> nat list \<Rightarrow> memory \<Rightarrow> panic + memory" where
  "copy_loop src dest off [] mem = Inr mem"
| "copy_loop src dest off (i # is) mem =
     rbind (copy_byte src dest off i mem) (copy_loop src dest off is)"

definition store_byte :: "usize \<Rightarrow> byte \<Rightarrow> memory \<Rightarrow> panic + memory" where
  "store_byte off b mem =
     (if off < length mem then Inr (mem[off := b]) else Inl IndexOutOfBounds)"

text \<open>\<open>mem.data[ret_off..ret_off + n].copy_from_slice(&output[..n])\<close> of CALL.\<close>

definition copy_output :: "usize \<Rightarrow> bytes \<Rightarrow> memory \<Rightarrow> panic + memory" where
  "copy_output ret_off out mem =
     (let e = u64_wrap (ret_off + length out)
      in if ret_off \<le> e \<and> e \<le> length mem then Inr (overwrite mem ret_off out)
         else Inl SliceOutOfRange)"

definition read_range :: "memory \<Rightarrow> usize \<Rightarrow> usize \<Rightarrow> bytes" where
  "read_range mem off len =
     (case get_range mem off (u64_wrap (off + len)) of Some bs \<Rightarrow> bs | None \<Rightarrow> [])"

section \<open>Opcodes\<close>

datatype ctl = Advance | Jumped

type_synonym runner = "world \<Rightarrow> bytes \<Rightarrow> bytes \<Rightarrow> bytes \<Rightarrow> u64 \<Rightarrow> usize \<Rightarrow> exec frame_out"

definition bool_u256 :: "bool \<Rightarrow> u256" where
  "bool_u256 b = (if b then 1 else 0)"

definition binop :: "(u256 \<Rightarrow> u256 \<Rightarrow> u256) \<Rightarrow> ctl vm" where
  "binop g = vm_bind pop (\<lambda>a. vm_bind pop (\<lambda>b. vm_bind (push (g a b)) (\<lambda>_. vm_return Advance)))"

definition push_adv :: "u256 \<Rightarrow> ctl vm" where
  "push_adv v = vm_bind (push v) (\<lambda>_. vm_return Advance)"

definition op_dup1 :: "ctl vm" where
  "op_dup1 f =
     (case f_stack f of [] \<Rightarrow> Stopped HaltStackUnderflow [] f | a # _ \<Rightarrow> push_adv a f)"

definition op_swap1 :: "ctl vm" where
  "op_swap1 f =
     (case f_stack f of
        a # b # st \<Rightarrow> Val Advance (f\<lparr>f_stack := b # a # st\<rparr>)
      | _ \<Rightarrow> Stopped HaltStackUnderflow [] f)"

definition op_push1 :: "frame_ctx \<Rightarrow> ctl vm" where
  "op_push1 ctx f =
     (let f' = f\<lparr>f_pc := f_pc f + 1\<rparr>
      in push_adv (ucast (get_or (ctx_code ctx) (f_pc f') 0)) f')"

definition op_push2 :: "frame_ctx \<Rightarrow> ctl vm" where
  "op_push2 ctx f =
     (let hi = get_or (ctx_code ctx) (f_pc f + 1) 0;
          lo = get_or (ctx_code ctx) (f_pc f + 2) 0;
          f' = f\<lparr>f_pc := f_pc f + 2\<rparr>
      in push_adv (of_nat (unat hi * 256 + unat lo)) f')"

definition op_copy :: "(frame \<Rightarrow> bytes) \<Rightarrow> ctl vm" where
  "op_copy src =
     vm_bind pop_u64 (\<lambda>dest. vm_bind pop_u64 (\<lambda>off. vm_bind pop_u64 (\<lambda>len.
       vm_bind (vm_expand (u64_sat_add dest len)) (\<lambda>_.
       vm_bind (vm_gets src) (\<lambda>bs.
       vm_bind (vm_mem (copy_loop bs dest off [0..<len])) (\<lambda>_. vm_return Advance))))))"

definition jump_ok :: "frame_ctx \<Rightarrow> u256 \<Rightarrow> bool" where
  "jump_ok ctx dest \<longleftrightarrow>
     unat dest \<le> length (ctx_code ctx) \<and>
     low_u64 dest < length (ctx_code ctx) \<and>
     ctx_code ctx ! low_u64 dest = opcode_u8 Jumpdest"

definition jump_to :: "frame_ctx \<Rightarrow> u256 \<Rightarrow> ctl vm" where
  "jump_to ctx dest f =
     (if jump_ok ctx dest then Val Jumped (f\<lparr>f_pc := low_u64 dest\<rparr>)
      else Stopped HaltBadJump [] f)"

definition op_sstore :: "frame_ctx \<Rightarrow> ctl vm" where
  "op_sstore ctx =
     vm_bind pop (\<lambda>key. vm_bind pop (\<lambda>val.
       vm_bind (vm_gets (\<lambda>f. world_sload (f_world f) (ctx_address ctx) key)) (\<lambda>current.
       vm_bind (vm_charge (sstore_cost (current = 0) (val = 0))) (\<lambda>_.
       vm_bind (vm_world (world_sstore (ctx_address ctx) key val)) (\<lambda>_. vm_return Advance)))))"

text \<open>
  The energy forwarded to a callee (EIP-150 all-but-64th), and the call of another
  contract's code: checkpoint, run, charge what was spent, commit or roll back.
\<close>

definition forwarded_energy :: "energy_meter \<Rightarrow> u256 \<Rightarrow> u64" where
  "forwarded_energy m requested_gas =
     (let rem = remaining m; max_forward = rem - rem div 64
      in min (low_u64 requested_gas) max_forward)"

definition call_contract :: "runner \<Rightarrow> frame_ctx \<Rightarrow> u256 \<Rightarrow> bytes \<Rightarrow> bytes \<Rightarrow> bytes \<Rightarrow> (bool \<times> bytes) vm"
  where
  "call_contract run ctx requested_gas callee callee_code input f =
     (let cp = checkpoint (f_world f)
      in case run (f_world f) callee callee_code input
                (forwarded_energy (f_meter f) requested_gas) (ctx_depth ctx + 1) of
           Finished sub w \<Rightarrow>
             let meter = (case charge (f_meter f) (e_energy_used sub) of
                            Some m \<Rightarrow> m | None \<Rightarrow> f_meter f);
                 ok = halt_is_success (e_halt sub);
                 w' = (if ok then commit cp w else revert_to cp w)
             in Val (ok, e_return_data sub) (f\<lparr>f_meter := meter, f_world := w'\<rparr>)
         | Crashed p \<Rightarrow> Panicked p
         | OutOfFuel \<Rightarrow> NoFuel)"

definition call_target :: "crypto \<Rightarrow> runner \<Rightarrow> frame_ctx \<Rightarrow> u256 \<Rightarrow> u256 \<Rightarrow> bytes \<Rightarrow> (bool \<times> bytes) vm"
  where
  "call_target cr run ctx requested_gas addr_word input =
     (let low = of_nat (low_u64 addr_word mod 256) :: byte
      in if unat addr_word < 256 \<and> energy_for low input \<noteq> None then
           vm_bind (vm_charge (the (energy_for low input))) (\<lambda>_.
             vm_return (True, (case precompile_execute cr low input of Some out \<Rightarrow> out | None \<Rightarrow> [])))
         else
           let callee = drop 12 (u256_to_be addr_word)
           in vm_bind (vm_gets (\<lambda>f. get_code (f_world f) callee)) (\<lambda>callee_code.
                if callee_code = [] then vm_return (False, [])
                else call_contract run ctx requested_gas callee callee_code input))"

definition set_ret :: "bytes \<Rightarrow> unit vm" where
  "set_ret out f = Val () (f\<lparr>f_ret := out\<rparr>)"

definition call_return :: "usize \<Rightarrow> usize \<Rightarrow> bool \<times> bytes \<Rightarrow> ctl vm" where
  "call_return ret_off ret_len r =
     (case r of (success, out) \<Rightarrow>
        vm_bind (set_ret out) (\<lambda>_.
        vm_bind
          (if success \<and> 0 < ret_len then
             vm_bind (vm_expand (u64_sat_add ret_off ret_len)) (\<lambda>_.
               vm_mem (copy_output ret_off (take (min ret_len (length out)) out)))
           else vm_return ()) (\<lambda>_.
        push_adv (bool_u256 success))))"

definition op_call :: "crypto \<Rightarrow> runner \<Rightarrow> frame_ctx \<Rightarrow> ctl vm" where
  "op_call cr run ctx =
     vm_bind pop (\<lambda>requested_gas. vm_bind pop (\<lambda>addr_word. vm_bind pop (\<lambda>_.
       vm_bind pop_u64 (\<lambda>args_off. vm_bind pop_u64 (\<lambda>args_len.
       vm_bind pop_u64 (\<lambda>ret_off. vm_bind pop_u64 (\<lambda>ret_len.
       vm_bind (vm_expand (u64_sat_add args_off args_len)) (\<lambda>_.
       vm_bind (vm_gets (\<lambda>f. read_range (f_mem f) args_off args_len)) (\<lambda>input.
       vm_bind (call_target cr run ctx requested_gas addr_word input) (\<lambda>r.
       call_return ret_off ret_len r))))))))))"

definition op_return :: "halt \<Rightarrow> ctl vm" where
  "op_return h =
     vm_bind pop_u64 (\<lambda>off. vm_bind pop_u64 (\<lambda>len.
       vm_bind (vm_expand (u64_sat_add off len)) (\<lambda>_.
       vm_bind (vm_gets (\<lambda>f. read_range (f_mem f) off len)) (\<lambda>out. stop_out h out))))"

definition op_vote_witness :: "ctl vm" where
  "op_vote_witness =
     vm_bind pop_u64 (\<lambda>amount_len. vm_bind pop_u64 (\<lambda>amount_off.
       vm_bind pop_u64 (\<lambda>witness_len. vm_bind pop_u64 (\<lambda>witness_off.
       vm_bind (vm_charge VOTE_WITNESS) (\<lambda>_.
       vm_bind (vm_expand (vote_witness_mem_needed witness_off witness_len amount_off amount_len)) (\<lambda>_.
       push_adv 0))))))"

definition op_self_destruct :: "byte \<Rightarrow> frame_ctx \<Rightarrow> ctl vm" where
  "op_self_destruct opbyte ctx =
     vm_bind (vm_gets (\<lambda>f. host_backed (f_world f))) (\<lambda>hb.
       if hb then stop (HaltBadOpcode opbyte)
       else
         vm_bind pop (\<lambda>word.
           let beneficiary = from_body (drop 12 (u256_to_be word))
           in if length (ctx_address ctx) \<noteq> 20 then stop (HaltBadOpcode opbyte)
              else
                let self_addr = from_body (ctx_address ctx)
                in vm_bind (vm_gets (\<lambda>f. world_account_exists (f_world f) beneficiary)) (\<lambda>ex.
                   vm_bind (vm_charge (suicide_cost ex)) (\<lambda>_.
                   vm_bind (vm_world (suicide self_addr beneficiary)) (\<lambda>_.
                   stop HaltSelfDestruct)))))"

definition call_data_word :: "bytes \<Rightarrow> usize \<Rightarrow> u256" where
  "call_data_word calldata off =
     u256_from_be (map (\<lambda>i. get_or calldata (u64_wrap (off + i)) 0) [0..<32])"

text \<open>The dispatch; opcodes without a case of their own halt as bad opcodes.\<close>

fun exec_op :: "crypto \<Rightarrow> runner \<Rightarrow> frame_ctx \<Rightarrow> byte \<Rightarrow> opcode \<Rightarrow> ctl vm" where
  "exec_op cr run ctx opbyte Stop = stop HaltStop"
| "exec_op cr run ctx opbyte Add = binop (\<lambda>a b. a + b)"
| "exec_op cr run ctx opbyte Sub = binop (\<lambda>a b. a - b)"
| "exec_op cr run ctx opbyte Mul = binop (\<lambda>a b. a * b)"
| "exec_op cr run ctx opbyte Div = binop (\<lambda>a b. if b = 0 then 0 else a div b)"
| "exec_op cr run ctx opbyte Mod = binop (\<lambda>a b. if b = 0 then 0 else a mod b)"
| "exec_op cr run ctx opbyte Exp = binop (\<lambda>a b. a ^ unat b)"
| "exec_op cr run ctx opbyte Lt = binop (\<lambda>a b. bool_u256 (a < b))"
| "exec_op cr run ctx opbyte Gt = binop (\<lambda>a b. bool_u256 (b < a))"
| "exec_op cr run ctx opbyte Eq = binop (\<lambda>a b. bool_u256 (a = b))"
| "exec_op cr run ctx opbyte IsZero = vm_bind pop (\<lambda>a. push_adv (bool_u256 (a = 0)))"
| "exec_op cr run ctx opbyte And = binop (\<lambda>a b. a AND b)"
| "exec_op cr run ctx opbyte Or = binop (\<lambda>a b. a OR b)"
| "exec_op cr run ctx opbyte Xor = binop (\<lambda>a b. a XOR b)"
| "exec_op cr run ctx opbyte Pop = vm_bind pop (\<lambda>_. vm_return Advance)"
| "exec_op cr run ctx opbyte Dup1 = op_dup1"
| "exec_op cr run ctx opbyte Swap1 = op_swap1"
| "exec_op cr run ctx opbyte Push1 = op_push1 ctx"
| "exec_op cr run ctx opbyte Push2 = op_push2 ctx"
| "exec_op cr run ctx opbyte CallDataLoad =
     vm_bind pop_u64 (\<lambda>off. push_adv (call_data_word (ctx_calldata ctx) off))"
| "exec_op cr run ctx opbyte CallDataSize = push_adv (of_nat (length (ctx_calldata ctx)))"
| "exec_op cr run ctx opbyte ReturnDataSize =
     vm_bind (vm_gets f_ret) (\<lambda>r. push_adv (of_nat (length r)))"
| "exec_op cr run ctx opbyte ReturnDataCopy = op_copy f_ret"
| "exec_op cr run ctx opbyte CallDataCopy = op_copy (\<lambda>_. ctx_calldata ctx)"
| "exec_op cr run ctx opbyte Mload =
     vm_bind pop_u64 (\<lambda>off. vm_bind (vm_expand (u64_sat_add off 32)) (\<lambda>_.
       vm_bind (vm_gets (\<lambda>f. load (f_mem f) off)) push_adv))"
| "exec_op cr run ctx opbyte Mstore =
     vm_bind pop_u64 (\<lambda>off. vm_bind pop (\<lambda>val.
       vm_bind (vm_expand (u64_sat_add off 32)) (\<lambda>_.
       vm_bind (vm_mem (\<lambda>mem. store mem off val)) (\<lambda>_. vm_return Advance))))"
| "exec_op cr run ctx opbyte Mstore8 =
     vm_bind pop_u64 (\<lambda>off. vm_bind pop (\<lambda>val.
       vm_bind (vm_expand (u64_sat_add off 1)) (\<lambda>_.
       vm_bind (vm_mem (store_byte off (of_nat (low_u64 val mod 256)))) (\<lambda>_. vm_return Advance))))"
| "exec_op cr run ctx opbyte Sload =
     vm_bind pop (\<lambda>key. vm_bind (vm_gets (\<lambda>f. world_sload (f_world f) (ctx_address ctx) key)) push_adv)"
| "exec_op cr run ctx opbyte Sstore = op_sstore ctx"
| "exec_op cr run ctx opbyte Jump = vm_bind pop (jump_to ctx)"
| "exec_op cr run ctx opbyte Jumpi =
     vm_bind pop (\<lambda>dest. vm_bind pop (\<lambda>cond.
       if cond \<noteq> 0 then jump_to ctx dest else vm_return Advance))"
| "exec_op cr run ctx opbyte Jumpdest = vm_return Advance"
| "exec_op cr run ctx opbyte Call = op_call cr run ctx"
| "exec_op cr run ctx opbyte Return = op_return HaltReturn"
| "exec_op cr run ctx opbyte Revert = op_return HaltRevert"
| "exec_op cr run ctx opbyte VoteWitness = op_vote_witness"
| "exec_op cr run ctx opbyte SelfDestruct = op_self_destruct opbyte ctx"
| "exec_op cr run ctx opbyte op = stop (HaltBadOpcode (opcode_u8 op))"

section \<open>The loop\<close>

definition advance :: "ctl \<Rightarrow> unit vm" where
  "advance c f = Val () (case c of Advance \<Rightarrow> f\<lparr>f_pc := f_pc f + 1\<rparr> | Jumped \<Rightarrow> f)"

text \<open>One iteration of the \<open>while\<close> body: decode, charge the static cost, execute.\<close>

definition step :: "crypto \<Rightarrow> runner \<Rightarrow> frame_ctx \<Rightarrow> unit vm" where
  "step cr run ctx f =
     (let opbyte = ctx_code ctx ! f_pc f
      in case from_u8 opbyte of
           None \<Rightarrow> Stopped (HaltBadOpcode opbyte) [] f
         | Some op \<Rightarrow>
             vm_bind (if op \<noteq> Sstore then vm_charge (base_cost op) else vm_return ()) (\<lambda>_.
               vm_bind (exec_op cr run ctx opbyte op) advance) f)"

definition mk_exec :: "halt \<Rightarrow> bytes \<Rightarrow> frame \<Rightarrow> exec" where
  "mk_exec h out f =
     \<lparr>e_halt = h, e_energy_used = meter_used (f_meter f), e_return_data = out,
      e_stack_top = (case f_stack f of [] \<Rightarrow> None | v # _ \<Rightarrow> Some v)\<rparr>"

definition init_frame :: "world \<Rightarrow> u64 \<Rightarrow> frame" where
  "init_frame w limit =
     \<lparr>f_pc = 0, f_stack = [], f_mem = [], f_ret = [], f_meter = meter_new limit, f_world = w\<rparr>"

definition start_frame :: "(frame_ctx \<Rightarrow> frame \<Rightarrow> exec frame_out) \<Rightarrow> runner" where
  "start_frame loop w address code calldata limit depth =
     (if MAX_CALL_DEPTH < depth then
        Finished \<lparr>e_halt = HaltDepthLimit, e_energy_used = 0, e_return_data = [], e_stack_top = None\<rparr> w
      else
        loop \<lparr>ctx_address = address, ctx_code = code, ctx_calldata = calldata, ctx_depth = depth\<rparr>
          (init_frame w limit))"

fun run_loop :: "nat \<Rightarrow> crypto \<Rightarrow> frame_ctx \<Rightarrow> frame \<Rightarrow> exec frame_out" where
  "run_loop 0 cr ctx f = OutOfFuel"
| "run_loop (Suc n) cr ctx f =
     (if f_pc f < length (ctx_code ctx) then
        case step cr (start_frame (run_loop n cr)) ctx f of
          Val _ f' \<Rightarrow> run_loop n cr ctx f'
        | Stopped h out f' \<Rightarrow> Finished (mk_exec h out f') (f_world f')
        | Panicked p \<Rightarrow> Crashed p
        | NoFuel \<Rightarrow> OutOfFuel
      else Finished (mk_exec HaltStop [] f) (f_world f))"

declare run_loop.simps(2) [simp del]

definition run_frame :: "crypto \<Rightarrow> runner" where
  "run_frame cr w address code calldata limit depth =
     start_frame (run_loop (Suc limit) cr) w address code calldata limit depth"

section \<open>Entry points\<close>

record call_result =
  cr_success :: bool
  cr_halt :: halt
  cr_energy_used :: u64
  cr_return_data :: bytes

definition to_call_result :: "exec \<Rightarrow> call_result" where
  "to_call_result e =
     \<lparr>cr_success = halt_is_success (e_halt e), cr_halt = e_halt e,
      cr_energy_used = e_energy_used e, cr_return_data = e_return_data e\<rparr>"

definition execute_code ::
  "crypto \<Rightarrow> world \<Rightarrow> bytes \<Rightarrow> bytes \<Rightarrow> bytes \<Rightarrow> u64 \<Rightarrow> usize \<Rightarrow> call_result frame_out" where
  "execute_code cr w address code calldata energy_limit depth =
     map_frame_out to_call_result (run_frame cr w address code calldata energy_limit depth)"

definition execute_call ::
  "crypto \<Rightarrow> world \<Rightarrow> bytes \<Rightarrow> bytes \<Rightarrow> u64 \<Rightarrow> usize \<Rightarrow> call_result frame_out" where
  "execute_call cr w address calldata energy_limit depth =
     map_frame_out to_call_result (run_frame cr w address (get_code w address) calldata energy_limit depth)"

definition execute :: "crypto \<Rightarrow> world \<Rightarrow> bytes \<Rightarrow> u64 \<Rightarrow> usize \<Rightarrow> call_result frame_out" where
  "execute cr w address energy_limit depth = execute_call cr w address [] energy_limit depth"

section \<open>Energy and stack discipline\<close>

text \<open>
  \<open>frame_le f f'\<close>: the energy limit is unchanged, the energy used only grows and stays
  within the limit, and the stack stays within its bound.  \<open>safe\<close> computations move along
  this preorder; \<open>fuel_safe k\<close> ones do not run out of fuel while less than \<open>k\<close> energy is
  left; \<open>progressing\<close> ones leave strictly less energy when they return.
\<close>

named_theorems vm_safe \<open>computations that respect the energy and stack discipline\<close>
named_theorems vm_fuel \<open>computations that need no fuel\<close>
named_theorems vm_progress \<open>computations that consume energy\<close>

definition frame_le :: "frame \<Rightarrow> frame \<Rightarrow> bool" where
  "frame_le f f' \<longleftrightarrow>
     meter_limit (f_meter f') = meter_limit (f_meter f) \<and>
     meter_used (f_meter f) \<le> meter_used (f_meter f') \<and>
     (meter_used (f_meter f) \<le> meter_limit (f_meter f) \<longrightarrow>
        meter_used (f_meter f') \<le> meter_limit (f_meter f)) \<and>
     (length (f_stack f) \<le> STACK_LIMIT \<longrightarrow> length (f_stack f') \<le> STACK_LIMIT)"

definition safe :: "'a vm \<Rightarrow> bool" where
  "safe m \<longleftrightarrow>
     (\<forall>f x f'. m f = Val x f' \<longrightarrow> frame_le f f') \<and>
     (\<forall>f h out f'. m f = Stopped h out f' \<longrightarrow> frame_le f f')"

definition fuel_safe :: "nat \<Rightarrow> 'a vm \<Rightarrow> bool" where
  "fuel_safe k m \<longleftrightarrow> (\<forall>f. remaining (f_meter f) < k \<longrightarrow> m f \<noteq> NoFuel)"

definition progressing :: "'a vm \<Rightarrow> bool" where
  "progressing m \<longleftrightarrow> (\<forall>f x f'. m f = Val x f' \<longrightarrow> remaining (f_meter f') < remaining (f_meter f))"

lemma frame_le_refl [simp]: "frame_le f f"
  by (simp add: frame_le_def)

lemma frame_le_trans: "frame_le f g \<Longrightarrow> frame_le g h \<Longrightarrow> frame_le f h"
  by (auto simp: frame_le_def)

lemma frame_le_remaining: "frame_le f f' \<Longrightarrow> remaining (f_meter f') \<le> remaining (f_meter f)"
  by (auto simp: frame_le_def remaining_def)

lemma vm_bind_Val:
  "vm_bind m k f = Val y f'' \<longleftrightarrow> (\<exists>x f'. m f = Val x f' \<and> k x f' = Val y f'')"
  by (auto simp: vm_bind_def split: vm_out.splits)

lemma vm_bind_Stopped:
  "vm_bind m k f = Stopped h out f'' \<longleftrightarrow>
     m f = Stopped h out f'' \<or> (\<exists>x f'. m f = Val x f' \<and> k x f' = Stopped h out f'')"
  by (auto simp: vm_bind_def split: vm_out.splits)

lemma vm_bind_NoFuel:
  "vm_bind m k f = NoFuel \<longleftrightarrow> m f = NoFuel \<or> (\<exists>x f'. m f = Val x f' \<and> k x f' = NoFuel)"
  by (auto simp: vm_bind_def split: vm_out.splits)

lemma safeI:
  "(\<And>f x f'. m f = Val x f' \<Longrightarrow> frame_le f f') \<Longrightarrow>
   (\<And>f h out f'. m f = Stopped h out f' \<Longrightarrow> frame_le f f') \<Longrightarrow> safe m"
  by (simp add: safe_def)

lemma safe_Val: "safe m \<Longrightarrow> m f = Val x f' \<Longrightarrow> frame_le f f'"
  by (simp add: safe_def)

lemma safe_Stopped: "safe m \<Longrightarrow> m f = Stopped h out f' \<Longrightarrow> frame_le f f'"
  by (simp add: safe_def)

lemma safe_bind [vm_safe]: "safe m \<Longrightarrow> (\<And>x. safe (k x)) \<Longrightarrow> safe (vm_bind m k)"
  by (rule safeI)
    (auto simp: vm_bind_Val vm_bind_Stopped intro: frame_le_trans safe_Val safe_Stopped)

lemma safe_if [vm_safe]: "safe m \<Longrightarrow> safe m' \<Longrightarrow> safe (if b then m else m')"
  by simp

lemma safe_prims [vm_safe]:
  "safe (vm_return x)" "safe (vm_gets g)" "safe (stop_out h out)" "safe (stop h)"
  "safe (vm_mem w)" "safe (vm_world u)" "safe (set_ret r)" "safe (advance c)"
  by (auto simp: safe_def vm_return_def vm_gets_def stop_out_def stop_def vm_mem_def
      vm_world_def set_ret_def advance_def frame_le_def split: sum.splits ctl.splits)

lemma safe_pop [vm_safe]: "safe pop"
  by (auto simp: safe_def pop_def frame_le_def split: list.splits)

lemma safe_push [vm_safe]: "safe (push v)"
  by (auto simp: safe_def push_def frame_le_def)

lemma safe_charge [vm_safe]: "safe (vm_charge c)"
  by (auto simp: safe_def vm_charge_def frame_le_def charge_Some split: option.splits)

lemma safe_expand [vm_safe]: "safe (vm_expand e)"
  by (auto simp: safe_def vm_expand_def vm_charge_def frame_le_def charge_Some
      split: option.splits sum.splits)

lemma safe_pop_u64 [vm_safe]: "safe pop_u64"
  unfolding pop_u64_def by (intro vm_safe)

lemma safe_push_adv [vm_safe]: "safe (push_adv v)"
  unfolding push_adv_def by (intro vm_safe)

lemma safe_binop [vm_safe]: "safe (binop g)"
  unfolding binop_def by (intro vm_safe)

lemma safe_push_ops [vm_safe]: "safe (op_push1 ctx)" "safe (op_push2 ctx)"
  by (rule safeI; simp add: op_push1_def op_push2_def Let_def; drule safe_Val [OF safe_push_adv]
      safe_Stopped [OF safe_push_adv]; simp add: frame_le_def)+

lemma safe_dup1 [vm_safe]: "safe op_dup1"
  by (rule safeI)
    (auto simp: op_dup1_def split: list.splits intro: safe_Val safe_Stopped vm_safe)

lemma safe_swap1 [vm_safe]: "safe op_swap1"
  by (auto simp: safe_def op_swap1_def frame_le_def split: list.splits)

lemma safe_jump_to [vm_safe]: "safe (jump_to ctx d)"
  by (auto simp: safe_def jump_to_def frame_le_def)

lemma safe_call_contract [vm_safe]: "safe (call_contract run ctx g callee code input)"
  by (auto simp: safe_def call_contract_def Let_def frame_le_def charge_Some
      split: frame_out.splits option.splits)

lemma safe_call [vm_safe]: "safe (op_call cr run ctx)"
  unfolding op_call_def call_target_def call_return_def Let_def split_def
  by (intro vm_safe)

lemma safe_exec_op [vm_safe]: "safe (exec_op cr run ctx b op)"
  by (cases op; simp only: exec_op.simps op_copy_def op_sstore_def op_return_def
      op_vote_witness_def op_self_destruct_def Let_def; intro vm_safe)

lemma safe_step [vm_safe]: "safe (step cr run ctx)"
proof -
  have "safe (vm_bind (if op \<noteq> Sstore then vm_charge (base_cost op) else vm_return ())
      (\<lambda>_. vm_bind (exec_op cr run ctx b op) advance))" for op b
    by (intro vm_safe)
  then show ?thesis
    by (auto simp: safe_def step_def Let_def split: option.splits)
qed

section \<open>Fuel\<close>

lemma fuel_bind [vm_fuel]:
  assumes "safe m" and "fuel_safe k m" and "\<And>x. fuel_safe k (g x)"
  shows "fuel_safe k (vm_bind m g)"
  unfolding fuel_safe_def
proof (intro allI impI notI)
  fix f
  assume less: "remaining (f_meter f) < k" and "vm_bind m g f = NoFuel"
  then consider "m f = NoFuel" | x f' where "m f = Val x f'" "g x f' = NoFuel"
    by (auto simp: vm_bind_NoFuel)
  then show False
  proof cases
    case 1
    with assms(2) less show ?thesis by (auto simp: fuel_safe_def)
  next
    case 2
    with assms(1) less have "remaining (f_meter f') < k"
      using frame_le_remaining safe_Val by fastforce
    with assms(3) 2 show ?thesis by (auto simp: fuel_safe_def)
  qed
qed

lemma fuel_if [vm_fuel]: "fuel_safe k m \<Longrightarrow> fuel_safe k m' \<Longrightarrow> fuel_safe k (if b then m else m')"
  by simp

lemma fuel_prims [vm_fuel]:
  "fuel_safe k (vm_return x)" "fuel_safe k (vm_gets g)" "fuel_safe k (stop_out h out)"
  "fuel_safe k (stop h)" "fuel_safe k (vm_mem w)" "fuel_safe k (vm_world u)"
  "fuel_safe k (set_ret r)" "fuel_safe k (advance c)" "fuel_safe k pop" "fuel_safe k (push v)"
  "fuel_safe k (vm_charge e)" "fuel_safe k (vm_expand i)" "fuel_safe k (jump_to ctx d)"
  "fuel_safe k op_swap1"
  by (auto simp: fuel_safe_def vm_return_def vm_gets_def stop_out_def stop_def vm_mem_def
      vm_world_def set_ret_def advance_def pop_def push_def vm_charge_def vm_expand_def
      jump_to_def op_swap1_def split: sum.splits list.splits option.splits)

lemma fuel_push_adv [vm_fuel]: "fuel_safe k (push_adv v)"
  unfolding push_adv_def by (intro vm_fuel vm_safe)

lemma fuel_push_ops [vm_fuel]:
  "fuel_safe k (op_push1 ctx)" "fuel_safe k (op_push2 ctx)" "fuel_safe k op_dup1"
  using fuel_push_adv
  by (auto simp: fuel_safe_def op_push1_def op_push2_def op_dup1_def Let_def split: list.splits)

lemma fuel_pop_u64 [vm_fuel]: "fuel_safe k pop_u64"
  unfolding pop_u64_def by (intro vm_fuel vm_safe)

lemma fuel_binop [vm_fuel]: "fuel_safe k (binop g)"
  unfolding binop_def by (intro vm_fuel vm_safe)

definition run_ok :: "nat \<Rightarrow> runner \<Rightarrow> bool" where
  "run_ok k run \<longleftrightarrow> (\<forall>w a c d limit depth. limit < k \<longrightarrow> run w a c d limit depth \<noteq> OutOfFuel)"

lemma forwarded_le: "forwarded_energy m g \<le> remaining m"
  by (simp add: forwarded_energy_def Let_def)

lemma fuel_call_contract [vm_fuel]:
  assumes "run_ok k run"
  shows "fuel_safe k (call_contract run ctx g callee code input)"
  unfolding fuel_safe_def
proof (intro allI impI)
  fix f :: frame
  assume "remaining (f_meter f) < k"
  then have "forwarded_energy (f_meter f) g < k"
    using forwarded_le [of "f_meter f" g] by linarith
  with assms have "run w a c d (forwarded_energy (f_meter f) g) depth \<noteq> OutOfFuel" for w a c d depth
    by (simp add: run_ok_def)
  then show "call_contract run ctx g callee code input f \<noteq> NoFuel"
    by (auto simp: call_contract_def Let_def split: frame_out.splits)
qed

lemma safe_call_target [vm_safe]: "safe (call_target cr run ctx g w input)"
  unfolding call_target_def Let_def by (intro vm_safe)

lemma fuel_call [vm_fuel]:
  assumes "run_ok k run"
  shows "fuel_safe k (op_call cr run ctx)"
  unfolding op_call_def call_target_def call_return_def Let_def split_def
  by (intro vm_fuel vm_safe assms)

lemma fuel_exec_op_other: "op \<noteq> Call \<Longrightarrow> fuel_safe k (exec_op cr run ctx b op)"
  by (cases op; simp only: exec_op.simps op_copy_def op_sstore_def op_return_def
      op_vote_witness_def op_self_destruct_def Let_def; (intro vm_fuel vm_safe)?; simp)

text \<open>
  A callee may need fuel for all energy left after the static charge of CALL, so one step
  needs one unit more.
\<close>

lemma fuel_step:
  assumes "run_ok n run"
  shows "fuel_safe (Suc n) (step cr run ctx)"
proof -
  have "fuel_safe (Suc n) (vm_bind (if op \<noteq> Sstore then vm_charge (base_cost op) else vm_return ())
      (\<lambda>_. vm_bind (exec_op cr run ctx b op) advance))" for op b
  proof (cases "op = Call")
    case True
    have inner: "fuel_safe n (vm_bind (op_call cr run ctx) advance)"
      by (intro vm_fuel vm_safe assms)
    have "vm_bind (vm_charge 40) (\<lambda>_. vm_bind (op_call cr run ctx) advance) f \<noteq> NoFuel"
      if less: "remaining (f_meter f) < Suc n" for f :: frame
    proof (cases "charge (f_meter f) 40")
      case None
      then show ?thesis by (simp add: vm_bind_def vm_charge_def)
    next
      case (Some m)
      with less have "remaining m < n"
        by (auto dest: charge_remaining)
      with inner have "vm_bind (op_call cr run ctx) advance (f\<lparr>f_meter := m\<rparr>) \<noteq> NoFuel"
        by (simp add: fuel_safe_def)
      with Some show ?thesis by (simp add: vm_bind_NoFuel vm_charge_def)
    qed
    with True show ?thesis by (simp add: fuel_safe_def)
  next
    case False
    then show ?thesis by (intro vm_fuel vm_safe fuel_exec_op_other)
  qed
  then show ?thesis
    by (auto simp: fuel_safe_def step_def Let_def split: option.splits)
qed

section \<open>Progress\<close>

lemma progress_charge: "0 < c \<Longrightarrow> progressing (vm_charge c)"
  by (auto simp: progressing_def vm_charge_def split: option.splits dest!: charge_remaining)

lemma progress_bind_left:
  assumes "progressing m" and "\<And>x. safe (k x)"
  shows "progressing (vm_bind m k)"
  unfolding progressing_def
proof (intro allI impI)
  fix f x f''
  assume "vm_bind m k f = Val x f''"
  then obtain y f' where "m f = Val y f'" and "k y f' = Val x f''"
    by (auto simp: vm_bind_Val)
  then have "remaining (f_meter f') < remaining (f_meter f)"
    and "remaining (f_meter f'') \<le> remaining (f_meter f')"
    using assms(1) frame_le_remaining [OF safe_Val [OF assms(2)]] by (auto simp: progressing_def)
  then show "remaining (f_meter f'') < remaining (f_meter f)" by simp
qed

lemma progress_bind_right:
  assumes "safe m" and "\<And>x. progressing (k x)"
  shows "progressing (vm_bind m k)"
  unfolding progressing_def
proof (intro allI impI)
  fix f x f''
  assume "vm_bind m k f = Val x f''"
  then obtain y f' where "m f = Val y f'" and "k y f' = Val x f''"
    by (auto simp: vm_bind_Val)
  then have "remaining (f_meter f'') < remaining (f_meter f')"
    and "remaining (f_meter f') \<le> remaining (f_meter f)"
    using assms by (auto simp: progressing_def dest: safe_Val frame_le_remaining)
  then show "remaining (f_meter f'') < remaining (f_meter f)" by simp
qed

lemma progress_stop [vm_progress]: "progressing (stop_out h out)" "progressing (stop h)"
  by (simp_all add: progressing_def stop_out_def stop_def)

lemma progress_if [vm_progress]:
  "progressing m \<Longrightarrow> progressing m' \<Longrightarrow> progressing (if b then m else m')"
  by simp

lemma progress_free_ops:
  "op \<in> {Stop, Return, Revert, Invalid, SelfDestruct} \<Longrightarrow> progressing (exec_op cr run ctx b op)"
  by (auto simp: op_return_def op_self_destruct_def Let_def
      intro!: vm_progress progress_bind_right vm_safe)

lemma progress_sstore: "progressing (exec_op cr run ctx b Sstore)"
proof -
  have "0 < sstore_cost x y" for x y
    using sstore_cost_ge [of x y] by simp
  then show ?thesis
    unfolding exec_op.simps op_sstore_def
    by (intro progress_bind_right [OF safe_pop] progress_bind_right [OF safe_prims(2)]
        progress_bind_left [OF progress_charge] vm_safe)
qed

lemma progress_vote_witness: "progressing (exec_op cr run ctx b VoteWitness)"
  unfolding exec_op.simps op_vote_witness_def
  by (intro progress_bind_right [OF safe_pop_u64] progress_bind_left [OF progress_charge] vm_safe)
    (simp add: tier_defs)

lemma progress_op:
  "progressing (vm_bind (if op \<noteq> Sstore then vm_charge (base_cost op) else vm_return ())
     (\<lambda>_. vm_bind (exec_op cr run ctx b op) advance))"
proof (cases "op \<in> {Stop, Return, Revert, Invalid, SelfDestruct, Sstore, VoteWitness}")
  case True
  then consider "op \<in> {Stop, Return, Revert, Invalid, SelfDestruct}" | "op = Sstore" | "op = VoteWitness"
    by blast
  then have "progressing (exec_op cr run ctx b op)"
    by cases (simp_all only: progress_free_ops progress_sstore progress_vote_witness)
  then show ?thesis
    by (intro progress_bind_right progress_bind_left vm_safe)
next
  case False
  then have "0 < base_cost op" and "op \<noteq> Sstore"
    using base_cost_pos [of op] by auto
  then show ?thesis
    by (auto intro!: progress_bind_left progress_charge vm_safe)
qed

lemma progress_step: "progressing (step cr run ctx)"
  using progress_op by (auto simp: progressing_def step_def Let_def split: option.splits)

text \<open>Enough fuel: one unit more than the energy left.\<close>

lemma run_ok_start_frame:
  assumes "\<And>ctx f. remaining (f_meter f) < n \<Longrightarrow> run_loop n cr ctx f \<noteq> OutOfFuel"
  shows "run_ok n (start_frame (run_loop n cr))"
  using assms
  by (auto simp: run_ok_def start_frame_def init_frame_def meter_new_def remaining_def)

lemma run_loop_fuel: "remaining (f_meter f) < n \<Longrightarrow> run_loop n cr ctx f \<noteq> OutOfFuel"
proof (induction n arbitrary: ctx f)
  case 0
  then show ?case by simp
next
  case (Suc n)
  have ok: "run_ok n (start_frame (run_loop n cr))"
    using Suc.IH by (rule run_ok_start_frame)
  show ?case
  proof (cases "step cr (start_frame (run_loop n cr)) ctx f")
    case (Val u f')
    with progress_step have "remaining (f_meter f') < remaining (f_meter f)"
      by (auto simp: progressing_def)
    with Suc Val show ?thesis by (simp add: run_loop.simps)
  next
    case NoFuel
    with fuel_step [OF ok] Suc.prems show ?thesis by (auto simp: fuel_safe_def run_loop.simps)
  qed (simp_all add: run_loop.simps)
qed

end
