(* ===== verification/Vm_Engine_Props.thy ===== *)
theory Vm_Engine_Props
  imports Vm_Engine
begin

text \<open>
  Properties of the execution loop: it always returns, it never spends more than its energy
  limit, the result does not depend on the fuel, the stack bound is an invariant of every
  reachable frame, a caller keeps its share of the energy across a CALL; and two programs on
  which the loop misbehaves: a memory access at the top of the address space that panics, and
  a reverted call whose nested call persists.
\<close>

section \<open>More fuel does not change the result\<close>

named_theorems vm_refines \<open>computations that agree wherever the first does not run out of fuel\<close>

definition refines :: "'a vm \<Rightarrow> 'a vm \<Rightarrow> bool" where
  "refines m m' \<longleftrightarrow> (\<forall>f. m f \<noteq> NoFuel \<longrightarrow> m' f = m f)"

definition runner_refines :: "runner \<Rightarrow> runner \<Rightarrow> bool" where
  "runner_refines run run' \<longleftrightarrow>
     (\<forall>w a c d l n. run w a c d l n \<noteq> OutOfFuel \<longrightarrow> run' w a c d l n = run w a c d l n)"

lemma refines_refl [vm_refines]: "refines m m"
  by (simp add: refines_def)

lemma refines_bind [vm_refines]:
  "refines m m' \<Longrightarrow> (\<And>x. refines (k x) (k' x)) \<Longrightarrow> refines (vm_bind m k) (vm_bind m' k')"
  by (auto simp: refines_def vm_bind_def split: vm_out.splits)

lemma refines_if [vm_refines]:
  "refines a a' \<Longrightarrow> refines b b' \<Longrightarrow> refines (if c then a else b) (if c then a' else b')"
  by simp

lemma refines_call_contract [vm_refines]:
  assumes "runner_refines run run'"
  shows "refines (call_contract run ctx g callee code input) (call_contract run' ctx g callee code input)"
  unfolding refines_def
proof (intro allI impI)
  fix f
  assume nf: "call_contract run ctx g callee code input f \<noteq> NoFuel"
  let ?r = "\<lambda>run. run (f_world f) callee code input (forwarded_energy (f_meter f) g) (ctx_depth ctx + 1)"
  from nf have "?r run \<noteq> OutOfFuel"
    by (auto simp: call_contract_def Let_def)
  with assms have "?r run' = ?r run"
    unfolding runner_refines_def by blast
  then show "call_contract run' ctx g callee code input f = call_contract run ctx g callee code input f"
    by (simp add: call_contract_def)
qed

lemma refines_op_call [vm_refines]:
  assumes "runner_refines run run'"
  shows "refines (op_call cr run ctx) (op_call cr run' ctx)"
  unfolding op_call_def call_target_def Let_def by (intro vm_refines assms)

lemma refines_exec_op [vm_refines]:
  assumes "runner_refines run run'"
  shows "refines (exec_op cr run ctx b op) (exec_op cr run' ctx b op)"
  by (cases op; simp only: exec_op.simps; intro vm_refines assms)

lemma refines_step:
  assumes "runner_refines run run'"
  shows "refines (step cr run ctx) (step cr run' ctx)"
proof -
  have "refines
      (vm_bind (if op \<noteq> Sstore then vm_charge (base_cost op) else vm_return ())
        (\<lambda>_. vm_bind (exec_op cr run ctx b op) advance))
      (vm_bind (if op \<noteq> Sstore then vm_charge (base_cost op) else vm_return ())
        (\<lambda>_. vm_bind (exec_op cr run' ctx b op) advance))" for op b
    by (intro vm_refines assms)
  then show ?thesis
    by (auto simp: refines_def step_def Let_def split: option.splits)
qed

lemma run_loop_Suc_fuel: "run_loop n cr ctx f \<noteq> OutOfFuel \<Longrightarrow> run_loop (Suc n) cr ctx f = run_loop n cr ctx f"
proof (induction n arbitrary: ctx f)
  case 0
  then show ?case by simp
next
  case (Suc n)
  let ?s = "step cr (start_frame (run_loop n cr)) ctx f"
  have rr: "runner_refines (start_frame (run_loop n cr)) (start_frame (run_loop (Suc n) cr))"
    unfolding runner_refines_def start_frame_def using Suc.IH by auto
  show ?case
  proof (cases "f_pc f < length (ctx_code ctx)")
    case True
    with Suc.prems have "?s \<noteq> NoFuel" by (auto simp: run_loop.simps)
    with refines_step [OF rr] have "step cr (start_frame (run_loop (Suc n) cr)) ctx f = ?s"
      unfolding refines_def by blast
    with True Suc.prems Suc.IH show ?thesis
      by (cases ?s) (simp_all add: run_loop.simps(2) [of "Suc n"] run_loop.simps(2) [of n])
  next
    case False
    then show ?thesis by (simp add: run_loop.simps)
  qed
qed

lemma run_loop_more_fuel:
  assumes "run_loop n cr ctx f \<noteq> OutOfFuel" and "n \<le> m"
  shows "run_loop m cr ctx f = run_loop n cr ctx f"
  using assms(2)
proof (induction rule: dec_induct)
  case base
  then show ?case by simp
next
  case (step m)
  with assms(1) show ?case using run_loop_Suc_fuel by metis
qed

lemma run_frame_eq_run_loop:
  assumes "depth \<le> MAX_CALL_DEPTH" and "n \<le> Suc limit"
    and "run_loop n cr \<lparr>ctx_address = a, ctx_code = code, ctx_calldata = cd, ctx_depth = depth\<rparr>
           (init_frame w limit) = r" and "r \<noteq> OutOfFuel"
  shows "run_frame cr w a code cd limit depth = r"
  using assms run_loop_more_fuel [of n cr _ "init_frame w limit" "Suc limit"]
  by (auto simp: run_frame_def start_frame_def)

section \<open>Reachable frames\<close>

text \<open>The frames the loop of one activation passes through.\<close>

inductive frame_reach :: "crypto \<Rightarrow> runner \<Rightarrow> frame_ctx \<Rightarrow> frame \<Rightarrow> frame \<Rightarrow> bool"
  for cr run ctx f where
  reach_start: "frame_reach cr run ctx f f"
| reach_step: "frame_reach cr run ctx f g \<Longrightarrow> f_pc g < length (ctx_code ctx) \<Longrightarrow>
     step cr run ctx g = Val u h \<Longrightarrow> frame_reach cr run ctx f h"

lemma frame_reach_le: "frame_reach cr run ctx f g \<Longrightarrow> frame_le f g"
  by (induction rule: frame_reach.induct) (auto intro: frame_le_trans safe_Val [OF safe_step])

lemma run_loop_energy:
  "run_loop n cr ctx f = Finished e w \<Longrightarrow> meter_used (f_meter f) \<le> meter_limit (f_meter f) \<Longrightarrow>
   e_energy_used e \<le> meter_limit (f_meter f)"
proof (induction n arbitrary: f)
  case 0
  then show ?case by simp
next
  case (Suc n)
  show ?case
  proof (cases "f_pc f < length (ctx_code ctx)")
    case True
    show ?thesis
    proof (cases "step cr (start_frame (run_loop n cr)) ctx f")
      case (Val u f')
      then have "frame_le f f'" by (rule safe_Val [OF safe_step])
      with Suc.prems True Val Suc.IH [of f'] show ?thesis
        by (simp add: frame_le_def run_loop.simps)
    next
      case (Stopped h out f')
      then have "frame_le f f'" by (rule safe_Stopped [OF safe_step])
      with Suc.prems True Stopped show ?thesis
        by (auto simp: frame_le_def mk_exec_def run_loop.simps)
    qed (use Suc.prems True in \<open>auto simp: run_loop.simps\<close>)
  next
    case False
    with Suc.prems show ?thesis by (auto simp: mk_exec_def run_loop.simps)
  qed
qed

lemma run_frame_energy: "run_frame cr w a code cd limit depth = Finished e w' \<Longrightarrow> e_energy_used e \<le> limit"
  unfolding run_frame_def start_frame_def
  by (auto split: if_splits dest!: run_loop_energy simp: init_frame_def meter_new_def)

lemma run_frame_outcome:
  "case run_frame cr w a code cd limit depth of
     Finished e w' \<Rightarrow> e_energy_used e \<le> limit
   | Crashed p \<Rightarrow> True
   | OutOfFuel \<Rightarrow> False"
proof -
  have "run_loop (Suc limit) cr ctx (init_frame w limit) \<noteq> OutOfFuel" for ctx
    by (rule run_loop_fuel) (simp add: init_frame_def meter_new_def remaining_def)
  then have "run_frame cr w a code cd limit depth \<noteq> OutOfFuel"
    unfolding run_frame_def start_frame_def by auto
  then show ?thesis
    by (auto split: frame_out.splits dest: run_frame_energy)
qed

section \<open>Properties\<close>

text \<open>
  C2: Every execution ends and stays within its energy limit: for all code, world, call data,
  limit and depth, the frame either finishes with an energy use of at most the limit or
  panics; it never loops.  In particular the fuel \<open>energy_limit + 1\<close> is always enough.
\<close>

theorem run_frame_terminates_within_limit:
  "case run_frame cr w a code cd limit depth of
     Finished e w' \<Rightarrow> e_energy_used e \<le> limit
   | Crashed p \<Rightarrow> True
   | OutOfFuel \<Rightarrow> False"
  by (rule run_frame_outcome)

text \<open>
  The result of an execution is that of the unbounded loop: any fuel above the energy limit
  gives the same outcome.
\<close>

theorem run_frame_fuel_irrelevant:
  assumes "limit < n"
  shows "start_frame (run_loop n cr) w a code cd limit depth = run_frame cr w a code cd limit depth"
proof -
  have "run_loop (Suc limit) cr ctx (init_frame w limit) \<noteq> OutOfFuel" for ctx
    by (rule run_loop_fuel) (simp add: init_frame_def meter_new_def remaining_def)
  then have "run_loop n cr ctx (init_frame w limit) = run_loop (Suc limit) cr ctx (init_frame w limit)" for ctx
    using assms by (intro run_loop_more_fuel) auto
  then show ?thesis
    by (simp only: run_frame_def start_frame_def)
qed

theorem run_frame_fuel_irrelevant_witness:
  "start_frame (run_loop 9 \<lparr>c_sha256 = id, c_keccak256 = id, c_recover = \<lambda>_ _ _. None\<rparr>)
     world_new [] [] [] 5 0
   = run_frame \<lparr>c_sha256 = id, c_keccak256 = id, c_recover = \<lambda>_ _ _. None\<rparr> world_new [] [] [] 5 0"
  by (rule run_frame_fuel_irrelevant) simp

text \<open>
  C3: In every frame the loop reaches, the stack holds at most 1024 words, the energy limit is
  the one the frame started with and the energy used is within it.
\<close>

theorem reachable_frame_bounds:
  assumes "frame_reach cr run ctx (init_frame w limit) f"
  shows "length (f_stack f) \<le> STACK_LIMIT \<and> meter_limit (f_meter f) = limit
       \<and> meter_used (f_meter f) \<le> limit"
  using frame_reach_le [OF assms] by (auto simp: frame_le_def init_frame_def meter_new_def)

section \<open>Running concrete programs\<close>

lemma run_loop_numeral:
  "run_loop (numeral k) cr ctx f =
     (if f_pc f < length (ctx_code ctx) then
        case step cr (start_frame (run_loop (pred_numeral k) cr)) ctx f of
          Val _ f' \<Rightarrow> run_loop (pred_numeral k) cr ctx f'
        | Stopped h out f' \<Rightarrow> Finished (mk_exec h out f') (f_world f')
        | Panicked p \<Rightarrow> Crashed p
        | NoFuel \<Rightarrow> OutOfFuel
      else Finished (mk_exec HaltStop [] f) (f_world f))"
  by (simp add: numeral_eq_Suc run_loop.simps)

lemmas vm_eval =
  run_loop_numeral step_def Let_def from_u8_def opcode_table_def vm_bind_def vm_charge_def
  charge_def u64_checked_add_def tier_defs op_push1_def op_push2_def push_adv_def push_def
  STACK_LIMIT_def vm_return_def get_or_def advance_def binop_def pop_def pop_u64_def low_u64_def
  vm_gets_def vm_expand_def expand_to_def u64_sat_add_def u64_max_def u64_wrap_def words_def
  isize_max_def memory_expansion_cost_def resize_def store_def vm_mem_def

lemma unat_minus_one_u256: "unat (- 1 :: u256) = 2 ^ 256 - 1"
  by (simp add: unsigned_minus_1_eq_mask mask_eq_exp_minus_1)

text \<open>
  C5: A memory write at the top of the 64-bit address space panics the node.  The eight-byte
  program \<open>PUSH1 0; PUSH1 1; PUSH1 0; SUB; MSTORE\<close> computes the offset \<open>2 ^ 256 - 1\<close>; the
  size computation of \<open>expand_to\<close> wraps to zero, so nothing is charged and the memory is
  emptied, and the slice of \<open>store\<close> is out of range.  Fifteen units of energy suffice.
\<close>

theorem mstore_at_top_of_memory_panics:
  assumes "15 \<le> limit" and "depth \<le> MAX_CALL_DEPTH"
  shows "run_frame cr w a [0x60, 0, 0x60, 1, 0x60, 0, 0x03, 0x52] cd limit depth
       = Crashed SliceOutOfRange"
proof (rule run_frame_eq_run_loop [where n = 6, OF assms(2)])
  show "run_loop 6 cr \<lparr>ctx_address = a, ctx_code = [0x60, 0, 0x60, 1, 0x60, 0, 0x03, 0x52],
      ctx_calldata = cd, ctx_depth = depth\<rparr> (init_frame w limit) = Crashed SliceOutOfRange"
    using assms(1) by (simp add: vm_eval init_frame_def meter_new_def unat_minus_one_u256)
qed (use assms in simp_all)

theorem mstore_at_top_of_memory_panics_witness:
  "run_frame \<lparr>c_sha256 = id, c_keccak256 = id, c_recover = \<lambda>_ _ _. None\<rparr> world_new []
     [0x60, 0, 0x60, 1, 0x60, 0, 0x03, 0x52] [] 100 0 = Crashed SliceOutOfRange"
  by (rule mstore_at_top_of_memory_panics) (simp_all add: MAX_CALL_DEPTH_def)

theorem reachable_frame_bounds_witness:
  "length (f_stack \<lparr>f_pc = 2, f_stack = [5], f_mem = [], f_ret = [],
      f_meter = \<lparr>meter_limit = 100, meter_used = 3\<rparr>, f_world = world_new\<rparr>) \<le> STACK_LIMIT
   \<and> meter_limit \<lparr>meter_limit = 100, meter_used = 3\<rparr> = 100
   \<and> meter_used \<lparr>meter_limit = 100, meter_used = 3\<rparr> \<le> 100"
proof -
  let ?cr = "\<lparr>c_sha256 = id, c_keccak256 = id, c_recover = \<lambda>_ _ _. None\<rparr>"
  let ?ctx = "\<lparr>ctx_address = [], ctx_code = [0x60, 5], ctx_calldata = [], ctx_depth = 0\<rparr>"
  let ?f = "\<lparr>f_pc = 2, f_stack = [5], f_mem = [], f_ret = [],
      f_meter = \<lparr>meter_limit = 100, meter_used = 3\<rparr>, f_world = world_new\<rparr>"
  have "step ?cr (run_frame ?cr) ?ctx (init_frame world_new 100) = Val () ?f"
    by (simp add: vm_eval init_frame_def meter_new_def)
  then have "frame_reach ?cr (run_frame ?cr) ?ctx (init_frame world_new 100) ?f"
    by (rule reach_step [OF reach_start, rotated]) (simp add: init_frame_def)
  from reachable_frame_bounds [OF this] show ?thesis by simp
qed

section \<open>A reverted call with a nested call\<close>

text \<open>
  Three contracts: the root calls A, A calls B and then reverts, B writes slot 0.  The undo
  records of B's write are dropped when B's frame commits, so reverting A does not undo it.
\<close>

definition addr_a :: bytes where
  "addr_a = replicate 19 0 @ [0xAA]"

definition addr_b :: bytes where
  "addr_b = replicate 19 0 @ [0xBB]"

text \<open>\<open>SSTORE(0, 1)\<close>.\<close>

definition code_b :: bytes where
  "code_b = [0x60, 1, 0x60, 0, 0x55]"

text \<open>\<open>CALL(gas = 65535, to = 0xBB)\<close> without data, then \<open>REVERT(0, 0)\<close>.\<close>

definition code_a :: bytes where
  "code_a = [0x60, 0, 0x60, 0, 0x60, 0, 0x60, 0, 0x60, 0, 0x60, 0xBB, 0x61, 0xFF, 0xFF, 0xF1,
             0x60, 0, 0x60, 0, 0xFD]"

definition code_root :: bytes where
  "code_root = [0x60, 0, 0x60, 0, 0x60, 0, 0x60, 0, 0x60, 0, 0x60, 0xAA, 0x61, 0xFF, 0xFF, 0xF1]"

definition nested_world :: world where
  "nested_world = set_code addr_a code_a (set_code addr_b code_b world_new)"

lemma be_bytes_0: "be_bytes k 0 = replicate k 0"
  by (induction k) (auto simp: replicate_append_same)

lemma u256_to_be_byte:
  assumes "n < 256"
  shows "u256_to_be (of_nat n) = replicate 31 0 @ [of_nat n]"
proof -
  have thirty_two: "(32 :: nat) = Suc 31" by simp
  have "unat (of_nat n :: u256) = n"
    using assms by (simp add: unat_of_nat)
  then show ?thesis
    unfolding u256_to_be_def thirty_two using assms by (simp only: be_bytes.simps) (simp add: be_bytes_0)
qed

lemmas call_eval =
  vm_eval op_call_def call_target_def call_contract_def call_return_def set_ret_def read_range_def
  get_range_def energy_for_def forwarded_energy_def remaining_def op_return_def stop_out_def
  op_sstore_def vm_world_def bool_u256_def mk_exec_def

lemma callee_a: "drop 12 (u256_to_be 0xAA) = addr_a"
  using u256_to_be_byte [of "0xAA"] by (simp add: addr_a_def)

lemma callee_b: "drop 12 (u256_to_be 0xBB) = addr_b"
  using u256_to_be_byte [of "0xBB"] by (simp add: addr_b_def)

lemma code_at: "get_code nested_world addr_a = code_a" "get_code nested_world addr_b = code_b"
  by (simp_all add: nested_world_def set_code_def get_code_def addr_a_def addr_b_def world_new_def
      world_with_def)

lemma code_nonempty: "code_a \<noteq> []" "code_b \<noteq> []"
  by (simp_all add: code_a_def code_b_def)

lemma fresh_slot: "world_sload nested_world addr_b 0 = 0"
  by (simp add: nested_world_def set_code_def world_sload_def world_new_def world_with_def)

lemma run_b:
  "run_loop 5 cr \<lparr>ctx_address = addr_b, ctx_code = code_b, ctx_calldata = cd, ctx_depth = d\<rparr>
     (init_frame nested_world 64451)
   = Finished \<lparr>e_halt = HaltStop, e_energy_used = 20006, e_return_data = [], e_stack_top = None\<rparr>
       (world_sstore addr_b 0 1 nested_world)"
  by (simp add: call_eval init_frame_def meter_new_def code_b_def fresh_slot)

lemma run_b_frame:
  assumes "5 \<le> n" and "d \<le> MAX_CALL_DEPTH"
  shows "start_frame (run_loop n cr) nested_world addr_b code_b cd 64451 d
   = Finished \<lparr>e_halt = HaltStop, e_energy_used = 20006, e_return_data = [], e_stack_top = None\<rparr>
       (world_sstore addr_b 0 1 nested_world)"
  using assms run_loop_more_fuel [OF _ assms(1)] run_b by (simp add: start_frame_def)

lemma run_a:
  "run_loop 16 cr \<lparr>ctx_address = addr_a, ctx_code = code_a, ctx_calldata = cd, ctx_depth = 1\<rparr>
     (init_frame nested_world 65535)
   = Finished \<lparr>e_halt = HaltRevert, e_energy_used = 20073, e_return_data = [], e_stack_top = Some 1\<rparr>
       (commit (checkpoint nested_world) (world_sstore addr_b 0 1 nested_world))"
  by (simp add: call_eval init_frame_def meter_new_def code_a_def callee_b code_at code_nonempty
      run_b_frame MAX_CALL_DEPTH_def)

lemma run_a_frame:
  assumes "16 \<le> n"
  shows "start_frame (run_loop n cr) nested_world addr_a code_a cd 65535 (Suc 0)
   = Finished \<lparr>e_halt = HaltRevert, e_energy_used = 20073, e_return_data = [], e_stack_top = Some 1\<rparr>
       (commit (checkpoint nested_world) (world_sstore addr_b 0 1 nested_world))"
  using run_loop_more_fuel [OF _ assms] run_a [unfolded One_nat_def] by (simp add: start_frame_def MAX_CALL_DEPTH_def)

lemma run_root:
  "run_loop 30 cr \<lparr>ctx_address = [], ctx_code = code_root, ctx_calldata = [], ctx_depth = 0\<rparr>
     (init_frame nested_world 100000)
   = Finished \<lparr>e_halt = HaltStop, e_energy_used = 20134, e_return_data = [], e_stack_top = Some 0\<rparr>
       (revert_to (checkpoint nested_world)
         (commit (checkpoint nested_world) (world_sstore addr_b 0 1 nested_world)))"
  by (simp add: call_eval init_frame_def meter_new_def code_root_def callee_a code_at code_nonempty
      run_a_frame)

text \<open>
  C4: A reverted call can leave writes behind.  The root calls A, A calls B, B writes 1 to its
  slot 0 and succeeds, then A reverts.  The root sees its call fail (0 on the stack), yet B's
  write survives: \<open>commit\<close> of the inner frame truncated the journal, so the revert of the
  outer frame had no record left to undo.
\<close>

theorem reverted_call_leaves_nested_write:
  "\<exists>e w'. run_frame cr nested_world [] code_root [] 100000 0 = Finished e w'
     \<and> e_halt e = HaltStop \<and> e_stack_top e = Some 0
     \<and> world_sload nested_world addr_b 0 = 0 \<and> world_sload w' addr_b 0 = 1"
proof -
  let ?w' = "revert_to (checkpoint nested_world)
    (commit (checkpoint nested_world) (world_sstore addr_b 0 1 nested_world))"
  let ?e = "\<lparr>e_halt = HaltStop, e_energy_used = 20134, e_return_data = [], e_stack_top = Some 0\<rparr>"
  have "run_frame cr nested_world [] code_root [] 100000 0 = Finished ?e ?w'"
    using run_root by (intro run_frame_eq_run_loop [where n = 30]) (simp_all add: MAX_CALL_DEPTH_def)
  moreover have "world_sload ?w' addr_b 0 = 1"
    by (simp add: revert_to_def commit_def checkpoint_def nested_world_def set_code_def world_new_def
        world_with_def world_sstore_def push_journal_def world_sload_def Let_def)
  moreover have "e_halt ?e = HaltStop \<and> e_stack_top ?e = Some 0"
    by simp
  ultimately show ?thesis
    using fresh_slot by blast
qed

section \<open>The caller's share of the energy\<close>

text \<open>
  A CALL into another contract charges the caller exactly what the callee spent (the result
  of that charge is ignored in the source, but it cannot fail), and leaves the caller at least
  a 64th of the energy it had, whatever the callee does.
\<close>

theorem call_charges_callee_energy:
  assumes run: "start_frame (run_loop n cr) (f_world f) callee code input
      (forwarded_energy (f_meter f) gas) (ctx_depth ctx + 1) = Finished sub w"
    and "meter_limit (f_meter f) < 2 ^ 64"
  shows "\<exists>r f'. call_contract (start_frame (run_loop n cr)) ctx gas callee code input f = Val r f'
       \<and> remaining (f_meter f') + e_energy_used sub = remaining (f_meter f)
       \<and> remaining (f_meter f) div 64 \<le> remaining (f_meter f')"
proof -
  let ?meter = "case charge (f_meter f) (e_energy_used sub) of Some m \<Rightarrow> m | None \<Rightarrow> f_meter f"
  obtain r f' where val: "call_contract (start_frame (run_loop n cr)) ctx gas callee code input f = Val r f'"
    and meter: "f_meter f' = ?meter"
    using run by (simp add: call_contract_def Let_def)
  have "e_energy_used sub \<le> forwarded_energy (f_meter f) gas"
    using run by (auto simp: start_frame_def init_frame_def meter_new_def split: if_splits
        dest!: run_loop_energy)
  then have used: "e_energy_used sub \<le> remaining (f_meter f) - remaining (f_meter f) div 64"
    by (simp add: forwarded_energy_def Let_def)
  have "remaining ?meter + e_energy_used sub = remaining (f_meter f)"
  proof (cases "charge (f_meter f) (e_energy_used sub)")
    case None
    with used assms(2) have "meter_limit (f_meter f) < meter_used (f_meter f)"
      by (auto simp: charge_None)
    with None used show ?thesis by (simp add: remaining_def)
  next
    case (Some m)
    then show ?thesis by (simp add: charge_remaining)
  qed
  with val meter used show ?thesis by fastforce
qed

theorem call_charges_callee_energy_witness:
  "\<exists>r f'. call_contract (start_frame (run_loop 9 \<lparr>c_sha256 = id, c_keccak256 = id, c_recover = \<lambda>_ _ _. None\<rparr>))
       \<lparr>ctx_address = addr_a, ctx_code = code_a, ctx_calldata = [], ctx_depth = 1\<rparr>
       0xFFFF addr_b code_b []
       \<lparr>f_pc = 15, f_stack = [], f_mem = [], f_ret = [],
        f_meter = \<lparr>meter_limit = 65535, meter_used = 61\<rparr>, f_world = nested_world\<rparr> = Val r f'
     \<and> remaining (f_meter f') + 20006 = 65474 \<and> 1023 \<le> remaining (f_meter f')"
proof -
  let ?cr = "\<lparr>c_sha256 = id, c_keccak256 = id, c_recover = \<lambda>_ _ _. None\<rparr>"
  let ?ctx = "\<lparr>ctx_address = addr_a, ctx_code = code_a, ctx_calldata = [], ctx_depth = 1\<rparr>"
  let ?f = "\<lparr>f_pc = 15, f_stack = [], f_mem = [], f_ret = [],
        f_meter = \<lparr>meter_limit = 65535, meter_used = 61\<rparr>, f_world = nested_world\<rparr>"
  have "start_frame (run_loop 9 ?cr) (f_world ?f) addr_b code_b []
      (forwarded_energy (f_meter ?f) 0xFFFF) (ctx_depth ?ctx + 1)
      = Finished \<lparr>e_halt = HaltStop, e_energy_used = 20006, e_return_data = [], e_stack_top = None\<rparr>
          (world_sstore addr_b 0 1 nested_world)"
    by (simp add: forwarded_energy_def remaining_def low_u64_def run_b_frame MAX_CALL_DEPTH_def)
  from call_charges_callee_energy [OF this] show ?thesis
    by (simp add: remaining_def)
qed

end
