(* ===== verification/Vm_Interp.thy ===== *)
theory Vm_Interp
  imports Vm_Engine_Props
begin

text \<open>
  The single-contract entry (\<open>src/crates/vm/src/interp.rs\<close>) and the call dispatch
  (\<open>src/crates/vm/src/call.rs\<close>) over the engine: the executing contract's storage is a bound
  host, and the engine's halts are projected onto a narrower set.
\<close>

section \<open>Definitions\<close>

datatype interp_halt =
    IStop
  | IReturn
  | IRevert
  | IOutOfEnergy
  | IStackUnderflow
  | IStackOverflow
  | IBadOpcode byte
  | IBadJump

record outcome =
  o_halt :: interp_halt
  o_stack_top :: "u256 option"
  o_energy_used :: u64
  o_return_data :: bytes

fun map_halt :: "halt \<Rightarrow> interp_halt" where
  "map_halt HaltStop = IStop"
| "map_halt HaltSelfDestruct = IStop"
| "map_halt HaltReturn = IReturn"
| "map_halt HaltRevert = IRevert"
| "map_halt HaltOutOfEnergy = IOutOfEnergy"
| "map_halt HaltDepthLimit = IOutOfEnergy"
| "map_halt HaltStackUnderflow = IStackUnderflow"
| "map_halt HaltStackOverflow = IStackOverflow"
| "map_halt (HaltBadOpcode b) = IBadOpcode b"
| "map_halt HaltBadJump = IBadJump"

definition to_outcome :: "exec \<Rightarrow> outcome" where
  "to_outcome e =
     \<lparr>o_halt = map_halt (e_halt e), o_stack_top = e_stack_top e,
      o_energy_used = e_energy_used e, o_return_data = e_return_data e\<rparr>"

text \<open>The host after the run is the backend of the resulting world.\<close>

definition run_with_input :: "crypto \<Rightarrow> bytes \<Rightarrow> bytes \<Rightarrow> u64 \<Rightarrow> host \<Rightarrow> outcome frame_out" where
  "run_with_input cr code calldata limit host =
     map_frame_out to_outcome
       (run_frame cr (with_host host) (replicate 20 0) code calldata limit 0)"

definition run :: "crypto \<Rightarrow> bytes \<Rightarrow> u64 \<Rightarrow> host \<Rightarrow> outcome frame_out" where
  "run cr code limit host = run_with_input cr code [] limit host"

record dispatch_result =
  d_success :: bool
  d_output :: bytes
  d_energy_used :: u64

definition to_dispatch :: "outcome \<Rightarrow> dispatch_result" where
  "to_dispatch out =
     \<lparr>d_success = (o_halt out = IStop \<or> o_halt out = IReturn), d_output = [],
      d_energy_used = o_energy_used out\<rparr>"

definition dispatch_call ::
  "crypto \<Rightarrow> byte \<Rightarrow> bytes \<Rightarrow> bytes \<Rightarrow> u64 \<Rightarrow> host \<Rightarrow> dispatch_result frame_out" where
  "dispatch_call cr address_low_byte input code energy_limit host =
     (case energy_for address_low_byte input of
        Some cost \<Rightarrow>
          if energy_limit < cost then
            Finished \<lparr>d_success = False, d_output = [], d_energy_used = energy_limit\<rparr> (with_host host)
          else
            Finished
              \<lparr>d_success = True,
               d_output = (case precompile_execute cr address_low_byte input of Some out \<Rightarrow> out | None \<Rightarrow> []),
               d_energy_used = cost\<rparr> (with_host host)
      | None \<Rightarrow> map_frame_out to_dispatch (run_with_input cr code input energy_limit host))"

section \<open>The host path\<close>

text \<open>
  \<open>host_frame\<close>: the world is bound to a host and knows no other contract's code.  Every
  opcode keeps this, no call enters another contract, and self-destruction is refused.
\<close>

named_theorems vm_host \<open>computations that stay on the host path\<close>

definition host_world :: "world \<Rightarrow> bool" where
  "host_world w \<longleftrightarrow> host_backed w \<and> w_code w = Map.empty"

definition host_halt :: "halt \<Rightarrow> bool" where
  "host_halt h \<longleftrightarrow> h \<noteq> HaltSelfDestruct \<and> h \<noteq> HaltDepthLimit"

definition host_ok :: "'a vm \<Rightarrow> bool" where
  "host_ok m \<longleftrightarrow>
     (\<forall>f x f'. host_world (f_world f) \<longrightarrow> m f = Val x f' \<longrightarrow> host_world (f_world f')) \<and>
     (\<forall>f h out f'. host_world (f_world f) \<longrightarrow> m f = Stopped h out f' \<longrightarrow>
        host_halt h \<and> host_world (f_world f'))"

lemma host_okI:
  "(\<And>f x f'. host_world (f_world f) \<Longrightarrow> m f = Val x f' \<Longrightarrow> host_world (f_world f')) \<Longrightarrow>
   (\<And>f h out f'. host_world (f_world f) \<Longrightarrow> m f = Stopped h out f' \<Longrightarrow>
      host_halt h \<and> host_world (f_world f')) \<Longrightarrow> host_ok m"
  unfolding host_ok_def by blast

lemma host_Val: "host_ok m \<Longrightarrow> host_world (f_world f) \<Longrightarrow> m f = Val x f' \<Longrightarrow> host_world (f_world f')"
  unfolding host_ok_def by blast

lemma host_Stopped:
  "host_ok m \<Longrightarrow> host_world (f_world f) \<Longrightarrow> m f = Stopped h out f' \<Longrightarrow>
   host_halt h \<and> host_world (f_world f')"
  unfolding host_ok_def by blast

lemma host_bind [vm_host]: "host_ok m \<Longrightarrow> (\<And>x. host_ok (k x)) \<Longrightarrow> host_ok (vm_bind m k)"
  by (rule host_okI) (auto simp: vm_bind_Val vm_bind_Stopped dest: host_Val host_Stopped)

lemma host_if [vm_host]: "host_ok m \<Longrightarrow> host_ok m' \<Longrightarrow> host_ok (if b then m else m')"
  by simp

lemma host_prims [vm_host]:
  "host_ok (vm_return x)" "host_ok (vm_gets g)" "host_ok (vm_mem u)" "host_ok (set_ret r)"
  "host_ok (advance c)" "host_ok pop" "host_ok (push v)" "host_ok (vm_charge e)"
  "host_ok (vm_expand i)" "host_ok (jump_to ctx d)" "host_ok op_swap1"
  by (auto simp: host_ok_def vm_return_def vm_gets_def vm_mem_def set_ret_def advance_def pop_def
      push_def vm_charge_def vm_expand_def jump_to_def op_swap1_def host_halt_def
      split: sum.splits list.splits option.splits ctl.splits if_splits)

lemma host_stop [vm_host]: "host_halt h \<Longrightarrow> host_ok (stop_out h out)" "host_halt h \<Longrightarrow> host_ok (stop h)"
  by (rule host_okI; auto simp: stop_out_def stop_def)+

lemma host_push_adv [vm_host]: "host_ok (push_adv v)"
  unfolding push_adv_def by (intro vm_host)

lemma host_push_ops [vm_host]:
  "host_ok (op_push1 ctx)" "host_ok (op_push2 ctx)" "host_ok op_dup1"
  by (rule host_okI; auto simp: op_push1_def op_push2_def op_dup1_def Let_def host_halt_def
      split: list.splits dest!: host_Val [OF host_push_adv, rotated] host_Stopped [OF host_push_adv, rotated])+

lemma host_pop_u64 [vm_host]: "host_ok pop_u64"
  unfolding pop_u64_def by (intro vm_host)

lemma host_binop [vm_host]: "host_ok (binop g)"
  unfolding binop_def by (intro vm_host)

lemma host_sstore [vm_host]: "host_ok (vm_world (world_sstore a k v))"
  by (rule host_okI)
    (auto simp: vm_world_def host_world_def host_backed_def world_sstore_def split: backend.splits)

lemma host_get_code: "host_world w \<Longrightarrow> get_code w a = []"
  by (auto simp: host_world_def host_backed_def get_code_def split: backend.splits)

lemma host_call_target [vm_host]: "host_ok (call_target cr rn ctx g w input)"
proof -
  let ?callee = "drop 12 (u256_to_be w)"
  have other: "host_ok (vm_bind (vm_gets (\<lambda>f. get_code (f_world f) ?callee)) (\<lambda>callee_code.
      if callee_code = [] then vm_return (False, [])
      else call_contract rn ctx g ?callee callee_code input))"
    by (rule host_okI) (auto simp: vm_bind_def vm_gets_def vm_return_def host_get_code)
  show ?thesis
    unfolding call_target_def Let_def by (intro vm_host other)
qed

lemma host_self_destruct [vm_host]: "host_ok (op_self_destruct b ctx)"
  by (rule host_okI)
    (auto simp: op_self_destruct_def vm_bind_def vm_gets_def stop_def stop_out_def host_world_def
      host_halt_def)

lemma host_exec_op [vm_host]: "host_ok (exec_op cr rn ctx b op)"
  by (cases op; simp only: exec_op.simps op_copy_def op_sstore_def op_return_def op_call_def
      call_return_def op_vote_witness_def Let_def split_def;
      intro vm_host; simp add: host_halt_def)

definition step_body :: "crypto \<Rightarrow> runner \<Rightarrow> frame_ctx \<Rightarrow> byte \<Rightarrow> opcode \<Rightarrow> unit vm" where
  "step_body cr rn ctx b op =
     vm_bind (if op \<noteq> Sstore then vm_charge (base_cost op) else vm_return ())
       (\<lambda>_. vm_bind (exec_op cr rn ctx b op) advance)"

lemma host_step_body [vm_host]: "host_ok (step_body cr rn ctx b op)"
  unfolding step_body_def by (intro vm_host)

lemma host_step: "host_ok (step cr rn ctx)"
proof (rule host_okI)
  show "host_world (f_world f')" if "host_world (f_world f)" "step cr rn ctx f = Val x f'" for f x f'
    using that(2) host_Val [OF host_step_body that(1)]
    unfolding step_def step_body_def [symmetric] Let_def by (cases "from_u8 (ctx_code ctx ! f_pc f)") auto
  show "host_halt h \<and> host_world (f_world f')"
    if "host_world (f_world f)" "step cr rn ctx f = Stopped h out f'" for f h out f'
    using that host_Stopped [OF host_step_body that(1)]
    unfolding step_def step_body_def [symmetric] Let_def
    by (cases "from_u8 (ctx_code ctx ! f_pc f)") (auto simp: host_halt_def)
qed

lemma host_run_loop:
  "run_loop n cr ctx f = Finished e w \<Longrightarrow> host_world (f_world f) \<Longrightarrow> host_halt (e_halt e) \<and> host_world w"
proof (induction n arbitrary: f)
  case 0
  then show ?case by simp
next
  case (Suc n)
  show ?case
  proof (cases "f_pc f < length (ctx_code ctx)")
    case True
    show ?thesis
    proof (cases "step cr (start_frame (run_loop n cr)) ctx f")
      case (Val u f')
      with host_step Suc.prems(2) have "host_world (f_world f')"
        unfolding host_ok_def by blast
      with Suc.prems(1) True Val Suc.IH [of f'] show ?thesis
        by (simp add: run_loop.simps)
    next
      case (Stopped h out f')
      with host_step Suc.prems(2) have "host_halt h \<and> host_world (f_world f')"
        unfolding host_ok_def by blast
      with Suc.prems True Stopped show ?thesis
        by (auto simp: mk_exec_def run_loop.simps)
    qed (use Suc.prems True in \<open>auto simp: run_loop.simps\<close>)
  next
    case False
    with Suc.prems show ?thesis by (auto simp: mk_exec_def run_loop.simps host_halt_def)
  qed
qed

section \<open>Properties\<close>

text \<open>
  On the single-contract path the projection of halts loses nothing: the engine never
  self-destructs there and never reaches the depth limit, so the two halts \<open>map_halt\<close> folds
  away cannot occur; and the resulting world is still bound to a host.
\<close>

theorem host_path_halts:
  assumes "run_frame cr (with_host host) (replicate 20 0) code calldata limit 0 = Finished e w"
  shows "e_halt e \<noteq> HaltSelfDestruct \<and> e_halt e \<noteq> HaltDepthLimit \<and> (\<exists>host'. w_backend w = BackendHost host')"
proof -
  have "host_world (with_host host)"
    by (simp add: host_world_def host_backed_def with_host_def world_with_def)
  with assms have "host_halt (e_halt e) \<and> host_world w"
    by (auto simp: run_frame_def start_frame_def init_frame_def MAX_CALL_DEPTH_def dest!: host_run_loop)
  then show ?thesis
    by (auto simp: host_halt_def host_world_def host_backed_def split: backend.splits)
qed

theorem host_path_halts_witness:
  "\<exists>e w. run_frame \<lparr>c_sha256 = id, c_keccak256 = id, c_recover = \<lambda>_ _ _. None\<rparr>
       (with_host Map.empty) (replicate 20 0) [0xff] [] 10 0 = Finished e w
     \<and> e_halt e \<noteq> HaltSelfDestruct \<and> e_halt e \<noteq> HaltDepthLimit"
proof -
  let ?cr = "\<lparr>c_sha256 = id, c_keccak256 = id, c_recover = \<lambda>_ _ _. None\<rparr>"
  let ?e = "\<lparr>e_halt = HaltBadOpcode 0xff, e_energy_used = 0, e_return_data = [], e_stack_top = None\<rparr>"
  have "run_frame ?cr (with_host Map.empty) (replicate 20 0) [0xff] [] 10 0
      = Finished ?e (with_host Map.empty)"
    by (rule run_frame_eq_run_loop [where n = 2])
      (simp_all add: MAX_CALL_DEPTH_def vm_eval init_frame_def meter_new_def op_self_destruct_def
        stop_def stop_out_def mk_exec_def host_backed_def with_host_def world_with_def)
  then show ?thesis
    using host_path_halts by blast
qed

text \<open>
  A call dispatched by \<open>call\<close> never reports more energy than its limit, whether it runs a
  precompile (also one it cannot afford) or bytecode, and it always returns or panics.
\<close>

theorem dispatch_within_limit:
  "case dispatch_call cr b input code limit host of
     Finished r w \<Rightarrow> d_energy_used r \<le> limit
   | Crashed p \<Rightarrow> True
   | OutOfFuel \<Rightarrow> False"
proof (cases "energy_for b input")
  case None
  have "case run_frame cr (with_host host) (replicate 20 0) code input limit 0 of
      Finished e w' \<Rightarrow> e_energy_used e \<le> limit | Crashed p \<Rightarrow> True | OutOfFuel \<Rightarrow> False"
    using run_frame_outcome by blast
  with None show ?thesis
    by (auto simp: dispatch_call_def run_with_input_def to_dispatch_def to_outcome_def
        split: frame_out.splits)
next
  case (Some cost)
  then show ?thesis by (simp add: dispatch_call_def)
qed

end
