(* ===== verification/Vm_Value.thy ===== *)
theory Vm_Value
  imports Vm_Interp
begin

text \<open>
  The value a run of the virtual machine moves.  \<open>solvent\<close> says that no balance is negative and that all balances and
  the burned amount add up to a total that fits in an \<open>i64\<close>.  Bytecode keeps it: it moves value only by
  self-destruction, which ends the frame, so the journal of a running frame holds storage writes only and rolling
  back never touches a balance.
\<close>

section \<open>Worlds whose balances add up\<close>

definition accounts21 :: "address set" where
  "accounts21 = {a. length (as_bytes a) = ADDRESS_LEN}"

definition solvent :: "backend \<Rightarrow> int \<Rightarrow> world \<Rightarrow> bool" where
  "solvent B T w \<longleftrightarrow>
     w_backend w = B \<and> \<not> host_backed w \<and> T \<le> i64_max \<and> (\<forall>a. 0 \<le> world_balance w a) \<and> 0 \<le> w_burned w
     \<and> total_balance w accounts21 + w_burned w = T \<and> dom (w_balances w) \<subseteq> accounts21"

definition only_storage :: "journal_entry list \<Rightarrow> bool" where
  "only_storage st \<longleftrightarrow> (\<forall>e\<in>set st. \<exists>k v. e = JStorage k v)"

definition running :: "backend \<Rightarrow> int \<Rightarrow> journal_entry list \<Rightarrow> world \<Rightarrow> bool" where
  "running B T J w \<longleftrightarrow> solvent B T w \<and> (\<exists>st. w_journal w = st @ J \<and> only_storage st)"

definition settled :: "backend \<Rightarrow> int \<Rightarrow> journal_entry list \<Rightarrow> halt \<Rightarrow> world \<Rightarrow> bool" where
  "settled B T J h w \<longleftrightarrow>
     solvent B T w \<and> (\<exists>st. w_journal w = st @ J \<and> (h \<noteq> HaltSelfDestruct \<longrightarrow> only_storage st))"

lemma finite_accounts21 [simp]: "finite accounts21"
proof -
  have "finite {bs :: bytes. length bs = ADDRESS_LEN}"
    using finite_lists_length_eq [of "UNIV :: byte set" ADDRESS_LEN] by simp
  then have "finite (Address ` {bs :: bytes. length bs = ADDRESS_LEN})" by simp
  moreover have "accounts21 \<subseteq> Address ` {bs :: bytes. length bs = ADDRESS_LEN}"
    by (auto simp: accounts21_def image_iff intro: exI [of _ "as_bytes _"]) (metis address.collapse)
  ultimately show ?thesis by (rule finite_subset [rotated])
qed

lemma only_storage_simps [simp]:
  "only_storage []" "only_storage (JStorage k v # st) \<longleftrightarrow> only_storage st"
  "only_storage (st @ st') \<longleftrightarrow> only_storage st \<and> only_storage st'"
  by (auto simp: only_storage_def)

lemma running_settled: "running B T J w \<Longrightarrow> settled B T J h w"
  by (auto simp: running_def settled_def)

lemma running_start: "solvent B T w \<Longrightarrow> running B T (w_journal w) w"
  by (auto simp: running_def intro: exI [of _ "[]"])

section \<open>The mutations of a frame\<close>

lemma solvent_cong:
  assumes "w_backend w' = w_backend w" "w_balances w' = w_balances w" "w_burned w' = w_burned w"
  shows "solvent B T w' = solvent B T w"
proof -
  have "world_balance w' = world_balance w" and "host_backed w' = host_backed w"
    unfolding fun_eq_iff world_balance_def host_backed_def assms by simp_all
  then show ?thesis using assms by (simp add: solvent_def total_balance_def)
qed

lemma solvent_sstore:
  assumes "solvent B T w" shows "solvent B T (world_sstore a k v w)"
proof -
  from assms have "\<not> host_backed w" by (simp add: solvent_def)
  then show ?thesis
    using assms solvent_cong [of "world_sstore a k v w" w B T]
    by (cases "w_backend w") (auto simp: host_backed_def world_sstore_def push_journal_def Let_def)
qed

lemma running_sstore:
  assumes "running B T J w" shows "running B T J (world_sstore a k v w)"
proof -
  from assms obtain st where st: "solvent B T w" "w_journal w = st @ J" "only_storage st"
    by (auto simp: running_def)
  then have "w_journal (world_sstore a k v w) = (JStorage (a, k) (w_storage w (a, k)) # st) @ J"
    by (auto simp: solvent_def host_backed_def world_sstore_def push_journal_def Let_def split: backend.splits)
  moreover have "only_storage (JStorage (a, k) (w_storage w (a, k)) # st)" using st(3) by simp
  ultimately show ?thesis using solvent_sstore [OF st(1)] unfolding running_def by blast
qed

lemma total_balance_member:
  "a \<in> accounts21 \<Longrightarrow> total_balance w accounts21 = world_balance w a + (\<Sum>x\<in>accounts21 - {a}. world_balance w x)"
  unfolding total_balance_def by (rule sum.remove) simp_all

lemma balance_le_total:
  assumes "solvent B T w" "a \<in> accounts21" shows "world_balance w a + w_burned w \<le> T"
  using assms total_balance_member [OF assms(2), of w] sum_nonneg [of "accounts21 - {a}" "world_balance w"]
  by (simp add: solvent_def)

lemma balances2_le_total:
  assumes "solvent B T w" "a \<in> accounts21" "b \<in> accounts21" "a \<noteq> b"
  shows "world_balance w a + world_balance w b \<le> T"
proof -
  have "(\<Sum>x\<in>accounts21 - {a}. world_balance w x) = world_balance w b + (\<Sum>x\<in>accounts21 - {a} - {b}. world_balance w x)"
    using assms by (intro sum.remove) simp_all
  moreover have "0 \<le> (\<Sum>x\<in>accounts21 - {a} - {b}. world_balance w x)"
    using assms(1) by (intro sum_nonneg) (simp add: solvent_def)
  ultimately show ?thesis using assms(1) total_balance_member [OF assms(2), of w] by (simp add: solvent_def)
qed

lemma solvent_suicide:
  assumes s: "solvent B T w" and cb: "c \<in> accounts21" "b \<in> accounts21"
  shows "solvent B T (suicide c b w)"
proof -
  let ?w = "suicide c b w"
  have nn: "0 \<le> world_balance w a" for a using s by (simp add: solvent_def)
  have dom: "dom (w_balances ?w) \<subseteq> accounts21"
    using s cb by (auto simp: solvent_def suicide_def suicide_mark_def suicide_balances_def write_balance_def ensure_account_def
        push_journal_def Let_def split: if_splits)
  have "(\<forall>a. 0 \<le> world_balance ?w a) \<and> 0 \<le> w_burned ?w \<and> total_balance ?w accounts21 + w_burned ?w = T"
  proof (cases "b = c")
    case True
    have "world_balance w c + w_burned w \<le> i64_max" "0 \<le> w_burned w"
      using balance_le_total [OF s cb(1)] s by (auto simp: solvent_def)
    then have "w_burned ?w = w_burned w + world_balance w c"
      using True nn [of c] by (auto simp: burned_suicide i64_sat_add_def i64_sat_def i64_bounds_defs)
    moreover have "total_balance ?w accounts21 = total_balance w accounts21 - world_balance w c"
      using True total_balance_member [OF cb(1), of ?w] total_balance_member [OF cb(1), of w] by (simp add: balance_suicide)
    ultimately show ?thesis using True s nn by (auto simp: solvent_def balance_suicide)
  next
    case False
    have "world_balance w b + world_balance w c \<le> i64_max"
      using balances2_le_total [OF s cb(2,1) False] s by (auto simp: solvent_def)
    then have bal: "world_balance ?w = (world_balance w)(c := 0, b := world_balance w b + world_balance w c)"
      using False nn [of b] nn [of c] by (auto simp: balance_suicide i64_sat_add_def i64_sat_def i64_bounds_defs)
    have bu: "w_burned ?w = w_burned w" using False by (simp add: burned_suicide)
    have "total_balance ?w accounts21 = total_balance w accounts21"
    proof -
      have sp: "total_balance v accounts21 = world_balance v c + (world_balance v b + (\<Sum>x\<in>accounts21 - {c} - {b}. world_balance v x))" for v
        using cb False total_balance_member [OF cb(1), of v] by (simp add: sum.remove [of _ b])
      show ?thesis unfolding sp bal using False by simp
    qed
    with bu bal s nn show ?thesis by (auto simp: solvent_def)
  qed
  moreover have "host_backed ?w = host_backed w" unfolding host_backed_def backend_suicide ..
  ultimately show ?thesis using dom s by (simp add: solvent_def)
qed

lemma suicide_journal: "\<exists>st. w_journal (suicide c b w) = st @ w_journal w"
  by (auto simp: suicide_def suicide_mark_def suicide_balances_def write_balance_def ensure_account_def push_journal_def Let_def)

section \<open>Every computation of a frame\<close>

named_theorems vm_value \<open>computations that keep the balances adding up\<close>

definition value_ok :: "'a vm \<Rightarrow> bool" where
  "value_ok m \<longleftrightarrow>
     (\<forall>B T J f x f'. running B T J (f_world f) \<longrightarrow> m f = Val x f' \<longrightarrow> running B T J (f_world f')) \<and>
     (\<forall>B T J f h out f'. running B T J (f_world f) \<longrightarrow> m f = Stopped h out f' \<longrightarrow> settled B T J h (f_world f'))"

definition runner_ok :: "runner \<Rightarrow> bool" where
  "runner_ok rn \<longleftrightarrow>
     (\<forall>B T J w a c i l d e w'. running B T J w \<longrightarrow> rn w a c i l d = Finished e w' \<longrightarrow> settled B T J (e_halt e) w')"

lemma value_okI:
  "(\<And>B T J f x f'. running B T J (f_world f) \<Longrightarrow> m f = Val x f' \<Longrightarrow> running B T J (f_world f')) \<Longrightarrow>
   (\<And>B T J f h out f'. running B T J (f_world f) \<Longrightarrow> m f = Stopped h out f' \<Longrightarrow> settled B T J h (f_world f')) \<Longrightarrow>
   value_ok m"
  unfolding value_ok_def by blast

lemma value_Val: "value_ok m \<Longrightarrow> running B T J (f_world f) \<Longrightarrow> m f = Val x f' \<Longrightarrow> running B T J (f_world f')"
  unfolding value_ok_def by blast

lemma value_Stopped:
  "value_ok m \<Longrightarrow> running B T J (f_world f) \<Longrightarrow> m f = Stopped h out f' \<Longrightarrow> settled B T J h (f_world f')"
  unfolding value_ok_def by blast

lemma value_bind [vm_value]: "value_ok m \<Longrightarrow> (\<And>x. value_ok (k x)) \<Longrightarrow> value_ok (vm_bind m k)"
  by (rule value_okI) (auto simp: vm_bind_Val vm_bind_Stopped dest: value_Val value_Stopped)

lemma value_if [vm_value]: "value_ok m \<Longrightarrow> value_ok m' \<Longrightarrow> value_ok (if b then m else m')"
  by simp

text \<open>A computation that leaves the world alone.\<close>

lemma value_world_unchanged:
  "(\<And>f x f'. m f = Val x f' \<Longrightarrow> f_world f' = f_world f) \<Longrightarrow>
   (\<And>f h out f'. m f = Stopped h out f' \<Longrightarrow> f_world f' = f_world f) \<Longrightarrow> value_ok m"
  by (rule value_okI) (auto simp: running_settled)

lemma value_prims [vm_value]:
  "value_ok (vm_return x)" "value_ok (vm_gets g)" "value_ok (vm_mem u)" "value_ok (set_ret r)"
  "value_ok (advance c)" "value_ok pop" "value_ok (push v)" "value_ok (vm_charge e)"
  "value_ok (vm_expand i)" "value_ok (jump_to ctx d)" "value_ok op_swap1" "value_ok (stop_out h out)" "value_ok (stop h)"
  by (rule value_world_unchanged;
      auto simp: vm_return_def vm_gets_def vm_mem_def set_ret_def advance_def pop_def push_def vm_charge_def vm_expand_def
        jump_to_def op_swap1_def stop_out_def stop_def
      split: sum.splits list.splits option.splits ctl.splits if_splits)+

lemma value_push_adv [vm_value]: "value_ok (push_adv v)"
  unfolding push_adv_def by (intro vm_value)

lemma value_push_ops [vm_value]:
  "value_ok (op_push1 ctx)" "value_ok (op_push2 ctx)" "value_ok op_dup1"
  by (rule value_okI; auto simp: op_push1_def op_push2_def op_dup1_def Let_def running_settled
      split: list.splits dest!: value_Val [OF value_push_adv, rotated] value_Stopped [OF value_push_adv, rotated])+

lemma value_pop_u64 [vm_value]: "value_ok pop_u64"
  unfolding pop_u64_def by (intro vm_value)

lemma value_binop [vm_value]: "value_ok (binop g)"
  unfolding binop_def by (intro vm_value)

lemma value_sstore [vm_value]: "value_ok (vm_world (world_sstore a k v))"
  by (rule value_okI) (auto simp: vm_world_def running_sstore)

section \<open>Calls\<close>

lemma undo_storage:
  assumes "only_storage st"
  shows "w_backend (fold undo st w) = w_backend w" "w_balances (fold undo st w) = w_balances w"
    "w_burned (fold undo st w) = w_burned w" "w_journal (fold undo st w) = w_journal w"
  using assms by (induction st arbitrary: w) (auto simp: only_storage_def)

lemma running_commit:
  assumes "solvent B T w" "w_journal w = st @ J'" "J' = st0 @ J" "only_storage st0"
  shows "running B T J (commit (length J') w)"
proof -
  have "w_journal (commit (length J') w) = st0 @ J" using assms(2,3) by (simp add: commit_def)
  moreover have "solvent B T (commit (length J') w)"
    using assms(1) solvent_cong [of "commit (length J') w" w] by (simp add: commit_def)
  ultimately show ?thesis using assms(4) unfolding running_def by blast
qed

lemma running_revert:
  assumes "solvent B T w" "w_journal w = st @ J'" "only_storage st" "J' = st0 @ J" "only_storage st0"
  shows "running B T J (revert_to (length J') w)"
proof -
  let ?w = "fold undo st (w\<lparr>w_journal := J'\<rparr>)"
  have r: "revert_to (length J') w = ?w" using assms(2) by (simp add: revert_to_def Let_def)
  have "solvent B T ?w"
    using assms(1) solvent_cong [of ?w w] undo_storage [OF assms(3)] by simp
  moreover have "w_journal ?w = st0 @ J" using undo_storage [OF assms(3)] assms(4) by simp
  ultimately show ?thesis using assms(5) unfolding running_def r by blast
qed

lemma value_call_contract [vm_value]:
  assumes "runner_ok rn"
  shows "value_ok (call_contract rn ctx g callee code input)"
proof (rule value_okI)
  fix B T J f x f' assume run: "running B T J (f_world f)" and v: "call_contract rn ctx g callee code input f = Val x f'"
  let ?r = "rn (f_world f) callee code input (forwarded_energy (f_meter f) g) (ctx_depth ctx + 1)"
  from v obtain e w where e: "?r = Finished e w"
    by (cases ?r) (auto simp: call_contract_def Let_def)
  from run obtain st0 where st0: "w_journal (f_world f) = st0 @ J" "only_storage st0" by (auto simp: running_def)
  have "running B T (w_journal (f_world f)) (f_world f)" using run by (auto simp: running_def intro: exI [of _ "[]"])
  then have "settled B T (w_journal (f_world f)) (e_halt e) w" using assms e unfolding runner_ok_def by blast
  then obtain st where st: "solvent B T w" "w_journal w = st @ w_journal (f_world f)"
    "e_halt e \<noteq> HaltSelfDestruct \<Longrightarrow> only_storage st" by (auto simp: settled_def)
  show "running B T J (f_world f')"
  proof (cases "halt_is_success (e_halt e)")
    case True
    with v e have "f_world f' = commit (length (w_journal (f_world f))) w"
      by (auto simp: call_contract_def Let_def checkpoint_def)
    with running_commit [OF st(1,2) st0] show ?thesis by simp
  next
    case False
    then have "e_halt e \<noteq> HaltSelfDestruct" by auto
    moreover from v e False have "f_world f' = revert_to (length (w_journal (f_world f))) w"
      by (auto simp: call_contract_def Let_def checkpoint_def)
    ultimately show ?thesis using running_revert [OF st(1,2) st(3) st0] by simp
  qed
next
  fix B T J f h out f' assume "call_contract rn ctx g callee code input f = Stopped h out f'"
  then show "settled B T J h (f_world f')"
    by (auto simp: call_contract_def Let_def split: frame_out.splits)
qed

lemma value_call_target [vm_value]: "runner_ok rn \<Longrightarrow> value_ok (call_target cr rn ctx g w input)"
  unfolding call_target_def Let_def by (intro vm_value)

lemma body20_member: "length b = 20 \<Longrightarrow> from_body b \<in> accounts21"
  by (simp add: accounts21_def from_body_def ADDRESS_LEN_def)

lemma value_suicide:
  assumes "c \<in> accounts21" "b \<in> accounts21"
  shows "value_ok (vm_bind (vm_world (suicide c b)) (\<lambda>_. stop HaltSelfDestruct))"
proof (rule value_okI)
  fix B T J f h out f'
  assume run: "running B T J (f_world f)" and "vm_bind (vm_world (suicide c b)) (\<lambda>_. stop HaltSelfDestruct) f = Stopped h out f'"
  then have f': "h = HaltSelfDestruct" "f_world f' = suicide c b (f_world f)"
    by (auto simp: vm_bind_def vm_world_def stop_def stop_out_def)
  from run suicide_journal [of c b "f_world f"] obtain st where "w_journal (suicide c b (f_world f)) = st @ J"
    by (auto simp: running_def)
  with run f' solvent_suicide [OF _ assms, of B T "f_world f"] show "settled B T J h (f_world f')"
    by (auto simp: running_def settled_def)
qed (auto simp: vm_bind_def vm_world_def stop_def stop_out_def)

lemma value_self_destruct [vm_value]: "value_ok (op_self_destruct b ctx)"
proof (cases "length (ctx_address ctx) = 20")
  case True
  then have "from_body (ctx_address ctx) \<in> accounts21" and "from_body (drop 12 (u256_to_be v)) \<in> accounts21" for v
    by (simp_all add: body20_member)
  with True show ?thesis
    unfolding op_self_destruct_def Let_def by (simp only: simp_thms if_False) (intro vm_value value_suicide)
next
  case False
  then show ?thesis
    unfolding op_self_destruct_def Let_def by (simp only: not_False_eq_True if_True) (intro vm_value)
qed

lemma value_exec_op [vm_value]: "runner_ok rn \<Longrightarrow> value_ok (exec_op cr rn ctx b op)"
  by (cases op; simp only: exec_op.simps op_copy_def op_sstore_def op_return_def op_call_def
      call_return_def op_vote_witness_def Let_def split_def;
      intro vm_value; simp)

lemma value_step_body [vm_value]: "runner_ok rn \<Longrightarrow> value_ok (step_body cr rn ctx b op)"
  unfolding step_body_def by (intro vm_value)

lemma value_step: 
  assumes "runner_ok rn" shows "value_ok (step cr rn ctx)"
proof (rule value_okI)
  show "running B T J (f_world f')" if "running B T J (f_world f)" "step cr rn ctx f = Val x f'" for B T J f x f'
    using that(2) value_Val [OF value_step_body [OF assms] that(1)]
    unfolding step_def step_body_def [symmetric] Let_def by (cases "from_u8 (ctx_code ctx ! f_pc f)") auto
  show "settled B T J h (f_world f')" if "running B T J (f_world f)" "step cr rn ctx f = Stopped h out f'" for B T J f h out f'
    using that value_Stopped [OF value_step_body [OF assms] that(1)] running_settled [OF that(1)]
    unfolding step_def step_body_def [symmetric] Let_def by (cases "from_u8 (ctx_code ctx ! f_pc f)") auto
qed

lemma start_frame_ok:
  assumes "\<And>B T J ctx f e w. running B T J (f_world f) \<Longrightarrow> loop ctx f = Finished e w \<Longrightarrow> settled B T J (e_halt e) w"
  shows "runner_ok (start_frame loop)"
  unfolding runner_ok_def start_frame_def
  by (auto split: if_splits intro: running_settled) (auto intro!: assms simp: init_frame_def)

lemma value_run_loop: "running B T J (f_world f) \<Longrightarrow> run_loop n cr ctx f = Finished e w \<Longrightarrow> settled B T J (e_halt e) w"
proof (induction n arbitrary: B T J ctx f e w)
  case 0
  then show ?case by simp
next
  case (Suc n)
  have rn: "runner_ok (start_frame (run_loop n cr))" by (rule start_frame_ok) (rule Suc.IH)
  show ?case
  proof (cases "f_pc f < length (ctx_code ctx)")
    case True
    show ?thesis
    proof (cases "step cr (start_frame (run_loop n cr)) ctx f")
      case (Val u f')
      from value_Val [OF value_step [OF rn] Suc.prems(1) Val] Suc.prems(2) True Val Suc.IH show ?thesis
        by (simp add: run_loop.simps)
    next
      case (Stopped h out f')
      from value_Stopped [OF value_step [OF rn] Suc.prems(1) Stopped] Suc.prems(2) True Stopped show ?thesis
        by (auto simp: mk_exec_def run_loop.simps)
    qed (use Suc.prems True in \<open>auto simp: run_loop.simps\<close>)
  next
    case False
    with Suc.prems running_settled show ?thesis by (auto simp: mk_exec_def run_loop.simps)
  qed
qed

text \<open>Running a contract keeps every balance non-negative and the sum of balances and burned value.\<close>

lemma run_frame_solvent:
  assumes "solvent B T w" "run_frame cr w a code input limit d = Finished e w'"
  shows "solvent B T w'"
proof -
  have "runner_ok (run_frame cr)"
    unfolding runner_ok_def
  proof (intro allI impI)
    fix B T J w a c i l d e w' assume "running B T J w" "run_frame cr w a c i l d = Finished e w'"
    moreover have "runner_ok (start_frame (run_loop (Suc l) cr))" by (rule start_frame_ok) (rule value_run_loop)
    ultimately show "settled B T J (e_halt e) w'" unfolding runner_ok_def run_frame_def by blast
  qed
  with running_start [OF assms(1)] assms(2) show ?thesis unfolding runner_ok_def settled_def by blast
qed

end
