(* ===== verification/Rust_Text.thy ===== *)
theory Rust_Text
  imports Prelude
begin

text \<open>
  The text operations of the Rust standard library that the node uses.  A Rust \<open>String\<close> is
  its UTF-8 byte sequence, here a HOL \<open>string\<close> (a HOL character is one byte).
  \<^item> \<open>to_string\<close> and \<open>parse::<i64>\<close> of integers, with the round trip that makes a token id
    usable as a map key;
  \<^item> \<open>String::from_utf8_lossy\<close> and the check \<open>str::from_utf8\<close>;
  \<^item> the lower-case hexadecimal rendering the actuators share (their local function \<open>hex\<close>).
\<close>

section \<open>Bytes and characters\<close>

definition byte_char :: "byte \<Rightarrow> char" where
  "byte_char b = char_of (unat b)"

definition char_byte :: "char \<Rightarrow> byte" where
  "char_byte c = of_nat (of_char c)"

definition bytes_of_string :: "string \<Rightarrow> bytes" where
  "bytes_of_string s = map char_byte s"

definition string_of_bytes :: "bytes \<Rightarrow> string" where
  "string_of_bytes bs = map byte_char bs"

lemma char_byte_byte_char [simp]: "char_byte (byte_char b) = b"
  by (simp add: char_byte_def byte_char_def)

lemma byte_char_char_byte [simp]: "byte_char (char_byte c) = c"
  by (simp add: char_byte_def byte_char_def unat_of_nat)

lemma string_of_bytes_of_string [simp]: "string_of_bytes (bytes_of_string s) = s"
  by (simp add: string_of_bytes_def bytes_of_string_def comp_def)

lemma bytes_of_string_of_bytes [simp]: "bytes_of_string (string_of_bytes bs) = bs"
  by (simp add: string_of_bytes_def bytes_of_string_def comp_def)

lemma bytes_of_string_inject [simp]: "bytes_of_string s = bytes_of_string t \<longleftrightarrow> s = t"
  by (metis string_of_bytes_of_string)

lemma char_of_eq: "m < 256 \<Longrightarrow> n < 256 \<Longrightarrow> char_of (m :: nat) = char_of n \<longleftrightarrow> m = n"
  by (metis mod_less of_char_of)

section \<open>Hexadecimal\<close>

definition hex_digit :: "nat \<Rightarrow> char" where
  "hex_digit n = char_of (if n < 10 then 48 + n else 87 + n)"

definition hex :: "bytes \<Rightarrow> string" where
  "hex bs = concat (map (\<lambda>b. [hex_digit (unat b div 16), hex_digit (unat b mod 16)]) bs)"

lemma length_hex [simp]: "length (hex bs) = 2 * length bs"
  by (induction bs) (simp_all add: hex_def)

lemma hex_digit_inject: "m < 16 \<Longrightarrow> n < 16 \<Longrightarrow> hex_digit m = hex_digit n \<longleftrightarrow> m = n"
  by (auto simp: hex_digit_def char_of_eq)

lemma hex_inject [simp]: "hex xs = hex ys \<longleftrightarrow> xs = ys"
proof (induction xs arbitrary: ys)
  case Nil
  then show ?case by (cases ys) (simp_all add: hex_def)
next
  case (Cons x xs)
  have split: "a = b" if "unat a div 16 = unat b div 16" "unat a mod 16 = unat b mod 16"
    for a b :: byte
    using that by (metis div_mult_mod_eq word_unat_eq_iff)
  show ?case
  proof (cases ys)
    case Nil
    then show ?thesis by (simp add: hex_def)
  next
    case (Cons y ys')
    have d: "unat b div 16 < 16" for b :: byte
      using unat_byte_less [of b] by (simp add: div_less_iff_less_mult del: unat_byte_less)
    have "hex (x # xs) = hex (y # ys') \<longleftrightarrow>
        unat x div 16 = unat y div 16 \<and> unat x mod 16 = unat y mod 16 \<and> hex xs = hex ys'"
      by (simp add: hex_def hex_digit_inject d)
    then show ?thesis
      using Cons Cons.IH split by (auto dest: split)
  qed
qed

section \<open>Decimal numbers\<close>

definition digit_char :: "nat \<Rightarrow> char" where
  "digit_char n = char_of (48 + n)"

definition char_digit :: "char \<Rightarrow> nat option" where
  "char_digit c =
     (let n = of_char c :: nat in if 48 \<le> n \<and> n \<le> 57 then Some (n - 48) else None)"

fun nat_to_string :: "nat \<Rightarrow> string" where
  "nat_to_string n =
     (if n < 10 then [digit_char n] else nat_to_string (n div 10) @ [digit_char (n mod 10)])"

declare nat_to_string.simps [simp del]

definition i64_to_string :: "int \<Rightarrow> string" where
  "i64_to_string x =
     (if x < 0 then CHR ''-'' # nat_to_string (nat (- x)) else nat_to_string (nat x))"

fun digits_val :: "string \<Rightarrow> nat \<Rightarrow> nat option" where
  "digits_val [] acc = Some acc"
| "digits_val (c # cs) acc =
     (case char_digit c of None \<Rightarrow> None | Some d \<Rightarrow> digits_val cs (acc * 10 + d))"

text \<open>
  \<open>str::parse::<i64>\<close>: an optional sign, then at least one decimal digit; a value outside
  the range is an error.
\<close>

definition parse_digits :: "string \<Rightarrow> nat option" where
  "parse_digits s = (if s = [] then None else digits_val s 0)"

definition parse_i64 :: "string \<Rightarrow> int option" where
  "parse_i64 s =
     (let r = (case s of
          [] \<Rightarrow> None
        | c # cs \<Rightarrow>
            if c = CHR ''-'' then map_option (\<lambda>n. - int n) (parse_digits cs)
            else if c = CHR ''+'' then map_option int (parse_digits cs)
            else map_option int (parse_digits s))
      in case r of Some x \<Rightarrow> i64_checked x | None \<Rightarrow> None)"

lemma char_digit_digit_char [simp]: "n < 10 \<Longrightarrow> char_digit (digit_char n) = Some n"
  by (simp add: char_digit_def digit_char_def)

lemma digits_val_append:
  "digits_val (s @ t) acc = (case digits_val s acc of None \<Rightarrow> None | Some v \<Rightarrow> digits_val t v)"
  by (induction s arbitrary: acc) (auto split: option.split)

lemma digits_val_nat_to_string: "digits_val (nat_to_string n) 0 = Some n"
proof (induction n rule: nat_to_string.induct)
  case (1 n)
  then show ?case
    by (subst nat_to_string.simps) (auto simp: digits_val_append)
qed

lemma nat_to_string_not_Nil [simp]: "nat_to_string n \<noteq> []"
  by (subst nat_to_string.simps) simp

lemma hd_nat_to_string: "\<exists>d<10. hd (nat_to_string n) = digit_char d"
proof (induction n rule: nat_to_string.induct)
  case (1 n)
  show ?case
  proof (cases "n < 10")
    case True
    then show ?thesis by (subst nat_to_string.simps) auto
  next
    case False
    with 1 show ?thesis by (subst nat_to_string.simps) auto
  qed
qed

lemma digit_char_sign: "d < 10 \<Longrightarrow> digit_char d \<noteq> CHR ''-'' \<and> digit_char d \<noteq> CHR ''+''"
proof -
  assume "d < 10"
  then have "of_char (digit_char d) = 48 + d"
    by (simp add: digit_char_def)
  moreover have "of_char (CHR ''-'') = (45 :: nat)" and "of_char (CHR ''+'') = (43 :: nat)"
    by simp_all
  ultimately have "of_char (digit_char d) \<noteq> (of_char (CHR ''-'') :: nat)"
    and "of_char (digit_char d) \<noteq> (of_char (CHR ''+'') :: nat)"
    by simp_all
  then show ?thesis by metis
qed

theorem parse_i64_to_string: "in_i64 x \<Longrightarrow> parse_i64 (i64_to_string x) = Some x"
proof -
  assume x: "in_i64 x"
  obtain c cs where s: "nat_to_string (nat x) = c # cs"
    by (cases "nat_to_string (nat x)") auto
  obtain d where "d < 10" and "c = digit_char d"
    using hd_nat_to_string [of "nat x"] s by auto
  then have sign: "c \<noteq> CHR ''-''" "c \<noteq> CHR ''+''"
    using digit_char_sign by auto
  show ?thesis
  proof (cases "x < 0")
    case True
    with x show ?thesis
      by (simp add: parse_i64_def i64_to_string_def parse_digits_def digits_val_nat_to_string)
  next
    case False
    have "parse_digits (c # cs) = Some (nat x)"
      using digits_val_nat_to_string [of "nat x"] s by (simp add: parse_digits_def)
    with False x s sign show ?thesis
      by (simp add: parse_i64_def i64_to_string_def)
  qed
qed

lemma nat_to_string_inject [simp]: "nat_to_string m = nat_to_string n \<longleftrightarrow> m = n"
  by (metis digits_val_nat_to_string option.inject)

lemma i64_to_string_inject [simp]: "i64_to_string x = i64_to_string y \<longleftrightarrow> x = y"
proof -
  have neg: "CHR ''-'' # s \<noteq> nat_to_string n" for s n
    using hd_nat_to_string [of n] digit_char_sign by (metis list.sel(1))
  show ?thesis
    using neg neg [symmetric] by (simp add: i64_to_string_def) linarith
qed

section \<open>UTF-8\<close>

text \<open>
  One step of UTF-8 decoding at the head of a byte string: the length of the scalar value
  there, or the length of the maximal invalid prefix (at least one byte).
\<close>

definition in_range :: "byte \<Rightarrow> nat \<Rightarrow> nat \<Rightarrow> bool" where
  "in_range b lo hi \<longleftrightarrow> lo \<le> unat b \<and> unat b \<le> hi"

fun utf8_cont :: "nat \<Rightarrow> nat \<Rightarrow> bytes \<Rightarrow> nat + nat" where
  "utf8_cont seen 0 bs = Inr seen"
| "utf8_cont seen (Suc n) [] = Inl seen"
| "utf8_cont seen (Suc n) (b # bs) =
     (if in_range b 0x80 0xBF then utf8_cont (Suc seen) n bs else Inl seen)"

definition utf8_second :: "nat \<Rightarrow> nat \<Rightarrow> nat \<Rightarrow> bytes \<Rightarrow> nat + nat" where
  "utf8_second lo hi n bs =
     (case bs of
        [] \<Rightarrow> Inl 1
      | b # bs' \<Rightarrow> if in_range b lo hi then utf8_cont 2 n bs' else Inl 1)"

definition utf8_step :: "byte \<Rightarrow> bytes \<Rightarrow> nat + nat" where
  "utf8_step b bs =
     (let v = unat b
      in if v < 0x80 then Inr 1
         else if 0xC2 \<le> v \<and> v \<le> 0xDF then utf8_second 0x80 0xBF 0 bs
         else if v = 0xE0 then utf8_second 0xA0 0xBF 1 bs
         else if v = 0xED then utf8_second 0x80 0x9F 1 bs
         else if 0xE1 \<le> v \<and> v \<le> 0xEF then utf8_second 0x80 0xBF 1 bs
         else if v = 0xF0 then utf8_second 0x90 0xBF 2 bs
         else if 0xF1 \<le> v \<and> v \<le> 0xF3 then utf8_second 0x80 0xBF 2 bs
         else if v = 0xF4 then utf8_second 0x80 0x8F 2 bs
         else Inl 1)"

text \<open>\<open>String::from_utf8_lossy\<close>: every maximal invalid prefix becomes one U+FFFD.\<close>

fun utf8_lossy_bytes :: "bytes \<Rightarrow> bytes" where
  "utf8_lossy_bytes [] = []"
| "utf8_lossy_bytes (b # bs) =
     (case utf8_step b bs of
        Inr n \<Rightarrow> b # take (n - 1) bs @ utf8_lossy_bytes (drop (n - 1) bs)
      | Inl n \<Rightarrow> [0xEF, 0xBF, 0xBD] @ utf8_lossy_bytes (drop (n - 1) bs))"

definition from_utf8_lossy :: "bytes \<Rightarrow> string" where
  "from_utf8_lossy bs = string_of_bytes (utf8_lossy_bytes bs)"

fun utf8_valid :: "bytes \<Rightarrow> bool" where
  "utf8_valid [] = True"
| "utf8_valid (b # bs) =
     (case utf8_step b bs of Inr n \<Rightarrow> utf8_valid (drop (n - 1) bs) | Inl n \<Rightarrow> False)"

text \<open>\<open>str::from_utf8\<close>.\<close>

definition from_utf8 :: "bytes \<Rightarrow> string option" where
  "from_utf8 bs = (if utf8_valid bs then Some (string_of_bytes bs) else None)"

lemma utf8_lossy_valid: "utf8_valid bs \<Longrightarrow> utf8_lossy_bytes bs = bs"
  by (induction bs rule: utf8_valid.induct) (auto split: sum.splits)

lemma utf8_valid_ascii: "(\<forall>b\<in>set bs. unat b < 0x80) \<Longrightarrow> utf8_valid bs"
  by (induction bs) (auto simp: utf8_step_def Let_def)

lemma from_utf8_lossy_ascii [simp]:
  "(\<forall>b\<in>set bs. unat b < 0x80) \<Longrightarrow> from_utf8_lossy bs = string_of_bytes bs"
  by (simp add: from_utf8_lossy_def utf8_lossy_valid utf8_valid_ascii)

text \<open>A numeric token id as the actuators read it from bytes.\<close>

definition parse_id :: "bytes \<Rightarrow> int option" where
  "parse_id bs = (case from_utf8 bs of Some s \<Rightarrow> parse_i64 s | None \<Rightarrow> None)"

lemma nat_to_string_ascii: "c \<in> set (nat_to_string n) \<Longrightarrow> \<exists>d<10. c = digit_char d"
proof (induction n rule: nat_to_string.induct)
  case (1 n)
  have "c \<in> set (nat_to_string (n div 10)) \<and> \<not> n < 10 \<or> c = digit_char (n mod 10)"
    using 1(2) by (subst (asm) nat_to_string.simps) (auto split: if_splits)
  then show ?case
  proof
    assume "c = digit_char (n mod 10)"
    moreover have "n mod 10 < 10" by simp
    ultimately show ?case by blast
  qed (simp add: 1(1))
qed

lemma unat_digit_char: "d < 10 \<Longrightarrow> unat (char_byte (digit_char d)) = 48 + d"
proof -
  assume "d < 10"
  then have "of_char (digit_char d) = (48 + d :: nat)"
    by (simp add: digit_char_def)
  with \<open>d < 10\<close> show ?thesis
    unfolding char_byte_def by (simp add: unat_of_nat del: of_nat_add of_nat_numeral)
qed

lemma i64_to_string_ascii: "b \<in> set (bytes_of_string (i64_to_string x)) \<Longrightarrow> unat b < 0x80"
  by (auto simp: bytes_of_string_def i64_to_string_def unat_digit_char
      dest!: nat_to_string_ascii split: if_splits) (simp_all add: char_byte_def)

theorem parse_id_to_string: "in_i64 x \<Longrightarrow> parse_id (bytes_of_string (i64_to_string x)) = Some x"
  using i64_to_string_ascii
  by (simp add: parse_id_def from_utf8_def utf8_valid_ascii parse_i64_to_string)

end
