(* ===== verification/Storage.thy ===== *)
theory Storage
  imports Prelude
begin

text \<open>
  The key-value store of \<open>src/crates/storage/src/lib.rs\<close>: the trait \<open>KvStore\<close> (a store
  partitioned into named column families) as the locale \<open>kv_store\<close>, and its in-memory
  implementation \<open>MemoryStore\<close>, which interprets it.  The locale \<open>column\<close> is the view the
  node takes of one column family: typed values behind an encoder and a decoder.
\<close>

section \<open>The in-memory store\<close>

datatype storage_error =
    UnknownCf string
  | Backend string

type_synonym cf_map = "bytes \<rightharpoonup> bytes"
type_synonym memory_store = "string \<rightharpoonup> cf_map"

definition ALL_CFS :: "string list" where
  "ALL_CFS =
     [''account'', ''contract'', ''contract_code'', ''contract_storage'', ''witness'', ''votes'',
      ''asset'', ''proposal'', ''exchange'', ''block'', ''transaction'', ''block_index'',
      ''brokerage'', ''delegation'', ''market_order'', ''market_pair_price'', ''market_pair'',
      ''market_account_order'', ''market_pairs'', ''properties'']"

definition memory_store_new :: memory_store where
  "memory_store_new = Map.empty"

definition kv_get :: "memory_store \<Rightarrow> string \<Rightarrow> bytes \<Rightarrow> bytes option" where
  "kv_get db cf key = (case db cf of None \<Rightarrow> None | Some c \<Rightarrow> c key)"

definition kv_put :: "string \<Rightarrow> bytes \<Rightarrow> bytes \<Rightarrow> memory_store \<Rightarrow> memory_store" where
  "kv_put cf key v db =
     db(cf \<mapsto> (case db cf of None \<Rightarrow> Map.empty | Some c \<Rightarrow> c)(key \<mapsto> v))"

definition kv_delete :: "string \<Rightarrow> bytes \<Rightarrow> memory_store \<Rightarrow> memory_store" where
  "kv_delete cf key db = (case db cf of None \<Rightarrow> db | Some c \<Rightarrow> db(cf \<mapsto> c(key := None)))"

definition kv_exists :: "memory_store \<Rightarrow> string \<Rightarrow> bytes \<Rightarrow> bool" where
  "kv_exists db cf key = (kv_get db cf key \<noteq> None)"

section \<open>The contract of a store\<close>

locale kv_store =
  fixes get :: "'db \<Rightarrow> string \<Rightarrow> bytes \<Rightarrow> bytes option"
    and put :: "string \<Rightarrow> bytes \<Rightarrow> bytes \<Rightarrow> 'db \<Rightarrow> 'db"
    and del :: "string \<Rightarrow> bytes \<Rightarrow> 'db \<Rightarrow> 'db"
  assumes get_put: "get (put cf k v db) cf' k' = (if cf' = cf \<and> k' = k then Some v else get db cf' k')"
    and get_del: "get (del cf k db) cf' k' = (if cf' = cf \<and> k' = k then None else get db cf' k')"
begin

text \<open>What a reader can observe determines the effect of writes, in any order that keeps the
  last write to a key last.\<close>

lemma put_put_commute:
  "cf \<noteq> cf' \<or> k \<noteq> k' \<Longrightarrow>
   get (put cf k v (put cf' k' v' db)) c x = get (put cf' k' v' (put cf k v db)) c x"
  by (auto simp: get_put)

lemma put_overwrites: "get (put cf k v (put cf k v' db)) c x = get (put cf k v db) c x"
  by (auto simp: get_put)

lemma del_put: "get (del cf k (put cf k v db)) c x = get (del cf k db) c x"
  by (auto simp: get_put get_del)

lemma put_del: "get (put cf k v (del cf k db)) c x = get (put cf k v db) c x"
  by (auto simp: get_put get_del)

end

interpretation ms: kv_store kv_get kv_put kv_delete
  by unfold_locales (auto simp: kv_get_def kv_put_def kv_delete_def split: option.splits)

section \<open>Codecs and typed columns\<close>

locale codec =
  fixes enc :: "'a \<Rightarrow> bytes" and dec :: "bytes \<Rightarrow> 'a option" and valid :: "'a \<Rightarrow> bool"
  assumes dec_enc: "valid x \<Longrightarrow> dec (enc x) = Some x"
begin

lemma enc_inject: "valid x \<Longrightarrow> valid y \<Longrightarrow> enc x = enc y \<longleftrightarrow> x = y"
  by (metis dec_enc option.inject)

end

locale column = kv_store get put del + codec enc dec valid
  for get :: "'db \<Rightarrow> string \<Rightarrow> bytes \<Rightarrow> bytes option"
    and put :: "string \<Rightarrow> bytes \<Rightarrow> bytes \<Rightarrow> 'db \<Rightarrow> 'db"
    and del :: "string \<Rightarrow> bytes \<Rightarrow> 'db \<Rightarrow> 'db"
    and enc :: "'a \<Rightarrow> bytes" and dec :: "bytes \<Rightarrow> 'a option" and valid :: "'a \<Rightarrow> bool" +
  fixes cf :: string
begin

text \<open>The typed view of the column family \<open>cf\<close>: a decoded record per key.\<close>

definition view :: "'db \<Rightarrow> bytes \<Rightarrow> 'a option" where
  "view db k = (case get db cf k of None \<Rightarrow> None | Some bs \<Rightarrow> dec bs)"

lemma view_put: "valid x \<Longrightarrow> view (put cf k (enc x) db) = (view db)(k \<mapsto> x)"
  by (auto simp: view_def get_put dec_enc)

lemma view_del: "view (del cf k db) = (view db)(k := None)"
  by (auto simp: view_def get_del)

lemma view_other: "cf' \<noteq> cf \<Longrightarrow> view (put cf' k v db) = view db"
  by (auto simp: view_def get_put)

lemma view_del_other: "cf' \<noteq> cf \<Longrightarrow> view (del cf' k db) = view db"
  by (auto simp: view_def get_del)

end

section \<open>The codecs of the node's own records\<close>

text \<open>A signed 64-bit value is stored as its 8 big-endian bytes.\<close>

definition dec_i64 :: "bytes \<Rightarrow> int option" where
  "dec_i64 bs = (if length bs = 8 then Some (i64_from_be_bytes bs) else None)"

interpretation i64c: codec i64_to_be_bytes dec_i64 in_i64
  by unfold_locales (simp add: dec_i64_def)

text \<open>Rust \<open>chunks_exact(n)\<close> for a positive \<open>n\<close>: a shorter tail is dropped.\<close>

function chunks_exact :: "nat \<Rightarrow> 'a list \<Rightarrow> 'a list list" where
  "chunks_exact n xs =
     (if n = 0 \<or> length xs < n then [] else take n xs # chunks_exact n (drop n xs))"
  by pat_completeness auto
termination by (relation "measure (\<lambda>(n, xs). length xs)") auto

declare chunks_exact.simps [simp del]

lemma chunks_exact_concat:
  "0 < n \<Longrightarrow> (\<forall>x\<in>set xs. length x = n) \<Longrightarrow> chunks_exact n (concat xs) = xs"
  by (induction xs) (subst chunks_exact.simps; simp)+

text \<open>Concatenated fixed-width entries (order ids, active witnesses, block numbers).\<close>

definition dec_fixed :: "nat \<Rightarrow> bytes \<Rightarrow> bytes list option" where
  "dec_fixed n bs = Some (chunks_exact n bs)"

definition all_width :: "nat \<Rightarrow> bytes list \<Rightarrow> bool" where
  "all_width n xs \<longleftrightarrow> 0 < n \<and> (\<forall>x\<in>set xs. length x = n)"

interpretation fixedc: codec concat "dec_fixed n" "all_width n"
  by unfold_locales (simp add: dec_fixed_def all_width_def chunks_exact_concat)

interpretation prop_col: column kv_get kv_put kv_delete i64_to_be_bytes dec_i64 in_i64 "''properties''"
  by unfold_locales

end
