(* ===== verification/State.thy ===== *)
theory State
  imports Tron_Types Rust_Text Storage
begin

text \<open>
  The world state of \<open>src/crates/state/src/lib.rs\<close> (with \<open>features.rs\<close> and \<open>genesis.rs\<close>).

  The node keeps typed records in the column families of a \<open>KvStore\<close>.  A record is a message of
  the vendored protobuf schema, encoded by the external crate \<open>prost\<close>, whose decoder returns
  what its encoder was given; the model therefore holds each column family as a map from keys
  to decoded records (\<open>world_state\<close>), which is the typed view that the locale \<open>column\<close> of
  theory \<open>Storage\<close> derives from the byte-level store.  The in-memory store never returns an
  error, so the operations here have no error results.  The records carry the fields the node
  reads or writes.

  The values the node encodes itself (dynamic properties and the active-witness list) are also
  given at byte level, and shown to refine the typed operations.
\<close>

section \<open>Records\<close>

record frozen =
  fr_balance :: i64
  fr_expire_time :: i64

record freeze_v2 =
  fz_type :: int
  fz_amount :: i64

record unfreeze_v2 =
  uf_type :: int
  uf_amount :: i64
  uf_expire_time :: i64

record vote =
  vote_address :: bytes
  vote_count :: i64

record perm_key =
  key_address :: bytes
  key_weight :: i64

record permission =
  perm_type :: int
  perm_id :: int
  perm_name :: string
  perm_threshold :: i64
  perm_operations :: bytes
  perm_keys :: "perm_key list"

record account_resource =
  res_frozen_energy :: "frozen option"
  res_delegated_energy :: i64
  res_acquired_energy :: i64

record account =
  acc_address :: bytes
  acc_type :: int
  acc_name :: bytes
  acc_id :: bytes
  acc_balance :: i64
  acc_create_time :: i64
  acc_allowance :: i64
  acc_latest_withdraw_time :: i64
  acc_is_witness :: bool
  acc_votes :: "vote list"
  acc_asset_v2 :: "string \<rightharpoonup> i64"
  acc_asset_issued_id :: bytes
  acc_asset_issued_name :: bytes
  acc_frozen_supply :: "frozen list"
  acc_frozen :: "frozen list"
  acc_tron_power :: "frozen option"
  acc_resource :: "account_resource option"
  acc_frozen_v2 :: "freeze_v2 list"
  acc_unfrozen_v2 :: "unfreeze_v2 list"
  acc_delegated_bandwidth :: i64
  acc_acquired_bandwidth :: i64
  acc_owner_permission :: "permission option"
  acc_witness_permission :: "permission option"
  acc_active_permission :: "permission list"

definition account_default :: account where
  "account_default =
     \<lparr>acc_address = [], acc_type = 0, acc_name = [], acc_id = [], acc_balance = 0,
      acc_create_time = 0, acc_allowance = 0, acc_latest_withdraw_time = 0, acc_is_witness = False,
      acc_votes = [], acc_asset_v2 = Map.empty, acc_asset_issued_id = [],
      acc_asset_issued_name = [], acc_frozen_supply = [], acc_frozen = [], acc_tron_power = None,
      acc_resource = None, acc_frozen_v2 = [], acc_unfrozen_v2 = [], acc_delegated_bandwidth = 0,
      acc_acquired_bandwidth = 0, acc_owner_permission = None, acc_witness_permission = None,
      acc_active_permission = []\<rparr>"

definition resource_default :: account_resource where
  "resource_default = \<lparr>res_frozen_energy = None, res_delegated_energy = 0, res_acquired_energy = 0\<rparr>"

record smart_contract =
  sc_origin_address :: bytes
  sc_contract_address :: bytes
  sc_abi :: "bytes option"
  sc_bytecode :: bytes
  sc_consume_user_resource_percent :: i64
  sc_origin_energy_limit :: i64

record witness =
  wit_address :: bytes
  wit_vote_count :: i64
  wit_url :: string
  wit_is_jobs :: bool

record frozen_supply =
  fs_amount :: i64
  fs_days :: i64

record asset_issue =
  ai_id :: string
  ai_owner_address :: bytes
  ai_name :: bytes
  ai_abbr :: bytes
  ai_total_supply :: i64
  ai_frozen_supply :: "frozen_supply list"
  ai_trx_num :: int
  ai_precision :: int
  ai_num :: int
  ai_start_time :: i64
  ai_end_time :: i64
  ai_description :: bytes
  ai_url :: bytes
  ai_free_asset_net_limit :: i64
  ai_public_free_asset_net_limit :: i64
  ai_public_free_asset_net_usage :: i64

record proposal =
  prop_id :: i64
  prop_proposer :: bytes
  prop_parameters :: "(i64 \<times> i64) list"
  prop_expiration_time :: i64
  prop_create_time :: i64
  prop_approvals :: "bytes list"
  prop_state :: int

record exchange =
  ex_id :: i64
  ex_creator :: bytes
  ex_create_time :: i64
  ex_first_id :: bytes
  ex_first_balance :: i64
  ex_second_id :: bytes
  ex_second_balance :: i64

record delegated_resource =
  dr_from :: bytes
  dr_to :: bytes
  dr_frozen_bandwidth :: i64
  dr_frozen_energy :: i64
  dr_expire_bandwidth :: i64
  dr_expire_energy :: i64

record market_order =
  mo_id :: bytes
  mo_owner :: bytes
  mo_create_time :: i64
  mo_sell_id :: bytes
  mo_sell :: i64
  mo_buy_id :: bytes
  mo_buy :: i64
  mo_sell_remain :: i64
  mo_sell_return :: i64
  mo_state :: int

text \<open>
  Transactions and blocks: a transaction carries contracts whose parameter is a packed
  (\<open>Any\<close>) byte string, decoded by the executor.
\<close>

record tx_contract =
  tc_type :: int
  tc_parameter :: "bytes option"

record tx_raw =
  tr_ref_block_bytes :: bytes
  tr_ref_block_num :: i64
  tr_ref_block_hash :: bytes
  tr_expiration :: i64
  tr_contract :: "tx_contract list"
  tr_timestamp :: i64

record transaction =
  tx_raw_data :: "tx_raw option"
  tx_signature :: "bytes list"

record header_raw =
  hr_timestamp :: i64
  hr_tx_trie_root :: bytes
  hr_parent_hash :: bytes
  hr_number :: i64
  hr_witness_address :: bytes
  hr_version :: int

record block_header =
  bh_raw_data :: "header_raw option"
  bh_witness_signature :: bytes

record block =
  bk_transactions :: "transaction list"
  bk_header :: "block_header option"

section \<open>The world state\<close>

record world_state =
  ws_accounts :: "address \<rightharpoonup> account"
  ws_contracts :: "address \<rightharpoonup> smart_contract"
  ws_code :: "address \<rightharpoonup> bytes"
  ws_storage :: "address \<times> u256 \<rightharpoonup> u256"
  ws_witnesses :: "bytes \<rightharpoonup> witness"
  ws_assets :: "i64 \<rightharpoonup> asset_issue"
  ws_proposals :: "i64 \<rightharpoonup> proposal"
  ws_exchanges :: "i64 \<rightharpoonup> exchange"
  ws_blocks :: "i64 \<rightharpoonup> block"
  ws_block_index :: "bytes \<rightharpoonup> i64"
  ws_transactions :: "bytes \<rightharpoonup> transaction"
  ws_brokerage :: "address \<rightharpoonup> i64"
  ws_delegation :: "address \<times> address \<times> bool \<rightharpoonup> delegated_resource"
  ws_orders :: "bytes \<rightharpoonup> market_order"
  ws_prices :: "bytes \<Rightarrow> (i64 \<times> i64) list"
  ws_order_ids :: "bytes \<times> i64 \<times> i64 \<Rightarrow> bytes list"
  ws_account_orders :: "bytes \<Rightarrow> bytes list"
  ws_pairs :: "bytes list"
  ws_props :: "string \<rightharpoonup> i64"
  ws_active :: "bytes list"

definition ws_empty :: world_state where
  "ws_empty =
     \<lparr>ws_accounts = Map.empty, ws_contracts = Map.empty, ws_code = Map.empty,
      ws_storage = Map.empty, ws_witnesses = Map.empty, ws_assets = Map.empty,
      ws_proposals = Map.empty, ws_exchanges = Map.empty, ws_blocks = Map.empty,
      ws_block_index = Map.empty, ws_transactions = Map.empty, ws_brokerage = Map.empty,
      ws_delegation = Map.empty, ws_orders = Map.empty, ws_prices = (\<lambda>_. []),
      ws_order_ids = (\<lambda>_. []), ws_account_orders = (\<lambda>_. []), ws_pairs = [],
      ws_props = Map.empty, ws_active = []\<rparr>"

section \<open>Dynamic properties\<close>

definition CREATE_NEW_ACCOUNT_FEE_IN_SYSTEM_CONTRACT :: string where
  "CREATE_NEW_ACCOUNT_FEE_IN_SYSTEM_CONTRACT = ''CREATE_NEW_ACCOUNT_FEE_IN_SYSTEM_CONTRACT''"

definition BURN_TRX_AMOUNT :: string where
  "BURN_TRX_AMOUNT = ''BURN_TRX_AMOUNT''"

definition LATEST_BLOCK_HEADER_TIMESTAMP :: string where
  "LATEST_BLOCK_HEADER_TIMESTAMP = ''LATEST_BLOCK_HEADER_TIMESTAMP''"

definition TOTAL_NET_WEIGHT :: string where
  "TOTAL_NET_WEIGHT = ''TOTAL_NET_WEIGHT''"

definition TOTAL_ENERGY_WEIGHT :: string where
  "TOTAL_ENERGY_WEIGHT = ''TOTAL_ENERGY_WEIGHT''"

definition TOTAL_TRON_POWER_WEIGHT :: string where
  "TOTAL_TRON_POWER_WEIGHT = ''TOTAL_TRON_POWER_WEIGHT''"

definition TOKEN_ID_NUM :: string where
  "TOKEN_ID_NUM = ''TOKEN_ID_NUM''"

definition ACTIVE_WITNESSES :: string where
  "ACTIVE_WITNESSES = ''ACTIVE_WITNESSES''"

definition LATEST_SOLIDIFIED_BLOCK :: string where
  "LATEST_SOLIDIFIED_BLOCK = ''LATEST_SOLIDIFIED_BLOCK''"

definition ALLOW_PBFT :: string where
  "ALLOW_PBFT = ''ALLOW_PBFT''"

definition TOKEN_ID_BASE :: i64 where
  "TOKEN_ID_BASE = 1000000"

lemmas prop_keys =
  CREATE_NEW_ACCOUNT_FEE_IN_SYSTEM_CONTRACT_def BURN_TRX_AMOUNT_def
  LATEST_BLOCK_HEADER_TIMESTAMP_def TOTAL_NET_WEIGHT_def TOTAL_ENERGY_WEIGHT_def
  TOTAL_TRON_POWER_WEIGHT_def TOKEN_ID_NUM_def ACTIVE_WITNESSES_def LATEST_SOLIDIFIED_BLOCK_def
  ALLOW_PBFT_def

definition get_prop_i64 :: "world_state \<Rightarrow> string \<Rightarrow> i64" where
  "get_prop_i64 s key = (case ws_props s key of Some v \<Rightarrow> v | None \<Rightarrow> 0)"

definition put_prop_i64 :: "string \<Rightarrow> i64 \<Rightarrow> world_state \<Rightarrow> world_state" where
  "put_prop_i64 key v s = s\<lparr>ws_props := (ws_props s)(key \<mapsto> v)\<rparr>"

definition add_prop_i64 :: "string \<Rightarrow> i64 \<Rightarrow> world_state \<Rightarrow> world_state" where
  "add_prop_i64 key delta s = put_prop_i64 key (i64_sat_add (get_prop_i64 s key) delta) s"

definition burn_trx :: "i64 \<Rightarrow> world_state \<Rightarrow> world_state" where
  "burn_trx amount s =
     put_prop_i64 BURN_TRX_AMOUNT (i64_sat_add (get_prop_i64 s BURN_TRX_AMOUNT) amount) s"

definition feature_enabled :: "world_state \<Rightarrow> string \<Rightarrow> bool" where
  "feature_enabled s key \<longleftrightarrow> get_prop_i64 s key = 1"

section \<open>Accounts, contracts, assets\<close>

definition get_account :: "world_state \<Rightarrow> address \<Rightarrow> account option" where
  "get_account s a = ws_accounts s a"

definition put_account :: "address \<Rightarrow> account \<Rightarrow> world_state \<Rightarrow> world_state" where
  "put_account a acc s = s\<lparr>ws_accounts := (ws_accounts s)(a \<mapsto> acc)\<rparr>"

definition account_exists :: "world_state \<Rightarrow> address \<Rightarrow> bool" where
  "account_exists s a \<longleftrightarrow> ws_accounts s a \<noteq> None"

definition new_account :: "address \<Rightarrow> world_state \<Rightarrow> account" where
  "new_account a s =
     account_default\<lparr>acc_address := as_bytes a,
       acc_create_time := get_prop_i64 s LATEST_BLOCK_HEADER_TIMESTAMP\<rparr>"

definition create_account :: "address \<Rightarrow> world_state \<Rightarrow> account \<times> world_state" where
  "create_account a s = (let acc = new_account a s in (acc, put_account a acc s))"

definition put_brokerage :: "address \<Rightarrow> i64 \<Rightarrow> world_state \<Rightarrow> world_state" where
  "put_brokerage a pct s = s\<lparr>ws_brokerage := (ws_brokerage s)(a \<mapsto> pct)\<rparr>"

definition get_brokerage :: "world_state \<Rightarrow> address \<Rightarrow> i64" where
  "get_brokerage s a = (case ws_brokerage s a of Some p \<Rightarrow> p | None \<Rightarrow> 20)"

definition put_code :: "address \<Rightarrow> bytes \<Rightarrow> world_state \<Rightarrow> world_state" where
  "put_code a code s = s\<lparr>ws_code := (ws_code s)(a \<mapsto> code)\<rparr>"

definition state_get_code :: "world_state \<Rightarrow> address \<Rightarrow> bytes" where
  "state_get_code s a = (case ws_code s a of Some c \<Rightarrow> c | None \<Rightarrow> [])"

definition put_contract :: "address \<Rightarrow> smart_contract \<Rightarrow> world_state \<Rightarrow> world_state" where
  "put_contract a c s = s\<lparr>ws_contracts := (ws_contracts s)(a \<mapsto> c)\<rparr>"

definition get_contract :: "world_state \<Rightarrow> address \<Rightarrow> smart_contract option" where
  "get_contract s a = ws_contracts s a"

definition put_asset_issue :: "i64 \<Rightarrow> asset_issue \<Rightarrow> world_state \<Rightarrow> world_state" where
  "put_asset_issue i asset s = s\<lparr>ws_assets := (ws_assets s)(i \<mapsto> asset)\<rparr>"

definition get_asset_issue :: "world_state \<Rightarrow> i64 \<Rightarrow> asset_issue option" where
  "get_asset_issue s i = ws_assets s i"

definition get_token_id_num :: "world_state \<Rightarrow> i64" where
  "get_token_id_num s =
     (let v = get_prop_i64 s TOKEN_ID_NUM in if v = 0 then TOKEN_ID_BASE else v)"

definition save_token_id_num :: "i64 \<Rightarrow> world_state \<Rightarrow> world_state" where
  "save_token_id_num n s = put_prop_i64 TOKEN_ID_NUM n s"

definition allocate_token_id :: "world_state \<Rightarrow> i64 \<times> world_state" where
  "allocate_token_id s =
     (let next = i64_wrap (get_token_id_num s + 1) in (next, save_token_id_num next s))"

definition asset_v2_balance :: "account \<Rightarrow> i64 \<Rightarrow> i64" where
  "asset_v2_balance acc i =
     (case acc_asset_v2 acc (i64_to_string i) of Some v \<Rightarrow> v | None \<Rightarrow> 0)"

definition set_asset_v2_balance :: "i64 \<Rightarrow> i64 \<Rightarrow> account \<Rightarrow> account" where
  "set_asset_v2_balance i amount acc =
     acc\<lparr>acc_asset_v2 := (acc_asset_v2 acc)(i64_to_string i \<mapsto> amount)\<rparr>"

section \<open>Active witnesses and the solidified block\<close>

definition get_active_witnesses :: "world_state \<Rightarrow> bytes list" where
  "get_active_witnesses s = ws_active s"

definition put_active_witnesses :: "address list \<Rightarrow> world_state \<Rightarrow> world_state" where
  "put_active_witnesses ws s = s\<lparr>ws_active := map as_bytes ws\<rparr>"

definition get_solidified_block :: "world_state \<Rightarrow> i64" where
  "get_solidified_block s = get_prop_i64 s LATEST_SOLIDIFIED_BLOCK"

definition put_solidified_block :: "i64 \<Rightarrow> world_state \<Rightarrow> world_state" where
  "put_solidified_block n s = put_prop_i64 LATEST_SOLIDIFIED_BLOCK n s"

section \<open>Genesis\<close>

record genesis_account =
  ga_address :: address
  ga_name :: string
  ga_balance :: i64

record genesis_witness =
  gw_address :: address
  gw_url :: string
  gw_vote_count :: i64

record genesis_config =
  gc_timestamp :: i64
  gc_accounts :: "genesis_account list"
  gc_witnesses :: "genesis_witness list"

definition total_supply :: "genesis_config \<Rightarrow> int" where
  "total_supply c = sum_list (map ga_balance (filter (\<lambda>a. 0 \<le> ga_balance a) (gc_accounts c)))"

definition genesis_put_account :: "i64 \<Rightarrow> genesis_account \<Rightarrow> world_state \<Rightarrow> world_state" where
  "genesis_put_account ts ga s =
     put_account (ga_address ga)
       (account_default\<lparr>acc_address := as_bytes (ga_address ga),
          acc_name := bytes_of_string (ga_name ga), acc_balance := ga_balance ga,
          acc_create_time := ts\<rparr>) s"

definition genesis_put_witness :: "i64 \<Rightarrow> genesis_witness \<Rightarrow> world_state \<Rightarrow> world_state" where
  "genesis_put_witness ts gw s =
     (let a = gw_address gw;
          s1 = s\<lparr>ws_witnesses := (ws_witnesses s)(as_bytes a \<mapsto>
                 \<lparr>wit_address = as_bytes a, wit_vote_count = gw_vote_count gw, wit_url = gw_url gw,
                  wit_is_jobs = True\<rparr>)\<rparr>
      in if account_exists s1 a then s1
         else put_account a
           (account_default\<lparr>acc_address := as_bytes a, acc_create_time := ts\<rparr>) s1)"

definition apply_genesis :: "genesis_config \<Rightarrow> world_state \<Rightarrow> world_state" where
  "apply_genesis c s =
     (let s1 = put_prop_i64 LATEST_BLOCK_HEADER_TIMESTAMP (gc_timestamp c) s;
          s2 = fold (genesis_put_account (gc_timestamp c)) (gc_accounts c) s1;
          s3 = fold (genesis_put_witness (gc_timestamp c)) (gc_witnesses c) s2
      in put_active_witnesses (map gw_address (gc_witnesses c)) s3)"

section \<open>Observations\<close>

named_theorems state_simps \<open>reads after writes on the world state\<close>

lemma get_prop_put [state_simps]:
  "get_prop_i64 (put_prop_i64 k v s) k' = (if k' = k then v else get_prop_i64 s k')"
  by (simp add: get_prop_i64_def put_prop_i64_def)

lemma get_prop_put_account [state_simps]: "get_prop_i64 (put_account a acc s) k = get_prop_i64 s k"
  by (simp add: get_prop_i64_def put_account_def)

lemma get_prop_accounts [state_simps]: "get_prop_i64 (s\<lparr>ws_accounts := m\<rparr>) k = get_prop_i64 s k"
  by (simp add: get_prop_i64_def)

lemma get_account_put [state_simps]:
  "get_account (put_account a acc s) b = (if b = a then Some acc else get_account s b)"
  by (simp add: get_account_def put_account_def)

lemma account_exists_put [state_simps]:
  "account_exists (put_account a acc s) b \<longleftrightarrow> b = a \<or> account_exists s b"
  by (simp add: account_exists_def put_account_def)

lemma account_exists_iff: "account_exists s a \<longleftrightarrow> (\<exists>acc. get_account s a = Some acc)"
  by (auto simp: account_exists_def get_account_def)

lemma get_account_put_prop [state_simps]: "get_account (put_prop_i64 k v s) a = get_account s a"
  by (simp add: get_account_def put_prop_i64_def)

lemma accounts_put_prop [state_simps]: "ws_accounts (put_prop_i64 k v s) = ws_accounts s"
  by (simp add: put_prop_i64_def)

lemma accounts_put_account [state_simps]:
  "ws_accounts (put_account a acc s) = (ws_accounts s)(a \<mapsto> acc)"
  by (simp add: put_account_def)

section \<open>Byte-level properties and active witnesses\<close>

text \<open>
  The properties column at byte level: an 8-byte value is a number, anything else reads as
  zero; the active-witness list is one record of concatenated 21-byte addresses.
\<close>

definition db_get_prop :: "memory_store \<Rightarrow> string \<Rightarrow> i64" where
  "db_get_prop db key =
     (case kv_get db ''properties'' (bytes_of_string key) of
        Some bs \<Rightarrow> if length bs = 8 then i64_from_be_bytes bs else 0
      | None \<Rightarrow> 0)"

definition db_put_prop :: "string \<Rightarrow> i64 \<Rightarrow> memory_store \<Rightarrow> memory_store" where
  "db_put_prop key v db = kv_put ''properties'' (bytes_of_string key) (i64_to_be_bytes v) db"

definition db_get_active :: "memory_store \<Rightarrow> bytes list" where
  "db_get_active db =
     (case kv_get db ''properties'' (bytes_of_string ACTIVE_WITNESSES) of
        Some bs \<Rightarrow> chunks_exact ADDRESS_LEN bs
      | None \<Rightarrow> [])"

definition db_put_active :: "address list \<Rightarrow> memory_store \<Rightarrow> memory_store" where
  "db_put_active ws db =
     kv_put ''properties'' (bytes_of_string ACTIVE_WITNESSES) (concat (map as_bytes ws)) db"

text \<open>A byte-level store and a world state agree on the properties column.\<close>

definition props_agree :: "memory_store \<Rightarrow> world_state \<Rightarrow> bool" where
  "props_agree db s \<longleftrightarrow>
     (\<forall>k. k \<noteq> ACTIVE_WITNESSES \<longrightarrow> db_get_prop db k = get_prop_i64 s k) \<and>
     db_get_active db = get_active_witnesses s"

lemma db_get_put_prop:
  "in_i64 v \<Longrightarrow> db_get_prop (db_put_prop k v db) k' = (if k' = k then v else db_get_prop db k')"
  by (auto simp: db_get_prop_def db_put_prop_def ms.get_put)

lemma db_get_active_put_prop:
  "k \<noteq> ACTIVE_WITNESSES \<Longrightarrow> db_get_active (db_put_prop k v db) = db_get_active db"
  by (auto simp: db_get_active_def db_put_prop_def ms.get_put)

lemma db_get_put_active:
  "\<forall>a\<in>set ws. wf_address a \<Longrightarrow> db_get_active (db_put_active ws db) = map as_bytes ws"
  by (auto simp: db_get_active_def db_put_active_def ms.get_put wf_address_def ADDRESS_LEN_def
      intro!: chunks_exact_concat)

lemma db_get_prop_put_active:
  "k \<noteq> ACTIVE_WITNESSES \<Longrightarrow> db_get_prop (db_put_active ws db) k = db_get_prop db k"
  by (auto simp: db_get_prop_def db_put_active_def ms.get_put)

section \<open>Properties\<close>

text \<open>
  C7: The typed property store is what the bytes say.  If a byte-level store and a world state
  agree, they still agree after writing any property (other than the list's own key) with any
  64-bit value, and after replacing the active-witness list by any well-formed addresses.
\<close>

theorem properties_refinement:
  assumes "props_agree db s" and "k \<noteq> ACTIVE_WITNESSES" and "in_i64 v"
    and "\<forall>a\<in>set ws. wf_address a"
  shows "props_agree (db_put_prop k v db) (put_prop_i64 k v s)
       \<and> props_agree (db_put_active ws db) (put_active_witnesses ws s)"
  using assms
  by (auto simp: props_agree_def db_get_put_prop db_get_active_put_prop db_get_put_active
      db_get_prop_put_active get_prop_put get_active_witnesses_def put_prop_i64_def
      put_active_witnesses_def get_prop_i64_def)

theorem properties_refinement_witness:
  "props_agree (db_put_prop ALLOW_PBFT 1 memory_store_new) (put_prop_i64 ALLOW_PBFT 1 ws_empty)
   \<and> props_agree (db_put_active [from_body (replicate 20 7)] memory_store_new)
       (put_active_witnesses [from_body (replicate 20 7)] ws_empty)"
proof (rule properties_refinement)
  show "props_agree memory_store_new ws_empty"
    by (simp add: props_agree_def db_get_prop_def db_get_active_def get_prop_i64_def
        get_active_witnesses_def ws_empty_def memory_store_new_def kv_get_def)
qed (simp_all add: prop_keys i64_bounds_defs wf_from_body)

end
