(* ===== verification/Actuator_Base.thy ===== *)
theory Actuator_Base
  imports State
begin

text \<open>
  What all actuators share (\<open>src/crates/actuators/src/lib.rs\<close>): the error type, the address
  check each of them repeats, the feature gate, the checked debit and credit; then the value
  invariant of the ledger and the contract of an actuator.

  \<open>total_trx\<close> counts every sun of the ledger wherever it is held: spendable and withdrawable
  balances, stakes of both generations, pending unstakes, delegated stakes, the two reserves of
  every exchange pool, the escrow of every open market order, and the burn counter.
  \<open>wf_state\<close> is the well-formedness of a ledger.  An actuator meets its contract (the locale
  \<open>actuator\<close>) when on a well-formed ledger a validated transaction executes, keeps the ledger
  well formed, and conserves \<open>total_trx\<close>; a client can then rely on transactions being atomic.
\<close>

section \<open>Errors and results\<close>

datatype actuator_error =
    Validate string
  | Execute string
  | StateFailure string

datatype execution_result = ExecutionResult (result_fee: i64)

type_synonym 'a act = "(world_state, actuator_error, 'a) st"

definition parse_address :: "string \<Rightarrow> bytes \<Rightarrow> actuator_error + address" where
  "parse_address msg bs =
     rbind (ok_or (to_array ADDRESS_LEN bs) (Validate msg))
       (\<lambda>arr. case from_bytes arr of Inl _ \<Rightarrow> Inl (Validate msg) | Inr a \<Rightarrow> Inr a)"

definition require_feature :: "world_state \<Rightarrow> string \<Rightarrow> string \<Rightarrow> actuator_error + unit" where
  "require_feature s key msg = ensure (feature_enabled s key) (Validate msg)"

text \<open>\<open>x.checked_sub(y).filter(|b| *b >= 0).ok_or_else(..)\<close> and \<open>x.checked_add(y).ok_or_else(..)\<close>.\<close>

definition checked_debit :: "i64 \<Rightarrow> i64 \<Rightarrow> actuator_error \<Rightarrow> actuator_error + i64" where
  "checked_debit x y e =
     (case i64_checked_sub x y of Some b \<Rightarrow> if 0 \<le> b then Inr b else Inl e | None \<Rightarrow> Inl e)"

definition checked_credit :: "i64 \<Rightarrow> i64 \<Rightarrow> actuator_error \<Rightarrow> actuator_error + i64" where
  "checked_credit x y e = ok_or (i64_checked_add x y) e"

text \<open>The executor validates a contract and, if that succeeds, executes it.\<close>

definition actuate ::
  "('c \<Rightarrow> world_state \<Rightarrow> actuator_error + i64) \<Rightarrow> ('c \<Rightarrow> execution_result act) \<Rightarrow> 'c \<Rightarrow>
   execution_result act" where
  "actuate validate execute c s = (case validate c s of Inl e \<Rightarrow> (Inl e, s) | Inr _ \<Rightarrow> execute c s)"

lemma parse_address_Inr [simp]:
  "parse_address msg bs = Inr a \<longleftrightarrow> wf_address a \<and> bs = as_bytes a"
  by (cases a) (auto simp: parse_address_def result_simps wf_address_def from_bytes_def split: if_splits)

lemma parse_address_as_bytes [simp]: "wf_address a \<Longrightarrow> parse_address msg (as_bytes a) = Inr a"
  by simp

lemma checked_debit_Inr [simp]:
  "checked_debit x y e = Inr z \<longleftrightarrow> in_i64 (x - y) \<and> y \<le> x \<and> z = x - y"
  by (auto simp: checked_debit_def split: option.splits)

lemma checked_credit_Inr [simp]:
  "checked_credit x y e = Inr z \<longleftrightarrow> in_i64 (x + y) \<and> z = x + y"
  by (auto simp: checked_credit_def)

lemma checked_debit_ok: "in_i64 (x - y) \<Longrightarrow> y \<le> x \<Longrightarrow> checked_debit x y e = Inr (x - y)"
  by simp

lemma checked_credit_ok: "in_i64 (x + y) \<Longrightarrow> checked_credit x y e = Inr (x + y)"
  by simp

lemma require_feature_Inr [simp]: "require_feature s k msg = Inr u \<longleftrightarrow> feature_enabled s k"
  by (simp add: require_feature_def)

section \<open>Sums over finite maps\<close>

definition msum :: "('b \<Rightarrow> int) \<Rightarrow> ('a \<rightharpoonup> 'b) \<Rightarrow> int" where
  "msum f m = (\<Sum>a\<in>dom m. f (the (m a)))"

definition opt_val :: "('b \<Rightarrow> int) \<Rightarrow> 'b option \<Rightarrow> int" where
  "opt_val f x = (case x of None \<Rightarrow> 0 | Some y \<Rightarrow> f y)"

lemma opt_val_simps [simp]: "opt_val f None = 0" "opt_val f (Some y) = f y"
  by (simp_all add: opt_val_def)

lemma msum_empty [simp]: "msum f Map.empty = 0"
  by (simp add: msum_def)

lemma msum_remove:
  assumes "finite (dom m)"
  shows "msum f m = opt_val f (m a) + (\<Sum>b\<in>dom m - {a}. f (the (m b)))"
  using assms by (cases "m a") (auto simp: msum_def sum.remove [of _ a] domI domIff)

lemma msum_upd:
  assumes "finite (dom m)"
  shows "msum f (m(a \<mapsto> x)) = msum f m - opt_val f (m a) + f x"
proof -
  have "msum f (m(a \<mapsto> x)) = f x + (\<Sum>b\<in>dom m - {a}. f (the (m b)))"
    using assms msum_remove [of "m(a \<mapsto> x)" f a] by (auto intro!: sum.cong)
  with msum_remove [OF assms, of f a] show ?thesis by simp
qed

lemma msum_del:
  assumes "finite (dom m)"
  shows "msum f (m(a := None)) = msum f m - opt_val f (m a)"
proof -
  have "msum f (m(a := None)) = (\<Sum>b\<in>dom m - {a}. f (the (m b)))"
    by (auto simp: msum_def intro!: sum.cong)
  with msum_remove [OF assms, of f a] show ?thesis by simp
qed

lemma msum_nonneg: "(\<And>a y. m a = Some y \<Longrightarrow> 0 \<le> f y) \<Longrightarrow> 0 \<le> msum f m"
  unfolding msum_def by (rule sum_nonneg) auto

lemma msum_member:
  assumes "finite (dom m)" and "\<And>a y. m a = Some y \<Longrightarrow> 0 \<le> f y"
  shows "opt_val f (m a) \<le> msum f m"
proof -
  have "0 \<le> (\<Sum>b\<in>dom m - {a}. f (the (m b)))"
    using assms(2) by (intro sum_nonneg) auto
  with msum_remove [OF assms(1), of f a] show ?thesis by simp
qed

lemma msum_member2:
  assumes "finite (dom m)" and "\<And>a y. m a = Some y \<Longrightarrow> 0 \<le> f y" and "a \<noteq> b"
  shows "opt_val f (m a) + opt_val f (m b) \<le> msum f m"
proof -
  have "finite (dom (m(a := None)))"
    using assms(1) by (simp del: fun_upd_apply)
  moreover have "0 \<le> f y" if "(m(a := None)) c = Some y" for c y
    using that assms(2) by (simp split: if_splits)
  ultimately have "opt_val f ((m(a := None)) b) \<le> msum f (m(a := None))"
    by (rule msum_member)
  then have "opt_val f (m b) \<le> msum f (m(a := None))"
    using assms(3) by simp
  with msum_del [OF assms(1), of f a] show ?thesis by simp
qed

lemma msum_cong: "(\<And>a. opt_val f (m a) = opt_val g (m a)) \<Longrightarrow> msum f m = msum g m"
  unfolding msum_def by (rule sum.cong) (auto, metis opt_val_simps(2))

section \<open>The value of a ledger\<close>

definition res_trx :: "account_resource \<Rightarrow> int" where
  "res_trx r = opt_val fr_balance (res_frozen_energy r) + res_delegated_energy r"

definition acc_trx :: "account \<Rightarrow> int" where
  "acc_trx acc =
     acc_balance acc + acc_allowance acc
     + sum_list (map fz_amount (acc_frozen_v2 acc)) + sum_list (map uf_amount (acc_unfrozen_v2 acc))
     + sum_list (map fr_balance (acc_frozen acc)) + opt_val fr_balance (acc_tron_power acc)
     + opt_val res_trx (acc_resource acc) + acc_delegated_bandwidth acc"

definition TRX_SYMBOL_BYTES :: bytes where
  "TRX_SYMBOL_BYTES = [0x5f]"

definition is_trx :: "bytes \<Rightarrow> bool" where
  "is_trx i \<longleftrightarrow> i = TRX_SYMBOL_BYTES"

definition is_number :: "bytes \<Rightarrow> bool" where
  "is_number i \<longleftrightarrow> i \<noteq> [] \<and> list_all (\<lambda>b. 0x30 \<le> b \<and> b \<le> 0x39) i \<and> \<not> (1 < length i \<and> hd i = 0x30)"

definition valid_token :: "bytes \<Rightarrow> bool" where
  "valid_token i \<longleftrightarrow> is_trx i \<or> is_number i"

definition ex_trx :: "exchange \<Rightarrow> int" where
  "ex_trx ex =
     (if ex_first_id ex = TRX_SYMBOL_BYTES then ex_first_balance ex else 0)
     + (if ex_second_id ex = TRX_SYMBOL_BYTES then ex_second_balance ex else 0)"

definition order_trx :: "market_order \<Rightarrow> int" where
  "order_trx m = (if mo_sell_id m = TRX_SYMBOL_BYTES then mo_sell_remain m else 0)"

definition total_trx :: "world_state \<Rightarrow> int" where
  "total_trx s =
     msum acc_trx (ws_accounts s) + msum ex_trx (ws_exchanges s)
     + msum order_trx (ws_orders s) + get_prop_i64 s BURN_TRX_AMOUNT"

section \<open>Well-formed ledgers\<close>

definition wf_resource :: "account_resource \<Rightarrow> bool" where
  "wf_resource r \<longleftrightarrow>
     0 \<le> opt_val fr_balance (res_frozen_energy r) \<and> 0 \<le> res_delegated_energy r"

definition wf_account :: "account \<Rightarrow> bool" where
  "wf_account acc \<longleftrightarrow>
     0 \<le> acc_balance acc \<and> 0 \<le> acc_allowance acc
     \<and> (\<forall>f\<in>set (acc_frozen_v2 acc). 0 \<le> fz_amount f) \<and> distinct (map fz_type (acc_frozen_v2 acc))
     \<and> (\<forall>u\<in>set (acc_unfrozen_v2 acc). 0 \<le> uf_amount u)
     \<and> (\<forall>f\<in>set (acc_frozen acc). 0 \<le> fr_balance f) \<and> 0 \<le> opt_val fr_balance (acc_tron_power acc)
     \<and> (\<forall>r\<in>set_option (acc_resource acc). wf_resource r) \<and> 0 \<le> acc_delegated_bandwidth acc
     \<and> (\<forall>k v. acc_asset_v2 acc k = Some v \<longrightarrow> 0 \<le> v \<and> v \<le> i64_max)"

definition wf_exchange :: "exchange \<Rightarrow> bool" where
  "wf_exchange ex \<longleftrightarrow> 0 \<le> ex_first_balance ex \<and> 0 \<le> ex_second_balance ex
     \<and> ex_first_balance ex \<le> i64_max \<and> ex_second_balance ex \<le> i64_max
     \<and> valid_token (ex_first_id ex) \<and> valid_token (ex_second_id ex) \<and> ex_first_id ex \<noteq> ex_second_id ex"

definition wf_order :: "market_order \<Rightarrow> bool" where
  "wf_order m \<longleftrightarrow> 0 \<le> mo_sell_remain m \<and> mo_sell_remain m \<le> i64_max \<and> 0 < mo_sell m \<and> 0 < mo_buy m
     \<and> valid_token (mo_sell_id m) \<and> valid_token (mo_buy_id m) \<and> mo_sell_id m \<noteq> mo_buy_id m"

text \<open>
  The stake an owner has delegated out, per resource, is the sum of that owner's delegation
  records; a locked record with stake in it has an expiry.
\<close>

definition delegated_energy :: "account \<Rightarrow> int" where
  "delegated_energy acc = opt_val res_delegated_energy (acc_resource acc)"

definition records_of :: "world_state \<Rightarrow> address \<Rightarrow> address \<times> bool \<rightharpoonup> delegated_resource" where
  "records_of s a = (\<lambda>(r, l). ws_delegation s (a, r, l))"

definition wf_record :: "delegated_resource \<Rightarrow> bool" where
  "wf_record r \<longleftrightarrow> 0 \<le> dr_frozen_bandwidth r \<and> 0 \<le> dr_frozen_energy r"

definition wf_lock :: "delegated_resource \<Rightarrow> bool" where
  "wf_lock r \<longleftrightarrow>
     (dr_frozen_bandwidth r \<noteq> 0 \<longrightarrow> dr_expire_bandwidth r \<noteq> 0)
     \<and> (dr_frozen_energy r \<noteq> 0 \<longrightarrow> dr_expire_energy r \<noteq> 0)"

definition wf_delegation :: "world_state \<Rightarrow> bool" where
  "wf_delegation s \<longleftrightarrow>
     finite (dom (ws_delegation s))
     \<and> (\<forall>k r. ws_delegation s k = Some r \<longrightarrow> wf_record r)
     \<and> (\<forall>a b r. ws_delegation s (a, b, True) = Some r \<longrightarrow> wf_lock r)
     \<and> (\<forall>a. opt_val acc_delegated_bandwidth (ws_accounts s a)
             = msum dr_frozen_bandwidth (records_of s a))
     \<and> (\<forall>a. opt_val delegated_energy (ws_accounts s a)
             = msum dr_frozen_energy (records_of s a))"

definition wf_state :: "world_state \<Rightarrow> bool" where
  "wf_state s \<longleftrightarrow>
     finite (dom (ws_accounts s)) \<and> (\<forall>a acc. ws_accounts s a = Some acc \<longrightarrow> wf_account acc)
     \<and> finite (dom (ws_exchanges s)) \<and> (\<forall>i ex. ws_exchanges s i = Some ex \<longrightarrow> wf_exchange ex \<and> ex_id ex = i)
     \<and> finite (dom (ws_orders s)) \<and> (\<forall>i m. ws_orders s i = Some m \<longrightarrow> wf_order m \<and> mo_id m = i)
     \<and> wf_delegation s
     \<and> 0 \<le> get_prop_i64 s BURN_TRX_AMOUNT
     \<and> 0 \<le> get_prop_i64 s CREATE_NEW_ACCOUNT_FEE_IN_SYSTEM_CONTRACT
     \<and> get_prop_i64 s CREATE_NEW_ACCOUNT_FEE_IN_SYSTEM_CONTRACT \<le> i64_max
     \<and> total_trx s \<le> i64_max"

lemma sum_list_nonneg_map: "(\<forall>x\<in>set xs. 0 \<le> f x) \<Longrightarrow> 0 \<le> sum_list (map f xs)" for f :: "'a \<Rightarrow> int"
  by (induction xs) auto

lemma sum_list_member_le:
  fixes f :: "'a \<Rightarrow> int"
  shows "(\<forall>y\<in>set xs. 0 \<le> f y) \<Longrightarrow> x \<in> set xs \<Longrightarrow> f x \<le> sum_list (map f xs)"
  by (induction xs) (auto intro: add_increasing2 simp: sum_list_nonneg_map add_increasing)

lemma acc_trx_parts:
  assumes "wf_account acc"
  shows "0 \<le> sum_list (map fz_amount (acc_frozen_v2 acc))"
    and "0 \<le> sum_list (map uf_amount (acc_unfrozen_v2 acc))"
    and "0 \<le> sum_list (map fr_balance (acc_frozen acc))"
    and "0 \<le> opt_val fr_balance (acc_tron_power acc)"
    and "0 \<le> opt_val res_trx (acc_resource acc)"
    and "0 \<le> acc_delegated_bandwidth acc" and "0 \<le> acc_balance acc" and "0 \<le> acc_allowance acc"
  using assms
  by (auto simp: wf_account_def sum_list_nonneg_map opt_val_def res_trx_def wf_resource_def
      split: option.splits)

lemma acc_trx_nonneg: "wf_account acc \<Longrightarrow> 0 \<le> acc_trx acc"
  using acc_trx_parts [of acc] by (simp add: acc_trx_def)

lemma balance_le_acc_trx: "wf_account acc \<Longrightarrow> acc_balance acc \<le> acc_trx acc"
  using acc_trx_parts [of acc] by (simp add: acc_trx_def)

lemma wf_state_account:
  assumes "wf_state s" and "get_account s a = Some acc"
  shows "wf_account acc" and "acc_trx acc \<le> total_trx s" and "acc_trx acc \<le> i64_max"
    and "acc_balance acc \<le> i64_max" and "in_i64 (acc_balance acc)"
proof -
  show w: "wf_account acc"
    using assms by (simp add: wf_state_def get_account_def)
  have ex: "0 \<le> msum ex_trx (ws_exchanges s)" and ord: "0 \<le> msum order_trx (ws_orders s)"
    using assms(1)
    by (auto intro!: msum_nonneg simp: wf_state_def wf_exchange_def wf_order_def ex_trx_def order_trx_def)
  have "opt_val acc_trx (ws_accounts s a) \<le> msum acc_trx (ws_accounts s)"
    using assms(1) by (intro msum_member) (auto simp: wf_state_def acc_trx_nonneg)
  then show le: "acc_trx acc \<le> total_trx s"
    using assms ex ord by (simp add: wf_state_def total_trx_def get_account_def)
  with assms(1) show "acc_trx acc \<le> i64_max"
    by (simp add: wf_state_def)
  with balance_le_acc_trx [OF w] show "acc_balance acc \<le> i64_max" by simp
  with w show "in_i64 (acc_balance acc)"
    by (simp add: i64_bounds_defs wf_account_def)
qed

lemma wf_state_two_accounts:
  assumes "wf_state s" and "get_account s a = Some x" and "get_account s b = Some y" and "a \<noteq> b"
  shows "acc_trx x + acc_trx y + get_prop_i64 s BURN_TRX_AMOUNT \<le> total_trx s"
proof -
  have ex: "0 \<le> msum ex_trx (ws_exchanges s)" and ord: "0 \<le> msum order_trx (ws_orders s)"
    using assms(1)
    by (auto intro!: msum_nonneg simp: wf_state_def wf_exchange_def wf_order_def ex_trx_def order_trx_def)
  have "opt_val acc_trx (ws_accounts s a) + opt_val acc_trx (ws_accounts s b)
      \<le> msum acc_trx (ws_accounts s)"
    using assms(1,4) by (intro msum_member2) (auto simp: wf_state_def acc_trx_nonneg)
  with assms ex ord show ?thesis
    by (simp add: total_trx_def get_account_def)
qed

lemma wf_state_burn:
  assumes "wf_state s" and "get_account s a = Some x"
  shows "acc_trx x + get_prop_i64 s BURN_TRX_AMOUNT \<le> total_trx s"
proof -
  have ex: "0 \<le> msum ex_trx (ws_exchanges s)" and ord: "0 \<le> msum order_trx (ws_orders s)"
    using assms(1)
    by (auto intro!: msum_nonneg simp: wf_state_def wf_exchange_def wf_order_def ex_trx_def order_trx_def)
  have "opt_val acc_trx (ws_accounts s a) \<le> msum acc_trx (ws_accounts s)"
    using assms(1) by (intro msum_member) (auto simp: wf_state_def acc_trx_nonneg)
  with assms ex ord show ?thesis
    by (simp add: total_trx_def get_account_def)
qed

section \<open>Writes that keep a ledger well formed\<close>

text \<open>
  \<open>same_delegation\<close>: an account write that leaves the delegated amounts alone keeps the
  delegation invariant.
\<close>

definition same_delegation :: "account option \<Rightarrow> account \<Rightarrow> bool" where
  "same_delegation old acc \<longleftrightarrow>
     acc_delegated_bandwidth acc = opt_val acc_delegated_bandwidth old
     \<and> delegated_energy acc = opt_val delegated_energy old"

lemma total_trx_put_account:
  "wf_state s \<Longrightarrow>
   total_trx (put_account a acc s) = total_trx s - opt_val acc_trx (get_account s a) + acc_trx acc"
  by (simp add: total_trx_def put_account_def wf_state_def msum_upd get_prop_i64_def get_account_def)

lemma total_trx_put_prop [simp]:
  "k \<noteq> BURN_TRX_AMOUNT \<Longrightarrow> total_trx (put_prop_i64 k v s) = total_trx s"
  by (simp add: total_trx_def put_prop_i64_def get_prop_i64_def)

lemma wf_state_put_prop [simp]:
  "k \<noteq> BURN_TRX_AMOUNT \<Longrightarrow> k \<noteq> CREATE_NEW_ACCOUNT_FEE_IN_SYSTEM_CONTRACT \<Longrightarrow>
   wf_state (put_prop_i64 k v s) = wf_state s"
  by (simp add: wf_state_def put_prop_i64_def get_prop_i64_def wf_delegation_def records_of_def
      total_trx_def)

lemma wf_state_put_account:
  assumes "wf_state s" and "wf_account acc" and "same_delegation (get_account s a) acc"
    and "total_trx s - opt_val acc_trx (get_account s a) + acc_trx acc \<le> i64_max"
  shows "wf_state (put_account a acc s)"
proof -
  have "wf_delegation (put_account a acc s)"
    using assms(1,3)
    by (auto simp: wf_state_def wf_delegation_def put_account_def records_of_def same_delegation_def
        get_account_def)
  moreover have "total_trx (put_account a acc s) \<le> i64_max"
    using assms(1,4) by (simp add: total_trx_put_account)
  ultimately show ?thesis
    using assms(1,2) by (auto simp: wf_state_def put_account_def get_prop_i64_def)
qed

lemma burn_trx_total:
  assumes "wf_state s" and "0 \<le> x" and "get_prop_i64 s BURN_TRX_AMOUNT + x \<le> i64_max"
  shows "total_trx (burn_trx x s) = total_trx s + x"
proof -
  have "in_i64 (get_prop_i64 s BURN_TRX_AMOUNT + x)"
    using assms by (simp add: wf_state_def i64_bounds_defs)
  then show ?thesis
    by (simp add: burn_trx_def total_trx_def i64_sat_add_def put_prop_i64_def get_prop_i64_def)
qed

lemma burn_trx_wf:
  assumes "wf_state s" and "0 \<le> x" and "total_trx s + x \<le> i64_max"
    and "get_prop_i64 s BURN_TRX_AMOUNT + x \<le> i64_max"
  shows "wf_state (burn_trx x s)"
proof -
  have fin: "in_i64 (get_prop_i64 s BURN_TRX_AMOUNT + x)"
    using assms by (simp add: wf_state_def i64_bounds_defs)
  have "total_trx (burn_trx x s) \<le> i64_max"
    using assms burn_trx_total by simp
  with assms(1,2) fin show ?thesis
    by (auto simp: wf_state_def burn_trx_def put_prop_i64_def get_prop_i64_def i64_sat_add_def
        wf_delegation_def records_of_def prop_keys)
qed

text \<open>
  The moves a ledger makes, each with its effect on the total: rewriting one account,
  debiting and crediting a balance, opening an empty account, burning.
\<close>

lemma burn_le_total: "wf_state s \<Longrightarrow> get_prop_i64 s BURN_TRX_AMOUNT \<le> total_trx s"
proof -
  assume w: "wf_state s"
  then have "0 \<le> msum acc_trx (ws_accounts s)" and "0 \<le> msum ex_trx (ws_exchanges s)"
    and "0 \<le> msum order_trx (ws_orders s)"
    by (auto intro!: msum_nonneg simp: wf_state_def wf_exchange_def wf_order_def ex_trx_def
        order_trx_def acc_trx_nonneg)
  then show ?thesis by (simp add: total_trx_def)
qed

lemma move_account:
  assumes "wf_state s" and "get_account s a = Some acc" and "wf_account acc'"
    and "same_delegation (Some acc) acc'" and "total_trx s + acc_trx acc' - acc_trx acc \<le> i64_max"
  shows "wf_state (put_account a acc' s)"
    and "total_trx (put_account a acc' s) = total_trx s + acc_trx acc' - acc_trx acc"
  using assms by (auto simp: total_trx_put_account intro!: wf_state_put_account)

lemma acc_trx_balance: "acc_trx (acc\<lparr>acc_balance := b\<rparr>) = acc_trx acc - acc_balance acc + b"
  by (simp add: acc_trx_def)

lemma wf_account_balance: "wf_account acc \<Longrightarrow> 0 \<le> b \<Longrightarrow> wf_account (acc\<lparr>acc_balance := b\<rparr>)"
  by (simp add: wf_account_def)

lemma same_delegation_balance [simp]: "same_delegation (Some acc) (acc\<lparr>acc_balance := b\<rparr>)"
  by (simp add: same_delegation_def delegated_energy_def)

lemma move_balance:
  assumes "wf_state s" and "get_account s a = Some acc" and "0 \<le> b"
    and "total_trx s + b - acc_balance acc \<le> i64_max"
  shows "wf_state (put_account a (acc\<lparr>acc_balance := b\<rparr>) s)"
    and "total_trx (put_account a (acc\<lparr>acc_balance := b\<rparr>) s) = total_trx s + b - acc_balance acc"
  using assms move_account [OF assms(1,2), of "acc\<lparr>acc_balance := b\<rparr>"] wf_state_account [OF assms(1,2)]
  by (simp_all add: acc_trx_balance wf_account_balance)

lemma new_account_value [simp]:
  "acc_trx (new_account a s) = 0" "wf_account (new_account a s)"
  "same_delegation None (new_account a s)" "acc_balance (new_account a s) = 0"
  by (simp_all add: new_account_def account_default_def acc_trx_def wf_account_def
      same_delegation_def delegated_energy_def)

lemma move_new_account:
  assumes "wf_state s" and "get_account s a = None" and "wf_account acc" and "acc_trx acc = 0"
    and "same_delegation None acc"
  shows "wf_state (put_account a acc s)" and "total_trx (put_account a acc s) = total_trx s"
proof -
  have "total_trx s \<le> i64_max" using assms(1) by (simp add: wf_state_def)
  with assms show "wf_state (put_account a acc s)" and "total_trx (put_account a acc s) = total_trx s"
    by (simp_all add: wf_state_put_account total_trx_put_account)
qed

lemma move_burn:
  assumes "wf_state s" and "0 \<le> x" and "total_trx s + x \<le> i64_max"
  shows "wf_state (burn_trx x s)" and "total_trx (burn_trx x s) = total_trx s + x"
  using assms burn_le_total [OF assms(1)] by (simp_all add: burn_trx_wf burn_trx_total)

lemma move_debit:
  assumes "wf_state s" and "get_account s a = Some acc" and "0 \<le> x" and "x \<le> acc_balance acc"
  shows "wf_state (put_account a (acc\<lparr>acc_balance := acc_balance acc - x\<rparr>) s)"
    and "total_trx (put_account a (acc\<lparr>acc_balance := acc_balance acc - x\<rparr>) s) = total_trx s - x"
    and "in_i64 (acc_balance acc - x)"
proof -
  have le: "total_trx s \<le> i64_max" "acc_balance acc \<le> i64_max"
    using assms(1) wf_state_account(4) [OF assms(1,2)] by (simp_all add: wf_state_def)
  then have fits: "total_trx s + (acc_balance acc - x) - acc_balance acc \<le> i64_max"
    using assms(3) by simp
  have "0 \<le> acc_balance acc - x" using assms(4) by simp
  from move_balance [OF assms(1,2) this fits]
  show "wf_state (put_account a (acc\<lparr>acc_balance := acc_balance acc - x\<rparr>) s)"
    and "total_trx (put_account a (acc\<lparr>acc_balance := acc_balance acc - x\<rparr>) s) = total_trx s - x"
    by simp_all
  show "in_i64 (acc_balance acc - x)"
    using assms(3,4) le by (simp add: i64_bounds_defs)
qed

lemma move_credit:
  assumes "wf_state s" and "get_account s a = Some acc" and "0 \<le> x" and "total_trx s + x \<le> i64_max"
  shows "wf_state (put_account a (acc\<lparr>acc_balance := acc_balance acc + x\<rparr>) s)"
    and "total_trx (put_account a (acc\<lparr>acc_balance := acc_balance acc + x\<rparr>) s) = total_trx s + x"
    and "in_i64 (acc_balance acc + x)"
proof -
  have w: "wf_account acc" "acc_trx acc \<le> total_trx s"
    using wf_state_account [OF assms(1,2)] by simp_all
  then have le: "0 \<le> acc_balance acc" "acc_balance acc \<le> total_trx s"
    using balance_le_acc_trx [of acc] by (simp_all add: wf_account_def)
  have "0 \<le> acc_balance acc + x" and "total_trx s + (acc_balance acc + x) - acc_balance acc \<le> i64_max"
    using le assms(3,4) by simp_all
  from move_balance [OF assms(1,2) this]
  show "wf_state (put_account a (acc\<lparr>acc_balance := acc_balance acc + x\<rparr>) s)"
    and "total_trx (put_account a (acc\<lparr>acc_balance := acc_balance acc + x\<rparr>) s) = total_trx s + x"
    by simp_all
  show "in_i64 (acc_balance acc + x)"
    using assms(3,4) le by (simp add: i64_bounds_defs)
qed

text \<open>Burning an optional fee (\<open>if fee > 0 { burn }\<close>).\<close>

definition burn_fee :: "i64 \<Rightarrow> world_state \<Rightarrow> world_state" where
  "burn_fee f s = (if 0 < f then burn_trx f s else s)"

lemma move_burn_fee:
  assumes "wf_state s" and "0 \<le> x" and "total_trx s + x \<le> i64_max"
  shows "wf_state (burn_fee x s)" and "total_trx (burn_fee x s) = total_trx s + x"
  using assms move_burn [OF assms] by (auto simp: burn_fee_def)

lemma accounts_burn [state_simps]:
  "get_account (burn_trx x s) a = get_account s a" "account_exists (burn_trx x s) a = account_exists s a"
  "get_account (burn_fee x s) a = get_account s a" "account_exists (burn_fee x s) a = account_exists s a"
  by (simp_all add: burn_fee_def burn_trx_def get_account_def account_exists_def put_prop_i64_def)

lemma wf_total_le [simp]: "wf_state s \<Longrightarrow> total_trx s \<le> i64_max"
  by (simp add: wf_state_def)

lemma nonneg_in_i64: "0 \<le> x \<Longrightarrow> x \<le> i64_max \<Longrightarrow> in_i64 x"
  by (simp add: i64_bounds_defs)

text \<open>Columns that hold no TRX: writing them changes neither the value nor the well-formedness.\<close>

lemma wf_state_frame [simp]:
  "wf_state (s\<lparr>ws_witnesses := w\<rparr>) = wf_state s" "wf_state (s\<lparr>ws_proposals := p\<rparr>) = wf_state s"
  "wf_state (s\<lparr>ws_assets := as\<rparr>) = wf_state s" "wf_state (s\<lparr>ws_contracts := cs\<rparr>) = wf_state s"
  "wf_state (s\<lparr>ws_brokerage := b\<rparr>) = wf_state s" "wf_state (s\<lparr>ws_code := co\<rparr>) = wf_state s"
  "wf_state (s\<lparr>ws_active := ac\<rparr>) = wf_state s" "wf_state (s\<lparr>ws_storage := st\<rparr>) = wf_state s"
  "wf_state (s\<lparr>ws_blocks := bl\<rparr>) = wf_state s" "wf_state (s\<lparr>ws_block_index := bi\<rparr>) = wf_state s"
  "wf_state (s\<lparr>ws_transactions := tx\<rparr>) = wf_state s" "wf_state (s\<lparr>ws_prices := pr\<rparr>) = wf_state s"
  "wf_state (s\<lparr>ws_order_ids := oi\<rparr>) = wf_state s" "wf_state (s\<lparr>ws_account_orders := ao\<rparr>) = wf_state s"
  "wf_state (s\<lparr>ws_pairs := pa\<rparr>) = wf_state s"
  by (simp_all add: wf_state_def wf_delegation_def records_of_def total_trx_def get_prop_i64_def)

lemma total_trx_frame [simp]:
  "total_trx (s\<lparr>ws_witnesses := w\<rparr>) = total_trx s" "total_trx (s\<lparr>ws_proposals := p\<rparr>) = total_trx s"
  "total_trx (s\<lparr>ws_assets := as\<rparr>) = total_trx s" "total_trx (s\<lparr>ws_contracts := cs\<rparr>) = total_trx s"
  "total_trx (s\<lparr>ws_brokerage := b\<rparr>) = total_trx s" "total_trx (s\<lparr>ws_code := co\<rparr>) = total_trx s"
  "total_trx (s\<lparr>ws_active := ac\<rparr>) = total_trx s" "total_trx (s\<lparr>ws_storage := st\<rparr>) = total_trx s"
  "total_trx (s\<lparr>ws_blocks := bl\<rparr>) = total_trx s" "total_trx (s\<lparr>ws_block_index := bi\<rparr>) = total_trx s"
  "total_trx (s\<lparr>ws_transactions := tx\<rparr>) = total_trx s" "total_trx (s\<lparr>ws_prices := pr\<rparr>) = total_trx s"
  "total_trx (s\<lparr>ws_order_ids := oi\<rparr>) = total_trx s" "total_trx (s\<lparr>ws_account_orders := ao\<rparr>) = total_trx s"
  "total_trx (s\<lparr>ws_pairs := pa\<rparr>) = total_trx s"
  by (simp_all add: total_trx_def get_prop_i64_def)

section \<open>The contract of an actuator\<close>

text \<open>
  \<open>input_ok\<close> is what the code takes for granted of the contract message and of the chain
  parameters (fields are 64-bit integers, a fee parameter is not negative).
\<close>

locale actuator =
  fixes validate :: "'c \<Rightarrow> world_state \<Rightarrow> actuator_error + i64"
    and execute :: "'c \<Rightarrow> execution_result act"
    and input_ok :: "'c \<Rightarrow> world_state \<Rightarrow> bool"
  assumes sound:
    "wf_state s \<Longrightarrow> input_ok c s \<Longrightarrow> validate c s = Inr f \<Longrightarrow>
     \<exists>r s'. execute c s = (Inr r, s') \<and> wf_state s' \<and> total_trx s' = total_trx s"
begin

lemma atomic:
  assumes "wf_state s" and "input_ok c s" and "actuate validate execute c s = (Inl e, s')"
  shows "s' = s"
proof (cases "validate c s")
  case (Inl e')
  with assms(3) show ?thesis by (simp add: actuate_def)
next
  case (Inr f)
  with sound [OF assms(1,2)] assms(3) show ?thesis
    by (fastforce simp: actuate_def)
qed

lemma preserves:
  assumes "wf_state s" and "input_ok c s" and "actuate validate execute c s = (r, s')"
  shows "wf_state s'" and "total_trx s' = total_trx s"
proof -
  have "wf_state s' \<and> total_trx s' = total_trx s"
  proof (cases "validate c s")
    case (Inl e)
    with assms show ?thesis by (simp add: actuate_def)
  next
    case (Inr f)
    with sound [OF assms(1,2)] assms(3) show ?thesis
      by (fastforce simp: actuate_def)
  qed
  then show "wf_state s'" and "total_trx s' = total_trx s" by simp_all
qed

end

section \<open>Concrete ledgers\<close>

text \<open>Small ledgers on which the statements are evaluated.\<close>

definition addr_of :: "byte \<Rightarrow> address" where
  "addr_of b = from_body (replicate 20 b)"

definition wallet :: "byte \<Rightarrow> i64 \<Rightarrow> account" where
  "wallet b x = account_default\<lparr>acc_address := as_bytes (addr_of b), acc_balance := x\<rparr>"

fun ledger_of :: "(byte \<times> account) list \<Rightarrow> world_state" where
  "ledger_of [] = ws_empty"
| "ledger_of ((b, acc) # xs) = put_account (addr_of b) acc (ledger_of xs)"

lemma wf_addr_of [simp]: "wf_address (addr_of b)"
  by (simp add: addr_of_def wf_from_body)

lemma addr_of_inject [simp]: "addr_of a = addr_of b \<longleftrightarrow> a = b"
  by (simp add: addr_of_def)

lemma addr_of_bytes_inject [simp]: "as_bytes (addr_of a) = as_bytes (addr_of b) \<longleftrightarrow> a = b"
  by (simp add: addr_of_def from_body_def)

lemma wf_ws_empty [simp]: "wf_state ws_empty" "total_trx ws_empty = 0"
  by (simp_all add: wf_state_def ws_empty_def total_trx_def get_prop_i64_def wf_delegation_def
      records_of_def i64_max_def split_def)

lemma ws_empty_get [simp]: "get_account ws_empty a = None" "get_prop_i64 ws_empty k = 0"
  by (simp_all add: ws_empty_def get_account_def get_prop_i64_def)

lemma ledger_prop [simp]: "get_prop_i64 (ledger_of xs) k = 0"
  by (induction xs rule: ledger_of.induct) (simp_all add: state_simps)

lemma wallet_value [simp]:
  "acc_trx (wallet b x) = x" "wf_account (wallet b x) \<longleftrightarrow> 0 \<le> x" "acc_balance (wallet b x) = x"
  "same_delegation None (wallet b x)"
  by (simp_all add: wallet_def account_default_def acc_trx_def wf_account_def same_delegation_def
      delegated_energy_def)

lemma ledger_cons:
  assumes "wf_state (ledger_of xs)" and "get_account (ledger_of xs) (addr_of b) = None"
    and "wf_account acc" and "same_delegation None acc"
    and "total_trx (ledger_of xs) + acc_trx acc \<le> i64_max"
  shows "wf_state (ledger_of ((b, acc) # xs))"
    and "total_trx (ledger_of ((b, acc) # xs)) = total_trx (ledger_of xs) + acc_trx acc"
  using assms by (simp_all add: wf_state_put_account total_trx_put_account)

lemma ledger_one:
  assumes "wf_account acc" and "same_delegation None acc" and "acc_trx acc \<le> i64_max"
  shows "wf_state (ledger_of [(b, acc)])" and "total_trx (ledger_of [(b, acc)]) = acc_trx acc"
  using ledger_cons [of "[]" b acc] assms by simp_all

lemma ledger_two:
  assumes "wf_account acc" and "same_delegation None acc" and "wf_account acc'"
    and "same_delegation None acc'" and "acc_trx acc + acc_trx acc' \<le> i64_max" and "b \<noteq> b'"
  shows "wf_state (ledger_of [(b, acc), (b', acc')])"
proof -
  have "0 \<le> acc_trx acc" using assms(1) by (rule acc_trx_nonneg)
  with assms have w: "wf_state (ledger_of [(b', acc')])" "total_trx (ledger_of [(b', acc')]) = acc_trx acc'"
    using ledger_one by auto
  with assms show ?thesis
    using ledger_cons [of "[(b', acc')]" b acc] by (simp add: state_simps)
qed

end
