(* ===== verification/Smart_Contract.thy ===== *)
theory Smart_Contract
  imports Vm_Value Actuator_Base
begin

text \<open>
  Smart-contract transactions, \<open>actuators/src/smart_contract.rs\<close>, and the bridge between the virtual machine and the
  world state, \<open>actuators/src/vm_host.rs\<close>.  A call runs on a journaled world whose reads fall through to the state;
  what it wrote is flushed when it succeeds, and the energy it used is paid for in either case.  A panic of the
  virtual machine is an error value of its own.
\<close>

section \<open>The bridge to the world state\<close>

definition addr21 :: "bytes \<Rightarrow> address option" where
  "addr21 b = (if length b = 20 then Some (from_body b) else None)"

definition body20 :: "address \<Rightarrow> bytes" where
  "body20 a = drop 1 (as_bytes a)"

definition world_state_backend :: "world_state \<Rightarrow> state_backend" where
  "world_state_backend s =
     \<lparr>sb_get_code = (\<lambda>b. case addr21 b of None \<Rightarrow> [] | Some a \<Rightarrow> state_get_code s a),
      sb_sload = (\<lambda>b slot. case addr21 b of None \<Rightarrow> 0 | Some a \<Rightarrow> (case ws_storage s (a, slot) of None \<Rightarrow> 0 | Some v \<Rightarrow> v)),
      sb_balance = (\<lambda>a. case get_account s a of None \<Rightarrow> 0 | Some acc \<Rightarrow> acc_balance acc),
      sb_account_exists = account_exists s\<rparr>"

text \<open>
  The dirty writes of a world.  The hash maps they are read from have every key once, so the order in which they are
  flushed does not matter and a write is an override of the state's map.
\<close>

record world_writes =
  ww_storage :: "slot_key \<rightharpoonup> u256"
  ww_balances :: "address \<rightharpoonup> i64"
  ww_code :: "bytes \<rightharpoonup> bytes"
  ww_suicided :: "address list"

definition from_world :: "world \<Rightarrow> world_writes" where
  "from_world w = \<lparr>ww_storage = w_storage w, ww_balances = w_balances w, ww_code = w_code w, ww_suicided = w_suicides w\<rparr>"

definition flush_storage :: "(slot_key \<rightharpoonup> u256) \<Rightarrow> world_state \<Rightarrow> world_state" where
  "flush_storage st s =
     s\<lparr>ws_storage := (\<lambda>(a, slot).
         case (if wf_address a then st (body20 a, slot) else None) of
           None \<Rightarrow> ws_storage s (a, slot)
         | Some v \<Rightarrow> if v = 0 then None else Some v)\<rparr>"

definition flush_balances :: "(address \<rightharpoonup> i64) \<Rightarrow> world_state \<Rightarrow> world_state" where
  "flush_balances bs s =
     s\<lparr>ws_accounts := (\<lambda>a.
         case bs a of
           None \<Rightarrow> ws_accounts s a
         | Some bal \<Rightarrow>
             Some ((case ws_accounts s a of None \<Rightarrow> account_default\<lparr>acc_address := as_bytes a\<rparr> | Some acc \<Rightarrow> acc)
                   \<lparr>acc_balance := bal\<rparr>))\<rparr>"

definition flush_code :: "(bytes \<rightharpoonup> bytes) \<Rightarrow> world_state \<Rightarrow> world_state" where
  "flush_code cs s =
     s\<lparr>ws_code := (\<lambda>a. case (if wf_address a then cs (body20 a) else None) of None \<Rightarrow> ws_code s a | Some c \<Rightarrow> Some c)\<rparr>"

definition delete_contract :: "address \<Rightarrow> world_state \<Rightarrow> world_state" where
  "delete_contract a s = s\<lparr>ws_accounts := (ws_accounts s)(a := None), ws_code := (ws_code s)(a := None)\<rparr>"

definition flush_world :: "world_writes \<Rightarrow> world_state \<Rightarrow> world_state" where
  "flush_world ww s =
     fold delete_contract (ww_suicided ww)
       (flush_code (ww_code ww) (flush_balances (ww_balances ww) (flush_storage (ww_storage ww) s)))"

text \<open>The storage of one contract as the host of a single-contract run.\<close>

definition state_host_sload :: "address \<Rightarrow> u256 \<Rightarrow> world_state \<Rightarrow> u256" where
  "state_host_sload contract slot s = (case ws_storage s (contract, slot) of None \<Rightarrow> 0 | Some v \<Rightarrow> v)"

definition state_host_sstore :: "address \<Rightarrow> u256 \<Rightarrow> u256 \<Rightarrow> world_state \<Rightarrow> world_state" where
  "state_host_sstore contract slot val s =
     s\<lparr>ws_storage := (ws_storage s)((contract, slot) := (if val = 0 then None else Some val))\<rparr>"

section \<open>The actuators\<close>

datatype contract_error = ContractError actuator_error | VmPanic panic | VmNoFuel

definition lift_act :: "'a act \<Rightarrow> (world_state, contract_error, 'a) st" where
  "lift_act m s = map_prod (map_sum ContractError id) id (m s)"

record trigger_contract =
  tr_owner_address :: bytes
  tr_contract_address :: bytes
  tr_call_value :: i64
  tr_data :: bytes

record create_contract =
  cs_owner_address :: bytes
  cs_new_contract :: "smart_contract option"

definition DEPLOY_ENERGY_LIMIT :: u64 where "DEPLOY_ENERGY_LIMIT = 3000000"

definition DEFAULT_ENERGY_FEE_SUN :: i64 where "DEFAULT_ENERGY_FEE_SUN = 100"

definition contract_parse_address :: "bytes \<Rightarrow> string \<Rightarrow> actuator_error + address" where
  "contract_parse_address bs what = parse_address (''Invalid '' @ what) bs"

definition energy_price :: "world_state \<Rightarrow> i64" where
  "energy_price s = (let p = get_prop_i64 s ''ENERGY_FEE'' in if 0 < p then p else DEFAULT_ENERGY_FEE_SUN)"

definition charge_energy_fee :: "address \<Rightarrow> i64 \<Rightarrow> unit act" where
  "charge_energy_fee owner fee =
     (if fee \<le> 0 then st_return ()
      else st_bind (st_gets (\<lambda>s. get_account s owner)) (\<lambda>oa.
        case oa of
          None \<Rightarrow> st_return ()
        | Some acc \<Rightarrow>
            st_bind (st_lift (checked_debit (acc_balance acc) fee (Execute ''insufficient balance for energy fee''))) (\<lambda>b.
            st_bind (st_modify (put_account owner (acc\<lparr>acc_balance := b\<rparr>))) (\<lambda>_.
            st_modify (burn_trx fee)))))"

definition trigger_validate :: "trigger_contract \<Rightarrow> world_state \<Rightarrow> actuator_error + i64" where
  "trigger_validate c s =
     rbind (contract_parse_address (tr_owner_address c) ''ownerAddress'') (\<lambda>_.
     rbind (contract_parse_address (tr_contract_address c) ''contractAddress'') (\<lambda>target.
     rbind (ensure (state_get_code s target \<noteq> []) (Validate ''Contract does not exist'')) (\<lambda>_. Inr 0)))"

definition call_world :: "address \<Rightarrow> address \<Rightarrow> i64 \<Rightarrow> world_state \<Rightarrow> world" where
  "call_world owner target call_value s =
     (let w = with_state (world_state_backend s)
      in if call_value \<noteq> 0 then world_transfer owner target call_value w else w)"

definition trigger_execute :: "crypto \<Rightarrow> u64 \<Rightarrow> trigger_contract \<Rightarrow> (world_state, contract_error, execution_result) st" where
  "trigger_execute cr energy_limit c =
     st_bind (lift_act (st_lift (contract_parse_address (tr_owner_address c) ''ownerAddress''))) (\<lambda>owner.
     st_bind (lift_act (st_lift (contract_parse_address (tr_contract_address c) ''contractAddress''))) (\<lambda>target.
     st_bind (st_gets id) (\<lambda>s.
     case execute_call cr (call_world owner target (tr_call_value c) s) (body20 target) (tr_data c) energy_limit 0 of
       Crashed p \<Rightarrow> st_fail (VmPanic p)
     | OutOfFuel \<Rightarrow> st_fail VmNoFuel
     | Finished r w \<Rightarrow>
         let fee = energy_to_sun (cr_energy_used r) (energy_price s) in
         st_bind (st_modify (if cr_success r then flush_world (from_world w) else id)) (\<lambda>_.
         st_bind (lift_act (charge_energy_fee owner fee)) (\<lambda>_.
         st_return (ExecutionResult fee))))))"

definition create_validate :: "create_contract \<Rightarrow> world_state \<Rightarrow> actuator_error + i64" where
  "create_validate c s =
     rbind (contract_parse_address (cs_owner_address c) ''ownerAddress'') (\<lambda>_.
     rbind (ensure (cs_new_contract c \<noteq> None) (Validate ''No contract body'')) (\<lambda>_. Inr 0))"

definition contract_address_of :: "create_contract \<Rightarrow> smart_contract \<Rightarrow> actuator_error + address" where
  "contract_address_of c sc =
     (case contract_parse_address (sc_contract_address sc) ''contractAddress'' of
        Inr a \<Rightarrow> Inr a
      | Inl _ \<Rightarrow> contract_parse_address (cs_owner_address c) ''ownerAddress'')"

definition create_execute :: "crypto \<Rightarrow> create_contract \<Rightarrow> (world_state, contract_error, execution_result) st" where
  "create_execute cr c =
     st_bind (lift_act (st_lift (ok_or (cs_new_contract c) (Execute ''No contract body'')))) (\<lambda>sc.
     st_bind (lift_act (st_lift (contract_parse_address (cs_owner_address c) ''ownerAddress''))) (\<lambda>owner.
     st_bind (lift_act (st_lift (contract_address_of c sc))) (\<lambda>addr.
     st_bind (st_gets id) (\<lambda>s.
     case execute_code cr (with_state (world_state_backend s)) (body20 addr) (sc_bytecode sc) [] DEPLOY_ENERGY_LIMIT 0 of
       Crashed p \<Rightarrow> st_fail (VmPanic p)
     | OutOfFuel \<Rightarrow> st_fail VmNoFuel
     | Finished r w \<Rightarrow>
         let fee = energy_to_sun (cr_energy_used r) (energy_price s) in
         if \<not> cr_success r then
           st_bind (lift_act (charge_energy_fee owner fee)) (\<lambda>_.
           st_fail (ContractError (Execute ''contract constructor reverted'')))
         else
           let runtime = (if cr_return_data r = [] then sc_bytecode sc else cr_return_data r) in
           st_bind (st_modify (flush_world (from_world w))) (\<lambda>_.
           st_bind (st_modify (put_contract addr (sc\<lparr>sc_contract_address := as_bytes addr\<rparr>))) (\<lambda>_.
           st_bind (st_modify (put_code addr runtime)) (\<lambda>_.
           st_bind (lift_act (charge_energy_fee owner fee)) (\<lambda>_.
           st_return (ExecutionResult fee)))))))))"

section \<open>What a call can do to the ledger\<close>

text \<open>\<open>funded\<close>: the part of \<open>wf_state\<close> that the deletion of an account keeps.\<close>

definition funded :: "world_state \<Rightarrow> bool" where
  "funded s \<longleftrightarrow>
     finite (dom (ws_accounts s)) \<and> (\<forall>a acc. ws_accounts s a = Some acc \<longrightarrow> wf_account acc)
     \<and> 0 \<le> msum ex_trx (ws_exchanges s) \<and> 0 \<le> msum order_trx (ws_orders s)
     \<and> 0 \<le> get_prop_i64 s BURN_TRX_AMOUNT \<and> total_trx s \<le> i64_max"

abbreviation held :: "world_state \<Rightarrow> address \<Rightarrow> int" where
  "held s a \<equiv> opt_val acc_balance (ws_accounts s a)"

lemma wf_state_funded: "wf_state s \<Longrightarrow> funded s"
  by (auto intro!: msum_nonneg simp: funded_def wf_state_def wf_exchange_def wf_order_def ex_trx_def order_trx_def)

lemma msum_over:
  assumes "finite S" "dom m \<subseteq> S" shows "msum f m = (\<Sum>a\<in>S. opt_val f (m a))"
proof -
  have "(\<Sum>a\<in>S. opt_val f (m a)) = (\<Sum>a\<in>dom m. opt_val f (m a))"
    using assms by (intro sum.mono_neutral_right) (auto simp: domIff)
  also have "\<dots> = msum f m"
    unfolding msum_def by (rule sum.cong) auto
  finally show ?thesis by simp
qed

lemma held_bounds:
  assumes "funded s"
  shows "0 \<le> held s a" and "held s a \<le> opt_val acc_trx (ws_accounts s a)" and "0 \<le> opt_val acc_trx (ws_accounts s a)"
proof -
  have "0 \<le> held s a \<and> held s a \<le> opt_val acc_trx (ws_accounts s a) \<and> 0 \<le> opt_val acc_trx (ws_accounts s a)"
  proof (cases "ws_accounts s a")
    case (Some acc)
    then have "wf_account acc" using assms by (simp add: funded_def)
    with Some balance_le_acc_trx [OF this] acc_trx_nonneg [OF this] show ?thesis by (simp add: wf_account_def)
  qed simp
  then show "0 \<le> held s a" and "held s a \<le> opt_val acc_trx (ws_accounts s a)" and "0 \<le> opt_val acc_trx (ws_accounts s a)"
    by simp_all
qed

lemma held_le_total:
  assumes "funded s" shows "(\<Sum>a\<in>accounts21. held s a) \<le> i64_max"
proof -
  let ?S = "accounts21 \<union> dom (ws_accounts s)"
  have fin: "finite ?S" using assms by (simp add: funded_def)
  have "(\<Sum>a\<in>accounts21. held s a) \<le> (\<Sum>a\<in>?S. held s a)"
    using fin held_bounds(1) [OF assms] by (intro sum_mono2) auto
  also have "\<dots> \<le> (\<Sum>a\<in>?S. opt_val acc_trx (ws_accounts s a))"
    using held_bounds(2) [OF assms] by (rule sum_mono)
  also have "\<dots> = msum acc_trx (ws_accounts s)"
    using fin by (intro msum_over [symmetric]) auto
  also have "\<dots> \<le> i64_max" using assms by (simp add: funded_def total_trx_def)
  finally show ?thesis .
qed

lemma backend_balance [simp]: "sb_balance (world_state_backend s) a = held s a"
  by (simp add: world_state_backend_def get_account_def opt_val_def split: option.split)

lemma with_state_simps [simp]:
  "w_backend (with_state b) = BackendState b" "w_balances (with_state b) = Map.empty" "w_burned (with_state b) = 0"
  "w_suicides (with_state b) = []" "w_storage (with_state b) = Map.empty" "w_code (with_state b) = Map.empty"
  by (simp_all add: with_state_def world_with_def)

lemma balance_with_state [simp]: "world_balance (with_state (world_state_backend s)) a = held s a"
  by (simp add: world_balance_def)

lemma solvent_with_state:
  assumes "funded s"
  shows "solvent (BackendState (world_state_backend s)) (\<Sum>a\<in>accounts21. held s a) (with_state (world_state_backend s))"
  using held_bounds(1) [OF assms] held_le_total [OF assms]
  by (simp add: solvent_def total_balance_def host_backed_def)

lemma solvent_transfer:
  assumes s: "solvent B T w" and ab: "a \<in> accounts21" "b \<in> accounts21" "a \<noteq> b" and v: "0 \<le> v" "v \<le> world_balance w a"
  shows "solvent B T (world_transfer a b v w)"
proof (cases "v = 0")
  case True
  then show ?thesis using s by (simp add: world_transfer_def)
next
  case False
  let ?w = "world_transfer a b v w"
  have nn: "0 \<le> world_balance w x" for x using s by (simp add: solvent_def)
  have "world_balance w a + world_balance w b \<le> i64_max"
    using balances2_le_total [OF s ab] s by (auto simp: solvent_def)
  then have "in_i64 (world_balance w a - v)" "in_i64 (world_balance w b + v)"
    using v nn [of a] nn [of b] by (auto simp: i64_bounds_defs)
  then have bal: "world_balance ?w = (world_balance w)(a := world_balance w a - v, b := world_balance w b + v)"
    using False by (simp add: balance_transfer)
  have sp: "total_balance x accounts21 = world_balance x a + (world_balance x b + (\<Sum>y\<in>accounts21 - {a} - {b}. world_balance x y))" for x
    using ab total_balance_member [OF ab(1), of x] by (simp add: sum.remove [of _ b])
  have tot: "total_balance ?w accounts21 = total_balance w accounts21"
    unfolding sp bal using ab(3) by simp
  have "dom (w_balances ?w) \<subseteq> accounts21" "w_burned ?w = w_burned w"
    using s ab by (auto simp: solvent_def world_transfer_def write_balance_def ensure_account_def push_journal_def Let_def
        split: if_splits)
  moreover have "host_backed ?w = host_backed w" unfolding host_backed_def backend_transfer ..
  ultimately show ?thesis using s v nn tot bal by (simp add: solvent_def)
qed

lemma wf_address_accounts21: "wf_address a \<Longrightarrow> a \<in> accounts21"
  by (simp add: wf_address_def accounts21_def)

subsection \<open>Flushing\<close>

lemma flush_balances_accounts:
  assumes "funded s" "solvent (BackendState (world_state_backend s)) (\<Sum>a\<in>accounts21. held s a) w"
  defines "s' \<equiv> flush_balances (w_balances w) s"
  shows "finite (dom (ws_accounts s'))" and "ws_accounts s' a = Some acc \<Longrightarrow> wf_account acc"
    and "msum acc_trx (ws_accounts s') = msum acc_trx (ws_accounts s) - w_burned w"
proof -
  let ?m = "ws_accounts s'" and ?S = "accounts21 \<union> dom (ws_accounts s)"
  have bal: "world_balance w a = (case w_balances w a of None \<Rightarrow> held s a | Some b \<Rightarrow> b)" for a
    using assms(2) by (simp add: solvent_def world_balance_def split: option.split)
  have dom: "dom ?m \<subseteq> ?S"
    using assms(2) by (auto simp: s'_def flush_balances_def solvent_def split: option.splits) (meson domI subsetD)+
  have fin: "finite ?S" using assms(1) by (simp add: funded_def)
  from finite_subset [OF dom fin] show "finite (dom ?m)" .
  have nn: "0 \<le> world_balance w a" for a using assms(2) by (simp add: solvent_def)
  have def: "wf_account (account_default\<lparr>acc_address := b\<rparr>)" "acc_trx (account_default\<lparr>acc_address := b\<rparr>) = 0"
    "acc_balance account_default = 0" for b
    by (simp_all add: wf_account_def account_default_def acc_trx_def)
  show "wf_account acc" if "?m a = Some acc" for a acc
    using that assms(1) nn [of a] def
    by (auto simp: s'_def flush_balances_def funded_def bal intro!: wf_account_balance split: option.splits)
  have pt: "opt_val acc_trx (?m a) = opt_val acc_trx (ws_accounts s a) + (world_balance w a - held s a)" for a
    using def by (simp add: s'_def flush_balances_def bal acc_trx_balance split: option.split)
  have "msum acc_trx ?m = (\<Sum>a\<in>?S. opt_val acc_trx (ws_accounts s a)) + (\<Sum>a\<in>?S. world_balance w a - held s a)"
    using msum_over [OF fin dom, of acc_trx] by (simp add: pt sum.distrib)
  also have "(\<Sum>a\<in>?S. opt_val acc_trx (ws_accounts s a)) = msum acc_trx (ws_accounts s)"
    using fin by (intro msum_over [symmetric]) auto
  also have "(\<Sum>a\<in>?S. world_balance w a - held s a) = (\<Sum>a\<in>accounts21. world_balance w a - held s a)"
    using fin assms(2) by (intro sum.mono_neutral_right) (auto simp: bal solvent_def split: option.split)
  also have "\<dots> = - w_burned w"
    using assms(2) by (simp add: solvent_def total_balance_def sum_subtractf)
  finally show "msum acc_trx ?m = msum acc_trx (ws_accounts s) - w_burned w" by simp
qed

lemma delete_contracts_funded:
  assumes "funded s" shows "funded (fold delete_contract as s) \<and> total_trx (fold delete_contract as s) \<le> total_trx s"
  using assms
proof (induction as arbitrary: s)
  case (Cons a as)
  have fin: "finite (dom (ws_accounts s))" using Cons.prems by (simp add: funded_def)
  have le: "total_trx (delete_contract a s) \<le> total_trx s"
    using held_bounds(3) [OF Cons.prems, of a]
    by (simp add: total_trx_def delete_contract_def msum_del [OF fin] get_prop_i64_def)
  have "funded (delete_contract a s)"
    using Cons.prems le by (auto simp: funded_def delete_contract_def get_prop_i64_def split: if_splits)
  with Cons.IH [of "delete_contract a s"] le show ?case by auto
qed simp

lemma flush_world_funded:
  assumes "funded s" "solvent (BackendState (world_state_backend s)) (\<Sum>a\<in>accounts21. held s a) w"
  shows "funded (flush_world (from_world w) s) \<and> total_trx (flush_world (from_world w) s) \<le> total_trx s"
proof -
  let ?b = "flush_balances (w_balances w) s"
  let ?t = "flush_code (w_code w) (flush_balances (w_balances w) (flush_storage (w_storage w) s))"
  note b = flush_balances_accounts [OF assms]
  have acc: "ws_accounts ?t = ws_accounts ?b" and rest: "ws_exchanges ?t = ws_exchanges s" "ws_orders ?t = ws_orders s" "ws_props ?t = ws_props s"
    by (auto simp: flush_code_def flush_balances_def flush_storage_def fun_eq_iff split: option.split)
  have le: "total_trx ?t \<le> total_trx s"
    using b(3) assms(2) rest by (simp add: total_trx_def acc get_prop_i64_def solvent_def)
  have "funded ?t"
    using assms(1) b(1,2) le rest unfolding funded_def acc by (auto simp: get_prop_i64_def)
  from delete_contracts_funded [OF this, of "w_suicides w"] le show ?thesis
    by (auto simp: flush_world_def from_world_def)
qed

subsection \<open>The fee\<close>

lemma funded_account:
  assumes "funded s" "get_account s a = Some acc"
  shows "wf_account acc" and "acc_trx acc + get_prop_i64 s BURN_TRX_AMOUNT \<le> i64_max" and "in_i64 (acc_balance acc)"
proof -
  show w: "wf_account acc" using assms by (simp add: funded_def get_account_def)
  have "opt_val acc_trx (ws_accounts s a) \<le> msum acc_trx (ws_accounts s)"
    using assms(1) by (intro msum_member) (auto simp: funded_def acc_trx_nonneg)
  with assms show le: "acc_trx acc + get_prop_i64 s BURN_TRX_AMOUNT \<le> i64_max"
    by (simp add: funded_def total_trx_def get_account_def)
  with w balance_le_acc_trx [OF w] assms(1) show "in_i64 (acc_balance acc)"
    by (simp add: i64_bounds_defs wf_account_def funded_def)
qed

lemma burn_trx_adds:
  assumes "0 \<le> get_prop_i64 s BURN_TRX_AMOUNT" "0 \<le> f" "get_prop_i64 s BURN_TRX_AMOUNT + f \<le> i64_max"
  shows "get_prop_i64 (burn_trx f s) BURN_TRX_AMOUNT = get_prop_i64 s BURN_TRX_AMOUNT + f"
    and "total_trx (burn_trx f s) = total_trx s + f"
proof -
  have "in_i64 (get_prop_i64 s BURN_TRX_AMOUNT + f)" using assms by (simp add: i64_bounds_defs)
  then have "burn_trx f s = put_prop_i64 BURN_TRX_AMOUNT (get_prop_i64 s BURN_TRX_AMOUNT + f) s"
    by (simp add: burn_trx_def i64_sat_add_def)
  then show "get_prop_i64 (burn_trx f s) BURN_TRX_AMOUNT = get_prop_i64 s BURN_TRX_AMOUNT + f"
    and "total_trx (burn_trx f s) = total_trx s + f"
    by (simp_all add: total_trx_def put_prop_i64_def get_prop_i64_def)
qed

lemma charge_energy_fee_cases:
  assumes "funded s" "charge_energy_fee owner fee s = (r, s')"
  obtains "r = Inr ()" "s' = s" "fee \<le> 0 \<or> get_account s owner = None"
  | acc where "0 < fee" "get_account s owner = Some acc" "acc_balance acc < fee" "s' = s"
      "r = Inl (Execute ''insufficient balance for energy fee'')"
  | acc where "0 < fee" "get_account s owner = Some acc" "fee \<le> acc_balance acc" "r = Inr ()"
      "s' = burn_trx fee (put_account owner (acc\<lparr>acc_balance := acc_balance acc - fee\<rparr>) s)"
proof (cases "0 < fee \<and> get_account s owner \<noteq> None")
  case False
  with assms(2) show ?thesis
    by (intro that(1)) (auto simp: charge_energy_fee_def st_bind_def st_prim_simps split: if_splits)
next
  case True
  then obtain acc where f: "0 < fee" and acc: "get_account s owner = Some acc" by auto
  have bal: "0 \<le> acc_balance acc" "acc_balance acc \<le> i64_max"
    using funded_account(1,3) [OF assms(1) acc] by (simp_all add: wf_account_def i64_bounds_defs)
  show ?thesis
  proof (cases "fee \<le> acc_balance acc")
    case True
    moreover have "in_i64 (acc_balance acc - fee)" using True f bal by (simp add: i64_bounds_defs)
    ultimately show ?thesis using assms(2) f acc
      by (intro that(3)) (auto simp: charge_energy_fee_def st_bind_def st_prim_simps checked_debit_ok)
  next
    case False
    then have "checked_debit (acc_balance acc) fee e = Inl e" for e
      by (auto simp: checked_debit_def i64_checked_sub_def split: option.splits if_splits)
    with False show ?thesis using assms(2) f acc
      by (intro that(2)) (auto simp: charge_energy_fee_def st_bind_def st_prim_simps)
  qed
qed


lemma charge_energy_fee_funded:
  assumes "funded s" "charge_energy_fee owner fee s = (r, s')"
  shows "funded s'" and "total_trx s' = total_trx s"
proof -
  from assms have "funded s' \<and> total_trx s' = total_trx s"
  proof (cases rule: charge_energy_fee_cases)
    case (3 acc)
    let ?p = "put_account owner (acc\<lparr>acc_balance := acc_balance acc - fee\<rparr>) s"
    note a = funded_account [OF assms(1) 3(2)]
    have fin: "finite (dom (ws_accounts s))" using assms(1) by (simp add: funded_def)
    have tot: "total_trx ?p = total_trx s - fee"
      using 3(2) by (simp add: total_trx_def put_account_def msum_upd [OF fin] get_account_def acc_trx_balance get_prop_i64_def)
    have "get_prop_i64 ?p BURN_TRX_AMOUNT = get_prop_i64 s BURN_TRX_AMOUNT"
      by (simp add: put_account_def get_prop_i64_def)
    then have burn: "get_prop_i64 (burn_trx fee ?p) BURN_TRX_AMOUNT = get_prop_i64 s BURN_TRX_AMOUNT + fee"
      "total_trx (burn_trx fee ?p) = total_trx ?p + fee"
      using burn_trx_adds [of ?p fee] 3 a(1,2) balance_le_acc_trx [OF a(1)] assms(1) by (simp_all add: funded_def)
    have "funded (burn_trx fee ?p)"
      using assms(1) burn tot 3(1,3) fin wf_account_balance [OF a(1), of "acc_balance acc - fee"]
      by (auto simp: funded_def burn_trx_def put_prop_i64_def put_account_def split: if_splits)
    with burn tot 3(5) show ?thesis by simp
  qed (use assms(1) in auto)
  then show "funded s'" and "total_trx s' = total_trx s" by auto
qed

section \<open>Running the actuators\<close>

lemma lift_act_simps:
  "lift_act (st_lift r) s = (map_sum ContractError id r, s)"
  "lift_act (charge_energy_fee owner fee) s = (map_sum ContractError id (fst (charge_energy_fee owner fee s)), snd (charge_energy_fee owner fee s))"
  by (simp_all add: lift_act_def st_prim_simps map_prod_def split_def)

lemma trigger_execute_eq:
  fixes s :: world_state
  assumes "wf_address owner" "wf_address target" "tr_owner_address c = as_bytes owner" "tr_contract_address c = as_bytes target"
  defines "w0 \<equiv> call_world owner target (tr_call_value c) s"
  shows "trigger_execute cr limit c s =
    (case run_frame cr w0 (body20 target) (get_code w0 (body20 target)) (tr_data c) limit 0 of
       Crashed p \<Rightarrow> (Inl (VmPanic p), s)
     | OutOfFuel \<Rightarrow> (Inl VmNoFuel, s)
     | Finished e w \<Rightarrow>
         let fee = energy_to_sun (e_energy_used e) (energy_price s);
             r = charge_energy_fee owner fee (if halt_is_success (e_halt e) then flush_world (from_world w) s else s)
         in (case fst r of Inl x \<Rightarrow> Inl (ContractError x) | Inr _ \<Rightarrow> Inr (ExecutionResult fee), snd r))"
  using assms(1-4)
  by (auto simp: trigger_execute_def contract_parse_address_def lift_act_simps st_bind_def st_prim_simps execute_call_def w0_def
      to_call_result_def Let_def split: frame_out.split sum.split)

lemma trigger_execute_parse:
  assumes "trigger_execute cr limit c s = (r, s')"
  obtains "s' = s" "r \<noteq> Inl VmNoFuel" "\<And>x. r \<noteq> Inr x"
  | owner target where "wf_address owner" "wf_address target" "tr_owner_address c = as_bytes owner" "tr_contract_address c = as_bytes target"
proof (cases "contract_parse_address (tr_owner_address c) ''ownerAddress''")
  case (Inl e)
  with assms show ?thesis by (intro that(1)) (auto simp: trigger_execute_def lift_act_simps st_bind_def)
next
  case (Inr owner)
  show ?thesis
  proof (cases "contract_parse_address (tr_contract_address c) ''contractAddress''")
    case (Inl e)
    with assms Inr show ?thesis by (intro that(1)) (auto simp: trigger_execute_def lift_act_simps st_bind_def)
  next
    case (Inr target)
    with \<open>contract_parse_address (tr_owner_address c) ''ownerAddress'' = Inr owner\<close> show ?thesis
      by (intro that(2) [of owner target]) (auto simp: contract_parse_address_def)
  qed
qed

lemma energy_to_sun_bounds: "0 \<le> p \<Longrightarrow> e \<le> limit \<Longrightarrow> 0 \<le> energy_to_sun e p \<and> energy_to_sun e p \<le> int limit * p"
  using mult_right_mono [of "int e" "int limit" p] by (auto simp: energy_to_sun_def i64_bounds_defs intro: order_trans)

lemma energy_price_pos: "0 < energy_price s"
  by (simp add: energy_price_def DEFAULT_ENERGY_FEE_SUN_def Let_def)

lemma run_frame_within: "run_frame cr w a code cd limit d = Finished e w' \<Longrightarrow> e_energy_used e \<le> limit"
  using run_frame_outcome [where cr = cr and w = w and a = a and code = code and cd = cd and limit = limit and depth = d] by simp

lemma run_frame_returns: "run_frame cr w a code cd limit d \<noteq> OutOfFuel"
  using run_frame_outcome [where cr = cr and w = w and a = a and code = code and cd = cd and limit = limit and depth = d] by auto

lemma run_stop: "run_frame cr w a [0] cd limit 0 = Finished \<lparr>e_halt = HaltStop, e_energy_used = 0, e_return_data = [], e_stack_top = None\<rparr> w"
  by (simp add: run_frame_def start_frame_def run_loop.simps step_def from_u8_def opcode_table_def vm_bind_def vm_charge_def charge_def
      u64_checked_add_def u64_max_def tier_defs stop_def stop_out_def mk_exec_def init_frame_def meter_new_def vm_return_def Let_def)

section \<open>Properties\<close>


text \<open>Sample: account 1 holds 1000 sun and account 2 holds 50 and the code of a contract.\<close>

definition no_crypto :: crypto where
  "no_crypto = \<lparr>c_sha256 = id, c_keccak256 = id, c_recover = \<lambda>_ _ _. None\<rparr>"

definition contract_ledger :: "bytes \<Rightarrow> world_state" where
  "contract_ledger code = put_code (addr_of 2) code (ledger_of [(1, wallet 1 1000), (2, wallet 2 50)])"

definition call_2 :: "i64 \<Rightarrow> trigger_contract" where
  "call_2 v = \<lparr>tr_owner_address = as_bytes (addr_of 1), tr_contract_address = as_bytes (addr_of 2), tr_call_value = v, tr_data = []\<rparr>"

lemma put_code_ledger [simp]:
  "wf_state (put_code a code s) = wf_state s" "total_trx (put_code a code s) = total_trx s" "held (put_code a code s) = held s"
  "get_account (put_code a code s) b = get_account s b" "get_prop_i64 (put_code a code s) k = get_prop_i64 s k"
  by (simp_all add: put_code_def wf_state_def total_trx_def get_prop_i64_def wf_delegation_def records_of_def get_account_def)

lemma wf_contract_ledger: "wf_state (contract_ledger code)"
  unfolding contract_ledger_def put_code_ledger by (rule ledger_two) (simp_all add: i64_bounds_defs)

lemma contract_ledger_simps [simp]:
  "get_account (contract_ledger code) (addr_of 1) = Some (wallet 1 1000)"
  "get_account (contract_ledger code) (addr_of 2) = Some (wallet 2 50)"
  "state_get_code (contract_ledger code) (addr_of 2) = code"
  "energy_price (contract_ledger code) = 100"
  by (simp_all add: contract_ledger_def state_simps energy_price_def DEFAULT_ENERGY_FEE_SUN_def)
    (simp add: state_get_code_def put_code_def)


text \<open>
  C37: A failed call only pays.  When the run of the contract does not succeed, nothing it wrote reaches the state:
  the caller pays the fee for the energy used, which is burnt, and that is the only change.  A caller that cannot
  pay the fee pays nothing.
\<close>

theorem failed_call_only_pays:
  assumes wf: "wf_state s" and adr: "wf_address owner" "wf_address target" "tr_owner_address c = as_bytes owner" "tr_contract_address c = as_bytes target"
    and run: "execute_call cr (call_world owner target (tr_call_value c) s) (body20 target) (tr_data c) limit 0 = Finished res w" "\<not> cr_success res"
    and acc: "get_account s owner = Some acc" and fee: "fee = energy_to_sun (cr_energy_used res) (energy_price s)"
  shows "trigger_execute cr limit c s =
    (if fee = 0 then (Inr (ExecutionResult 0), s)
     else if fee \<le> acc_balance acc
     then (Inr (ExecutionResult fee), burn_trx fee (put_account owner (acc\<lparr>acc_balance := acc_balance acc - fee\<rparr>) s))
     else (Inl (ContractError (Execute ''insufficient balance for energy fee'')), s))"
proof -
  let ?w0 = "call_world owner target (tr_call_value c) s"
  from run obtain e where e: "run_frame cr ?w0 (body20 target) (get_code ?w0 (body20 target)) (tr_data c) limit 0 = Finished e w"
    "\<not> halt_is_success (e_halt e)" "cr_energy_used res = e_energy_used e"
    by (cases "run_frame cr ?w0 (body20 target) (get_code ?w0 (body20 target)) (tr_data c) limit 0")
      (auto simp: execute_call_def to_call_result_def)
  obtain x s2 where x: "charge_energy_fee owner fee s = (x, s2)" by fastforce
  have "trigger_execute cr limit c s = (case x of Inl y \<Rightarrow> Inl (ContractError y) | Inr _ \<Rightarrow> Inr (ExecutionResult fee), s2)"
    using e x fee by (simp add: trigger_execute_eq [OF adr] Let_def split: sum.split)
  moreover have "0 \<le> fee" using fee by (simp add: energy_to_sun_def)
  ultimately show ?thesis
    using wf_state_funded [OF wf] x acc by (cases rule: charge_energy_fee_cases [OF wf_state_funded [OF wf] x]) auto
qed

theorem failed_call_only_pays_witness:
  "trigger_execute no_crypto 1000 (call_2 40) (contract_ledger [0x60, 0, 0xfe]) 
    = (Inr (ExecutionResult 300), burn_trx 300 (put_account (addr_of 1) ((wallet 1 1000)\<lparr>acc_balance := 700\<rparr>) (contract_ledger [0x60, 0, 0xfe])))"
proof -
  let ?w0 = "call_world (addr_of 1) (addr_of 2) 40 (contract_ledger [0x60, 0, 0xfe])"
  let ?e = "\<lparr>e_halt = HaltBadOpcode 0xfe, e_energy_used = 3, e_return_data = [], e_stack_top = Some 0\<rparr>"
  have code: "get_code ?w0 (body20 (addr_of 2)) = [0x60, 0, 0xfe]"
  proof -
    have "from_body (body20 (addr_of 2)) = addr_of 2" "length (body20 (addr_of 2)) = 20" by (simp_all add: body20_def addr_of_def from_body_def)
    then show ?thesis
      by (simp add: get_code_def call_world_def world_transfer_def write_balance_def ensure_account_def push_journal_def Let_def
          world_state_backend_def addr21_def)
  qed
  have "run_frame no_crypto ?w0 (body20 (addr_of 2)) [0x60, 0, 0xfe] [] 1000 0 = Finished ?e ?w0"
    by (rule run_frame_eq_run_loop [where n = 3])
      (simp_all add: MAX_CALL_DEPTH_def vm_eval init_frame_def meter_new_def mk_exec_def stop_def stop_out_def)
  then have "execute_call no_crypto ?w0 (body20 (addr_of 2)) [] 1000 0 = Finished (to_call_result ?e) ?w0"
    by (simp add: execute_call_def code)
  from failed_call_only_pays [where s = "contract_ledger [0x60, 0, 0xfe]" and c = "call_2 40" and owner = "addr_of 1" and target = "addr_of 2",
      OF wf_contract_ledger _ _ _ _ _ _ _ refl] this
  show ?thesis by (simp add: call_2_def to_call_result_def energy_to_sun_def i64_bounds_defs)
qed

section \<open>The value of a call is not checked\<close>

lemma body20_inverse [simp]: "wf_address a \<Longrightarrow> from_body (body20 a) = a" "wf_address a \<Longrightarrow> length (body20 a) = 20"
  by (cases a; cases "as_bytes a"; auto simp: wf_address_def body20_def from_body_def ADDRESS_LEN_def)+

lemma call_world_simps:
  "w_storage (call_world a b v s) = Map.empty" "w_code (call_world a b v s) = Map.empty" "w_suicides (call_world a b v s) = []"
  "w_backend (call_world a b v s) = BackendState (world_state_backend s)"
  "w_balances (call_world a b v s) =
     (if v = 0 then Map.empty else [a \<mapsto> i64_wrap (held s a - v), b \<mapsto> i64_wrap (held s b + v)])"
  by (simp_all add: call_world_def Let_def world_transfer_def write_balance_def ensure_account_def push_journal_def)

lemma call_world_code: "wf_address t \<Longrightarrow> get_code (call_world a b v s) (body20 t) = state_get_code s t"
  by (simp add: get_code_def call_world_simps world_state_backend_def addr21_def)

lemma flush_none [simp]: "flush_storage Map.empty s = s" "flush_code Map.empty s = s" "flush_balances Map.empty s = s"
  by (simp_all add: flush_storage_def flush_code_def flush_balances_def cond_case_prod_eta)

lemma flush_call_world: "flush_world (from_world (call_world a b v s)) s = flush_balances (w_balances (call_world a b v s)) s"
  by (simp add: flush_world_def from_world_def call_world_simps(1-3))

text \<open>A call of a contract that stops at once moves the value and costs nothing.\<close>

lemma trigger_stop:
  assumes "wf_address owner" "wf_address target" "state_get_code s target = [0]"
    and "tr_owner_address c = as_bytes owner" "tr_contract_address c = as_bytes target"
  shows "trigger_execute cr limit c s
    = (Inr (ExecutionResult 0), flush_balances (w_balances (call_world owner target (tr_call_value c) s)) s)"
  by (simp add: trigger_execute_eq [OF assms(1,2,4,5)] call_world_code [OF assms(2)] assms(3) run_stop energy_to_sun_def
      charge_energy_fee_def st_prim_simps flush_call_world i64_bounds_defs Let_def)

text \<open>
  C38: Anyone can take a contract's balance, or overdraw.  Nothing compares the value of a call with zero or with the
  caller's balance: a validated call of a contract that merely stops moves any value \<open>v\<close> that does not overflow,
  free of charge.  A negative value takes it from the contract; a value above the balance leaves the caller with a
  negative one.
\<close>

theorem call_value_unchecked:
  assumes "wf_address owner" "wf_address target" "owner \<noteq> target" and "state_get_code s target = [0]"
    and "get_account s owner = Some x" "get_account s target = Some y"
    and "in_i64 (acc_balance x - v)" "in_i64 (acc_balance y + v)" "v \<noteq> 0"
    and "c = \<lparr>tr_owner_address = as_bytes owner, tr_contract_address = as_bytes target, tr_call_value = v, tr_data = d\<rparr>"
  shows "\<exists>s'. trigger_validate c s = Inr 0 \<and> trigger_execute cr limit c s = (Inr (ExecutionResult 0), s')
    \<and> get_account s' owner = Some (x\<lparr>acc_balance := acc_balance x - v\<rparr>)
    \<and> get_account s' target = Some (y\<lparr>acc_balance := acc_balance y + v\<rparr>)"
  using assms
  by (simp add: trigger_stop [of owner target] trigger_validate_def contract_parse_address_def result_simps
      flush_balances_def call_world_simps get_account_def)

theorem call_value_unchecked_witness:
  "\<exists>s'. trigger_execute no_crypto 0 (call_2 (-50)) (contract_ledger [0]) = (Inr (ExecutionResult 0), s')
    \<and> get_account s' (addr_of 1) = Some ((wallet 1 1000)\<lparr>acc_balance := 1050\<rparr>)
    \<and> get_account s' (addr_of 2) = Some ((wallet 2 50)\<lparr>acc_balance := 0\<rparr>)"
  using call_value_unchecked [where owner = "addr_of 1" and target = "addr_of 2" and s = "contract_ledger [0]" and v = "-50"
      and c = "call_2 (-50)" and cr = no_crypto and limit = 0 and d = "[]" and x = "wallet 1 1000" and y = "wallet 2 50"]
  by (auto simp: call_2_def i64_bounds_defs)

text \<open>
  C39: An account can mint TRX.  A deployment without a contract address puts the code at the address of the owner
  itself.  A call of one's own address then credits the value without debiting it, since the transfer of the
  virtual machine reads both balances before it writes either: two validated, free transactions raise the balance
  of the owner and the TRX of the ledger by any \<open>v\<close> that does not overflow.
\<close>

theorem self_call_mints:
  assumes wf: "wf_state s" and own: "wf_address owner" "get_account s owner = Some acc" and v: "0 < v" "acc_balance acc + v \<le> i64_max"
    and sc: "sc_bytecode sc = [0]" "sc_contract_address sc = []"
  shows "\<exists>s1 s2.
    create_validate \<lparr>cs_owner_address = as_bytes owner, cs_new_contract = Some sc\<rparr> s = Inr 0
    \<and> create_execute cr \<lparr>cs_owner_address = as_bytes owner, cs_new_contract = Some sc\<rparr> s = (Inr (ExecutionResult 0), s1)
    \<and> trigger_validate \<lparr>tr_owner_address = as_bytes owner, tr_contract_address = as_bytes owner, tr_call_value = v, tr_data = []\<rparr> s1 = Inr 0
    \<and> trigger_execute cr limit \<lparr>tr_owner_address = as_bytes owner, tr_contract_address = as_bytes owner, tr_call_value = v, tr_data = []\<rparr> s1
        = (Inr (ExecutionResult 0), s2)
    \<and> get_account s2 owner = Some (acc\<lparr>acc_balance := acc_balance acc + v\<rparr>) \<and> total_trx s2 = total_trx s + v"
proof -
  let ?d = "\<lparr>cs_owner_address = as_bytes owner, cs_new_contract = Some sc\<rparr>"
  let ?t = "\<lparr>tr_owner_address = as_bytes owner, tr_contract_address = as_bytes owner, tr_call_value = v, tr_data = []\<rparr>"
  let ?acc = "acc\<lparr>acc_balance := acc_balance acc + v\<rparr>"
  define s1 where "s1 = put_code owner [0] (put_contract owner (sc\<lparr>sc_contract_address := as_bytes owner\<rparr>) s)"
  define s2 where "s2 = put_account owner ?acc s1"
  have parse: "contract_address_of ?d sc = Inr owner"
  proof -
    have "contract_parse_address [] u = Inl (Validate (''Invalid '' @ u))" for u
      by (simp add: contract_parse_address_def parse_address_def to_array_def ok_or_def ADDRESS_LEN_def)
    then show ?thesis using own(1) sc(2) by (simp add: contract_address_of_def) (simp add: contract_parse_address_def)
  qed
  have "create_validate ?d s = Inr 0"
    using own(1) by (simp add: create_validate_def contract_parse_address_def result_simps)
  moreover have "create_execute cr ?d s = (Inr (ExecutionResult 0), s1)"
    using own(1) sc(1) parse
    by (simp add: create_execute_def contract_parse_address_def lift_act_simps st_bind_def st_prim_simps ok_or_def execute_code_def run_stop
        to_call_result_def energy_to_sun_def i64_bounds_defs charge_energy_fee_def flush_world_def from_world_def s1_def Let_def
        lift_act_def)
  moreover have code: "state_get_code s1 owner = [0]" by (simp add: s1_def state_get_code_def put_code_def)
  then have "trigger_validate ?t s1 = Inr 0"
    using own(1) by (simp add: trigger_validate_def contract_parse_address_def result_simps)
  moreover have acc: "ws_accounts s1 owner = Some acc" using own(2) by (simp add: s1_def put_code_def put_contract_def get_account_def)
  have "in_i64 (acc_balance acc + v)"
    using v funded_account(3) [OF wf_state_funded [OF wf] own(2)] by (simp add: i64_bounds_defs)
  then have "flush_balances (w_balances (call_world owner owner v s1)) s1 = s2"
    using v(1) acc by (intro world_state.equality) (auto simp: s2_def put_account_def flush_balances_def call_world_simps fun_eq_iff)
  then have "trigger_execute cr limit ?t s1 = (Inr (ExecutionResult 0), s2)"
    using trigger_stop [OF own(1) own(1) code, of ?t cr limit] by simp
  moreover have "total_trx s1 = total_trx s" "finite (dom (ws_accounts s1))"
    using wf by (simp_all add: s1_def put_contract_def put_code_def total_trx_def get_prop_i64_def wf_state_def)
  then have "total_trx s2 = total_trx s + v"
    using acc by (simp add: s2_def total_trx_def put_account_def msum_upd get_prop_i64_def acc_trx_balance)
  moreover have "get_account s2 owner = Some ?acc" by (simp add: s2_def get_account_def put_account_def)
  ultimately show ?thesis by blast
qed

theorem self_call_mints_witness:
  "\<exists>s1 s2.
    create_execute no_crypto \<lparr>cs_owner_address = as_bytes (addr_of 1), cs_new_contract = Some
        \<lparr>sc_origin_address = [], sc_contract_address = [], sc_abi = None, sc_bytecode = [0], sc_consume_user_resource_percent = 0,
         sc_origin_energy_limit = 0\<rparr>\<rparr> (ledger_of [(1, wallet 1 1000)]) = (Inr (ExecutionResult 0), s1)
    \<and> trigger_execute no_crypto 0 \<lparr>tr_owner_address = as_bytes (addr_of 1), tr_contract_address = as_bytes (addr_of 1),
        tr_call_value = 10 ^ 18, tr_data = []\<rparr> s1 = (Inr (ExecutionResult 0), s2)
    \<and> total_trx s2 = 10 ^ 18 + 1000"
proof -
  have l: "wf_state (ledger_of [(1, wallet 1 1000)])" "total_trx (ledger_of [(1, wallet 1 1000)]) = 1000"
    using ledger_one [of "wallet 1 1000" 1] by (simp_all add: i64_bounds_defs)
  have "get_account (ledger_of [(1, wallet 1 1000)]) (addr_of 1) = Some (wallet 1 1000)" by (simp add: state_simps)
  from self_call_mints [OF l(1) wf_addr_of this, of "10 ^ 18" "\<lparr>sc_origin_address = [], sc_contract_address = [], sc_abi = None, sc_bytecode = [0],
      sc_consume_user_resource_percent = 0, sc_origin_energy_limit = 0\<rparr>" no_crypto 0] l(2)
  show ?thesis by (auto simp: i64_bounds_defs)
qed

end
