(* ===== verification/Act_Transfer.thy ===== *)
theory Act_Transfer
  imports Actuator_Base
begin

text \<open>
  \<open>TransferContract\<close> (\<open>src/crates/actuators/src/transfer.rs\<close>) and the account actuators of
  \<open>src/crates/actuators/src/account.rs\<close> (create, update the name, set the account id).
\<close>

section \<open>Transfer\<close>

record transfer_contract =
  tf_owner_address :: bytes
  tf_to_address :: bytes
  tf_amount :: i64

definition TRANSFER_FEE :: i64 where
  "TRANSFER_FEE = 0"

definition transfer_parse_address :: "string \<Rightarrow> bytes \<Rightarrow> actuator_error + address" where
  "transfer_parse_address what bs = parse_address (''Invalid '' @ what @ ''!'') bs"

text \<open>The fee of a transfer: creating a missing target costs the system-contract fee.\<close>

definition transfer_fee :: "world_state \<Rightarrow> address \<Rightarrow> i64" where
  "transfer_fee s to =
     (if account_exists s to then TRANSFER_FEE
      else i64_wrap (TRANSFER_FEE + get_prop_i64 s CREATE_NEW_ACCOUNT_FEE_IN_SYSTEM_CONTRACT))"

definition transfer_validate :: "transfer_contract \<Rightarrow> world_state \<Rightarrow> actuator_error + i64" where
  "transfer_validate c s =
     rbind (transfer_parse_address ''ownerAddress'' (tf_owner_address c)) (\<lambda>owner.
     rbind (transfer_parse_address ''toAddress'' (tf_to_address c)) (\<lambda>to.
     rbind (ensure (owner \<noteq> to) (Validate ''Cannot transfer TRX to yourself.'')) (\<lambda>_.
     rbind (ok_or (get_account s owner)
       (Validate ''Validate TransferContract error, no OwnerAccount.'')) (\<lambda>owner_account.
     let amount = tf_amount c in
     rbind (ensure (0 < amount) (Validate ''Amount must be greater than 0.'')) (\<lambda>_.
     let fee = transfer_fee s to in
     rbind (ok_or (i64_checked_add amount fee) (Validate ''long overflow'')) (\<lambda>total.
     rbind (ensure (total \<le> acc_balance owner_account)
       (Validate ''Validate TransferContract error, balance is not sufficient.'')) (\<lambda>_.
     Inr fee)))))))"

text \<open>Create the target account if it is missing, and the fee this costs.\<close>

definition transfer_create_target :: "address \<Rightarrow> i64 act" where
  "transfer_create_target to =
     st_bind (st_gets (\<lambda>s. account_exists s to)) (\<lambda>present.
     if present then st_return TRANSFER_FEE
     else
       st_bind (st_modify (\<lambda>s. snd (create_account to s))) (\<lambda>_.
       st_gets (\<lambda>s. i64_wrap (TRANSFER_FEE
         + get_prop_i64 s CREATE_NEW_ACCOUNT_FEE_IN_SYSTEM_CONTRACT))))"

definition transfer_execute :: "transfer_contract \<Rightarrow> execution_result act" where
  "transfer_execute c =
     st_bind (st_lift (transfer_parse_address ''ownerAddress'' (tf_owner_address c))) (\<lambda>owner.
     st_bind (st_lift (transfer_parse_address ''toAddress'' (tf_to_address c))) (\<lambda>to.
     let amount = tf_amount c in
     st_bind (transfer_create_target to) (\<lambda>fee.
     st_bind (st_lift (ok_or (i64_checked_add amount fee) (Execute ''long overflow''))) (\<lambda>total.
     st_bind (st_gets (\<lambda>s. get_account s owner)) (\<lambda>oa.
     st_bind (st_lift (ok_or oa (Execute ''owner account missing''))) (\<lambda>owner_account.
     st_bind (st_lift (checked_debit (acc_balance owner_account) total
       (Execute ''balance is not sufficient''))) (\<lambda>new_balance.
     st_bind (st_modify (put_account owner (owner_account\<lparr>acc_balance := new_balance\<rparr>))) (\<lambda>_.
     st_bind (st_modify (burn_fee fee)) (\<lambda>_.
     st_bind (st_gets (\<lambda>s. get_account s to)) (\<lambda>ta.
     st_bind (st_lift (ok_or ta (Execute ''to account missing''))) (\<lambda>to_account.
     st_bind (st_lift (checked_credit (acc_balance to_account) amount
       (Execute ''long overflow''))) (\<lambda>to_balance.
     st_bind (st_modify (put_account to (to_account\<lparr>acc_balance := to_balance\<rparr>))) (\<lambda>_.
     st_return (ExecutionResult fee))))))))))))))"

section \<open>Accounts\<close>

definition CREATE_ACCOUNT_FEE_KEY :: string where
  "CREATE_ACCOUNT_FEE_KEY = ''CREATE_ACCOUNT_FEE''"

definition ALLOW_UPDATE_ACCOUNT_NAME_KEY :: string where
  "ALLOW_UPDATE_ACCOUNT_NAME_KEY = ''ALLOW_UPDATE_ACCOUNT_NAME''"

definition MAX_ACCOUNT_NAME_LEN :: nat where
  "MAX_ACCOUNT_NAME_LEN = 200"

definition MIN_ACCOUNT_ID_LEN :: nat where
  "MIN_ACCOUNT_ID_LEN = 8"

definition MAX_ACCOUNT_ID_LEN :: nat where
  "MAX_ACCOUNT_ID_LEN = 32"

definition valid_account_name :: "bytes \<Rightarrow> bool" where
  "valid_account_name name \<longleftrightarrow> length name \<le> MAX_ACCOUNT_NAME_LEN"

definition readable_byte :: "byte \<Rightarrow> bool" where
  "readable_byte b \<longleftrightarrow> 0x21 \<le> b \<and> b \<le> 0x7e"

definition valid_account_id :: "bytes \<Rightarrow> bool" where
  "valid_account_id i \<longleftrightarrow>
     MIN_ACCOUNT_ID_LEN \<le> length i \<and> length i \<le> MAX_ACCOUNT_ID_LEN \<and> list_all readable_byte i"

definition account_parse_address :: "string \<Rightarrow> bytes \<Rightarrow> actuator_error + address" where
  "account_parse_address what bs = parse_address (''Invalid '' @ what) bs"

record account_create_contract =
  ac_owner_address :: bytes
  ac_account_address :: bytes
  ac_type :: int

definition create_account_validate ::
  "account_create_contract \<Rightarrow> world_state \<Rightarrow> actuator_error + i64" where
  "create_account_validate c s =
     rbind (account_parse_address ''ownerAddress'' (ac_owner_address c)) (\<lambda>owner.
     rbind (account_parse_address ''account address'' (ac_account_address c)) (\<lambda>target.
     rbind (ok_or (get_account s owner) (Validate ''Account has not existed'')) (\<lambda>owner_account.
     rbind (ensure (\<not> account_exists s target) (Validate ''Account has existed'')) (\<lambda>_.
     let fee = get_prop_i64 s CREATE_ACCOUNT_FEE_KEY in
     rbind (ensure (fee \<le> acc_balance owner_account)
       (Validate ''Validate CreateAccountActuator error, insufficient fee.'')) (\<lambda>_.
     Inr fee)))))"

definition create_account_execute :: "account_create_contract \<Rightarrow> execution_result act" where
  "create_account_execute c =
     st_bind (st_lift (account_parse_address ''ownerAddress'' (ac_owner_address c))) (\<lambda>owner.
     st_bind (st_lift (account_parse_address ''account address'' (ac_account_address c))) (\<lambda>target.
     st_bind (st_gets (\<lambda>s. get_prop_i64 s CREATE_ACCOUNT_FEE_KEY)) (\<lambda>fee.
     st_bind (st_gets (new_account target)) (\<lambda>created.
     st_bind (st_modify (\<lambda>s. snd (create_account target s))) (\<lambda>_.
     st_bind (st_modify (put_account target (created\<lparr>acc_type := ac_type c\<rparr>))) (\<lambda>_.
     st_bind (st_gets (\<lambda>s. get_account s owner)) (\<lambda>oa.
     st_bind (st_lift (ok_or oa (Execute ''owner account missing''))) (\<lambda>owner_account.
     st_bind (st_lift (checked_debit (acc_balance owner_account) fee
       (Execute ''balance is not sufficient''))) (\<lambda>new_balance.
     st_bind (st_modify (put_account owner (owner_account\<lparr>acc_balance := new_balance\<rparr>))) (\<lambda>_.
     st_bind (st_modify (burn_fee fee)) (\<lambda>_.
     st_return (ExecutionResult fee))))))))))))"

record account_update_contract =
  au_owner_address :: bytes
  au_account_name :: bytes

definition update_account_validate ::
  "account_update_contract \<Rightarrow> world_state \<Rightarrow> actuator_error + i64" where
  "update_account_validate c s =
     rbind (ensure (valid_account_name (au_account_name c)) (Validate ''Invalid accountName'')) (\<lambda>_.
     rbind (account_parse_address ''ownerAddress'' (au_owner_address c)) (\<lambda>owner.
     rbind (ok_or (get_account s owner) (Validate ''Account does not exist'')) (\<lambda>acc.
     rbind (ensure (\<not> (acc_name acc \<noteq> [] \<and> get_prop_i64 s ALLOW_UPDATE_ACCOUNT_NAME_KEY = 0))
       (Validate ''This account name is already existed'')) (\<lambda>_.
     Inr 0))))"

text \<open>The shape of an execution that rewrites one field of the owner's account.\<close>

definition modify_owner :: "(bytes \<Rightarrow> actuator_error + address) \<Rightarrow> bytes \<Rightarrow> (account \<Rightarrow> account)
    \<Rightarrow> execution_result act" where
  "modify_owner parse owner_bytes f =
     st_bind (st_lift (parse owner_bytes)) (\<lambda>owner.
     st_bind (st_gets (\<lambda>s. get_account s owner)) (\<lambda>oa.
     st_bind (st_lift (ok_or oa (Execute ''owner account missing''))) (\<lambda>acc.
     st_bind (st_modify (put_account owner (f acc))) (\<lambda>_.
     st_return (ExecutionResult 0)))))"

definition update_account_execute :: "account_update_contract \<Rightarrow> execution_result act" where
  "update_account_execute c =
     modify_owner (account_parse_address ''ownerAddress'') (au_owner_address c)
       (\<lambda>acc. acc\<lparr>acc_name := au_account_name c\<rparr>)"

record set_account_id_contract =
  si_owner_address :: bytes
  si_account_id :: bytes

definition set_account_id_validate ::
  "set_account_id_contract \<Rightarrow> world_state \<Rightarrow> actuator_error + i64" where
  "set_account_id_validate c s =
     rbind (ensure (valid_account_id (si_account_id c)) (Validate ''Invalid accountId'')) (\<lambda>_.
     rbind (account_parse_address ''ownerAddress'' (si_owner_address c)) (\<lambda>owner.
     rbind (ok_or (get_account s owner) (Validate ''Account has not existed'')) (\<lambda>acc.
     rbind (ensure (acc_id acc = []) (Validate ''This account id already set'')) (\<lambda>_.
     Inr 0))))"

definition set_account_id_execute :: "set_account_id_contract \<Rightarrow> execution_result act" where
  "set_account_id_execute c =
     modify_owner (account_parse_address ''ownerAddress'') (si_owner_address c)
       (\<lambda>acc. acc\<lparr>acc_id := si_account_id c\<rparr>)"

section \<open>Transfer: what it does\<close>

lemmas [simp] = transfer_parse_address_def account_parse_address_def

text \<open>Validation succeeds exactly when all of its conditions hold.\<close>

lemma transfer_validate_Inr:
  "transfer_validate c s = Inr f \<longleftrightarrow>
     (\<exists>owner to acc. wf_address owner \<and> tf_owner_address c = as_bytes owner
       \<and> wf_address to \<and> tf_to_address c = as_bytes to \<and> owner \<noteq> to
       \<and> get_account s owner = Some acc \<and> 0 < tf_amount c
       \<and> in_i64 (tf_amount c + f) \<and> tf_amount c + f \<le> acc_balance acc \<and> f = transfer_fee s to)"
  by (auto simp: transfer_validate_def result_simps Let_def)

lemma transfer_fee_nonneg: "wf_state s \<Longrightarrow> 0 \<le> transfer_fee s a"
  by (simp add: transfer_fee_def TRANSFER_FEE_def wf_state_def nonneg_in_i64)

text \<open>The state after opening the target account when it is missing.\<close>

definition with_account :: "address \<Rightarrow> world_state \<Rightarrow> world_state" where
  "with_account a s = (if account_exists s a then s else put_account a (new_account a s) s)"

lemma with_account_wf:
  assumes "wf_state s"
  shows "wf_state (with_account a s)" and "total_trx (with_account a s) = total_trx s"
  using assms move_new_account [OF assms, of a "new_account a s"]
  by (auto simp: with_account_def account_exists_iff split: option.splits)

lemma with_account_get:
  "\<exists>acc. get_account (with_account a s) a = Some acc"
  "b \<noteq> a \<Longrightarrow> get_account (with_account a s) b = get_account s b"
  "get_prop_i64 (with_account a s) k = get_prop_i64 s k"
  by (auto simp: with_account_def account_exists_iff state_simps)

lemma transfer_execute_eq:
  assumes "wf_address owner" "tf_owner_address c = as_bytes owner" "wf_address to"
    "tf_to_address c = as_bytes to" "owner \<noteq> to" "get_account s owner = Some acc"
    "get_account (with_account to s) to = Some tacc" "f = transfer_fee s to"
    "in_i64 (tf_amount c + f)" "tf_amount c + f \<le> acc_balance acc"
    "in_i64 (acc_balance acc - (tf_amount c + f))" "in_i64 (acc_balance tacc + tf_amount c)"
  shows "transfer_execute c s =
     (Inr (ExecutionResult f),
      put_account to (tacc\<lparr>acc_balance := acc_balance tacc + tf_amount c\<rparr>)
        (burn_fee f
          (put_account owner (acc\<lparr>acc_balance := acc_balance acc - (tf_amount c + f)\<rparr>)
            (with_account to s))))"
proof -
  have create: "transfer_create_target to s = (Inr f, with_account to s)"
    using assms(8)
    by (auto simp: transfer_create_target_def st_eval with_account_def create_account_def Let_def
        transfer_fee_def state_simps)
  have oacc: "get_account (with_account to s) owner = Some acc"
    using assms(5,6) with_account_get(2) by metis
  show ?thesis
    using assms(1-5,7,9-12)
    unfolding transfer_execute_def Let_def
    by (simp add: st_bind_def st_prim_simps create oacc ok_or_def state_simps
        checked_debit_ok checked_credit_ok i64_checked_add_def i64_checked_def)
qed

lemma transfer_result:
  assumes w: "wf_state s" and v: "transfer_validate c s = Inr f"
  obtains owner to acc tacc s' where "tf_owner_address c = as_bytes owner"
    "tf_to_address c = as_bytes to" "owner \<noteq> to" "get_account s owner = Some acc"
    "get_account (with_account to s) to = Some tacc"
    "transfer_execute c s = (Inr (ExecutionResult f), s')" "wf_state s'" "total_trx s' = total_trx s"
    "s' = put_account to (tacc\<lparr>acc_balance := acc_balance tacc + tf_amount c\<rparr>) (burn_fee f
       (put_account owner (acc\<lparr>acc_balance := acc_balance acc - (tf_amount c + f)\<rparr>) (with_account to s)))"
proof -
  from v obtain owner to acc where c: "wf_address owner" "tf_owner_address c = as_bytes owner"
    "wf_address to" "tf_to_address c = as_bytes to" "owner \<noteq> to" "get_account s owner = Some acc"
    and amt: "0 < tf_amount c" "in_i64 (tf_amount c + f)" "tf_amount c + f \<le> acc_balance acc"
    and f: "f = transfer_fee s to"
    unfolding transfer_validate_Inr by blast
  obtain tacc where t: "get_account (with_account to s) to = Some tacc"
    using with_account_get(1) by blast
  let ?s1 = "with_account to s"
  let ?s2 = "put_account owner (acc\<lparr>acc_balance := acc_balance acc - (tf_amount c + f)\<rparr>) ?s1"
  let ?s4 = "put_account to (tacc\<lparr>acc_balance := acc_balance tacc + tf_amount c\<rparr>) (burn_fee f ?s2)"
  have f0: "0 \<le> f" and le: "total_trx s \<le> i64_max"
    using transfer_fee_nonneg [OF w] f w by simp_all
  have w1: "wf_state ?s1" "total_trx ?s1 = total_trx s" and o1: "get_account ?s1 owner = Some acc"
    using with_account_wf [OF w] with_account_get(2) c by auto
  have "0 \<le> tf_amount c + f" using f0 amt by simp
  note w2 = move_debit [OF w1(1) o1 this amt(3)]
  have "total_trx ?s2 + f \<le> i64_max" using w2 w1 amt le by simp
  note w3 = move_burn_fee [OF w2(1) f0 this]
  have t3: "get_account (burn_fee f ?s2) to = Some tacc"
    using t c by (simp add: state_simps)
  have "total_trx (burn_fee f ?s2) + tf_amount c \<le> i64_max" using w3 w2 w1 le by simp
  note w4 = move_credit [OF w3(1) t3 less_imp_le [OF amt(1)] this]
  have "transfer_execute c s = (Inr (ExecutionResult f), ?s4)"
    using transfer_execute_eq [OF c t f amt(2,3) w2(3) w4(3)] .
  moreover have "total_trx ?s4 = total_trx s"
    using w4 w3 w2 w1 by simp
  ultimately show ?thesis
    using that [OF c(2,4,5,6) t] w4(1) by blast
qed

interpretation transfer: actuator transfer_validate transfer_execute "\<lambda>_ _. True"
  by unfold_locales (metis transfer_result)

section \<open>Account actuators: what they do\<close>

lemma create_account_validate_Inr:
  "create_account_validate c s = Inr f \<longleftrightarrow>
     (\<exists>owner target acc. wf_address owner \<and> ac_owner_address c = as_bytes owner
       \<and> wf_address target \<and> ac_account_address c = as_bytes target
       \<and> get_account s owner = Some acc \<and> get_account s target = None
       \<and> f \<le> acc_balance acc \<and> f = get_prop_i64 s CREATE_ACCOUNT_FEE_KEY)"
  by (auto simp: create_account_validate_def result_simps Let_def account_exists_iff)

lemma typed_account_value [simp]:
  "acc_trx (new_account a s\<lparr>acc_type := t\<rparr>) = 0" "wf_account (new_account a s\<lparr>acc_type := t\<rparr>)"
  "same_delegation None (new_account a s\<lparr>acc_type := t\<rparr>)"
  by (simp_all add: new_account_def account_default_def acc_trx_def wf_account_def
      same_delegation_def delegated_energy_def)

lemma put_account_twice [simp]: "put_account a x (put_account a y s) = put_account a x s"
  by (simp add: put_account_def)

interpretation create_account: actuator create_account_validate create_account_execute
  "\<lambda>_ s. 0 \<le> get_prop_i64 s CREATE_ACCOUNT_FEE_KEY"
proof
  fix s c f
  assume w: "wf_state s" and f0: "0 \<le> get_prop_i64 s CREATE_ACCOUNT_FEE_KEY"
    and v: "create_account_validate c s = Inr f"
  from v obtain owner target acc where c: "wf_address owner" "ac_owner_address c = as_bytes owner"
    "wf_address target" "ac_account_address c = as_bytes target"
    "get_account s owner = Some acc" "get_account s target = None"
    and f: "f \<le> acc_balance acc" "f = get_prop_i64 s CREATE_ACCOUNT_FEE_KEY"
    unfolding create_account_validate_Inr by blast
  let ?s1 = "put_account target (new_account target s\<lparr>acc_type := ac_type c\<rparr>) s"
  let ?s2 = "put_account owner (acc\<lparr>acc_balance := acc_balance acc - f\<rparr>) ?s1"
  have ne: "owner \<noteq> target" using c by auto
  have w1: "wf_state ?s1" "total_trx ?s1 = total_trx s"
    using move_new_account [OF w c(6)] by simp_all
  have o1: "get_account ?s1 owner = Some acc" using ne c by (simp add: state_simps)
  have f0': "0 \<le> f" using f0 f by simp
  note w2 = move_debit [OF w1(1) o1 f0' f(1)]
  have "total_trx ?s2 + f \<le> i64_max" using w2 w1 w by simp
  note w3 = move_burn_fee [OF w2(1) f0' this]
  have "create_account_execute c s = (Inr (ExecutionResult f), burn_fee f ?s2)"
    using c f w2(3) o1
    by (simp add: create_account_execute_def st_bind_def st_prim_simps create_account_def Let_def
        ok_or_def state_simps checked_debit_ok ne)
  with w3 w2 w1 show "\<exists>r s'. create_account_execute c s = (Inr r, s') \<and> wf_state s'
      \<and> total_trx s' = total_trx s"
    by auto
qed

text \<open>Rewriting fields of the owner's account that carry no value.\<close>

definition neutral :: "(account \<Rightarrow> account) \<Rightarrow> bool" where
  "neutral f \<longleftrightarrow>
     (\<forall>acc. acc_trx (f acc) = acc_trx acc \<and> (wf_account acc \<longrightarrow> wf_account (f acc))
          \<and> same_delegation (Some acc) (f acc))"

lemma modify_owner_sound:
  assumes "wf_state s" and "parse bs = Inr owner" and "get_account s owner = Some acc" and "neutral f"
  shows "\<exists>r s'. modify_owner parse bs f s = (Inr r, s') \<and> wf_state s' \<and> total_trx s' = total_trx s"
proof -
  have "modify_owner parse bs f s = (Inr (ExecutionResult 0), put_account owner (f acc) s)"
    using assms by (simp add: modify_owner_def st_bind_def st_prim_simps ok_or_def)
  moreover have "wf_state (put_account owner (f acc) s)" "total_trx (put_account owner (f acc) s) = total_trx s"
    using move_account [OF assms(1,3), of "f acc"] assms(1,4) wf_state_account [OF assms(1,3)]
    by (auto simp: neutral_def)
  ultimately show ?thesis by blast
qed

lemmas neutral_simps =
  neutral_def acc_trx_def wf_account_def same_delegation_def delegated_energy_def

interpretation update_account: actuator update_account_validate update_account_execute "\<lambda>_ _. True"
  by unfold_locales
    (auto simp: update_account_validate_def update_account_execute_def result_simps neutral_simps
      intro!: modify_owner_sound)

interpretation set_account_id: actuator set_account_id_validate set_account_id_execute "\<lambda>_ _. True"
  by unfold_locales
    (auto simp: set_account_id_validate_def set_account_id_execute_def result_simps neutral_simps
      intro!: modify_owner_sound)

section \<open>Properties\<close>

text \<open>
  C6: A validated transfer executes completely on a well-formed ledger.  The owner pays the
  amount and the fee, the target (opened if it was missing) gains the amount, the fee is burned,
  every other account is untouched, and no sun appears or disappears.
\<close>

theorem transfer_moves_value:
  assumes "wf_state s" and "transfer_validate c s = Inr f"
    and "tf_owner_address c = as_bytes owner" and "tf_to_address c = as_bytes to"
  shows "\<exists>s'. transfer_execute c s = (Inr (ExecutionResult f), s') \<and> wf_state s'
     \<and> total_trx s' = total_trx s
     \<and> opt_val acc_balance (get_account s' owner)
         = opt_val acc_balance (get_account s owner) - tf_amount c - f
     \<and> opt_val acc_balance (get_account s' to) = opt_val acc_balance (get_account s to) + tf_amount c
     \<and> (\<forall>a. a \<noteq> owner \<and> a \<noteq> to \<longrightarrow> get_account s' a = get_account s a)"
proof -
  obtain ow t acc tacc s' where r: "tf_owner_address c = as_bytes ow"
    "tf_to_address c = as_bytes t" "ow \<noteq> t" "get_account s ow = Some acc"
    "get_account (with_account t s) t = Some tacc"
    "transfer_execute c s = (Inr (ExecutionResult f), s')" "wf_state s'" "total_trx s' = total_trx s"
    "s' = put_account t (tacc\<lparr>acc_balance := acc_balance tacc + tf_amount c\<rparr>) (burn_fee f
       (put_account ow (acc\<lparr>acc_balance := acc_balance acc - (tf_amount c + f)\<rparr>) (with_account t s)))"
    using assms(1,2) by (rule transfer_result)
  have same: "ow = owner" "t = to"
    using r(1,2) assms(3,4) by (simp_all add: address.expand)
  have "acc_balance tacc = opt_val acc_balance (get_account s to)"
    using r(5) same by (auto simp: with_account_def account_exists_iff state_simps split: if_splits)
  with r same show ?thesis
    by (auto simp: state_simps with_account_get)
qed

theorem transfer_moves_value_witness:
  "\<exists>s'. transfer_execute \<lparr>tf_owner_address = as_bytes (addr_of 1), tf_to_address = as_bytes (addr_of 2),
        tf_amount = 40\<rparr> (ledger_of [(1, wallet 1 100)]) = (Inr (ExecutionResult 0), s')
     \<and> opt_val acc_balance (get_account s' (addr_of 1)) = 60
     \<and> opt_val acc_balance (get_account s' (addr_of 2)) = 40"
proof -
  let ?s = "ledger_of [(1, wallet 1 100)]"
  let ?c = "\<lparr>tf_owner_address = as_bytes (addr_of 1), tf_to_address = as_bytes (addr_of 2), tf_amount = 40\<rparr>"
  have w: "wf_state ?s" by (rule ledger_one) (simp_all add: i64_max_def)
  have "transfer_validate ?c ?s = Inr 0"
    by (simp add: transfer_validate_def ok_or_def ensure_def Let_def transfer_fee_def TRANSFER_FEE_def
        state_simps i64_checked_add_def i64_checked_def i64_bounds_defs account_exists_iff)
  from transfer_moves_value [OF w this, of "addr_of 1" "addr_of 2"] show ?thesis
    by (simp add: state_simps del: ledger_of.simps) (auto simp: state_simps)
qed

end
