(* ===== verification/Act_Stake_V2.thy ===== *)
theory Act_Stake_V2
  imports Act_Transfer
begin

text \<open>
  Stake 2.0: \<open>FreezeBalanceV2\<close> and \<open>UnfreezeBalanceV2\<close>
  (\<open>src/crates/actuators/src/freeze_v2.rs\<close>), \<open>WithdrawExpireUnfreeze\<close>
  (\<open>withdraw_unfreeze.rs\<close>) and \<open>CancelAllUnfreezeV2\<close> (\<open>cancel_unfreeze.rs\<close>).
\<close>

section \<open>Constants and helpers\<close>

definition TRX_PRECISION :: i64 where
  "TRX_PRECISION = 1000000"

definition FROZEN_PERIOD_MS :: i64 where
  "FROZEN_PERIOD_MS = 86400000"

definition DEFAULT_UNFREEZE_DELAY_DAYS :: i64 where
  "DEFAULT_UNFREEZE_DELAY_DAYS = 14"

definition UNFREEZE_MAX_TIMES :: nat where
  "UNFREEZE_MAX_TIMES = 32"

definition UNFREEZE_DELAY_DAYS_KEY :: string where
  "UNFREEZE_DELAY_DAYS_KEY = ''UNFREEZE_DELAY_DAYS''"

definition ALLOW_NEW_RESOURCE_MODEL_KEY :: string where
  "ALLOW_NEW_RESOURCE_MODEL_KEY = ''ALLOW_NEW_RESOURCE_MODEL''"

definition BANDWIDTH :: int where
  "BANDWIDTH = 0"

definition ENERGY :: int where
  "ENERGY = 1"

definition TRON_POWER :: int where
  "TRON_POWER = 2"

lemmas resource_defs = BANDWIDTH_def ENERGY_def TRON_POWER_def

definition total_weight_key :: "int \<Rightarrow> string option" where
  "total_weight_key resource =
     (if resource = BANDWIDTH then Some TOTAL_NET_WEIGHT
      else if resource = ENERGY then Some TOTAL_ENERGY_WEIGHT
      else if resource = TRON_POWER then Some TOTAL_TRON_POWER_WEIGHT
      else None)"

text \<open>\<open>if let Some(key) = total_weight_key(resource) { state.add_prop_i64(key, delta)? }\<close>\<close>

definition add_weight :: "int \<Rightarrow> i64 \<Rightarrow> world_state \<Rightarrow> world_state" where
  "add_weight resource delta s =
     (case total_weight_key resource of Some key \<Rightarrow> add_prop_i64 key delta s | None \<Rightarrow> s)"

definition stake_parse_address :: "bytes \<Rightarrow> actuator_error + address" where
  "stake_parse_address bs = parse_address ''Invalid address'' bs"

text \<open>The separator U+3001 in UTF-8.\<close>

definition ideographic_comma :: string where
  "ideographic_comma = [CHR 0xE3, CHR 0x80, CHR 0x81]"

text \<open>\<open>iter_mut().find(p)\<close> followed by an update of the entry found.\<close>

fun update_first :: "('a \<Rightarrow> bool) \<Rightarrow> ('a \<Rightarrow> 'a) \<Rightarrow> 'a list \<Rightarrow> 'a list" where
  "update_first p f [] = []"
| "update_first p f (x # xs) = (if p x then f x # xs else x # update_first p f xs)"

definition find_frozen :: "int \<Rightarrow> freeze_v2 list \<Rightarrow> freeze_v2 option" where
  "find_frozen resource fs = find (\<lambda>f. fz_type f = resource) fs"

definition set_frozen_amount :: "int \<Rightarrow> i64 \<Rightarrow> freeze_v2 list \<Rightarrow> freeze_v2 list" where
  "set_frozen_amount resource x fs =
     update_first (\<lambda>f. fz_type f = resource) (\<lambda>f. f\<lparr>fz_amount := x\<rparr>) fs"

section \<open>Freeze\<close>

record freeze_v2_contract =
  f2_owner_address :: bytes
  f2_frozen_balance :: i64
  f2_resource :: int

definition valid_resource :: "bool \<Rightarrow> int \<Rightarrow> bool" where
  "valid_resource allow_new resource \<longleftrightarrow>
     resource = BANDWIDTH \<or> resource = ENERGY \<or> resource = TRON_POWER \<and> allow_new"

definition resource_error :: "bool \<Rightarrow> string" where
  "resource_error allow_new =
     ''ResourceCode error, valid ResourceCode[BANDWIDTH'' @ ideographic_comma @ ''ENERGY''
     @ (if allow_new then ideographic_comma @ ''TRON_POWER]'' else '']'')"

definition freeze_v2_validate :: "freeze_v2_contract \<Rightarrow> world_state \<Rightarrow> actuator_error + i64" where
  "freeze_v2_validate c s =
     rbind (ensure (0 < get_prop_i64 s UNFREEZE_DELAY_DAYS_KEY)
       (Validate ''Not support FreezeV2 transaction, need to be opened by the committee'')) (\<lambda>_.
     rbind (stake_parse_address (f2_owner_address c)) (\<lambda>owner.
     rbind (ok_or (get_account s owner)
       (Validate (''Account['' @ hex (as_bytes owner) @ ''] not exists''))) (\<lambda>acc.
     let frozen_balance = f2_frozen_balance c in
     rbind (ensure (0 < frozen_balance) (Validate ''frozenBalance must be positive'')) (\<lambda>_.
     rbind (ensure (TRX_PRECISION \<le> frozen_balance)
       (Validate ''frozenBalance must be greater than or equal to 1 TRX'')) (\<lambda>_.
     rbind (ensure (frozen_balance \<le> acc_balance acc)
       (Validate ''frozenBalance must be less than or equal to accountBalance'')) (\<lambda>_.
     let allow_new = 0 < get_prop_i64 s ALLOW_NEW_RESOURCE_MODEL_KEY in
     rbind (ensure (valid_resource allow_new (f2_resource c)) (Validate (resource_error allow_new)))
       (\<lambda>_. Inr 0)))))))"

definition add_frozen :: "int \<Rightarrow> i64 \<Rightarrow> freeze_v2 list \<Rightarrow> actuator_error + freeze_v2 list" where
  "add_frozen resource x fs =
     (case find_frozen resource fs of
        Some entry \<Rightarrow>
          rbind (checked_credit (fz_amount entry) x (Execute ''long overflow''))
            (\<lambda>v. Inr (set_frozen_amount resource v fs))
      | None \<Rightarrow> Inr (fs @ [\<lparr>fz_type = resource, fz_amount = x\<rparr>]))"

definition freeze_v2_execute :: "freeze_v2_contract \<Rightarrow> execution_result act" where
  "freeze_v2_execute c =
     st_bind (st_lift (stake_parse_address (f2_owner_address c))) (\<lambda>owner.
     let frozen_balance = f2_frozen_balance c in
     st_bind (st_gets (\<lambda>s. get_account s owner)) (\<lambda>oa.
     st_bind (st_lift (ok_or oa (Execute ''owner account missing''))) (\<lambda>acc.
     st_bind (st_lift (checked_debit (acc_balance acc) frozen_balance
       (Execute ''balance is not sufficient''))) (\<lambda>new_balance.
     st_bind (st_lift (add_frozen (f2_resource c) frozen_balance (acc_frozen_v2 acc))) (\<lambda>frozen.
     st_bind (st_modify (put_account owner (acc\<lparr>acc_frozen_v2 := frozen, acc_balance := new_balance\<rparr>))) (\<lambda>_.
     st_bind (st_modify (add_weight (f2_resource c) (frozen_balance sdiv TRX_PRECISION))) (\<lambda>_.
     st_return (ExecutionResult 0))))))))"

section \<open>Unfreeze\<close>

record unfreeze_v2_contract =
  u2_owner_address :: bytes
  u2_unfreeze_balance :: i64
  u2_resource :: int

definition has_frozen :: "account \<Rightarrow> int \<Rightarrow> bool" where
  "has_frozen acc resource \<longleftrightarrow>
     list_ex (\<lambda>f. fz_type f = resource \<and> 0 < fz_amount f) (acc_frozen_v2 acc)"

definition frozen_amount :: "account \<Rightarrow> int \<Rightarrow> i64" where
  "frozen_amount acc resource =
     (case find_frozen resource (acc_frozen_v2 acc) of Some f \<Rightarrow> fz_amount f | None \<Rightarrow> 0)"

definition unfreeze_resource_check :: "bool \<Rightarrow> account \<Rightarrow> int \<Rightarrow> actuator_error + unit" where
  "unfreeze_resource_check allow_new acc resource =
     (if resource = BANDWIDTH then
        ensure (has_frozen acc BANDWIDTH) (Validate ''no frozenBalance(BANDWIDTH)'')
      else if resource = ENERGY then
        ensure (has_frozen acc ENERGY) (Validate ''no frozenBalance(Energy)'')
      else if resource = TRON_POWER \<and> allow_new then
        ensure (has_frozen acc TRON_POWER) (Validate ''no frozenBalance(TronPower)'')
      else
        Inl (Validate (''ResourceCode error.valid ResourceCode[BANDWIDTH'' @ ideographic_comma
          @ ''Energy'' @ (if allow_new then ideographic_comma @ ''TRON_POWER]'' else '']''))))"

definition unfreezing_count :: "i64 \<Rightarrow> account \<Rightarrow> nat" where
  "unfreezing_count now acc = length (filter (\<lambda>u. now < uf_expire_time u) (acc_unfrozen_v2 acc))"

definition unfreeze_v2_validate :: "unfreeze_v2_contract \<Rightarrow> world_state \<Rightarrow> actuator_error + i64" where
  "unfreeze_v2_validate c s =
     rbind (ensure (0 < get_prop_i64 s UNFREEZE_DELAY_DAYS_KEY)
       (Validate ''Not support UnfreezeV2 transaction, need to be opened by the committee'')) (\<lambda>_.
     rbind (stake_parse_address (u2_owner_address c)) (\<lambda>owner.
     rbind (ok_or (get_account s owner)
       (Validate (''Account['' @ hex (as_bytes owner) @ ''] does not exist''))) (\<lambda>acc.
     let allow_new = 0 < get_prop_i64 s ALLOW_NEW_RESOURCE_MODEL_KEY;
         resource = u2_resource c in
     rbind (unfreeze_resource_check allow_new acc resource) (\<lambda>_.
     let unfreeze_balance = u2_unfreeze_balance c in
     rbind (ensure (0 < unfreeze_balance \<and> unfreeze_balance \<le> frozen_amount acc resource)
       (Validate (''Invalid unfreeze_balance, ['' @ i64_to_string unfreeze_balance @ ''] is error''))) (\<lambda>_.
     let now = get_prop_i64 s LATEST_BLOCK_HEADER_TIMESTAMP in
     rbind (ensure (unfreezing_count now acc < UNFREEZE_MAX_TIMES)
       (Validate ''Invalid unfreeze operation, unfreezing times is over limit''))
       (\<lambda>_. Inr 0))))))"

definition unfreeze_delay_ms :: "world_state \<Rightarrow> actuator_error + i64" where
  "unfreeze_delay_ms s =
     (let d = get_prop_i64 s UNFREEZE_DELAY_DAYS_KEY;
          days = (if 0 < d then d else DEFAULT_UNFREEZE_DELAY_DAYS)
      in ok_or (i64_checked_mul days FROZEN_PERIOD_MS) (Execute ''long overflow''))"

definition unfreeze_v2_execute :: "unfreeze_v2_contract \<Rightarrow> execution_result act" where
  "unfreeze_v2_execute c =
     st_bind (st_lift (stake_parse_address (u2_owner_address c))) (\<lambda>owner.
     let resource = u2_resource c; unfreeze_balance = u2_unfreeze_balance c in
     st_bind (st_gets (\<lambda>s. get_prop_i64 s LATEST_BLOCK_HEADER_TIMESTAMP)) (\<lambda>now.
     st_bind (st_gets (\<lambda>s. get_account s owner)) (\<lambda>oa.
     st_bind (st_lift (ok_or oa (Execute ''owner account missing''))) (\<lambda>acc.
     st_bind (st_lift (ok_or (find_frozen resource (acc_frozen_v2 acc)) (Execute ''no frozenBalance''))) (\<lambda>entry.
     st_bind (st_lift (checked_debit (fz_amount entry) unfreeze_balance
       (Execute ''frozenBalance is not sufficient''))) (\<lambda>left.
     st_bind (st_gets unfreeze_delay_ms) (\<lambda>d.
     st_bind (st_lift d) (\<lambda>delay.
     st_bind (st_lift (checked_credit now delay (Execute ''long overflow''))) (\<lambda>expire_time.
     st_bind (st_modify (put_account owner
       (acc\<lparr>acc_frozen_v2 := set_frozen_amount resource left (acc_frozen_v2 acc),
            acc_unfrozen_v2 := acc_unfrozen_v2 acc
              @ [\<lparr>uf_type = resource, uf_amount = unfreeze_balance, uf_expire_time = expire_time\<rparr>]\<rparr>))) (\<lambda>_.
     st_bind (st_modify (add_weight resource (- (unfreeze_balance sdiv TRX_PRECISION)))) (\<lambda>_.
     st_return (ExecutionResult 0))))))))))))"

section \<open>Withdraw matured unfreezes\<close>

text \<open>\<open>Iterator::sum\<close> on \<open>i64\<close> (wrapping).\<close>

definition i64_sum :: "i64 list \<Rightarrow> i64" where
  "i64_sum xs = foldl (\<lambda>a x. i64_wrap (a + x)) 0 xs"

record withdraw_expire_contract =
  we_owner_address :: bytes

definition matured :: "i64 \<Rightarrow> unfreeze_v2 list \<Rightarrow> unfreeze_v2 list" where
  "matured now us = filter (\<lambda>u. uf_expire_time u \<le> now) us"

definition pending :: "i64 \<Rightarrow> unfreeze_v2 list \<Rightarrow> unfreeze_v2 list" where
  "pending now us = filter (\<lambda>u. \<not> uf_expire_time u \<le> now) us"

definition matured_total :: "withdraw_expire_contract \<Rightarrow> world_state \<Rightarrow> actuator_error + address \<times> i64" where
  "matured_total c s =
     rbind (stake_parse_address (we_owner_address c)) (\<lambda>owner.
     rbind (ok_or (get_account s owner) (Validate ''Account does not exist'')) (\<lambda>acc.
     let now = get_prop_i64 s LATEST_BLOCK_HEADER_TIMESTAMP in
     Inr (owner, i64_sum (map uf_amount (matured now (acc_unfrozen_v2 acc))))))"

definition withdraw_expire_validate ::
  "withdraw_expire_contract \<Rightarrow> world_state \<Rightarrow> actuator_error + i64" where
  "withdraw_expire_validate c s =
     rbind (matured_total c s) (\<lambda>(_, total).
     rbind (ensure (0 < total) (Validate ''no unFreeze balance to withdraw'')) (\<lambda>_. Inr 0))"

definition withdraw_expire_execute :: "withdraw_expire_contract \<Rightarrow> execution_result act" where
  "withdraw_expire_execute c =
     st_bind (st_lift (stake_parse_address (we_owner_address c))) (\<lambda>owner.
     st_bind (st_gets (\<lambda>s. get_prop_i64 s LATEST_BLOCK_HEADER_TIMESTAMP)) (\<lambda>now.
     st_bind (st_gets (\<lambda>s. get_account s owner)) (\<lambda>oa.
     st_bind (st_lift (ok_or oa (Execute ''owner account missing''))) (\<lambda>acc.
     let total = i64_sum (map uf_amount (matured now (acc_unfrozen_v2 acc))) in
     st_bind (st_lift (checked_credit (acc_balance acc) total (Execute ''long overflow''))) (\<lambda>b.
     st_bind (st_modify (put_account owner
       (acc\<lparr>acc_balance := b, acc_unfrozen_v2 := pending now (acc_unfrozen_v2 acc)\<rparr>))) (\<lambda>_.
     st_return (ExecutionResult 0)))))))"

section \<open>Cancel all unfreezes\<close>

definition ALLOW_CANCEL_ALL_UNFREEZE_V2 :: string where
  "ALLOW_CANCEL_ALL_UNFREEZE_V2 = ''ALLOW_CANCEL_ALL_UNFREEZE_V2''"

record cancel_unfreeze_contract =
  cu_owner_address :: bytes

definition cancel_unfreeze_validate ::
  "cancel_unfreeze_contract \<Rightarrow> world_state \<Rightarrow> actuator_error + i64" where
  "cancel_unfreeze_validate c s =
     rbind (require_feature s ALLOW_CANCEL_ALL_UNFREEZE_V2
       ''Not support CancelAllUnfreezeV2 transaction, need to be opened by the committee'') (\<lambda>_.
     rbind (stake_parse_address (cu_owner_address c)) (\<lambda>owner.
     rbind (ok_or (get_account s owner) (Validate ''Account does not exist'')) (\<lambda>acc.
     rbind (ensure (acc_unfrozen_v2 acc \<noteq> []) (Validate ''no unfreezeV2 list to cancel''))
       (\<lambda>_. Inr 0))))"

text \<open>Return an amount to the stake of a resource (plain addition).\<close>

definition return_frozen :: "int \<Rightarrow> i64 \<Rightarrow> freeze_v2 list \<Rightarrow> freeze_v2 list" where
  "return_frozen resource x fs =
     (case find_frozen resource fs of
        Some f \<Rightarrow> set_frozen_amount resource (i64_wrap (fz_amount f + x)) fs
      | None \<Rightarrow> fs @ [\<lparr>fz_type = resource, fz_amount = x\<rparr>])"

text \<open>The array \<open>refrozen: [i64; 3]\<close>; a type outside it is skipped.\<close>

definition add_slot :: "int \<Rightarrow> i64 \<Rightarrow> i64 list \<Rightarrow> i64 list" where
  "add_slot ty x slots =
     (if 0 \<le> ty \<and> nat ty < length slots
      then slots[nat ty := i64_wrap (slots ! nat ty + x)] else slots)"

text \<open>One queue entry: the loop state is the withdrawn sum, the stake list and the slots.\<close>

fun cancel_step :: "i64 \<Rightarrow> unfreeze_v2 \<Rightarrow> i64 \<times> freeze_v2 list \<times> i64 list
    \<Rightarrow> i64 \<times> freeze_v2 list \<times> i64 list" where
  "cancel_step now u (withdraw, fs, slots) =
     (if uf_expire_time u \<le> now then (i64_wrap (withdraw + uf_amount u), fs, slots)
      else (withdraw, return_frozen (uf_type u) (uf_amount u) fs, add_slot (uf_type u) (uf_amount u) slots))"

definition restore_weight :: "int \<times> i64 \<Rightarrow> world_state \<Rightarrow> world_state" where
  "restore_weight e s =
     (if snd e = 0 then s else add_weight (fst e) (snd e sdiv TRX_PRECISION) s)"

definition cancel_unfreeze_execute :: "cancel_unfreeze_contract \<Rightarrow> execution_result act" where
  "cancel_unfreeze_execute c =
     st_bind (st_lift (stake_parse_address (cu_owner_address c))) (\<lambda>owner.
     st_bind (st_gets (\<lambda>s. get_prop_i64 s LATEST_BLOCK_HEADER_TIMESTAMP)) (\<lambda>now.
     st_bind (st_gets (\<lambda>s. get_account s owner)) (\<lambda>oa.
     st_bind (st_lift (ok_or oa (Execute ''owner account missing''))) (\<lambda>acc.
     case fold (cancel_step now) (acc_unfrozen_v2 acc) (0, acc_frozen_v2 acc, [0, 0, 0]) of
       (withdraw, fs, slots) \<Rightarrow>
     st_bind (st_lift (checked_credit (acc_balance acc) withdraw (Execute ''long overflow''))) (\<lambda>b.
     st_bind (st_modify (put_account owner
       (acc\<lparr>acc_balance := b, acc_frozen_v2 := fs, acc_unfrozen_v2 := []\<rparr>))) (\<lambda>_.
     st_bind (st_modify (fold restore_weight (zip [0, 1, 2] slots))) (\<lambda>_.
     st_return (ExecutionResult 0))))))))"

section \<open>Stake lists\<close>

lemmas [simp] = stake_parse_address_def

definition amount_of :: "int \<Rightarrow> freeze_v2 list \<Rightarrow> i64" where
  "amount_of r fs = (case find_frozen r fs of Some f \<Rightarrow> fz_amount f | None \<Rightarrow> 0)"

definition plus_frozen :: "int \<Rightarrow> i64 \<Rightarrow> freeze_v2 list \<Rightarrow> freeze_v2 list" where
  "plus_frozen r x fs =
     (case find_frozen r fs of
        Some f \<Rightarrow> set_frozen_amount r (fz_amount f + x) fs
      | None \<Rightarrow> fs @ [\<lparr>fz_type = r, fz_amount = x\<rparr>])"

definition wf_stakes :: "freeze_v2 list \<Rightarrow> bool" where
  "wf_stakes fs \<longleftrightarrow> (\<forall>f\<in>set fs. 0 \<le> fz_amount f) \<and> distinct (map fz_type fs)"

abbreviation stake_sum :: "freeze_v2 list \<Rightarrow> int" where
  "stake_sum fs \<equiv> sum_list (map fz_amount fs)"

lemma find_frozen_simps [simp]:
  "find_frozen r [] = None"
  "find_frozen r (f # fs) = (if fz_type f = r then Some f else find_frozen r fs)"
  by (simp_all add: find_frozen_def)

lemma find_frozen_append [simp]:
  "find_frozen r (fs @ gs) = (case find_frozen r fs of None \<Rightarrow> find_frozen r gs | Some f \<Rightarrow> Some f)"
  by (induction fs) auto

lemma find_frozen_Some: "find_frozen r fs = Some f \<Longrightarrow> f \<in> set fs \<and> fz_type f = r"
  by (induction fs) (auto split: if_splits)

lemma find_frozen_None: "find_frozen r fs = None \<longleftrightarrow> r \<notin> fz_type ` set fs"
  by (induction fs) auto

lemma set_frozen_simps [simp]:
  "set_frozen_amount r x [] = []"
  "set_frozen_amount r x (f # fs) =
     (if fz_type f = r then f\<lparr>fz_amount := x\<rparr> # fs else f # set_frozen_amount r x fs)"
  by (simp_all add: set_frozen_amount_def)

lemma set_frozen_types [simp]: "map fz_type (set_frozen_amount r x fs) = map fz_type fs"
  by (induction fs) auto

lemma set_frozen_sum:
  "find_frozen r fs = Some f \<Longrightarrow> stake_sum (set_frozen_amount r x fs) = stake_sum fs - fz_amount f + x"
  by (induction fs) (auto split: if_splits)

lemma set_frozen_wf: "wf_stakes fs \<Longrightarrow> 0 \<le> x \<Longrightarrow> wf_stakes (set_frozen_amount r x fs)"
  unfolding wf_stakes_def set_frozen_types by (induction fs) auto

lemma set_frozen_amount_of:
  "find_frozen r fs = Some f \<Longrightarrow>
   amount_of r' (set_frozen_amount r x fs) = (if r' = r then x else amount_of r' fs)"
  by (induction fs) (auto simp: amount_of_def split: if_splits)

lemma stake_member:
  assumes "wf_stakes fs" and "find_frozen r fs = Some f"
  shows "0 \<le> fz_amount f" and "fz_amount f \<le> stake_sum fs"
  using assms find_frozen_Some [OF assms(2)] sum_list_member_le [of fs fz_amount f]
  by (auto simp: wf_stakes_def)

lemma plus_frozen_sum [simp]: "stake_sum (plus_frozen r x fs) = stake_sum fs + x"
  by (auto simp: plus_frozen_def set_frozen_sum split: option.splits)

lemma plus_frozen_wf:
  assumes "wf_stakes fs" and "0 \<le> x"
  shows "wf_stakes (plus_frozen r x fs)"
proof (cases "find_frozen r fs")
  case None
  then have "r \<notin> fz_type ` set fs" by (simp add: find_frozen_None)
  with None assms show ?thesis by (auto simp: plus_frozen_def wf_stakes_def)
next
  case (Some f)
  with assms stake_member [OF assms(1) Some] show ?thesis
    by (simp add: plus_frozen_def set_frozen_wf)
qed

lemma plus_frozen_amount_of:
  "amount_of r' (plus_frozen r x fs) = amount_of r' fs + (if r' = r then x else 0)"
proof (cases "find_frozen r fs")
  case None
  then show ?thesis
    by (auto simp: plus_frozen_def amount_of_def split: option.splits)
next
  case (Some f)
  then show ?thesis
    by (simp add: plus_frozen_def set_frozen_amount_of) (simp add: amount_of_def)
qed

lemma plus_frozen_eqs:
  assumes "wf_stakes fs" and "0 \<le> x" and "stake_sum fs + x \<le> i64_max"
  shows "add_frozen r x fs = Inr (plus_frozen r x fs)" and "return_frozen r x fs = plus_frozen r x fs"
proof -
  have fits: "in_i64 (fz_amount f + x)" if "find_frozen r fs = Some f" for f
    using stake_member [OF assms(1) that] assms(2,3) by (intro nonneg_in_i64) simp_all
  then show "add_frozen r x fs = Inr (plus_frozen r x fs)"
    and "return_frozen r x fs = plus_frozen r x fs"
    by (auto simp: add_frozen_def return_frozen_def plus_frozen_def checked_credit_ok split: option.splits)
qed

lemma frozen_amount_of: "frozen_amount acc r = amount_of r (acc_frozen_v2 acc)"
  by (simp add: frozen_amount_def amount_of_def)

lemma wf_account_stakes: "wf_account acc \<Longrightarrow> wf_stakes (acc_frozen_v2 acc)"
  by (simp add: wf_account_def wf_stakes_def)

lemma stakes_le: "wf_account acc \<Longrightarrow> stake_sum (acc_frozen_v2 acc) \<le> acc_trx acc"
  using acc_trx_parts [of acc] by (simp add: acc_trx_def)

section \<open>The network weights\<close>

lemma weight_key_neutral:
  "total_weight_key r = Some k \<Longrightarrow>
   k \<noteq> BURN_TRX_AMOUNT \<and> k \<noteq> CREATE_NEW_ACCOUNT_FEE_IN_SYSTEM_CONTRACT"
  by (auto simp: total_weight_key_def prop_keys split: if_splits)

lemma add_weight_neutral [simp]:
  "wf_state (add_weight r d s) = wf_state s" "total_trx (add_weight r d s) = total_trx s"
  "get_account (add_weight r d s) a = get_account s a"
  using weight_key_neutral [of r]
  by (auto simp: add_weight_def add_prop_i64_def state_simps split: option.splits)

lemma restore_weight_neutral [simp]:
  "wf_state (restore_weight e s) = wf_state s" "total_trx (restore_weight e s) = total_trx s"
  "get_account (restore_weight e s) a = get_account s a"
  by (simp_all add: restore_weight_def)

lemma restore_weights_neutral [simp]:
  "wf_state (fold restore_weight es s) = wf_state s" "total_trx (fold restore_weight es s) = total_trx s"
  "get_account (fold restore_weight es s) a = get_account s a"
  by (induction es arbitrary: s) simp_all

section \<open>Freeze and unfreeze: what they do\<close>

lemma freeze_v2_validate_Inr:
  "freeze_v2_validate c s = Inr f \<longleftrightarrow>
     (\<exists>owner acc. 0 < get_prop_i64 s UNFREEZE_DELAY_DAYS_KEY
       \<and> wf_address owner \<and> f2_owner_address c = as_bytes owner \<and> get_account s owner = Some acc
       \<and> TRX_PRECISION \<le> f2_frozen_balance c \<and> f2_frozen_balance c \<le> acc_balance acc
       \<and> valid_resource (0 < get_prop_i64 s ALLOW_NEW_RESOURCE_MODEL_KEY) (f2_resource c) \<and> f = 0)"
  by (auto simp: freeze_v2_validate_def result_simps Let_def TRX_PRECISION_def)

definition frozen_account :: "freeze_v2_contract \<Rightarrow> account \<Rightarrow> account" where
  "frozen_account c acc =
     acc\<lparr>acc_frozen_v2 := plus_frozen (f2_resource c) (f2_frozen_balance c) (acc_frozen_v2 acc),
         acc_balance := acc_balance acc - f2_frozen_balance c\<rparr>"

lemma freeze_v2_result:
  assumes w: "wf_state s" and v: "freeze_v2_validate c s = Inr f"
  obtains owner acc s' where "f2_owner_address c = as_bytes owner" "get_account s owner = Some acc"
    "freeze_v2_execute c s = (Inr (ExecutionResult 0), s')" "wf_state s'" "total_trx s' = total_trx s"
    "s' = add_weight (f2_resource c) (f2_frozen_balance c sdiv TRX_PRECISION)
       (put_account owner (frozen_account c acc) s)"
proof -
  from v obtain owner acc where c: "wf_address owner" "f2_owner_address c = as_bytes owner"
    "get_account s owner = Some acc"
    and x: "TRX_PRECISION \<le> f2_frozen_balance c" "f2_frozen_balance c \<le> acc_balance acc"
    unfolding freeze_v2_validate_Inr by blast
  let ?s1 = "put_account owner (frozen_account c acc) s"
  note a = wf_state_account [OF w c(3)]
  have x0: "0 \<le> f2_frozen_balance c" using x by (simp add: TRX_PRECISION_def)
  have sum: "stake_sum (acc_frozen_v2 acc) + f2_frozen_balance c \<le> i64_max"
    using a acc_trx_parts [OF a(1)] x by (simp add: acc_trx_def)
  note eqs = plus_frozen_eqs [OF wf_account_stakes [OF a(1)] x0 sum]
  have "wf_account (frozen_account c acc)" "acc_trx (frozen_account c acc) = acc_trx acc"
    "same_delegation (Some acc) (frozen_account c acc)"
    using a(1) x0 x plus_frozen_wf [OF wf_account_stakes [OF a(1)] x0]
    by (auto simp: frozen_account_def wf_account_def wf_stakes_def neutral_simps)
  then have w1: "wf_state ?s1" "total_trx ?s1 = total_trx s"
    using move_account [OF w c(3), of "frozen_account c acc"] w by simp_all
  have fits: "in_i64 (acc_balance acc - f2_frozen_balance c)"
    using move_debit(3) [OF w c(3) x0 x(2)] .
  have "freeze_v2_execute c s = (Inr (ExecutionResult 0),
      add_weight (f2_resource c) (f2_frozen_balance c sdiv TRX_PRECISION) ?s1)"
    using c x fits
    by (simp add: freeze_v2_execute_def st_bind_def st_prim_simps ok_or_def eqs checked_debit_ok Let_def
        frozen_account_def)
  with that c w1 show ?thesis by auto
qed

interpretation freeze_v2: actuator freeze_v2_validate freeze_v2_execute "\<lambda>_ _. True"
  by unfold_locales (metis freeze_v2_result)

lemma unfreeze_resource_check_Inr:
  "unfreeze_resource_check allow acc r = Inr u \<longleftrightarrow> valid_resource allow r \<and> has_frozen acc r"
  by (auto simp: unfreeze_resource_check_def valid_resource_def resource_defs)

lemma unfreeze_v2_validate_Inr:
  "unfreeze_v2_validate c s = Inr f \<longleftrightarrow>
     (\<exists>owner acc. 0 < get_prop_i64 s UNFREEZE_DELAY_DAYS_KEY
       \<and> wf_address owner \<and> u2_owner_address c = as_bytes owner \<and> get_account s owner = Some acc
       \<and> valid_resource (0 < get_prop_i64 s ALLOW_NEW_RESOURCE_MODEL_KEY) (u2_resource c)
       \<and> has_frozen acc (u2_resource c)
       \<and> 0 < u2_unfreeze_balance c \<and> u2_unfreeze_balance c \<le> frozen_amount acc (u2_resource c)
       \<and> unfreezing_count (get_prop_i64 s LATEST_BLOCK_HEADER_TIMESTAMP) acc < UNFREEZE_MAX_TIMES
       \<and> f = 0)"
  by (auto simp: unfreeze_v2_validate_def result_simps Let_def unfreeze_resource_check_Inr)

text \<open>The expiry of an unfreeze made now, when the clock does not overflow.\<close>

definition unfreeze_expiry :: "world_state \<Rightarrow> i64" where
  "unfreeze_expiry s =
     get_prop_i64 s LATEST_BLOCK_HEADER_TIMESTAMP
     + get_prop_i64 s UNFREEZE_DELAY_DAYS_KEY * FROZEN_PERIOD_MS"

definition clock_ok :: "world_state \<Rightarrow> bool" where
  "clock_ok s \<longleftrightarrow>
     in_i64 (get_prop_i64 s UNFREEZE_DELAY_DAYS_KEY * FROZEN_PERIOD_MS) \<and> in_i64 (unfreeze_expiry s)"

definition unfrozen_account :: "unfreeze_v2_contract \<Rightarrow> i64 \<Rightarrow> account \<Rightarrow> account" where
  "unfrozen_account c expiry acc =
     acc\<lparr>acc_frozen_v2 := set_frozen_amount (u2_resource c)
           (frozen_amount acc (u2_resource c) - u2_unfreeze_balance c) (acc_frozen_v2 acc),
         acc_unfrozen_v2 := acc_unfrozen_v2 acc
           @ [\<lparr>uf_type = u2_resource c, uf_amount = u2_unfreeze_balance c, uf_expire_time = expiry\<rparr>]\<rparr>"

lemma has_frozen_find: "has_frozen acc r \<Longrightarrow> \<exists>f. find_frozen r (acc_frozen_v2 acc) = Some f"
  using find_frozen_None [of r "acc_frozen_v2 acc"]
  by (cases "find_frozen r (acc_frozen_v2 acc)") (auto simp: has_frozen_def list_ex_iff)

lemma unfrozen_account_value:
  assumes "wf_account acc" and "find_frozen (u2_resource c) (acc_frozen_v2 acc) = Some f"
    and "0 \<le> u2_unfreeze_balance c" and "u2_unfreeze_balance c \<le> fz_amount f"
  shows "wf_account (unfrozen_account c e acc)" and "acc_trx (unfrozen_account c e acc) = acc_trx acc"
    and "same_delegation (Some acc) (unfrozen_account c e acc)"
  using assms set_frozen_wf [OF wf_account_stakes [OF assms(1)], of "fz_amount f - u2_unfreeze_balance c"]
  by (auto simp: unfrozen_account_def neutral_simps wf_stakes_def frozen_amount_def set_frozen_sum)

lemma unfreeze_v2_result:
  assumes w: "wf_state s" and v: "unfreeze_v2_validate c s = Inr f" and t: "clock_ok s"
  obtains owner acc s' where "u2_owner_address c = as_bytes owner" "get_account s owner = Some acc"
    "unfreeze_v2_execute c s = (Inr (ExecutionResult 0), s')" "wf_state s'" "total_trx s' = total_trx s"
    "s' = add_weight (u2_resource c) (- (u2_unfreeze_balance c sdiv TRX_PRECISION))
       (put_account owner (unfrozen_account c (unfreeze_expiry s) acc) s)"
proof -
  from v obtain owner acc where c: "wf_address owner" "u2_owner_address c = as_bytes owner"
    "get_account s owner = Some acc"
    and d: "0 < get_prop_i64 s UNFREEZE_DELAY_DAYS_KEY" and h: "has_frozen acc (u2_resource c)"
    and x: "0 < u2_unfreeze_balance c" "u2_unfreeze_balance c \<le> frozen_amount acc (u2_resource c)"
    unfolding unfreeze_v2_validate_Inr by blast
  obtain e where e: "find_frozen (u2_resource c) (acc_frozen_v2 acc) = Some e"
    using has_frozen_find [OF h] by blast
  let ?s1 = "put_account owner (unfrozen_account c (unfreeze_expiry s) acc) s"
  note a = wf_state_account [OF w c(3)]
  have xe: "u2_unfreeze_balance c \<le> fz_amount e" using x e by (simp add: frozen_amount_def)
  note u = unfrozen_account_value [OF a(1) e less_imp_le [OF x(1)] xe]
  then have w1: "wf_state ?s1" "total_trx ?s1 = total_trx s"
    using move_account [OF w c(3) u(1,3)] w by simp_all
  have "fz_amount e \<le> i64_max"
    using stake_member(2) [OF wf_account_stakes [OF a(1)] e] stakes_le [OF a(1)] a(3) by simp
  then have fits: "in_i64 (fz_amount e - u2_unfreeze_balance c)"
    using x xe by (intro nonneg_in_i64) simp_all
  have delay: "unfreeze_delay_ms s = Inr (get_prop_i64 s UNFREEZE_DELAY_DAYS_KEY * FROZEN_PERIOD_MS)"
    using d t by (simp add: unfreeze_delay_ms_def clock_ok_def ok_or_def i64_checked_mul_def i64_checked_def)
  have "unfreeze_v2_execute c s = (Inr (ExecutionResult 0),
      add_weight (u2_resource c) (- (u2_unfreeze_balance c sdiv TRX_PRECISION)) ?s1)"
    using c e xe fits t
    by (simp add: unfreeze_v2_execute_def st_bind_def st_prim_simps ok_or_def Let_def delay clock_ok_def
        checked_debit_ok checked_credit_ok unfreeze_expiry_def unfrozen_account_def frozen_amount_def)
  with that c w1 show ?thesis by auto
qed

interpretation unfreeze_v2: actuator unfreeze_v2_validate unfreeze_v2_execute "\<lambda>_. clock_ok"
  by unfold_locales (metis unfreeze_v2_result)

section \<open>Withdraw and cancel: what they do\<close>

abbreviation queue_sum :: "unfreeze_v2 list \<Rightarrow> int" where
  "queue_sum us \<equiv> sum_list (map uf_amount us)"

lemma i64_sum_eq:
  assumes "\<forall>x\<in>set xs. 0 \<le> x" and "sum_list xs \<le> i64_max"
  shows "i64_sum xs = sum_list xs"
proof -
  have "foldl (\<lambda>a x. i64_wrap (a + x)) a xs = a + sum_list xs"
    if "0 \<le> a" "a + sum_list xs \<le> i64_max" for a
    using that assms(1)
  proof (induction xs arbitrary: a)
    case (Cons x xs)
    have "0 \<le> sum_list xs" using Cons.prems(3) by (intro sum_list_nonneg) auto
    with Cons show ?case by (simp add: nonneg_in_i64)
  qed simp
  from this [of 0] assms(2) show ?thesis by (simp add: i64_sum_def)
qed

lemma matured_pending_sum: "queue_sum (matured now us) + queue_sum (pending now us) = queue_sum us"
  by (induction us) (auto simp: matured_def pending_def)

lemma queue_filter_nonneg:
  assumes "\<forall>u\<in>set us. 0 \<le> uf_amount u"
  shows "0 \<le> queue_sum (filter p us)" "0 \<le> queue_sum (matured now us)" "0 \<le> queue_sum (pending now us)"
  using assms by (auto intro!: sum_list_nonneg_map simp: matured_def pending_def)

lemma queue_le: "wf_account acc \<Longrightarrow> acc_balance acc + queue_sum (acc_unfrozen_v2 acc)
    + stake_sum (acc_frozen_v2 acc) \<le> acc_trx acc"
  using acc_trx_parts [of acc] by (simp add: acc_trx_def)

lemma matured_i64_sum:
  assumes "wf_account acc" and "acc_trx acc \<le> i64_max"
  shows "i64_sum (map uf_amount (matured now (acc_unfrozen_v2 acc)))
      = queue_sum (matured now (acc_unfrozen_v2 acc))"
    and "0 \<le> queue_sum (matured now (acc_unfrozen_v2 acc))"
    and "in_i64 (acc_balance acc + queue_sum (matured now (acc_unfrozen_v2 acc)))"
proof -
  have nn: "\<forall>u\<in>set (acc_unfrozen_v2 acc). 0 \<le> uf_amount u"
    and b: "0 \<le> acc_balance acc" "0 \<le> stake_sum (acc_frozen_v2 acc)"
    using assms(1) acc_trx_parts [OF assms(1)] by (simp_all add: wf_account_def)
  note q = queue_filter_nonneg(2,3) [OF nn, of now]
  note le = queue_le [OF assms(1)] matured_pending_sum [of now "acc_unfrozen_v2 acc"]
  show "0 \<le> queue_sum (matured now (acc_unfrozen_v2 acc))" by (rule q)
  show "in_i64 (acc_balance acc + queue_sum (matured now (acc_unfrozen_v2 acc)))"
    using q le b assms(2) by (intro nonneg_in_i64) simp_all
  show "i64_sum (map uf_amount (matured now (acc_unfrozen_v2 acc)))
      = queue_sum (matured now (acc_unfrozen_v2 acc))"
    using nn q le b assms(2) by (intro i64_sum_eq) (auto simp: matured_def)
qed

definition withdrawn_account :: "i64 \<Rightarrow> account \<Rightarrow> account" where
  "withdrawn_account now acc =
     acc\<lparr>acc_balance := acc_balance acc + queue_sum (matured now (acc_unfrozen_v2 acc)),
         acc_unfrozen_v2 := pending now (acc_unfrozen_v2 acc)\<rparr>"

lemma withdrawn_account_value:
  assumes "wf_account acc"
  shows "wf_account (withdrawn_account now acc)" and "acc_trx (withdrawn_account now acc) = acc_trx acc"
    and "same_delegation (Some acc) (withdrawn_account now acc)"
  using assms matured_pending_sum [of now "acc_unfrozen_v2 acc"]
    queue_filter_nonneg(2) [of "acc_unfrozen_v2 acc" now]
  by (auto simp: withdrawn_account_def neutral_simps pending_def)

lemma withdraw_expire_validate_Inr:
  assumes "wf_state s"
  shows "withdraw_expire_validate c s = Inr f \<longleftrightarrow>
     (\<exists>owner acc. wf_address owner \<and> we_owner_address c = as_bytes owner \<and> get_account s owner = Some acc
       \<and> 0 < queue_sum (matured (get_prop_i64 s LATEST_BLOCK_HEADER_TIMESTAMP) (acc_unfrozen_v2 acc))
       \<and> f = 0)"
proof -
  have "i64_sum (map uf_amount (matured now (acc_unfrozen_v2 acc)))
      = queue_sum (matured now (acc_unfrozen_v2 acc))" if "get_account s a = Some acc" for a acc now
    using matured_i64_sum(1) wf_state_account(1,3) [OF assms that] .
  then show ?thesis
    by (fastforce simp: withdraw_expire_validate_def matured_total_def result_simps Let_def)
qed

lemma withdraw_expire_execute_eq:
  assumes "wf_state s" and "wf_address owner" and "we_owner_address c = as_bytes owner"
    and "get_account s owner = Some acc"
  shows "withdraw_expire_execute c s = (Inr (ExecutionResult 0),
      put_account owner (withdrawn_account (get_prop_i64 s LATEST_BLOCK_HEADER_TIMESTAMP) acc) s)"
  using assms matured_i64_sum [OF wf_state_account(1,3) [OF assms(1,4)]]
  by (simp add: withdraw_expire_execute_def st_bind_def st_prim_simps ok_or_def Let_def
      checked_credit_ok withdrawn_account_def)

lemma put_neutral:
  assumes "wf_state s" and "get_account s a = Some acc" and "wf_account acc'"
    and "acc_trx acc' = acc_trx acc" and "same_delegation (Some acc) acc'"
  shows "wf_state (put_account a acc' s)" and "total_trx (put_account a acc' s) = total_trx s"
  using move_account [OF assms(1-3,5)] assms by simp_all

interpretation withdraw_expire: actuator withdraw_expire_validate withdraw_expire_execute "\<lambda>_ _. True"
proof
  fix s c f
  assume w: "wf_state s" and v: "withdraw_expire_validate c s = Inr f"
  then obtain owner acc where c: "wf_address owner" "we_owner_address c = as_bytes owner"
    "get_account s owner = Some acc"
    unfolding withdraw_expire_validate_Inr [OF w] by blast
  note x = withdraw_expire_execute_eq [OF w c]
  from x put_neutral [OF w c(3) withdrawn_account_value [OF wf_state_account(1) [OF w c(3)]]]
  show "\<exists>r s'. withdraw_expire_execute c s = (Inr r, s') \<and> wf_state s' \<and> total_trx s' = total_trx s"
    by simp
qed

text \<open>The loop of a cancellation, when nothing overflows.\<close>

definition of_type :: "int \<Rightarrow> unfreeze_v2 list \<Rightarrow> unfreeze_v2 list" where
  "of_type r us = filter (\<lambda>u. uf_type u = r) us"

lemma cancel_loop:
  assumes "\<forall>u\<in>set us. 0 \<le> uf_amount u" and "0 \<le> w" and "wf_stakes fs"
    and "w + stake_sum fs + queue_sum us \<le> i64_max"
  shows "\<exists>fs' slots'. fold (cancel_step now) us (w, fs, slots) = (w + queue_sum (matured now us), fs', slots')
     \<and> wf_stakes fs' \<and> stake_sum fs' = stake_sum fs + queue_sum (pending now us)
     \<and> (\<forall>r. amount_of r fs' = amount_of r fs + queue_sum (of_type r (pending now us)))"
  using assms
proof (induction us arbitrary: w fs slots)
  case Nil
  then show ?case by (simp add: matured_def pending_def of_type_def)
next
  case (Cons u us)
  have nn: "0 \<le> uf_amount u" "\<forall>u\<in>set us. 0 \<le> uf_amount u" using Cons.prems(1) by simp_all
  have pos: "0 \<le> queue_sum us" "0 \<le> stake_sum fs"
    using nn Cons.prems(3) by (auto intro!: sum_list_nonneg_map simp: wf_stakes_def)
  show ?case
  proof (cases "uf_expire_time u \<le> now")
    case True
    have "in_i64 (w + uf_amount u)"
      using Cons.prems(2,4) nn pos by (intro nonneg_in_i64) simp_all
    with Cons.IH [OF nn(2) _ Cons.prems(3), of "w + uf_amount u" slots] Cons.prems nn True show ?thesis
      by (auto simp: matured_def pending_def of_type_def)
  next
    case False
    have "stake_sum fs + uf_amount u \<le> i64_max" using Cons.prems(2,4) pos by simp
    note eq = plus_frozen_eqs(2) [OF Cons.prems(3) nn(1) this]
    let ?fs = "plus_frozen (uf_type u) (uf_amount u) fs"
    have "w + stake_sum ?fs + queue_sum us \<le> i64_max" using Cons.prems(4) by simp
    from Cons.IH [OF nn(2) Cons.prems(2) plus_frozen_wf [OF Cons.prems(3) nn(1)] this]
    obtain fs' slots' where
      "fold (cancel_step now) us (w, ?fs, add_slot (uf_type u) (uf_amount u) slots)
        = (w + queue_sum (matured now us), fs', slots')" "wf_stakes fs'"
      "stake_sum fs' = stake_sum ?fs + queue_sum (pending now us)"
      "\<forall>r. amount_of r fs' = amount_of r ?fs + queue_sum (of_type r (pending now us))"
      by blast
    with False show ?thesis
      by (intro exI [of _ fs'] exI [of _ slots'])
        (auto simp: eq matured_def pending_def of_type_def plus_frozen_amount_of)
  qed
qed

lemma cancel_unfreeze_validate_Inr:
  "cancel_unfreeze_validate c s = Inr f \<longleftrightarrow>
     (\<exists>owner acc. feature_enabled s ALLOW_CANCEL_ALL_UNFREEZE_V2
       \<and> wf_address owner \<and> cu_owner_address c = as_bytes owner \<and> get_account s owner = Some acc
       \<and> acc_unfrozen_v2 acc \<noteq> [] \<and> f = 0)"
  by (auto simp: cancel_unfreeze_validate_def result_simps)

definition cancelled_account :: "i64 \<Rightarrow> freeze_v2 list \<Rightarrow> account \<Rightarrow> account" where
  "cancelled_account now fs acc =
     acc\<lparr>acc_balance := acc_balance acc + queue_sum (matured now (acc_unfrozen_v2 acc)),
         acc_frozen_v2 := fs, acc_unfrozen_v2 := []\<rparr>"

lemma cancel_unfreeze_result:
  assumes w: "wf_state s" and o: "wf_address owner" "cu_owner_address c = as_bytes owner"
    and g: "get_account s owner = Some acc" and now: "now = get_prop_i64 s LATEST_BLOCK_HEADER_TIMESTAMP"
  obtains fs slots where
    "cancel_unfreeze_execute c s = (Inr (ExecutionResult 0),
       fold restore_weight (zip [0, 1, 2] slots) (put_account owner (cancelled_account now fs acc) s))"
    "wf_state (put_account owner (cancelled_account now fs acc) s)"
    "total_trx (put_account owner (cancelled_account now fs acc) s) = total_trx s"
    "\<forall>r. amount_of r fs = frozen_amount acc r + queue_sum (of_type r (pending now (acc_unfrozen_v2 acc)))"
proof -
  note a = wf_state_account [OF w g]
  have nn: "\<forall>u\<in>set (acc_unfrozen_v2 acc). 0 \<le> uf_amount u" using a(1) by (simp add: wf_account_def)
  have "0 + stake_sum (acc_frozen_v2 acc) + queue_sum (acc_unfrozen_v2 acc) \<le> i64_max"
    using queue_le [OF a(1)] a(1,3) by (simp add: wf_account_def)
  from cancel_loop [OF nn order_refl wf_account_stakes [OF a(1)] this, of now "[0, 0, 0]"]
  obtain fs slots where l: "fold (cancel_step now) (acc_unfrozen_v2 acc) (0, acc_frozen_v2 acc, [0, 0, 0])
      = (queue_sum (matured now (acc_unfrozen_v2 acc)), fs, slots)"
    "wf_stakes fs" "stake_sum fs = stake_sum (acc_frozen_v2 acc) + queue_sum (pending now (acc_unfrozen_v2 acc))"
    "\<forall>r. amount_of r fs = amount_of r (acc_frozen_v2 acc)
       + queue_sum (of_type r (pending now (acc_unfrozen_v2 acc)))"
    by auto
  note m = matured_i64_sum(2,3) [OF a(1,3), of now]
  have e: "cancel_unfreeze_execute c s = (Inr (ExecutionResult 0),
      fold restore_weight (zip [0, 1, 2] slots) (put_account owner (cancelled_account now fs acc) s))"
    using o g m
    by (simp add: cancel_unfreeze_execute_def st_bind_def st_prim_simps ok_or_def now [symmetric] l(1)
        checked_credit_ok cancelled_account_def)
  have "wf_account (cancelled_account now fs acc)" "acc_trx (cancelled_account now fs acc) = acc_trx acc"
    "same_delegation (Some acc) (cancelled_account now fs acc)"
    using a(1) l(2,3) m matured_pending_sum [of now "acc_unfrozen_v2 acc"]
    by (auto simp: cancelled_account_def neutral_simps wf_stakes_def)
  from put_neutral [OF w g this] show ?thesis
    using that [OF e] l(4) by (simp add: frozen_amount_of)
qed

interpretation cancel_unfreeze: actuator cancel_unfreeze_validate cancel_unfreeze_execute "\<lambda>_ _. True"
proof
  fix s c f
  assume w: "wf_state s" and v: "cancel_unfreeze_validate c s = Inr f"
  then obtain owner acc where c: "wf_address owner" "cu_owner_address c = as_bytes owner"
    "get_account s owner = Some acc"
    unfolding cancel_unfreeze_validate_Inr by blast
  show "\<exists>r s'. cancel_unfreeze_execute c s = (Inr r, s') \<and> wf_state s' \<and> total_trx s' = total_trx s"
    by (rule cancel_unfreeze_result [OF w c refl]) simp
qed

section \<open>Properties\<close>

text \<open>
  Unstaking is a delayed round trip.  A validated unfreeze executes, takes the amount out of
  the stake of its resource and queues it to expire after the configured number of days; the
  spendable balance does not move, at most 32 requests are pending afterwards, and TRX is
  conserved.
\<close>

theorem unfreeze_v2_queues:
  assumes "wf_state s" and "unfreeze_v2_validate c s = Inr f" and "clock_ok s"
    and "u2_owner_address c = as_bytes owner" and "get_account s owner = Some acc"
  shows "\<exists>s' acc'. unfreeze_v2_execute c s = (Inr (ExecutionResult 0), s') \<and> wf_state s'
     \<and> total_trx s' = total_trx s \<and> get_account s' owner = Some acc'
     \<and> acc_balance acc' = acc_balance acc
     \<and> (\<forall>r. frozen_amount acc' r
          = frozen_amount acc r - (if r = u2_resource c then u2_unfreeze_balance c else 0))
     \<and> acc_unfrozen_v2 acc' = acc_unfrozen_v2 acc @ [\<lparr>uf_type = u2_resource c,
          uf_amount = u2_unfreeze_balance c, uf_expire_time = unfreeze_expiry s\<rparr>]
     \<and> unfreezing_count (get_prop_i64 s LATEST_BLOCK_HEADER_TIMESTAMP) acc' \<le> UNFREEZE_MAX_TIMES"
proof -
  obtain ow a s' where r: "u2_owner_address c = as_bytes ow" "get_account s ow = Some a"
    "unfreeze_v2_execute c s = (Inr (ExecutionResult 0), s')" "wf_state s'" "total_trx s' = total_trx s"
    "s' = add_weight (u2_resource c) (- (u2_unfreeze_balance c sdiv TRX_PRECISION))
       (put_account ow (unfrozen_account c (unfreeze_expiry s) a) s)"
    using assms(1-3) by (rule unfreeze_v2_result)
  have same: "ow = owner" "a = acc"
    using r(1,2) assms(4,5) by (auto simp: address.expand)
  have v: "has_frozen acc (u2_resource c)"
    "unfreezing_count (get_prop_i64 s LATEST_BLOCK_HEADER_TIMESTAMP) acc < UNFREEZE_MAX_TIMES"
    using assms(2,4,5) unfolding unfreeze_v2_validate_Inr by (auto simp: address.expand)
  then obtain e where e: "find_frozen (u2_resource c) (acc_frozen_v2 acc) = Some e"
    using has_frozen_find by blast
  have "frozen_amount (unfrozen_account c x acc) q
      = frozen_amount acc q - (if q = u2_resource c then u2_unfreeze_balance c else 0)" for x q
    by (simp add: frozen_amount_of unfrozen_account_def set_frozen_amount_of [OF e])
  with r same v(2) show ?thesis
    by (intro exI [of _ s'] exI [of _ "unfrozen_account c (unfreeze_expiry s) acc"])
      (simp add: state_simps, simp add: unfrozen_account_def unfreezing_count_def)
qed

definition staked_wallet :: account where
  "staked_wallet = (wallet 1 1000000)\<lparr>acc_frozen_v2 := [\<lparr>fz_type = 0, fz_amount = 5000000\<rparr>],
     acc_unfrozen_v2 := [\<lparr>uf_type = 0, uf_amount = 300, uf_expire_time = 50\<rparr>,
       \<lparr>uf_type = 1, uf_amount = 500, uf_expire_time = 200\<rparr>]\<rparr>"

definition stake_ledger :: world_state where
  "stake_ledger =
     put_prop_i64 LATEST_BLOCK_HEADER_TIMESTAMP 100 (put_prop_i64 UNFREEZE_DELAY_DAYS_KEY 14
       (put_prop_i64 ALLOW_CANCEL_ALL_UNFREEZE_V2 1 (ledger_of [(1, staked_wallet)])))"

lemmas stake_ledger_simps =
  stake_ledger_def staked_wallet_def state_simps prop_keys UNFREEZE_DELAY_DAYS_KEY_def
  ALLOW_CANCEL_ALL_UNFREEZE_V2_def ALLOW_NEW_RESOURCE_MODEL_KEY_def

lemma stake_ledger_wf: "wf_state stake_ledger"
proof -
  have "wf_state (ledger_of [(1, staked_wallet)])"
    by (rule ledger_one)
      (simp_all add: staked_wallet_def wallet_def account_default_def neutral_simps i64_max_def)
  then show ?thesis
    by (simp add: stake_ledger_def prop_keys UNFREEZE_DELAY_DAYS_KEY_def ALLOW_CANCEL_ALL_UNFREEZE_V2_def
        del: ledger_of.simps)
qed

lemma stake_ledger_account: "get_account stake_ledger (addr_of 1) = Some staked_wallet"
  by (simp add: stake_ledger_def state_simps)

theorem unfreeze_v2_queues_witness:
  "\<exists>s' acc'. unfreeze_v2_execute \<lparr>u2_owner_address = as_bytes (addr_of 1),
        u2_unfreeze_balance = 2000000, u2_resource = 0\<rparr> stake_ledger = (Inr (ExecutionResult 0), s')
     \<and> get_account s' (addr_of 1) = Some acc' \<and> frozen_amount acc' 0 = 3000000"
proof -
  let ?c = "\<lparr>u2_owner_address = as_bytes (addr_of 1), u2_unfreeze_balance = 2000000, u2_resource = 0\<rparr>"
  have v: "unfreeze_v2_validate ?c stake_ledger = Inr 0"
    by (simp add: unfreeze_v2_validate_Inr stake_ledger_simps valid_resource_def resource_defs
        has_frozen_def frozen_amount_def unfreezing_count_def UNFREEZE_MAX_TIMES_def)
  have k: "clock_ok stake_ledger"
    by (simp add: clock_ok_def unfreeze_expiry_def stake_ledger_simps FROZEN_PERIOD_MS_def i64_bounds_defs)
  have "frozen_amount staked_wallet 0 = 5000000"
    by (simp add: frozen_amount_def staked_wallet_def)
  with unfreeze_v2_queues [OF stake_ledger_wf v k _ stake_ledger_account] show ?thesis
    by auto
qed

text \<open>
  C8: A withdrawal pays out exactly the matured requests: it is accepted when and only when their
  sum is positive, adds that sum to the balance, keeps precisely the pending requests, and a
  second withdrawal at the same time is rejected.
\<close>

theorem withdraw_pays_matured:
  assumes "wf_state s" and "wf_address owner" and "we_owner_address c = as_bytes owner"
    and "get_account s owner = Some acc" and "now = get_prop_i64 s LATEST_BLOCK_HEADER_TIMESTAMP"
  shows "(withdraw_expire_validate c s = Inr 0 \<longleftrightarrow> 0 < queue_sum (matured now (acc_unfrozen_v2 acc)))
     \<and> (\<exists>s' acc'. withdraw_expire_execute c s = (Inr (ExecutionResult 0), s') \<and> wf_state s'
       \<and> total_trx s' = total_trx s \<and> get_account s' owner = Some acc'
       \<and> acc_balance acc' = acc_balance acc + queue_sum (matured now (acc_unfrozen_v2 acc))
       \<and> acc_unfrozen_v2 acc' = pending now (acc_unfrozen_v2 acc)
       \<and> withdraw_expire_validate c s' = Inl (Validate ''no unFreeze balance to withdraw''))"
proof
  show "withdraw_expire_validate c s = Inr 0 \<longleftrightarrow> 0 < queue_sum (matured now (acc_unfrozen_v2 acc))"
    unfolding withdraw_expire_validate_Inr [OF assms(1)] using assms by (auto simp: address.expand)
next
  let ?acc = "withdrawn_account now acc"
  let ?s = "put_account owner ?acc s"
  have none: "matured t (pending t us) = []" for t us
    by (simp add: matured_def pending_def)
  have "withdraw_expire_validate c ?s = Inl (Validate ''no unFreeze balance to withdraw'')"
    using assms(2,3,5)
    by (simp add: withdraw_expire_validate_def matured_total_def ok_or_def ensure_def state_simps
        withdrawn_account_def none i64_sum_def)
  then show "\<exists>s' acc'. withdraw_expire_execute c s = (Inr (ExecutionResult 0), s') \<and> wf_state s'
       \<and> total_trx s' = total_trx s \<and> get_account s' owner = Some acc'
       \<and> acc_balance acc' = acc_balance acc + queue_sum (matured now (acc_unfrozen_v2 acc))
       \<and> acc_unfrozen_v2 acc' = pending now (acc_unfrozen_v2 acc)
       \<and> withdraw_expire_validate c s' = Inl (Validate ''no unFreeze balance to withdraw'')"
    using withdraw_expire_execute_eq [OF assms(1-4)] assms(5)
      put_neutral [OF assms(1,4) withdrawn_account_value [OF wf_state_account(1) [OF assms(1,4)]], of now]
    by (intro exI [of _ ?s] exI [of _ ?acc]) (simp add: state_simps, simp add: withdrawn_account_def)
qed

theorem withdraw_pays_matured_witness:
  "\<exists>s' acc'. withdraw_expire_execute \<lparr>we_owner_address = as_bytes (addr_of 1)\<rparr> stake_ledger
        = (Inr (ExecutionResult 0), s')
     \<and> get_account s' (addr_of 1) = Some acc' \<and> acc_balance acc' = 1000300"
proof -
  have "acc_balance staked_wallet + queue_sum (matured 100 (acc_unfrozen_v2 staked_wallet)) = 1000300"
    by (simp add: staked_wallet_def matured_def)
  moreover have "100 = get_prop_i64 stake_ledger LATEST_BLOCK_HEADER_TIMESTAMP"
    by (simp add: stake_ledger_simps)
  ultimately show ?thesis
    using withdraw_pays_matured [OF stake_ledger_wf wf_addr_of _ stake_ledger_account, of
      "\<lparr>we_owner_address = as_bytes (addr_of 1)\<rparr>" 100] by auto
qed

text \<open>
  Cancelling empties the queue: every matured request is paid to the balance, every pending
  one returns to the stake of its own resource, and TRX is conserved.
\<close>

theorem cancel_unfreeze_restores:
  assumes "wf_state s" and "wf_address owner" and "cu_owner_address c = as_bytes owner"
    and "get_account s owner = Some acc" and "now = get_prop_i64 s LATEST_BLOCK_HEADER_TIMESTAMP"
  shows "\<exists>s' acc'. cancel_unfreeze_execute c s = (Inr (ExecutionResult 0), s') \<and> wf_state s'
     \<and> total_trx s' = total_trx s \<and> get_account s' owner = Some acc' \<and> acc_unfrozen_v2 acc' = []
     \<and> acc_balance acc' = acc_balance acc + queue_sum (matured now (acc_unfrozen_v2 acc))
     \<and> (\<forall>r. frozen_amount acc' r
          = frozen_amount acc r + queue_sum (of_type r (pending now (acc_unfrozen_v2 acc))))"
  by (rule cancel_unfreeze_result [OF assms])
    (auto simp: state_simps frozen_amount_of cancelled_account_def)

theorem cancel_unfreeze_restores_witness:
  "\<exists>s' acc'. cancel_unfreeze_execute \<lparr>cu_owner_address = as_bytes (addr_of 1)\<rparr> stake_ledger
        = (Inr (ExecutionResult 0), s')
     \<and> get_account s' (addr_of 1) = Some acc' \<and> acc_balance acc' = 1000300 \<and> frozen_amount acc' 1 = 500"
proof -
  have "acc_balance staked_wallet + queue_sum (matured 100 (acc_unfrozen_v2 staked_wallet)) = 1000300"
    and "frozen_amount staked_wallet 1 + queue_sum (of_type 1 (pending 100 (acc_unfrozen_v2 staked_wallet))) = 500"
    by (simp_all add: staked_wallet_def matured_def pending_def of_type_def frozen_amount_def)
  moreover have "100 = get_prop_i64 stake_ledger LATEST_BLOCK_HEADER_TIMESTAMP"
    by (simp add: stake_ledger_simps)
  ultimately show ?thesis
    using cancel_unfreeze_restores [OF stake_ledger_wf wf_addr_of _ stake_ledger_account, of
      "\<lparr>cu_owner_address = as_bytes (addr_of 1)\<rparr>" 100] by fastforce
qed


end
