(* ===== verification/Act_Stake_V1.thy ===== *)
theory Act_Stake_V1
  imports Act_Stake_V2
begin

text \<open>
  Legacy Stake 1.0: \<open>FreezeBalanceContract\<close> and \<open>UnfreezeBalanceContract\<close> on the owner's own
  account (\<open>src/crates/actuators/src/freeze_v1.rs\<close>).
\<close>

section \<open>Constants and helpers\<close>

definition MIN_FROZEN_TIME_KEY :: string where
  "MIN_FROZEN_TIME_KEY = ''MIN_FROZEN_TIME''"

definition MAX_FROZEN_TIME_KEY :: string where
  "MAX_FROZEN_TIME_KEY = ''MAX_FROZEN_TIME''"

definition DEFAULT_MIN_FROZEN_TIME :: i64 where
  "DEFAULT_MIN_FROZEN_TIME = 3"

definition DEFAULT_MAX_FROZEN_TIME :: i64 where
  "DEFAULT_MAX_FROZEN_TIME = 3"

definition weight_key :: "int \<Rightarrow> string" where
  "weight_key resource =
     (if resource = ENERGY then TOTAL_ENERGY_WEIGHT
      else if resource = TRON_POWER then TOTAL_TRON_POWER_WEIGHT
      else TOTAL_NET_WEIGHT)"

definition frozen_energy :: "account \<Rightarrow> frozen option" where
  "frozen_energy acc = Option.bind (acc_resource acc) res_frozen_energy"

definition frozen_balance :: "account \<Rightarrow> int \<Rightarrow> i64" where
  "frozen_balance acc resource =
     (if resource = ENERGY then case_option 0 fr_balance (frozen_energy acc)
      else if resource = TRON_POWER then case_option 0 fr_balance (acc_tron_power acc)
      else i64_sum (map fr_balance (acc_frozen acc)))"

definition resource_or_default :: "account \<Rightarrow> account_resource" where
  "resource_or_default acc = (case acc_resource acc of Some r \<Rightarrow> r | None \<Rightarrow> resource_default)"

definition set_frozen :: "int \<Rightarrow> i64 \<Rightarrow> i64 \<Rightarrow> account \<Rightarrow> account" where
  "set_frozen resource balance expire_time acc =
     (let fr = \<lparr>fr_balance = balance, fr_expire_time = expire_time\<rparr> in
      if resource = ENERGY then
        acc\<lparr>acc_resource := Some ((resource_or_default acc)\<lparr>res_frozen_energy := Some fr\<rparr>)\<rparr>
      else if resource = TRON_POWER then acc\<lparr>acc_tron_power := Some fr\<rparr>
      else acc\<lparr>acc_frozen := [fr]\<rparr>)"

section \<open>Freeze\<close>

record freeze_v1_contract =
  f1_owner_address :: bytes
  f1_frozen_balance :: i64
  f1_frozen_duration :: i64
  f1_resource :: int
  f1_receiver_address :: bytes

definition frozen_time_bounds :: "world_state \<Rightarrow> i64 \<times> i64" where
  "frozen_time_bounds s =
     (let lo = get_prop_i64 s MIN_FROZEN_TIME_KEY; hi = get_prop_i64 s MAX_FROZEN_TIME_KEY in
      (if 0 < lo then lo else DEFAULT_MIN_FROZEN_TIME, if 0 < hi then hi else DEFAULT_MAX_FROZEN_TIME))"

definition freeze_v1_validate :: "freeze_v1_contract \<Rightarrow> world_state \<Rightarrow> actuator_error + i64" where
  "freeze_v1_validate c s =
     rbind (stake_parse_address (f1_owner_address c)) (\<lambda>owner.
     rbind (ensure (f1_receiver_address c = [])
       (Validate ''delegated V1 freeze (receiver) is not supported'')) (\<lambda>_.
     rbind (ok_or (get_account s owner)
       (Validate (''Account['' @ hex (as_bytes owner) @ ''] not exists''))) (\<lambda>acc.
     let fr = f1_frozen_balance c in
     rbind (ensure (0 < fr) (Validate ''frozenBalance must be positive'')) (\<lambda>_.
     rbind (ensure (TRX_PRECISION \<le> fr)
       (Validate ''frozenBalance must be greater than or equal to 1 TRX'')) (\<lambda>_.
     rbind (ensure (fr \<le> acc_balance acc)
       (Validate ''frozenBalance must be less than or equal to accountBalance'')) (\<lambda>_.
     case frozen_time_bounds s of (lo, hi) \<Rightarrow>
     rbind (ensure (lo \<le> f1_frozen_duration c \<and> f1_frozen_duration c \<le> hi)
       (Validate (''frozenDuration must be less than '' @ i64_to_string hi
         @ '' days and more than '' @ i64_to_string lo @ '' days''))) (\<lambda>_.
     let allow_new = 0 < get_prop_i64 s ALLOW_NEW_RESOURCE_MODEL_KEY in
     rbind (ensure (valid_resource allow_new (f1_resource c)) (Validate (resource_error allow_new)))
       (\<lambda>_. Inr 0))))))))"

definition freeze_v1_execute :: "freeze_v1_contract \<Rightarrow> execution_result act" where
  "freeze_v1_execute c =
     st_bind (st_lift (stake_parse_address (f1_owner_address c))) (\<lambda>owner.
     let resource = f1_resource c; fr = f1_frozen_balance c in
     st_bind (st_gets (\<lambda>s. get_prop_i64 s LATEST_BLOCK_HEADER_TIMESTAMP)) (\<lambda>now.
     st_bind (st_lift (checked_credit now (i64_sat (f1_frozen_duration c * FROZEN_PERIOD_MS))
       (Execute ''long overflow''))) (\<lambda>expire_time.
     st_bind (st_gets (\<lambda>s. get_account s owner)) (\<lambda>oa.
     st_bind (st_lift (ok_or oa (Execute ''owner account missing''))) (\<lambda>acc.
     let old = frozen_balance acc resource in
     st_bind (st_lift (checked_credit old fr (Execute ''long overflow''))) (\<lambda>new.
     st_bind (st_lift (checked_debit (acc_balance acc) fr (Execute ''balance is not sufficient''))) (\<lambda>b.
     st_bind (st_modify (put_account owner (set_frozen resource new expire_time (acc\<lparr>acc_balance := b\<rparr>)))) (\<lambda>_.
     let increment = i64_wrap (new sdiv TRX_PRECISION - old sdiv TRX_PRECISION) in
     st_bind (st_modify (add_prop_i64 (weight_key resource) increment)) (\<lambda>_.
     st_return (ExecutionResult 0))))))))))"

section \<open>Unfreeze\<close>

record unfreeze_v1_contract =
  u1_owner_address :: bytes
  u1_resource :: int
  u1_receiver_address :: bytes

definition matured_check :: "i64 \<Rightarrow> frozen option \<Rightarrow> string \<Rightarrow> actuator_error + unit" where
  "matured_check now fr name =
     (case fr of
        Some f \<Rightarrow>
          if 0 < fr_balance f
          then ensure (fr_expire_time f \<le> now) (Validate (''It's not time to unfreeze('' @ name @ '').''))
          else Inl (Validate (''no frozenBalance('' @ name @ '')''))
      | None \<Rightarrow> Inl (Validate (''no frozenBalance('' @ name @ '')'')))"

definition unfreeze_v1_check :: "i64 \<Rightarrow> account \<Rightarrow> int \<Rightarrow> actuator_error + unit" where
  "unfreeze_v1_check now acc resource =
     (if resource = BANDWIDTH then
        rbind (ensure (acc_frozen acc \<noteq> []) (Validate ''no frozenBalance(BANDWIDTH)'')) (\<lambda>_.
        ensure (list_ex (\<lambda>f. fr_expire_time f \<le> now) (acc_frozen acc))
          (Validate ''It's not time to unfreeze(BANDWIDTH).''))
      else if resource = ENERGY then matured_check now (frozen_energy acc) ''Energy''
      else if resource = TRON_POWER then matured_check now (acc_tron_power acc) ''TronPower''
      else Inl (Validate (resource_error False)))"

definition unfreeze_v1_validate :: "unfreeze_v1_contract \<Rightarrow> world_state \<Rightarrow> actuator_error + i64" where
  "unfreeze_v1_validate c s =
     rbind (stake_parse_address (u1_owner_address c)) (\<lambda>owner.
     rbind (ensure (u1_receiver_address c = [])
       (Validate ''delegated V1 unfreeze (receiver) is not supported'')) (\<lambda>_.
     rbind (ok_or (get_account s owner)
       (Validate (''Account['' @ hex (as_bytes owner) @ ''] does not exist''))) (\<lambda>acc.
     rbind (unfreeze_v1_check (get_prop_i64 s LATEST_BLOCK_HEADER_TIMESTAMP) acc (u1_resource c)) (\<lambda>_.
     Inr 0))))"

text \<open>Take the matured amount of a resource out of an account.\<close>

definition release_frozen :: "i64 \<Rightarrow> int \<Rightarrow> account \<Rightarrow> i64 \<times> account" where
  "release_frozen now resource acc =
     (if resource = BANDWIDTH then
        (i64_sum (map fr_balance (filter (\<lambda>f. fr_expire_time f \<le> now) (acc_frozen acc))),
         acc\<lparr>acc_frozen := filter (\<lambda>f. \<not> fr_expire_time f \<le> now) (acc_frozen acc)\<rparr>)
      else if resource = ENERGY then
        (let res = resource_or_default acc in
         (case_option 0 fr_balance (res_frozen_energy res),
          acc\<lparr>acc_resource := Some (res\<lparr>res_frozen_energy := None\<rparr>)\<rparr>))
      else if resource = TRON_POWER then
        (case_option 0 fr_balance (acc_tron_power acc), acc\<lparr>acc_tron_power := None\<rparr>)
      else (0, acc))"

definition unfreeze_v1_execute :: "unfreeze_v1_contract \<Rightarrow> execution_result act" where
  "unfreeze_v1_execute c =
     st_bind (st_lift (stake_parse_address (u1_owner_address c))) (\<lambda>owner.
     let resource = u1_resource c in
     st_bind (st_gets (\<lambda>s. get_prop_i64 s LATEST_BLOCK_HEADER_TIMESTAMP)) (\<lambda>now.
     st_bind (st_gets (\<lambda>s. get_account s owner)) (\<lambda>oa.
     st_bind (st_lift (ok_or oa (Execute ''owner account missing''))) (\<lambda>acc.
     let old = frozen_balance acc resource in
     case release_frozen now resource acc of (unfreeze, acc') \<Rightarrow>
     st_bind (st_lift (checked_credit (acc_balance acc') unfreeze (Execute ''long overflow''))) (\<lambda>b.
     let acc'' = acc'\<lparr>acc_balance := b\<rparr> in
     st_bind (st_modify (put_account owner acc'')) (\<lambda>_.
     let decrease = i64_wrap (frozen_balance acc'' resource sdiv TRX_PRECISION - old sdiv TRX_PRECISION) in
     st_bind (st_modify (add_prop_i64 (weight_key resource) decrease)) (\<lambda>_.
     st_return (ExecutionResult 0))))))))"

section \<open>What they do\<close>

lemma weight_key_neutral_v1 [simp]:
  "wf_state (add_prop_i64 (weight_key r) d s) = wf_state s"
  "total_trx (add_prop_i64 (weight_key r) d s) = total_trx s"
  "get_account (add_prop_i64 (weight_key r) d s) a = get_account s a"
  by (simp_all add: add_prop_i64_def weight_key_def prop_keys state_simps)

lemma frozen_sum_split:
  "sum_list (map fr_balance (filter p fs)) + sum_list (map fr_balance (filter (\<lambda>f. \<not> p f) fs))
     = sum_list (map fr_balance fs)"
  by (induction fs) auto

lemma frozen_list_sum:
  assumes "wf_account acc" and "acc_trx acc \<le> i64_max"
  shows "i64_sum (map fr_balance (filter p (acc_frozen acc)))
      = sum_list (map fr_balance (filter p (acc_frozen acc)))"
    and "i64_sum (map fr_balance (acc_frozen acc)) = sum_list (map fr_balance (acc_frozen acc))"
proof -
  have nn: "\<forall>f\<in>set (acc_frozen acc). 0 \<le> fr_balance f"
    using assms(1) by (simp add: wf_account_def)
  have le: "sum_list (map fr_balance (acc_frozen acc)) \<le> i64_max"
    using acc_trx_parts [OF assms(1)] assms(2) by (simp add: acc_trx_def)
  have "0 \<le> sum_list (map fr_balance (filter (\<lambda>f. \<not> p f) (acc_frozen acc)))"
    using nn by (intro sum_list_nonneg_map) simp
  then have "sum_list (map fr_balance (filter p (acc_frozen acc))) \<le> i64_max"
    using le frozen_sum_split [of p "acc_frozen acc"] by simp
  then show "i64_sum (map fr_balance (filter p (acc_frozen acc)))
      = sum_list (map fr_balance (filter p (acc_frozen acc)))"
    using nn by (intro i64_sum_eq) auto
  show "i64_sum (map fr_balance (acc_frozen acc)) = sum_list (map fr_balance (acc_frozen acc))"
    using nn le by (intro i64_sum_eq) auto
qed

lemma frozen_balance_bounds:
  assumes "wf_account acc" and "acc_trx acc \<le> i64_max"
  shows "0 \<le> frozen_balance acc r" and "acc_balance acc + frozen_balance acc r \<le> acc_trx acc"
  using acc_trx_parts [OF assms(1)] assms(1) frozen_list_sum(2) [OF assms]
  by (auto simp: frozen_balance_def frozen_energy_def acc_trx_def wf_account_def wf_resource_def
      res_trx_def opt_val_def split: option.splits)

lemma set_frozen_value:
  assumes "wf_account acc" and "acc_trx acc \<le> i64_max" and "0 \<le> x"
  shows "acc_trx (set_frozen r x e acc) = acc_trx acc - frozen_balance acc r + x"
    and "wf_account (set_frozen r x e acc)" and "same_delegation (Some acc) (set_frozen r x e acc)"
  using assms frozen_list_sum(2) [OF assms(1,2)]
  by (auto simp: set_frozen_def Let_def neutral_simps frozen_balance_def frozen_energy_def
      resource_or_default_def resource_default_def res_trx_def wf_resource_def opt_val_def
      split: option.splits)

lemma release_bandwidth:
  assumes "wf_account acc" and "acc_trx acc \<le> i64_max"
  shows "acc_trx (acc\<lparr>acc_frozen := filter (\<lambda>f. \<not> fr_expire_time f \<le> now) (acc_frozen acc)\<rparr>)
      = acc_trx acc - i64_sum (map fr_balance (filter (\<lambda>f. fr_expire_time f \<le> now) (acc_frozen acc)))"
    and "0 \<le> i64_sum (map fr_balance (filter (\<lambda>f. fr_expire_time f \<le> now) (acc_frozen acc)))"
proof -
  let ?p = "\<lambda>f. fr_expire_time f \<le> now"
  note m = frozen_list_sum(1) [OF assms, of ?p]
  show "acc_trx (acc\<lparr>acc_frozen := filter (\<lambda>f. \<not> ?p f) (acc_frozen acc)\<rparr>)
      = acc_trx acc - i64_sum (map fr_balance (filter ?p (acc_frozen acc)))"
    unfolding m using frozen_sum_split [of ?p "acc_frozen acc"] by (simp add: acc_trx_def)
  show "0 \<le> i64_sum (map fr_balance (filter ?p (acc_frozen acc)))"
    unfolding m using assms(1) by (intro sum_list_nonneg_map) (simp add: wf_account_def)
qed

lemma release_frozen_value:
  assumes "wf_account acc" and "acc_trx acc \<le> i64_max" and "release_frozen now r acc = (x, acc')"
  shows "acc_trx acc' = acc_trx acc - x" and "wf_account acc'" and "same_delegation (Some acc) acc'"
    and "0 \<le> x" and "acc_balance acc' = acc_balance acc"
proof -
  have "acc_trx acc' = acc_trx acc - x \<and> wf_account acc' \<and> same_delegation (Some acc) acc'
      \<and> 0 \<le> x \<and> acc_balance acc' = acc_balance acc"
  proof (cases "r = BANDWIDTH")
    case True
    then have "x = i64_sum (map fr_balance (filter (\<lambda>f. fr_expire_time f \<le> now) (acc_frozen acc)))"
      "acc' = acc\<lparr>acc_frozen := filter (\<lambda>f. \<not> fr_expire_time f \<le> now) (acc_frozen acc)\<rparr>"
      using assms(3) by (simp_all add: release_frozen_def)
    with release_bandwidth [OF assms(1,2), of now] assms(1) show ?thesis
      by (simp add: wf_account_def same_delegation_def delegated_energy_def)
  next
    case False
    with assms(1,3) show ?thesis
      by (auto simp: release_frozen_def Let_def neutral_simps resource_or_default_def resource_default_def
          res_trx_def wf_resource_def split: option.splits if_splits)
  qed
  then show "acc_trx acc' = acc_trx acc - x" and "wf_account acc'" and "same_delegation (Some acc) acc'"
    and "0 \<le> x" and "acc_balance acc' = acc_balance acc" by simp_all
qed

definition v1_expiry :: "freeze_v1_contract \<Rightarrow> world_state \<Rightarrow> i64" where
  "v1_expiry c s =
     get_prop_i64 s LATEST_BLOCK_HEADER_TIMESTAMP + i64_sat (f1_frozen_duration c * FROZEN_PERIOD_MS)"

lemma freeze_v1_validate_Inr:
  "freeze_v1_validate c s = Inr f \<longleftrightarrow>
     (\<exists>owner acc. wf_address owner \<and> f1_owner_address c = as_bytes owner \<and> f1_receiver_address c = []
       \<and> get_account s owner = Some acc
       \<and> TRX_PRECISION \<le> f1_frozen_balance c \<and> f1_frozen_balance c \<le> acc_balance acc
       \<and> fst (frozen_time_bounds s) \<le> f1_frozen_duration c
       \<and> f1_frozen_duration c \<le> snd (frozen_time_bounds s)
       \<and> valid_resource (0 < get_prop_i64 s ALLOW_NEW_RESOURCE_MODEL_KEY) (f1_resource c) \<and> f = 0)"
  by (auto simp: freeze_v1_validate_def result_simps Let_def TRX_PRECISION_def split: prod.splits)

definition frozen_account_v1 :: "freeze_v1_contract \<Rightarrow> world_state \<Rightarrow> account \<Rightarrow> account" where
  "frozen_account_v1 c s acc =
     set_frozen (f1_resource c) (frozen_balance acc (f1_resource c) + f1_frozen_balance c) (v1_expiry c s)
       (acc\<lparr>acc_balance := acc_balance acc - f1_frozen_balance c\<rparr>)"

lemma frozen_balance_balance [simp]: "frozen_balance (acc\<lparr>acc_balance := b\<rparr>) r = frozen_balance acc r"
  by (simp add: frozen_balance_def frozen_energy_def)

lemma frozen_account_v1_value:
  assumes "wf_account acc" and "acc_trx acc \<le> i64_max" and "0 \<le> f1_frozen_balance c"
    and "f1_frozen_balance c \<le> acc_balance acc"
  shows "acc_trx (frozen_account_v1 c s acc) = acc_trx acc" and "wf_account (frozen_account_v1 c s acc)"
    and "same_delegation (Some acc) (frozen_account_v1 c s acc)"
proof -
  let ?a = "acc\<lparr>acc_balance := acc_balance acc - f1_frozen_balance c\<rparr>"
  have t: "acc_trx ?a = acc_trx acc - f1_frozen_balance c" by (simp add: acc_trx_balance)
  have w: "wf_account ?a" using assms by (intro wf_account_balance) simp_all
  have le: "acc_trx ?a \<le> i64_max" using t assms by simp
  have "0 \<le> frozen_balance acc (f1_resource c) + f1_frozen_balance c"
    using frozen_balance_bounds(1) [OF assms(1,2)] assms(3) by simp
  note v = set_frozen_value [OF w le this, of "f1_resource c" "v1_expiry c s"]
  show "acc_trx (frozen_account_v1 c s acc) = acc_trx acc" and "wf_account (frozen_account_v1 c s acc)"
    using v(1,2) t by (simp_all add: frozen_account_v1_def)
  show "same_delegation (Some acc) (frozen_account_v1 c s acc)"
    using v(3) by (simp add: frozen_account_v1_def same_delegation_def delegated_energy_def)
qed

lemma freeze_v1_result:
  assumes w: "wf_state s" and v: "freeze_v1_validate c s = Inr f" and t: "in_i64 (v1_expiry c s)"
  obtains owner acc s' where "f1_owner_address c = as_bytes owner" "get_account s owner = Some acc"
    "freeze_v1_execute c s = (Inr (ExecutionResult 0), s')" "wf_state s'" "total_trx s' = total_trx s"
    "s' = add_prop_i64 (weight_key (f1_resource c))
       (i64_wrap ((frozen_balance acc (f1_resource c) + f1_frozen_balance c) sdiv TRX_PRECISION
         - frozen_balance acc (f1_resource c) sdiv TRX_PRECISION))
       (put_account owner (frozen_account_v1 c s acc) s)"
proof -
  from v obtain owner acc where c: "wf_address owner" "f1_owner_address c = as_bytes owner"
    "get_account s owner = Some acc"
    and x: "TRX_PRECISION \<le> f1_frozen_balance c" "f1_frozen_balance c \<le> acc_balance acc"
    unfolding freeze_v1_validate_Inr by blast
  note a = wf_state_account [OF w c(3)]
  have x0: "0 \<le> f1_frozen_balance c" using x by (simp add: TRX_PRECISION_def)
  note v = frozen_account_v1_value [OF a(1,3) x0 x(2), of s]
  note w1 = put_neutral [OF w c(3) v(2,1,3)]
  note b = frozen_balance_bounds [OF a(1,3), of "f1_resource c"]
  have fits: "in_i64 (frozen_balance acc (f1_resource c) + f1_frozen_balance c)"
    using b x x0 a(3) by (intro nonneg_in_i64) simp_all
  have "freeze_v1_execute c s = (Inr (ExecutionResult 0), add_prop_i64 (weight_key (f1_resource c))
       (i64_wrap ((frozen_balance acc (f1_resource c) + f1_frozen_balance c) sdiv TRX_PRECISION
         - frozen_balance acc (f1_resource c) sdiv TRX_PRECISION))
       (put_account owner (frozen_account_v1 c s acc) s))"
    using c x t fits move_debit(3) [OF w c(3) x0 x(2)]
    by (simp add: freeze_v1_execute_def st_bind_def st_prim_simps ok_or_def Let_def v1_expiry_def
        checked_debit_ok checked_credit_ok frozen_account_v1_def)
  with that c w1 show ?thesis by auto
qed

interpretation freeze_v1: actuator freeze_v1_validate freeze_v1_execute "\<lambda>c s. in_i64 (v1_expiry c s)"
  by unfold_locales (metis freeze_v1_result)

lemma unfreeze_v1_validate_Inr:
  "unfreeze_v1_validate c s = Inr f \<longleftrightarrow>
     (\<exists>owner acc. wf_address owner \<and> u1_owner_address c = as_bytes owner \<and> u1_receiver_address c = []
       \<and> get_account s owner = Some acc
       \<and> unfreeze_v1_check (get_prop_i64 s LATEST_BLOCK_HEADER_TIMESTAMP) acc (u1_resource c) = Inr ()
       \<and> f = 0)"
  by (auto simp: unfreeze_v1_validate_def result_simps)

lemma unfreeze_v1_result:
  assumes w: "wf_state s" and o: "wf_address owner" "u1_owner_address c = as_bytes owner"
    and g: "get_account s owner = Some acc"
    and rel: "release_frozen (get_prop_i64 s LATEST_BLOCK_HEADER_TIMESTAMP) (u1_resource c) acc = (x, acc')"
  shows "unfreeze_v1_execute c s = (Inr (ExecutionResult 0), add_prop_i64 (weight_key (u1_resource c))
      (i64_wrap (frozen_balance acc' (u1_resource c) sdiv TRX_PRECISION
        - frozen_balance acc (u1_resource c) sdiv TRX_PRECISION))
      (put_account owner (acc'\<lparr>acc_balance := acc_balance acc + x\<rparr>) s))"
    and "wf_state (put_account owner (acc'\<lparr>acc_balance := acc_balance acc + x\<rparr>) s)"
    and "total_trx (put_account owner (acc'\<lparr>acc_balance := acc_balance acc + x\<rparr>) s) = total_trx s"
proof -
  note a = wf_state_account [OF w g]
  note v = release_frozen_value [OF a(1,3) rel]
  have b: "0 \<le> acc_balance acc" using a(1) by (simp add: wf_account_def)
  have "acc_balance acc + x \<le> i64_max"
    using balance_le_acc_trx [OF v(2)] v(1,5) a(3) by simp
  then have "in_i64 (acc_balance acc + x)" using b v(4) by (intro nonneg_in_i64) simp_all
  then show "unfreeze_v1_execute c s = (Inr (ExecutionResult 0), add_prop_i64 (weight_key (u1_resource c))
      (i64_wrap (frozen_balance acc' (u1_resource c) sdiv TRX_PRECISION
        - frozen_balance acc (u1_resource c) sdiv TRX_PRECISION))
      (put_account owner (acc'\<lparr>acc_balance := acc_balance acc + x\<rparr>) s))"
    using o g v(5)
    by (simp add: unfreeze_v1_execute_def st_bind_def st_prim_simps ok_or_def Let_def rel checked_credit_ok)
  have "wf_account (acc'\<lparr>acc_balance := acc_balance acc + x\<rparr>)"
    "acc_trx (acc'\<lparr>acc_balance := acc_balance acc + x\<rparr>) = acc_trx acc"
    "same_delegation (Some acc) (acc'\<lparr>acc_balance := acc_balance acc + x\<rparr>)"
    using v b by (auto simp: acc_trx_balance wf_account_balance same_delegation_def delegated_energy_def)
  from put_neutral [OF w g this]
  show "wf_state (put_account owner (acc'\<lparr>acc_balance := acc_balance acc + x\<rparr>) s)"
    and "total_trx (put_account owner (acc'\<lparr>acc_balance := acc_balance acc + x\<rparr>) s) = total_trx s" .
qed

interpretation unfreeze_v1: actuator unfreeze_v1_validate unfreeze_v1_execute "\<lambda>_ _. True"
proof
  fix s c f
  assume w: "wf_state s" and v: "unfreeze_v1_validate c s = Inr f"
  then obtain owner acc where c: "wf_address owner" "u1_owner_address c = as_bytes owner"
    "get_account s owner = Some acc"
    unfolding unfreeze_v1_validate_Inr by blast
  obtain x acc' where
    "release_frozen (get_prop_i64 s LATEST_BLOCK_HEADER_TIMESTAMP) (u1_resource c) acc = (x, acc')"
    by fastforce
  from unfreeze_v1_result [OF w c this]
  show "\<exists>r s'. unfreeze_v1_execute c s = (Inr r, s') \<and> wf_state s' \<and> total_trx s' = total_trx s"
    by simp
qed

section \<open>Properties\<close>

lemma release_set_frozen:
  assumes "valid_resource allow r" and "e \<le> t" and "in_i64 b" and "0 < b"
  obtains acc' where "release_frozen t r (set_frozen r b e acc) = (b, acc')"
    "acc_balance acc' = acc_balance acc" "frozen_balance acc' r = 0"
    "unfreeze_v1_check t (set_frozen r b e acc) r = Inr ()"
    "frozen_balance (set_frozen r b e acc) r = b"
proof -
  let ?acc' = "snd (release_frozen t r (set_frozen r b e acc))"
  have "release_frozen t r (set_frozen r b e acc) = (b, ?acc')"
    "acc_balance ?acc' = acc_balance acc" "frozen_balance ?acc' r = 0"
    "unfreeze_v1_check t (set_frozen r b e acc) r = Inr ()"
    "frozen_balance (set_frozen r b e acc) r = b"
    using assms
    by (auto simp: valid_resource_def resource_defs release_frozen_def set_frozen_def Let_def i64_sum_def
        resource_or_default_def frozen_balance_def frozen_energy_def unfreeze_v1_check_def matured_check_def
        result_simps ensure_def)
  then show ?thesis by (rule that)
qed

text \<open>
  C10: Stake 1.0 is a round trip.  After a validated freeze by an account with nothing frozen for
  that resource, an unfreeze at any time from the expiry on is accepted, returns exactly the
  frozen amount, leaves nothing frozen, and puts the network weight back where it was.
\<close>

theorem freeze_v1_roundtrip:
  assumes w: "wf_state s" and v: "freeze_v1_validate c s = Inr f" and e: "in_i64 (v1_expiry c s)"
    and o: "f1_owner_address c = as_bytes owner" and g: "get_account s owner = Some acc"
    and z: "frozen_balance acc (f1_resource c) = 0" and t: "v1_expiry c s \<le> t"
    and k: "k = weight_key (f1_resource c)" "in_i64 (get_prop_i64 s k)"
      "in_i64 (get_prop_i64 s k + f1_frozen_balance c sdiv TRX_PRECISION)"
    and u: "u = \<lparr>u1_owner_address = f1_owner_address c, u1_resource = f1_resource c, u1_receiver_address = []\<rparr>"
  shows "\<exists>s1 s2 acc2. freeze_v1_execute c s = (Inr (ExecutionResult 0), s1)
     \<and> unfreeze_v1_validate u (put_prop_i64 LATEST_BLOCK_HEADER_TIMESTAMP t s1) = Inr 0
     \<and> unfreeze_v1_execute u (put_prop_i64 LATEST_BLOCK_HEADER_TIMESTAMP t s1) = (Inr (ExecutionResult 0), s2)
     \<and> wf_state s2 \<and> total_trx s2 = total_trx s \<and> get_account s2 owner = Some acc2
     \<and> acc_balance acc2 = acc_balance acc \<and> frozen_balance acc2 (f1_resource c) = 0
     \<and> get_prop_i64 s2 k = get_prop_i64 s k"
proof -
  let ?r = "f1_resource c" and ?x = "f1_frozen_balance c"
  obtain ow ac s1 where r: "f1_owner_address c = as_bytes ow" "get_account s ow = Some ac"
    "freeze_v1_execute c s = (Inr (ExecutionResult 0), s1)" "wf_state s1" "total_trx s1 = total_trx s"
    "s1 = add_prop_i64 (weight_key ?r)
       (i64_wrap ((frozen_balance ac ?r + ?x) sdiv TRX_PRECISION - frozen_balance ac ?r sdiv TRX_PRECISION))
       (put_account ow (frozen_account_v1 c s ac) s)"
    using w v e by (rule freeze_v1_result)
  have same: "ow = owner" "ac = acc" using r(1,2) o g by auto
  from v o g have wa: "wf_address owner" and x: "TRX_PRECISION \<le> ?x" "?x \<le> acc_balance acc"
    and val: "valid_resource (0 < get_prop_i64 s ALLOW_NEW_RESOURCE_MODEL_KEY) ?r"
    unfolding freeze_v1_validate_Inr by auto
  have x0: "0 < ?x" "in_i64 ?x"
    using x wf_state_account(4) [OF w g] by (auto simp: TRX_PRECISION_def i64_bounds_defs)
  let ?a = "frozen_account_v1 c s acc" and ?s1 = "put_prop_i64 LATEST_BLOCK_HEADER_TIMESTAMP t s1"
  have a: "?a = set_frozen ?r ?x (v1_expiry c s) (acc\<lparr>acc_balance := acc_balance acc - ?x\<rparr>)"
    by (simp add: frozen_account_v1_def z)
  obtain acc' where rel: "release_frozen t ?r ?a = (?x, acc')" "acc_balance acc' = acc_balance acc - ?x"
    "frozen_balance acc' ?r = 0" "unfreeze_v1_check t ?a ?r = Inr ()" "frozen_balance ?a ?r = ?x"
    using release_set_frozen [OF val t x0(2,1), of "acc\<lparr>acc_balance := acc_balance acc - ?x\<rparr>"]
    unfolding a by auto
  have ne: "LATEST_BLOCK_HEADER_TIMESTAMP \<noteq> weight_key ?r" "weight_key ?r \<noteq> LATEST_BLOCK_HEADER_TIMESTAMP"
    by (simp_all add: weight_key_def prop_keys)
  have w1: "wf_state ?s1" "total_trx ?s1 = total_trx s" "get_account ?s1 owner = Some ?a"
    "get_prop_i64 ?s1 LATEST_BLOCK_HEADER_TIMESTAMP = t"
    using r(4,5) same by (simp_all add: prop_keys state_simps) (simp add: r(6) same state_simps)
  have bound: "0 \<le> ?x sdiv TRX_PRECISION" "?x sdiv TRX_PRECISION \<le> i64_max"
    using x0 by (simp_all add: TRX_PRECISION_def signed_divide_int_def sgn_if i64_bounds_defs)
  then have q: "in_i64 (?x sdiv TRX_PRECISION)" "in_i64 (- (?x sdiv TRX_PRECISION))"
    by (simp_all add: i64_bounds_defs)
  have wt: "get_prop_i64 ?s1 k = get_prop_i64 s k + ?x sdiv TRX_PRECISION"
    using k q ne by (simp add: r(6) same z add_prop_i64_def state_simps i64_sat_add_def)
  have rel': "release_frozen (get_prop_i64 ?s1 LATEST_BLOCK_HEADER_TIMESTAMP) (u1_resource u) ?a = (?x, acc')"
    using rel(1) w1(4) u by simp
  have ou: "u1_owner_address u = as_bytes owner" using u o by simp
  note res = unfreeze_v1_result [OF w1(1) wa ou w1(3) rel']
  have "unfreeze_v1_validate u ?s1 = Inr 0"
    using wa ou w1 rel(4) u unfolding unfreeze_v1_validate_Inr by auto
  moreover have "acc_balance ?a = acc_balance acc - ?x"
    by (simp add: a set_frozen_def Let_def)
  ultimately show ?thesis
    using r(3) res rel w1 u k q wt
    by (simp add: state_simps add_prop_i64_def i64_sat_add_def)
       (simp add: weight_key_def prop_keys)
qed

theorem freeze_v1_roundtrip_witness:
  "\<exists>s1 s2 acc2. freeze_v1_execute \<lparr>f1_owner_address = as_bytes (addr_of 1), f1_frozen_balance = 2000000,
        f1_frozen_duration = 3, f1_resource = 1, f1_receiver_address = []\<rparr> (ledger_of [(1, wallet 1 5000000)])
        = (Inr (ExecutionResult 0), s1)
     \<and> unfreeze_v1_execute \<lparr>u1_owner_address = as_bytes (addr_of 1), u1_resource = 1, u1_receiver_address = []\<rparr>
         (put_prop_i64 LATEST_BLOCK_HEADER_TIMESTAMP 300000000 s1) = (Inr (ExecutionResult 0), s2)
     \<and> get_account s2 (addr_of 1) = Some acc2 \<and> acc_balance acc2 = 5000000"
proof -
  let ?s = "ledger_of [(1, wallet 1 5000000)]"
  let ?c = "\<lparr>f1_owner_address = as_bytes (addr_of 1), f1_frozen_balance = 2000000, f1_frozen_duration = 3,
    f1_resource = 1, f1_receiver_address = []\<rparr>"
  have w: "wf_state ?s" by (rule ledger_one) (simp_all add: i64_max_def)
  have g: "get_account ?s (addr_of 1) = Some (wallet 1 5000000)" by (simp add: state_simps)
  have v: "freeze_v1_validate ?c ?s = Inr 0"
    by (simp add: freeze_v1_validate_Inr frozen_time_bounds_def DEFAULT_MIN_FROZEN_TIME_def
        DEFAULT_MAX_FROZEN_TIME_def valid_resource_def resource_defs TRX_PRECISION_def state_simps)
  have e: "v1_expiry ?c ?s = 259200000"
    by (simp add: v1_expiry_def FROZEN_PERIOD_MS_def i64_bounds_defs state_simps)
  have z: "frozen_balance (wallet 1 5000000) 1 = 0"
    by (simp add: frozen_balance_def resource_defs frozen_energy_def wallet_def account_default_def)
  show ?thesis
    using freeze_v1_roundtrip [OF w v _ _ g, of 300000000 "weight_key 1"
        "\<lparr>u1_owner_address = as_bytes (addr_of 1), u1_resource = 1, u1_receiver_address = []\<rparr>"]
    by (simp add: e z i64_bounds_defs TRX_PRECISION_def del: ledger_of.simps) auto
qed

end
