(* ===== verification/Act_Delegate.thy ===== *)
theory Act_Delegate
  imports Act_Stake_V1
begin

text \<open>
  Delegation of staked resources: \<open>DelegateResource\<close> and \<open>UnDelegateResource\<close>
  (\<open>src/crates/actuators/src/delegate.rs\<close>).
\<close>

section \<open>Constants and account helpers\<close>

definition BLOCK_PRODUCED_INTERVAL_MS :: i64 where
  "BLOCK_PRODUCED_INTERVAL_MS = 3000"

definition DELEGATE_PERIOD_MS :: i64 where
  "DELEGATE_PERIOD_MS = 3 * 86400000"

definition default_lock_period_blocks :: i64 where
  "default_lock_period_blocks = DELEGATE_PERIOD_MS sdiv BLOCK_PRODUCED_INTERVAL_MS"

definition account_type_contract :: int where
  "account_type_contract = 2"

definition delegate_parse_address :: "bytes \<Rightarrow> string \<Rightarrow> actuator_error + address" where
  "delegate_parse_address bs msg = parse_address msg bs"

definition frozen_v2_amount :: "account \<Rightarrow> int \<Rightarrow> i64" where
  "frozen_v2_amount acc resource =
     foldl i64_sat_add 0 (map fz_amount (filter (\<lambda>f. fz_type f = resource) (acc_frozen_v2 acc)))"

definition add_frozen_v2 :: "int \<Rightarrow> i64 \<Rightarrow> account \<Rightarrow> account" where
  "add_frozen_v2 resource delta acc =
     acc\<lparr>acc_frozen_v2 :=
       (case find_frozen resource (acc_frozen_v2 acc) of
          Some f \<Rightarrow> set_frozen_amount resource (i64_wrap (fz_amount f + delta)) (acc_frozen_v2 acc)
        | None \<Rightarrow> acc_frozen_v2 acc @ [\<lparr>fz_type = resource, fz_amount = delta\<rparr>])\<rparr>"

definition owner_delegated :: "account \<Rightarrow> int \<Rightarrow> i64" where
  "owner_delegated acc resource =
     (if resource = BANDWIDTH then acc_delegated_bandwidth acc
      else case_option 0 res_delegated_energy (acc_resource acc))"

definition add_owner_delegated :: "int \<Rightarrow> i64 \<Rightarrow> account \<Rightarrow> account" where
  "add_owner_delegated resource delta acc =
     (if resource = BANDWIDTH then
        acc\<lparr>acc_delegated_bandwidth := i64_wrap (acc_delegated_bandwidth acc + delta)\<rparr>
      else
        let r = resource_or_default acc in
        acc\<lparr>acc_resource := Some (r\<lparr>res_delegated_energy := i64_wrap (res_delegated_energy r + delta)\<rparr>)\<rparr>)"

definition receiver_acquired :: "account \<Rightarrow> int \<Rightarrow> i64" where
  "receiver_acquired acc resource =
     (if resource = BANDWIDTH then acc_acquired_bandwidth acc
      else case_option 0 res_acquired_energy (acc_resource acc))"

definition add_receiver_acquired :: "int \<Rightarrow> i64 \<Rightarrow> account \<Rightarrow> account" where
  "add_receiver_acquired resource delta acc =
     (let cur = receiver_acquired acc resource;
          nxt = (if delta < 0 \<and> cur < - delta then 0 else i64_wrap (cur + delta)) in
      if resource = BANDWIDTH then acc\<lparr>acc_acquired_bandwidth := nxt\<rparr>
      else acc\<lparr>acc_resource := Some ((resource_or_default acc)\<lparr>res_acquired_energy := nxt\<rparr>)\<rparr>)"

section \<open>Delegation records\<close>

definition delegation_key :: "address \<Rightarrow> address \<Rightarrow> bool \<Rightarrow> bytes" where
  "delegation_key owner receiver lock = as_bytes owner @ as_bytes receiver @ [if lock then 1 else 0]"

definition get_delegation :: "world_state \<Rightarrow> address \<Rightarrow> address \<Rightarrow> bool \<Rightarrow> delegated_resource option" where
  "get_delegation s owner receiver lock = ws_delegation s (owner, receiver, lock)"

definition put_delegation ::
  "address \<Rightarrow> address \<Rightarrow> bool \<Rightarrow> delegated_resource \<Rightarrow> world_state \<Rightarrow> world_state" where
  "put_delegation owner receiver lock rec s =
     s\<lparr>ws_delegation := (ws_delegation s)((owner, receiver, lock) \<mapsto> rec)\<rparr>"

definition delete_delegation :: "address \<Rightarrow> address \<Rightarrow> bool \<Rightarrow> world_state \<Rightarrow> world_state" where
  "delete_delegation owner receiver lock s =
     s\<lparr>ws_delegation := (ws_delegation s)((owner, receiver, lock) := None)\<rparr>"

definition new_delegation :: "address \<Rightarrow> address \<Rightarrow> delegated_resource" where
  "new_delegation owner receiver =
     \<lparr>dr_from = as_bytes owner, dr_to = as_bytes receiver, dr_frozen_bandwidth = 0,
      dr_frozen_energy = 0, dr_expire_bandwidth = 0, dr_expire_energy = 0\<rparr>"

definition rec_frozen :: "delegated_resource \<Rightarrow> int \<Rightarrow> i64" where
  "rec_frozen r resource = (if resource = BANDWIDTH then dr_frozen_bandwidth r else dr_frozen_energy r)"

definition rec_set_frozen :: "int \<Rightarrow> i64 \<Rightarrow> delegated_resource \<Rightarrow> delegated_resource" where
  "rec_set_frozen resource v r =
     (if resource = BANDWIDTH then r\<lparr>dr_frozen_bandwidth := v\<rparr> else r\<lparr>dr_frozen_energy := v\<rparr>)"

definition rec_expire :: "delegated_resource \<Rightarrow> int \<Rightarrow> i64" where
  "rec_expire r resource = (if resource = BANDWIDTH then dr_expire_bandwidth r else dr_expire_energy r)"

definition rec_set_expire :: "int \<Rightarrow> i64 \<Rightarrow> delegated_resource \<Rightarrow> delegated_resource" where
  "rec_set_expire resource v r =
     (if resource = BANDWIDTH then r\<lparr>dr_expire_bandwidth := v\<rparr> else r\<lparr>dr_expire_energy := v\<rparr>)"

definition rec_is_empty :: "delegated_resource \<Rightarrow> bool" where
  "rec_is_empty r \<longleftrightarrow> dr_frozen_bandwidth r = 0 \<and> dr_frozen_energy r = 0"

definition resource_valid :: "int \<Rightarrow> bool" where
  "resource_valid resource \<longleftrightarrow> resource = BANDWIDTH \<or> resource = ENERGY"

text \<open>Write a record back, or delete it when nothing is left in it.\<close>

definition store_delegation ::
  "address \<Rightarrow> address \<Rightarrow> bool \<Rightarrow> delegated_resource \<Rightarrow> world_state \<Rightarrow> world_state" where
  "store_delegation owner receiver lock rec s =
     (if rec_is_empty rec then delete_delegation owner receiver lock s
      else put_delegation owner receiver lock rec s)"

section \<open>Delegate\<close>

record delegate_contract =
  de_owner_address :: bytes
  de_receiver_address :: bytes
  de_resource :: int
  de_balance :: i64
  de_lock :: bool
  de_lock_period :: i64

definition lock_period_blocks :: "delegate_contract \<Rightarrow> i64" where
  "lock_period_blocks c =
     (if de_lock_period c = 0 then default_lock_period_blocks else de_lock_period c)"

definition delegate_lock_check ::
  "delegate_contract \<Rightarrow> address \<Rightarrow> address \<Rightarrow> world_state \<Rightarrow> actuator_error + unit" where
  "delegate_lock_check c owner receiver s =
     (if \<not> de_lock c then Inr ()
      else
        let lock_period = lock_period_blocks c in
        rbind (ensure (0 \<le> lock_period)
          (Validate ''The lock period of delegate resource cannot be less than 0'')) (\<lambda>_.
        case get_delegation s owner receiver True of
          None \<Rightarrow> Inr ()
        | Some existing \<Rightarrow>
            let now = get_prop_i64 s LATEST_BLOCK_HEADER_TIMESTAMP;
                remain = i64_wrap (rec_expire existing (de_resource c) - now) in
            ensure (remain \<le> i64_wrap (lock_period * BLOCK_PRODUCED_INTERVAL_MS))
              (Validate (''The lock period this time cannot be less than the remaining time of the ''
                @ ''last lock period''))))"

definition delegate_validate :: "delegate_contract \<Rightarrow> world_state \<Rightarrow> actuator_error + i64" where
  "delegate_validate c s =
     rbind (delegate_parse_address (de_owner_address c) ''Invalid address'') (\<lambda>owner.
     rbind (ok_or (get_account s owner)
       (Validate (''Account['' @ hex (de_owner_address c) @ ''] does not exist''))) (\<lambda>owner_account.
     let balance = de_balance c in
     rbind (ensure (TRX_PRECISION \<le> balance)
       (Validate ''delegateBalance must be greater than or equal to 1 TRX'')) (\<lambda>_.
     let resource = de_resource c in
     rbind (ensure (resource_valid resource)
       (Validate ''ResourceCode error, valid ResourceCode[BANDWIDTH, ENERGY]'')) (\<lambda>_.
     rbind (ensure (balance \<le> frozen_v2_amount owner_account resource)
       (Validate (if resource = BANDWIDTH
          then ''delegateBalance must be less than or equal to available FreezeBandwidthV2 balance''
          else ''delegateBalance must be less than or equal to available FreezeEnergyV2 balance''))) (\<lambda>_.
     rbind (delegate_parse_address (de_receiver_address c) ''Invalid receiverAddress'') (\<lambda>receiver.
     rbind (ensure (receiver \<noteq> owner)
       (Validate ''receiverAddress must not be the same as ownerAddress'')) (\<lambda>_.
     rbind (ok_or (get_account s receiver)
       (Validate (''Account['' @ hex (de_receiver_address c) @ ''] does not exist''))) (\<lambda>receiver_account.
     rbind (delegate_lock_check c owner receiver s) (\<lambda>_.
     rbind (ensure (acc_type receiver_account \<noteq> account_type_contract)
       (Validate ''Do not allow delegate resources to contract addresses'')) (\<lambda>_.
     Inr 0))))))))))"

definition delegate_execute :: "delegate_contract \<Rightarrow> execution_result act" where
  "delegate_execute c =
     st_bind (st_lift (delegate_parse_address (de_owner_address c) ''Invalid address'')) (\<lambda>owner.
     st_bind (st_lift (delegate_parse_address (de_receiver_address c) ''Invalid receiverAddress'')) (\<lambda>receiver.
     let resource = de_resource c; balance = de_balance c; lock = de_lock c in
     st_bind (st_gets (\<lambda>s. get_prop_i64 s LATEST_BLOCK_HEADER_TIMESTAMP)) (\<lambda>now.
     st_bind (st_gets (\<lambda>s. get_account s owner)) (\<lambda>oa.
     st_bind (st_lift (ok_or oa (Execute ''owner account missing''))) (\<lambda>owner_account.
     st_bind (st_modify (put_account owner
       (add_owner_delegated resource balance (add_frozen_v2 resource (- balance) owner_account)))) (\<lambda>_.
     st_bind (st_gets (\<lambda>s. get_account s receiver)) (\<lambda>ra.
     st_bind (st_lift (ok_or ra (Execute ''receiver account missing''))) (\<lambda>receiver_account.
     st_bind (st_modify (put_account receiver
       (add_receiver_acquired resource balance receiver_account))) (\<lambda>_.
     let expire = (if lock
       then i64_wrap (now + i64_wrap (lock_period_blocks c * BLOCK_PRODUCED_INTERVAL_MS)) else 0) in
     st_bind (st_gets (\<lambda>s. get_delegation s owner receiver lock)) (\<lambda>old.
     let r0 = (case old of Some r \<Rightarrow> r | None \<Rightarrow> new_delegation owner receiver);
         r1 = rec_set_frozen resource (i64_wrap (rec_frozen r0 resource + balance)) r0;
         r2 = rec_set_expire resource expire r1 in
     st_bind (st_modify (put_delegation owner receiver lock r2)) (\<lambda>_.
     st_return (ExecutionResult 0))))))))))))"

section \<open>Undelegate\<close>

record undelegate_contract =
  ud_owner_address :: bytes
  ud_receiver_address :: bytes
  ud_resource :: int
  ud_balance :: i64

definition undelegate_available ::
  "i64 \<Rightarrow> int \<Rightarrow> delegated_resource option \<Rightarrow> delegated_resource option \<Rightarrow> i64" where
  "undelegate_available now resource unlock lock =
     (let a = (case unlock of Some u \<Rightarrow> i64_wrap (0 + rec_frozen u resource) | None \<Rightarrow> 0) in
      case lock of
        Some l \<Rightarrow> if rec_expire l resource < now then i64_wrap (a + rec_frozen l resource) else a
      | None \<Rightarrow> a)"

definition undelegate_validate :: "undelegate_contract \<Rightarrow> world_state \<Rightarrow> actuator_error + i64" where
  "undelegate_validate c s =
     rbind (delegate_parse_address (ud_owner_address c) ''Invalid address'') (\<lambda>owner.
     rbind (ok_or (get_account s owner)
       (Validate (''Account['' @ hex (ud_owner_address c) @ ''] does not exist''))) (\<lambda>_.
     rbind (delegate_parse_address (ud_receiver_address c) ''Invalid receiverAddress'') (\<lambda>receiver.
     rbind (ensure (receiver \<noteq> owner)
       (Validate ''receiverAddress must not be the same as ownerAddress'')) (\<lambda>_.
     let now = get_prop_i64 s LATEST_BLOCK_HEADER_TIMESTAMP;
         unlock = get_delegation s owner receiver False;
         lock = get_delegation s owner receiver True in
     rbind (ensure (\<not> (unlock = None \<and> lock = None))
       (Validate ''delegated Resource does not exist'')) (\<lambda>_.
     let balance = ud_balance c in
     rbind (ensure (0 < balance) (Validate ''unDelegateBalance must be more than 0 TRX'')) (\<lambda>_.
     let resource = ud_resource c in
     rbind (ensure (resource_valid resource)
       (Validate ''ResourceCode error, valid ResourceCode[BANDWIDTH, ENERGY]'')) (\<lambda>_.
     let available = undelegate_available now resource unlock lock in
     rbind (ensure (balance \<le> available)
       (Validate (''insufficient delegatedFrozenBalance(''
         @ (if resource = BANDWIDTH then ''BANDWIDTH'' else ''Energy'') @ ''), request=''
         @ i64_to_string balance @ '', unlock_balance='' @ i64_to_string available))) (\<lambda>_.
     Inr 0))))))))"

definition merge_expired_lock ::
  "address \<Rightarrow> address \<Rightarrow> int \<Rightarrow> i64 \<Rightarrow> world_state \<Rightarrow> world_state" where
  "merge_expired_lock owner receiver resource now s =
     (case get_delegation s owner receiver True of
        None \<Rightarrow> s
      | Some lock \<Rightarrow>
          let expire = rec_expire lock resource; locked = rec_frozen lock resource in
          if locked = 0 \<or> expire = 0 \<or> now \<le> expire then s
          else
            let u0 = (case get_delegation s owner receiver False of
                        Some u \<Rightarrow> u | None \<Rightarrow> new_delegation owner receiver);
                u1 = rec_set_frozen resource (i64_wrap (rec_frozen u0 resource + locked)) u0;
                s1 = put_delegation owner receiver False u1 s in
            store_delegation owner receiver True
              (rec_set_expire resource 0 (rec_set_frozen resource 0 lock)) s1)"

definition undelegate_receiver :: "address \<Rightarrow> int \<Rightarrow> i64 \<Rightarrow> world_state \<Rightarrow> world_state" where
  "undelegate_receiver receiver resource balance s =
     (case get_account s receiver of
        Some acc \<Rightarrow> put_account receiver (add_receiver_acquired resource (- balance) acc) s
      | None \<Rightarrow> s)"

definition undelegate_execute :: "undelegate_contract \<Rightarrow> execution_result act" where
  "undelegate_execute c =
     st_bind (st_lift (delegate_parse_address (ud_owner_address c) ''Invalid address'')) (\<lambda>owner.
     st_bind (st_lift (delegate_parse_address (ud_receiver_address c) ''Invalid receiverAddress'')) (\<lambda>receiver.
     let resource = ud_resource c; balance = ud_balance c in
     st_bind (st_gets (\<lambda>s. get_prop_i64 s LATEST_BLOCK_HEADER_TIMESTAMP)) (\<lambda>now.
     st_bind (st_modify (merge_expired_lock owner receiver resource now)) (\<lambda>_.
     st_bind (st_modify (undelegate_receiver receiver resource balance)) (\<lambda>_.
     st_bind (st_gets (\<lambda>s. get_delegation s owner receiver False)) (\<lambda>ou.
     st_bind (st_lift (ok_or ou (Execute ''unlocked delegation missing''))) (\<lambda>unlock.
     let remaining = i64_wrap (rec_frozen unlock resource - balance) in
     st_bind (st_modify (store_delegation owner receiver False
       (rec_set_frozen resource remaining unlock))) (\<lambda>_.
     st_bind (st_gets (\<lambda>s. get_account s owner)) (\<lambda>oa.
     st_bind (st_lift (ok_or oa (Execute ''owner account missing''))) (\<lambda>owner_account.
     st_bind (st_modify (put_account owner
       (add_frozen_v2 resource balance (add_owner_delegated resource (- balance) owner_account)))) (\<lambda>_.
     st_return (ExecutionResult 0))))))))))))"

section \<open>Records and accounts, per resource\<close>

lemmas [simp] = delegate_parse_address_def

lemma delegation_key_inject:
  assumes "wf_address a" "wf_address a'" "wf_address b" "wf_address b'"
  shows "delegation_key a b l = delegation_key a' b' l' \<longleftrightarrow> a = a' \<and> b = b' \<and> l = l'"
  using assms by (auto simp: delegation_key_def wf_address_def split: if_splits)

lemma rec_frozen_set [simp]:
  "resource_valid r \<Longrightarrow> resource_valid q \<Longrightarrow>
   rec_frozen (rec_set_frozen r v x) q = (if q = r then v else rec_frozen x q)"
  "rec_frozen (rec_set_expire r v x) q = rec_frozen x q"
  by (auto simp: rec_frozen_def rec_set_frozen_def rec_set_expire_def resource_valid_def resource_defs)

lemma rec_expire_set [simp]:
  "resource_valid r \<Longrightarrow> resource_valid q \<Longrightarrow>
   rec_expire (rec_set_expire r v x) q = (if q = r then v else rec_expire x q)"
  "rec_expire (rec_set_frozen r v x) q = rec_expire x q"
  by (auto simp: rec_expire_def rec_set_frozen_def rec_set_expire_def resource_valid_def resource_defs)

lemma resource_valid_simps [simp]: "resource_valid BANDWIDTH" "resource_valid ENERGY"
  by (simp_all add: resource_valid_def)

lemma wf_record_alt: "wf_record x \<longleftrightarrow> (\<forall>q. resource_valid q \<longrightarrow> 0 \<le> rec_frozen x q)"
  by (auto simp: wf_record_def rec_frozen_def resource_valid_def resource_defs)

lemma wf_lock_alt: "wf_lock x \<longleftrightarrow> (\<forall>q. resource_valid q \<longrightarrow> rec_frozen x q \<noteq> 0 \<longrightarrow> rec_expire x q \<noteq> 0)"
  by (auto simp: wf_lock_def rec_frozen_def rec_expire_def resource_valid_def resource_defs)

lemma new_delegation_simps [simp]:
  "rec_frozen (new_delegation a b) q = 0" "rec_expire (new_delegation a b) q = 0"
  by (simp_all add: new_delegation_def rec_frozen_def rec_expire_def)

lemma rec_is_empty_alt: "rec_is_empty x \<longleftrightarrow> (\<forall>q. resource_valid q \<longrightarrow> rec_frozen x q = 0)"
  by (auto simp: rec_is_empty_def rec_frozen_def resource_valid_def resource_defs)

text \<open>What an owner's records add up to for one resource.\<close>

type_synonym delegations = "address \<times> address \<times> bool \<rightharpoonup> delegated_resource"

definition dsum :: "int \<Rightarrow> delegations \<Rightarrow> address \<Rightarrow> int" where
  "dsum q d a = msum (\<lambda>r. rec_frozen r q) (\<lambda>(b, l). d (a, b, l))"

lemma dsum_alt:
  "dsum BANDWIDTH (ws_delegation s) a = msum dr_frozen_bandwidth (records_of s a)"
  "dsum ENERGY (ws_delegation s) a = msum dr_frozen_energy (records_of s a)"
  by (simp_all add: dsum_def records_of_def rec_frozen_def resource_defs)

lemma owner_delegated_alt:
  "owner_delegated acc BANDWIDTH = acc_delegated_bandwidth acc"
  "owner_delegated acc ENERGY = delegated_energy acc"
  by (simp_all add: owner_delegated_def delegated_energy_def opt_val_def resource_defs)

definition wf_delegations :: "delegations \<Rightarrow> bool" where
  "wf_delegations d \<longleftrightarrow> finite (dom d) \<and> (\<forall>k r. d k = Some r \<longrightarrow> wf_record r)
     \<and> (\<forall>a b r. d (a, b, True) = Some r \<longrightarrow> wf_lock r)"

lemma wf_delegation_alt:
  "wf_delegation s \<longleftrightarrow> wf_delegations (ws_delegation s)
     \<and> (\<forall>q a. resource_valid q \<longrightarrow>
          opt_val (\<lambda>acc. owner_delegated acc q) (ws_accounts s a) = dsum q (ws_delegation s) a)"
  unfolding wf_delegation_def wf_delegations_def resource_valid_def
  by (auto simp: dsum_alt owner_delegated_alt)

lemma finite_records: "finite (dom d) \<Longrightarrow> finite (dom (\<lambda>(b, l). d (a, b, l)))"
  for d :: delegations
  by (rule finite_subset [of _ "snd ` dom d"]) (auto intro: rev_image_eqI [OF domI])

lemma dsum_upd:
  assumes "finite (dom d)"
  shows "dsum q (d((a, b, l) := x)) a'
     = (if a' = a then dsum q d a - opt_val (\<lambda>r. rec_frozen r q) (d (a, b, l))
          + opt_val (\<lambda>r. rec_frozen r q) x else dsum q d a')"
proof (cases "a' = a")
  case True
  have "(\<lambda>(b', l'). (d((a, b, l) := x)) (a, b', l')) = (\<lambda>(b', l'). d (a, b', l'))((b, l) := x)"
    by (auto simp: fun_eq_iff)
  with True finite_records [OF assms, of a] show ?thesis
    by (cases x) (simp_all add: dsum_def msum_upd msum_del del: fun_upd_apply)
next
  case False
  then have "(\<lambda>(b', l'). (d((a, b, l) := x)) (a', b', l')) = (\<lambda>(b', l'). d (a', b', l'))"
    by (auto simp: fun_eq_iff)
  with False show ?thesis by (simp add: dsum_def del: fun_upd_apply)
qed

lemma dsum_member:
  assumes "wf_delegations d" and "resource_valid q"
  shows "opt_val (\<lambda>r. rec_frozen r q) (d (a, b, l)) \<le> dsum q d a"
    and "b \<noteq> b' \<or> l \<noteq> l' \<Longrightarrow>
      opt_val (\<lambda>r. rec_frozen r q) (d (a, b, l)) + opt_val (\<lambda>r. rec_frozen r q) (d (a, b', l')) \<le> dsum q d a"
proof -
  let ?m = "\<lambda>(b, l). d (a, b, l)" and ?f = "\<lambda>r. rec_frozen r q"
  have fin: "finite (dom ?m)" using assms(1) by (simp add: wf_delegations_def finite_records)
  have nn: "0 \<le> ?f r" if "?m k = Some r" for k r
    using assms that by (cases k) (auto simp: wf_delegations_def wf_record_alt)
  show "opt_val ?f (d (a, b, l)) \<le> dsum q d a"
    using msum_member [OF fin, of ?f "(b, l)"] nn by (simp add: dsum_def)
  show "b \<noteq> b' \<or> l \<noteq> l' \<Longrightarrow> opt_val ?f (d (a, b, l)) + opt_val ?f (d (a, b', l')) \<le> dsum q d a"
    using msum_member2 [OF fin, of ?f "(b, l)" "(b', l')"] nn by (simp add: dsum_def)
qed

lemma wf_delegations_upd:
  assumes "wf_delegations d" and "\<And>r. x = Some r \<Longrightarrow> wf_record r"
    and "\<And>r. x = Some r \<Longrightarrow> l \<Longrightarrow> wf_lock r"
  shows "wf_delegations (d((a, b, l) := x))"
proof -
  have "finite (dom (d((a, b, l) := x)))"
    using assms(1) by (cases x) (simp_all add: wf_delegations_def del: fun_upd_apply)
  with assms show ?thesis
    by (auto simp: wf_delegations_def simp del: dom_fun_upd)
qed

text \<open>Moving stake between an owner's account and the owner's records, in one go.\<close>

lemma move_delegated:
  assumes w: "wf_state s" and g: "get_account s a = Some acc" and wa: "wf_account acc'"
    and v: "acc_trx acc' = acc_trx acc" and d: "wf_delegations d"
    and own: "\<And>q. resource_valid q \<Longrightarrow> owner_delegated acc' q = dsum q d a"
    and oth: "\<And>q b. resource_valid q \<Longrightarrow> b \<noteq> a \<Longrightarrow> dsum q d b = dsum q (ws_delegation s) b"
  shows "wf_state (put_account a acc' (s\<lparr>ws_delegation := d\<rparr>))"
    and "total_trx (put_account a acc' (s\<lparr>ws_delegation := d\<rparr>)) = total_trx s"
proof -
  let ?s = "put_account a acc' (s\<lparr>ws_delegation := d\<rparr>)"
  have fin: "finite (dom (ws_accounts s))" using w by (simp add: wf_state_def)
  show t: "total_trx ?s = total_trx s"
    using fin g v by (simp add: total_trx_def put_account_def get_prop_i64_def get_account_def msum_upd)
  have "wf_delegation ?s"
    using w d own oth by (auto simp: wf_delegation_alt wf_state_def put_account_def)
  with w wa t show "wf_state ?s"
    by (auto simp: wf_state_def put_account_def get_prop_i64_def)
qed

lemma owner_dsum:
  assumes "wf_state s" and "get_account s a = Some acc" and "resource_valid q"
  shows "owner_delegated acc q = dsum q (ws_delegation s) a" and "wf_delegations (ws_delegation s)"
proof -
  have d: "wf_delegations (ws_delegation s)"
    "opt_val (\<lambda>acc. owner_delegated acc q) (ws_accounts s a) = dsum q (ws_delegation s) a"
    using assms(1,3) by (auto simp: wf_state_def wf_delegation_alt)
  with assms(2) show "owner_delegated acc q = dsum q (ws_delegation s) a"
    and "wf_delegations (ws_delegation s)"
    by (simp_all add: get_account_def)
qed

section \<open>Account updates\<close>

lemma acquired_neutral: "neutral (add_receiver_acquired r d)"
  by (auto simp: neutral_simps add_receiver_acquired_def Let_def resource_or_default_def
      resource_default_def res_trx_def wf_resource_def opt_val_def split: option.splits)

lemma put_acquired:
  assumes "wf_state s" and "get_account s a = Some acc"
  shows "wf_state (put_account a (add_receiver_acquired r d acc) s)"
    and "total_trx (put_account a (add_receiver_acquired r d acc) s) = total_trx s"
  using put_neutral [OF assms, of "add_receiver_acquired r d acc"] acquired_neutral [of r d]
    wf_state_account(1) [OF assms] by (simp_all add: neutral_def)

lemma frozen_v2_amount_eq:
  assumes "wf_account acc" and "acc_trx acc \<le> i64_max"
  shows "frozen_v2_amount acc r = amount_of r (acc_frozen_v2 acc)"
proof -
  have "foldl i64_sat_add 0 (map fz_amount (filter (\<lambda>f. fz_type f = r) fs)) = amount_of r fs"
    if "wf_stakes fs" "stake_sum fs \<le> i64_max" for fs
    using that
  proof (induction fs)
    case (Cons f fs)
    have nn: "0 \<le> fz_amount f" "0 \<le> stake_sum fs" "wf_stakes fs"
      using Cons.prems(1) by (auto intro!: sum_list_nonneg_map simp: wf_stakes_def)
    show ?case
    proof (cases "fz_type f = r")
      case True
      then have "filter (\<lambda>f. fz_type f = r) fs = []"
        using Cons.prems(1) by (force simp: wf_stakes_def filter_empty_conv image_iff)
      with True nn Cons.prems(2) show ?thesis
        by (simp add: amount_of_def i64_sat_add_def nonneg_in_i64)
    next
      case False
      with Cons nn show ?thesis by (simp add: amount_of_def)
    qed
  qed (simp add: amount_of_def)
  moreover have "stake_sum (acc_frozen_v2 acc) \<le> i64_max"
    using stakes_le [OF assms(1)] assms(2) by simp
  ultimately show ?thesis
    using wf_account_stakes [OF assms(1)] by (simp add: frozen_v2_amount_def)
qed

lemma add_owner_delegated_value:
  assumes "resource_valid r" and "in_i64 (owner_delegated acc r + d)"
  shows "resource_valid q \<Longrightarrow> owner_delegated (add_owner_delegated r d acc) q
      = owner_delegated acc q + (if q = r then d else 0)"
    and "acc_trx (add_owner_delegated r d acc) = acc_trx acc + d"
    and "0 \<le> owner_delegated acc r + d \<Longrightarrow> wf_account acc \<Longrightarrow> wf_account (add_owner_delegated r d acc)"
    and "acc_frozen_v2 (add_owner_delegated r d acc) = acc_frozen_v2 acc"
  using assms
  by (auto simp: add_owner_delegated_def owner_delegated_def Let_def resource_valid_def resource_defs
      resource_or_default_def resource_default_def acc_trx_def res_trx_def wf_account_def wf_resource_def
      opt_val_def split: option.splits)

lemma add_frozen_v2_value:
  assumes "wf_account acc" and "0 \<le> amount_of r (acc_frozen_v2 acc) + d"
    and "in_i64 (amount_of r (acc_frozen_v2 acc) + d)"
  shows "acc_trx (add_frozen_v2 r d acc) = acc_trx acc + d"
    and "wf_account (add_frozen_v2 r d acc)"
    and "owner_delegated (add_frozen_v2 r d acc) q = owner_delegated acc q"
    and "amount_of q (acc_frozen_v2 (add_frozen_v2 r d acc))
      = amount_of q (acc_frozen_v2 acc) + (if q = r then d else 0)"
proof -
  have e: "add_frozen_v2 r d acc = acc\<lparr>acc_frozen_v2 := plus_frozen r d (acc_frozen_v2 acc)\<rparr>"
    using assms(3) by (auto simp: add_frozen_v2_def plus_frozen_def amount_of_def split: option.splits)
  have "wf_stakes (plus_frozen r d (acc_frozen_v2 acc))"
  proof (cases "find_frozen r (acc_frozen_v2 acc)")
    case None
    then show ?thesis
      using plus_frozen_wf [OF wf_account_stakes [OF assms(1)], of d r] assms(2)
      by (simp add: amount_of_def)
  next
    case (Some f)
    then show ?thesis
      using set_frozen_wf [OF wf_account_stakes [OF assms(1)], of "fz_amount f + d" r] assms(2)
      by (simp add: plus_frozen_def amount_of_def)
  qed
  then show "wf_account (add_frozen_v2 r d acc)"
    using assms(1) by (simp add: e wf_account_def wf_stakes_def)
  show "acc_trx (add_frozen_v2 r d acc) = acc_trx acc + d" by (simp add: e acc_trx_def)
  show "owner_delegated (add_frozen_v2 r d acc) q = owner_delegated acc q"
    by (simp add: e owner_delegated_def)
  show "amount_of q (acc_frozen_v2 (add_frozen_v2 r d acc))
      = amount_of q (acc_frozen_v2 acc) + (if q = r then d else 0)"
    by (simp add: e plus_frozen_amount_of)
qed

lemma delegated_le:
  assumes "wf_account acc" and "resource_valid r"
  shows "amount_of r (acc_frozen_v2 acc) + owner_delegated acc r \<le> acc_trx acc"
    and "0 \<le> owner_delegated acc r" and "0 \<le> amount_of r (acc_frozen_v2 acc)"
proof -
  have "amount_of r (acc_frozen_v2 acc) \<le> stake_sum (acc_frozen_v2 acc)"
    and nn: "0 \<le> amount_of r (acc_frozen_v2 acc)"
    using stake_member [OF wf_account_stakes [OF assms(1)], of r] acc_trx_parts(1) [OF assms(1)]
    by (auto simp: amount_of_def split: option.splits)
  moreover have "0 \<le> owner_delegated acc r"
    "owner_delegated acc r \<le> acc_delegated_bandwidth acc + opt_val res_trx (acc_resource acc)"
    using assms acc_trx_parts [OF assms(1)]
    by (auto simp: owner_delegated_def resource_valid_def resource_defs opt_val_def res_trx_def
        wf_account_def wf_resource_def split: option.splits)
  ultimately show "amount_of r (acc_frozen_v2 acc) + owner_delegated acc r \<le> acc_trx acc"
    and "0 \<le> owner_delegated acc r"
    using acc_trx_parts [OF assms(1)] by (simp_all add: acc_trx_def)
  show "0 \<le> amount_of r (acc_frozen_v2 acc)" by (rule nn)
qed

section \<open>Delegate: what it does\<close>

lemma delegate_lock_check_Inr:
  "delegate_lock_check c a b s = Inr u \<longleftrightarrow>
     (de_lock c \<longrightarrow> 0 \<le> lock_period_blocks c
       \<and> (\<forall>e. get_delegation s a b True = Some e \<longrightarrow>
            i64_wrap (rec_expire e (de_resource c) - get_prop_i64 s LATEST_BLOCK_HEADER_TIMESTAMP)
              \<le> i64_wrap (lock_period_blocks c * BLOCK_PRODUCED_INTERVAL_MS)))"
  by (auto simp: delegate_lock_check_def Let_def result_simps split: option.splits)

lemma delegate_validate_Inr:
  "delegate_validate c s = Inr f \<longleftrightarrow>
     (\<exists>a b acc bcc. wf_address a \<and> de_owner_address c = as_bytes a \<and> get_account s a = Some acc
       \<and> TRX_PRECISION \<le> de_balance c \<and> resource_valid (de_resource c)
       \<and> de_balance c \<le> frozen_v2_amount acc (de_resource c)
       \<and> wf_address b \<and> de_receiver_address c = as_bytes b \<and> b \<noteq> a \<and> get_account s b = Some bcc
       \<and> delegate_lock_check c a b s = Inr () \<and> acc_type bcc \<noteq> account_type_contract \<and> f = 0)"
  by (auto simp: delegate_validate_def result_simps Let_def)

text \<open>The expiry of a lock taken now, and that computing it does not overflow.\<close>

definition lock_expiry :: "delegate_contract \<Rightarrow> world_state \<Rightarrow> i64" where
  "lock_expiry c s =
     (if de_lock c then get_prop_i64 s LATEST_BLOCK_HEADER_TIMESTAMP
        + lock_period_blocks c * BLOCK_PRODUCED_INTERVAL_MS else 0)"

definition lock_clock_ok :: "delegate_contract \<Rightarrow> world_state \<Rightarrow> bool" where
  "lock_clock_ok c s \<longleftrightarrow>
     0 \<le> get_prop_i64 s LATEST_BLOCK_HEADER_TIMESTAMP \<and> lock_expiry c s \<le> i64_max"

lemma lock_period_pos: "0 \<le> lock_period_blocks c \<Longrightarrow> 0 < lock_period_blocks c"
  by (simp add: lock_period_blocks_def default_lock_period_blocks_def DELEGATE_PERIOD_MS_def
      BLOCK_PRODUCED_INTERVAL_MS_def split: if_splits)

lemma lock_expiry_eval:
  assumes "lock_clock_ok c s" and "de_lock c \<longrightarrow> 0 \<le> lock_period_blocks c"
  shows "(if de_lock c then i64_wrap (get_prop_i64 s LATEST_BLOCK_HEADER_TIMESTAMP
        + i64_wrap (lock_period_blocks c * BLOCK_PRODUCED_INTERVAL_MS)) else 0) = lock_expiry c s"
    and "de_lock c \<Longrightarrow> lock_expiry c s \<noteq> 0"
proof -
  have "in_i64 (lock_period_blocks c * BLOCK_PRODUCED_INTERVAL_MS)" "in_i64 (lock_expiry c s)"
    "lock_expiry c s \<noteq> 0" if "de_lock c"
    using assms that lock_period_pos [of c]
    by (auto simp: lock_clock_ok_def lock_expiry_def BLOCK_PRODUCED_INTERVAL_MS_def i64_bounds_defs)
  then show "(if de_lock c then i64_wrap (get_prop_i64 s LATEST_BLOCK_HEADER_TIMESTAMP
        + i64_wrap (lock_period_blocks c * BLOCK_PRODUCED_INTERVAL_MS)) else 0) = lock_expiry c s"
    and "de_lock c \<Longrightarrow> lock_expiry c s \<noteq> 0"
    by (auto simp: lock_expiry_def)
qed

definition delegated_record :: "delegate_contract \<Rightarrow> address \<Rightarrow> address \<Rightarrow> world_state \<Rightarrow> delegated_resource" where
  "delegated_record c a b s =
     (let r0 = (case ws_delegation s (a, b, de_lock c) of Some r \<Rightarrow> r | None \<Rightarrow> new_delegation a b) in
      rec_set_expire (de_resource c) (lock_expiry c s)
        (rec_set_frozen (de_resource c) (rec_frozen r0 (de_resource c) + de_balance c) r0))"

definition delegating_account :: "delegate_contract \<Rightarrow> account \<Rightarrow> account" where
  "delegating_account c acc =
     add_owner_delegated (de_resource c) (de_balance c)
       (add_frozen_v2 (de_resource c) (- de_balance c) acc)"

lemma delegating_account_value:
  assumes "wf_account acc" and "acc_trx acc \<le> i64_max" and "resource_valid (de_resource c)"
    and "0 \<le> de_balance c" and "de_balance c \<le> frozen_v2_amount acc (de_resource c)"
  shows "wf_account (delegating_account c acc)" and "acc_trx (delegating_account c acc) = acc_trx acc"
    and "resource_valid q \<Longrightarrow> owner_delegated (delegating_account c acc) q
      = owner_delegated acc q + (if q = de_resource c then de_balance c else 0)"
    and "frozen_amount (delegating_account c acc) q
      = frozen_amount acc q - (if q = de_resource c then de_balance c else 0)"
    and "in_i64 (owner_delegated acc (de_resource c) + de_balance c)"
proof -
  let ?r = "de_resource c" and ?x = "de_balance c"
  note le = delegated_le [OF assms(1,3)]
  have am: "?x \<le> amount_of ?r (acc_frozen_v2 acc)"
    using assms(5) frozen_v2_amount_eq [OF assms(1,2)] by simp
  have f1: "0 \<le> amount_of ?r (acc_frozen_v2 acc) + - ?x" "in_i64 (amount_of ?r (acc_frozen_v2 acc) + - ?x)"
    using am le assms(2,4) by (auto intro!: nonneg_in_i64)
  note v = add_frozen_v2_value [OF assms(1) f1]
  have f2: "in_i64 (owner_delegated (add_frozen_v2 ?r (- ?x) acc) ?r + ?x)"
    using am le assms(2,4) by (auto intro!: nonneg_in_i64 simp: v(3))
  note u = add_owner_delegated_value [OF assms(3) f2]
  show "wf_account (delegating_account c acc)"
    using u(3) v(2) le assms(4) by (simp add: delegating_account_def v(3))
  show "acc_trx (delegating_account c acc) = acc_trx acc"
    using u(2) v(1) by (simp add: delegating_account_def)
  show "resource_valid q \<Longrightarrow> owner_delegated (delegating_account c acc) q
      = owner_delegated acc q + (if q = ?r then ?x else 0)"
    using u(1) [of q] by (simp add: delegating_account_def v(3))
  show "frozen_amount (delegating_account c acc) q = frozen_amount acc q - (if q = ?r then ?x else 0)"
    using u(4) v(4) [of q] by (simp add: delegating_account_def frozen_amount_of)
  show "in_i64 (owner_delegated acc ?r + ?x)" using f2 by (simp add: v(3))
qed

lemma delegated_record_fits:
  assumes w: "wf_state s" and g: "get_account s a = Some acc" and r: "resource_valid (de_resource c)"
    and x: "0 \<le> de_balance c" and fits: "in_i64 (owner_delegated acc (de_resource c) + de_balance c)"
    and r0: "r0 = (case ws_delegation s (a, b, l) of Some r \<Rightarrow> r | None \<Rightarrow> new_delegation a b)"
  shows "0 \<le> rec_frozen r0 (de_resource c)" "in_i64 (rec_frozen r0 (de_resource c) + de_balance c)"
    "wf_record r0" "l \<Longrightarrow> wf_lock r0"
proof -
  note d = owner_dsum [OF w g r]
  have le: "rec_frozen r0 (de_resource c) \<le> owner_delegated acc (de_resource c)"
    using dsum_member(1) [OF d(2) r, of a b l] delegated_le(2) [OF wf_state_account(1) [OF w g] r] d(1) r0
    by (auto split: option.splits)
  show wr: "wf_record r0" and "l \<Longrightarrow> wf_lock r0"
    using d(2) r0
    by (auto simp: wf_delegations_def wf_record_def wf_lock_def new_delegation_def split: option.splits)
  then show nn: "0 \<le> rec_frozen r0 (de_resource c)" using r by (auto simp: wf_record_alt)
  show "in_i64 (rec_frozen r0 (de_resource c) + de_balance c)"
    using le fits nn x by (auto simp: i64_bounds_defs)
qed

lemma delegate_result:
  assumes w: "wf_state s" and v: "delegate_validate c s = Inr f" and t: "lock_clock_ok c s"
  obtains a b acc bcc s' where "de_owner_address c = as_bytes a" "de_receiver_address c = as_bytes b"
    "get_account s a = Some acc" "get_account s b = Some bcc" "a \<noteq> b"
    "delegate_execute c s = (Inr (ExecutionResult 0), s')" "wf_state s'" "total_trx s' = total_trx s"
    "s' = put_delegation a b (de_lock c) (delegated_record c a b s)
       (put_account b (add_receiver_acquired (de_resource c) (de_balance c) bcc)
         (put_account a (delegating_account c acc) s))"
proof -
  from v obtain a b acc bcc where c: "wf_address a" "de_owner_address c = as_bytes a"
    "get_account s a = Some acc" "wf_address b" "de_receiver_address c = as_bytes b" "b \<noteq> a"
    "get_account s b = Some bcc" and r: "resource_valid (de_resource c)"
    and x: "TRX_PRECISION \<le> de_balance c" "de_balance c \<le> frozen_v2_amount acc (de_resource c)"
    and lc: "delegate_lock_check c a b s = Inr ()"
    unfolding delegate_validate_Inr by blast
  let ?l = "de_lock c" and ?q = "de_resource c" and ?x = "de_balance c"
  let ?rec = "delegated_record c a b s" and ?acc = "delegating_account c acc"
  define r0 where "r0 = (case ws_delegation s (a, b, ?l) of Some r \<Rightarrow> r | None \<Rightarrow> new_delegation a b)"
  define d where "d = (ws_delegation s)((a, b, ?l) := Some ?rec)"
  have x0: "0 \<le> ?x" using x by (simp add: TRX_PRECISION_def)
  note ac = wf_state_account [OF w c(3)]
  note av = delegating_account_value [OF ac(1,3) r x0 x(2)]
  note rf = delegated_record_fits [OF w c(3) r x0 av(5) r0_def]
  have lp: "?l \<longrightarrow> 0 \<le> lock_period_blocks c" using lc by (simp add: delegate_lock_check_Inr)
  note ex = lock_expiry_eval [OF t lp]
  have rec: "?rec = rec_set_expire ?q (lock_expiry c s) (rec_set_frozen ?q (rec_frozen r0 ?q + ?x) r0)"
    by (simp add: delegated_record_def Let_def r0_def)
  have wr: "wf_record ?rec" "?l \<Longrightarrow> wf_lock ?rec"
    using rf x0 r ex(2) by (auto simp: rec wf_record_alt wf_lock_alt)
  note od = owner_dsum [OF w c(3)]
  have wd: "wf_delegations d"
    unfolding d_def using od(2) [OF r] wr by (intro wf_delegations_upd) auto
  have fin: "finite (dom (ws_delegation s))" using od(2) [OF r] by (simp add: wf_delegations_def)
  have r0v: "opt_val (\<lambda>r. rec_frozen r q) (ws_delegation s (a, b, ?l)) = rec_frozen r0 q" for q
    by (auto simp: r0_def split: option.splits)
  have own: "owner_delegated ?acc q = dsum q d a" if "resource_valid q" for q
    using av(3) [OF that] od(1) [OF that] that r fin
    by (simp add: d_def dsum_upd r0v rec del: fun_upd_apply)
  have oth: "dsum q d b' = dsum q (ws_delegation s) b'" if "b' \<noteq> a" for q b'
    using that fin by (simp add: d_def dsum_upd del: fun_upd_apply)
  note w1 = move_delegated [OF w c(3) av(1,2) wd own oth]
  let ?s1 = "put_account a ?acc (s\<lparr>ws_delegation := d\<rparr>)"
  have g1: "get_account ?s1 b = Some bcc" using c by (simp add: put_account_def get_account_def)
  note w2 = put_acquired [OF w1(1) g1, of ?q ?x]
  let ?s2 = "put_account b (add_receiver_acquired ?q ?x bcc) ?s1"
  have s2: "?s2 = put_delegation a b ?l ?rec
      (put_account b (add_receiver_acquired ?q ?x bcc) (put_account a ?acc s))"
    by (simp add: put_delegation_def put_account_def d_def)
  have "delegate_execute c s = (Inr (ExecutionResult 0), put_delegation a b ?l ?rec
      (put_account b (add_receiver_acquired ?q ?x bcc) (put_account a ?acc s)))"
    using c rf(2) ex(1)
    by (simp add: delegate_execute_def st_bind_def st_prim_simps ok_or_def Let_def state_simps
        get_delegation_def put_account_def [of _ _ "put_account _ _ _"] rec r0_def [symmetric]
        delegating_account_def)
       (simp add: put_account_def r0_def [symmetric])
  with that c w1 w2 s2 show ?thesis by auto
qed

interpretation delegate: actuator delegate_validate delegate_execute lock_clock_ok
  by unfold_locales (metis delegate_result)

section \<open>Undelegate: what it does\<close>

lemma undelegate_validate_Inr:
  "undelegate_validate c s = Inr f \<longleftrightarrow>
     (\<exists>a b acc. wf_address a \<and> ud_owner_address c = as_bytes a \<and> get_account s a = Some acc
       \<and> wf_address b \<and> ud_receiver_address c = as_bytes b \<and> b \<noteq> a
       \<and> \<not> (get_delegation s a b False = None \<and> get_delegation s a b True = None)
       \<and> 0 < ud_balance c \<and> resource_valid (ud_resource c)
       \<and> ud_balance c \<le> undelegate_available (get_prop_i64 s LATEST_BLOCK_HEADER_TIMESTAMP)
            (ud_resource c) (get_delegation s a b False) (get_delegation s a b True) \<and> f = 0)"
  by (auto simp: undelegate_validate_def result_simps Let_def)

lemma put_delegation_upd:
  "put_delegation a b l r (s\<lparr>ws_delegation := d\<rparr>) = s\<lparr>ws_delegation := d((a, b, l) := Some r)\<rparr>"
  "store_delegation a b l r (s\<lparr>ws_delegation := d\<rparr>)
     = s\<lparr>ws_delegation := d((a, b, l) := (if rec_is_empty r then None else Some r))\<rparr>"
  by (simp_all add: put_delegation_def store_delegation_def delete_delegation_def)

lemma opt_store:
  "resource_valid q \<Longrightarrow>
   opt_val (\<lambda>r. rec_frozen r q) (if rec_is_empty x then None else Some x) = rec_frozen x q"
  by (simp add: rec_is_empty_alt)

lemma merge_expired_lock_spec:
  assumes d: "wf_delegations (ws_delegation s)" and r: "resource_valid r"
    and le: "dsum r (ws_delegation s) a \<le> i64_max"
  obtains d1 where "merge_expired_lock a b r now s = s\<lparr>ws_delegation := d1\<rparr>" "wf_delegations d1"
    "\<And>q a'. resource_valid q \<Longrightarrow> dsum q d1 a' = dsum q (ws_delegation s) a'"
    "opt_val (\<lambda>x. rec_frozen x r) (d1 (a, b, False))
       = undelegate_available now r (ws_delegation s (a, b, False)) (ws_delegation s (a, b, True))"
    "\<And>l. ws_delegation s (a, b, True) = Some l \<Longrightarrow> now \<le> rec_expire l r \<Longrightarrow> d1 = ws_delegation s"
proof -
  let ?d = "ws_delegation s" and ?f = "\<lambda>x. rec_frozen x r"
  have nn: "0 \<le> opt_val ?f (?d k)" for k
    using d r by (cases k; cases "?d k") (auto simp: wf_delegations_def wf_record_alt)
  have uf: "opt_val ?f (?d (a, b, False)) \<le> i64_max"
    using dsum_member(1) [OF d r, of a b False] le by simp
  have avU: "(case ?d (a, b, False) of Some u \<Rightarrow> i64_wrap (0 + rec_frozen u r) | None \<Rightarrow> 0)
      = opt_val ?f (?d (a, b, False))"
    using uf nn [of "(a, b, False)"] by (auto simp: nonneg_in_i64 split: option.splits)
  show ?thesis
  proof (cases "?d (a, b, True)")
    case None
    then have "merge_expired_lock a b r now s = s\<lparr>ws_delegation := ?d\<rparr>"
      by (simp add: merge_expired_lock_def get_delegation_def)
    with that [of ?d] d None avU show ?thesis
      by (auto simp: undelegate_available_def Let_def)
  next
    case (Some l)
    have both: "opt_val ?f (?d (a, b, False)) + rec_frozen l r \<le> i64_max"
      using dsum_member(2) [OF d r, of b b False True a] le Some by simp
    have l0: "0 \<le> rec_frozen l r" "wf_lock l"
      using d Some r by (auto simp: wf_delegations_def wf_record_alt)
    have avail: "undelegate_available now r (?d (a, b, False)) (?d (a, b, True))
        = opt_val ?f (?d (a, b, False)) + (if rec_expire l r < now then rec_frozen l r else 0)"
      using both l0 nn [of "(a, b, False)"] Some avU
      by (simp add: undelegate_available_def Let_def nonneg_in_i64)
    show ?thesis
    proof (cases "rec_frozen l r = 0 \<or> rec_expire l r = 0 \<or> now \<le> rec_expire l r")
      case True
      then have "merge_expired_lock a b r now s = s\<lparr>ws_delegation := ?d\<rparr>"
        using Some by (simp add: merge_expired_lock_def get_delegation_def Let_def)
      moreover have "rec_expire l r < now \<Longrightarrow> rec_frozen l r = 0"
        using True l0(2) r by (auto simp: wf_lock_alt)
      ultimately show ?thesis
        using that [of ?d] d avail by simp
    next
      case False
      define u0 where "u0 = (case ?d (a, b, False) of Some u \<Rightarrow> u | None \<Rightarrow> new_delegation a b)"
      define u1 where "u1 = rec_set_frozen r (rec_frozen u0 r + rec_frozen l r) u0"
      define l1 where "l1 = rec_set_expire r 0 (rec_set_frozen r 0 l)"
      define d1 where "d1 = (?d((a, b, False) := Some u1))((a, b, True) := (if rec_is_empty l1 then None else Some l1))"
      have u0v: "opt_val (\<lambda>x. rec_frozen x q) (?d (a, b, False)) = rec_frozen u0 q" for q
        by (auto simp: u0_def split: option.splits)
      have "in_i64 (rec_frozen u0 r + rec_frozen l r)"
        using both l0 nn [of "(a, b, False)"] by (intro nonneg_in_i64) (simp_all add: u0v)
      then have m: "merge_expired_lock a b r now s = s\<lparr>ws_delegation := d1\<rparr>"
        using False Some put_delegation_upd(1) [of a b False u1 ?d s]
        by (simp add: merge_expired_lock_def get_delegation_def Let_def u0_def [symmetric] u1_def [symmetric]
            l1_def [symmetric] put_delegation_upd d1_def)
      have wu: "wf_record u0"
        using d by (auto simp: u0_def wf_delegations_def wf_record_def new_delegation_def split: option.splits)
      have w1: "wf_delegations (?d((a, b, False) := Some u1))"
        using d wu l0 r by (intro wf_delegations_upd) (auto simp: u1_def wf_record_alt)
      have lr: "wf_record l" using d Some by (auto simp: wf_delegations_def)
      have w2: "wf_delegations d1"
        unfolding d1_def using lr l0(2) r
        by (intro wf_delegations_upd [OF w1]) (auto simp: l1_def wf_record_alt wf_lock_alt split: if_splits)
      have "dsum q d1 a' = dsum q ?d a'" if "resource_valid q" for q a'
        using d w1 Some that r unfolding d1_def
        by (simp add: dsum_upd wf_delegations_def opt_store u0v del: fun_upd_apply)
           (simp add: u1_def l1_def)
      moreover have "opt_val ?f (d1 (a, b, False))
          = undelegate_available now r (?d (a, b, False)) (?d (a, b, True))"
        using False r unfolding avail u0v by (simp add: d1_def u1_def)
      ultimately show ?thesis
        using that [OF m w2] False Some by simp
    qed
  qed
qed

definition undelegating_account :: "undelegate_contract \<Rightarrow> account \<Rightarrow> account" where
  "undelegating_account c acc =
     add_frozen_v2 (ud_resource c) (ud_balance c)
       (add_owner_delegated (ud_resource c) (- ud_balance c) acc)"

lemma undelegating_account_value:
  assumes "wf_account acc" and "acc_trx acc \<le> i64_max" and r: "resource_valid (ud_resource c)"
    and "0 \<le> ud_balance c" and "ud_balance c \<le> owner_delegated acc (ud_resource c)"
  shows "wf_account (undelegating_account c acc)" and "acc_trx (undelegating_account c acc) = acc_trx acc"
    and "resource_valid q \<Longrightarrow> owner_delegated (undelegating_account c acc) q
      = owner_delegated acc q - (if q = ud_resource c then ud_balance c else 0)"
    and "frozen_amount (undelegating_account c acc) q
      = frozen_amount acc q + (if q = ud_resource c then ud_balance c else 0)"
proof -
  let ?r = "ud_resource c" and ?x = "ud_balance c"
  note le = delegated_le [OF assms(1) r]
  have f1: "in_i64 (owner_delegated acc ?r + - ?x)" "0 \<le> owner_delegated acc ?r + - ?x"
    using le assms(2,4,5) by (auto intro!: nonneg_in_i64)
  note u = add_owner_delegated_value [OF r f1(1)]
  have f2: "0 \<le> amount_of ?r (acc_frozen_v2 (add_owner_delegated ?r (- ?x) acc)) + ?x"
    "in_i64 (amount_of ?r (acc_frozen_v2 (add_owner_delegated ?r (- ?x) acc)) + ?x)"
    using le assms(2,4,5) by (auto intro!: nonneg_in_i64 simp: u(4))
  note v = add_frozen_v2_value [OF u(3) [OF f1(2) assms(1)] f2]
  show "wf_account (undelegating_account c acc)" and "acc_trx (undelegating_account c acc) = acc_trx acc"
    using v(1,2) u(2) by (simp_all add: undelegating_account_def)
  show "resource_valid q \<Longrightarrow> owner_delegated (undelegating_account c acc) q
      = owner_delegated acc q - (if q = ?r then ?x else 0)"
    using u(1) [of q] by (simp add: undelegating_account_def v(3))
  show "frozen_amount (undelegating_account c acc) q
      = frozen_amount acc q + (if q = ?r then ?x else 0)"
    using v(4) [of q] by (simp add: undelegating_account_def frozen_amount_of u(4))
qed

lemma undelegate_receiver_upd:
  "b \<noteq> a \<Longrightarrow> get_account (undelegate_receiver b r x s) a = get_account s a"
  "ws_delegation (undelegate_receiver b r x s) = ws_delegation s"
  "undelegate_receiver b r x (s\<lparr>ws_delegation := d\<rparr>) = undelegate_receiver b r x s\<lparr>ws_delegation := d\<rparr>"
  by (auto simp: undelegate_receiver_def state_simps put_account_def get_account_def split: option.splits)

lemma undelegate_receiver_wf:
  assumes "wf_state s"
  shows "wf_state (undelegate_receiver b r x s)" and "total_trx (undelegate_receiver b r x s) = total_trx s"
  using assms put_acquired [OF assms] by (auto simp: undelegate_receiver_def split: option.splits)

lemma undelegate_result:
  assumes w: "wf_state s" and v: "undelegate_validate c s = Inr f"
  obtains a b acc d s' where "ud_owner_address c = as_bytes a" "ud_receiver_address c = as_bytes b"
    "a \<noteq> b" "get_account s a = Some acc"
    "undelegate_execute c s = (Inr (ExecutionResult 0), s')" "wf_state s'" "total_trx s' = total_trx s"
    "s' = put_account a (undelegating_account c acc)
       (undelegate_receiver b (ud_resource c) (ud_balance c) s\<lparr>ws_delegation := d\<rparr>)"
    "\<forall>l. ws_delegation s (a, b, True) = Some l
       \<and> get_prop_i64 s LATEST_BLOCK_HEADER_TIMESTAMP \<le> rec_expire l (ud_resource c) \<longrightarrow>
       d (a, b, True) = Some l"
    "opt_val (\<lambda>x. rec_frozen x (ud_resource c)) (d (a, b, False))
       = undelegate_available (get_prop_i64 s LATEST_BLOCK_HEADER_TIMESTAMP) (ud_resource c)
           (ws_delegation s (a, b, False)) (ws_delegation s (a, b, True)) - ud_balance c"
proof -
  let ?r = "ud_resource c" and ?x = "ud_balance c" and ?now = "get_prop_i64 s LATEST_BLOCK_HEADER_TIMESTAMP"
  let ?d = "ws_delegation s"
  from v obtain a b acc where c: "wf_address a" "ud_owner_address c = as_bytes a"
    "get_account s a = Some acc" "wf_address b" "ud_receiver_address c = as_bytes b" "b \<noteq> a"
    and x: "0 < ?x" and r: "resource_valid ?r"
    and av: "?x \<le> undelegate_available ?now ?r (?d (a, b, False)) (?d (a, b, True))"
    unfolding undelegate_validate_Inr get_delegation_def by blast
  note ac = wf_state_account [OF w c(3)]
  note od = owner_dsum [OF w c(3)]
  have le: "dsum ?r ?d a \<le> i64_max"
    using delegated_le(1,3) [OF ac(1) r] ac(3) od(1) [OF r] by simp
  from merge_expired_lock_spec [OF od(2) [OF r] r le, of b ?now]
  obtain d1 where m: "merge_expired_lock a b ?r ?now s = s\<lparr>ws_delegation := d1\<rparr>" "wf_delegations d1"
    "\<And>q a'. resource_valid q \<Longrightarrow> dsum q d1 a' = dsum q ?d a'"
    "opt_val (\<lambda>x. rec_frozen x ?r) (d1 (a, b, False))
       = undelegate_available ?now ?r (?d (a, b, False)) (?d (a, b, True))"
    "\<And>l. ?d (a, b, True) = Some l \<Longrightarrow> ?now \<le> rec_expire l ?r \<Longrightarrow> d1 = ?d"
    by blast
  obtain u where u: "d1 (a, b, False) = Some u" "?x \<le> rec_frozen u ?r"
    using m(4) av x by (cases "d1 (a, b, False)") auto
  have ud: "rec_frozen u ?r \<le> owner_delegated acc ?r"
    using dsum_member(1) [OF m(2) r, of a b False] u m(3) [OF r] od(1) [OF r] by simp
  define u1 where "u1 = rec_set_frozen ?r (rec_frozen u ?r - ?x) u"
  define d2 where "d2 = d1((a, b, False) := (if rec_is_empty u1 then None else Some u1))"
  have fits: "in_i64 (rec_frozen u ?r - ?x)"
    using u x ud le od(1) [OF r] by (auto intro!: nonneg_in_i64)
  have wu: "wf_record u1"
    using m(2) u r by (auto simp: u1_def wf_delegations_def wf_record_alt)
  have wd: "wf_delegations d2"
    unfolding d2_def using m(2) wu by (intro wf_delegations_upd) (auto split: if_splits)
  have fin: "finite (dom d1)" using m(2) by (simp add: wf_delegations_def)
  have xle: "?x \<le> owner_delegated acc ?r" using u ud by simp
  note va = undelegating_account_value [OF ac(1,3) r less_imp_le [OF x] xle]
  let ?s1 = "undelegate_receiver b ?r ?x s"
  note w1 = undelegate_receiver_wf [OF w, of b ?r ?x]
  have g1: "get_account ?s1 a = Some acc" using c(3,6) by (simp add: undelegate_receiver_upd)
  have own: "owner_delegated (undelegating_account c acc) q = dsum q d2 a" if "resource_valid q" for q
    using va(3) [OF that] od(1) [OF that] m(3) [OF that] that r fin u
    by (simp add: d2_def dsum_upd opt_store del: fun_upd_apply) (simp add: u1_def)
  have oth: "dsum q d2 b' = dsum q (ws_delegation ?s1) b'" if "resource_valid q" "b' \<noteq> a" for q b'
    using that fin m(3) by (simp add: d2_def dsum_upd undelegate_receiver_upd del: fun_upd_apply)
  note w2 = move_delegated [OF w1(1) g1 va(1,2) wd own oth]
  let ?s2 = "put_account a (undelegating_account c acc) (?s1\<lparr>ws_delegation := d2\<rparr>)"
  have g2: "get_account (?s1\<lparr>ws_delegation := d2\<rparr>) a = Some acc"
    using g1 by (simp add: get_account_def)
  have "undelegate_execute c s = (Inr (ExecutionResult 0), ?s2)"
    using c(1,2,4,5) fits g2 u(1)
    by (simp add: undelegate_execute_def st_bind_def st_prim_simps ok_or_def Let_def m(1)
        undelegate_receiver_upd get_delegation_def u1_def [symmetric] put_delegation_upd d2_def [symmetric]
        undelegating_account_def)
  moreover have "d2 (a, b, True) = Some l" if "?d (a, b, True) = Some l" "?now \<le> rec_expire l ?r" for l
    using m(5) [OF that] that by (simp add: d2_def)
  moreover have "opt_val (\<lambda>x. rec_frozen x ?r) (d2 (a, b, False))
      = undelegate_available ?now ?r (?d (a, b, False)) (?d (a, b, True)) - ?x"
    using m(4) u r opt_store [OF r, of u1] by (simp add: d2_def u1_def)
  ultimately show ?thesis
    using that [OF c(2,5) _ c(3)] c(6) w1 w2 by auto
qed

interpretation undelegate: actuator undelegate_validate undelegate_execute "\<lambda>_ _. True"
  by unfold_locales (metis undelegate_result)

section \<open>Properties\<close>

text \<open>
  C11: Taking back delegated stake respects the lock.  A validated undelegation executes, returns
  the amount from the delegated to the delegable stake of its resource and to no other, takes it
  from the unlocked record (after the expired lock has been folded into it), leaves a lock that
  has not expired exactly as it was, and conserves TRX together with the agreement between the
  owner's account and the owner's records.
\<close>

theorem undelegate_respects_lock:
  assumes "wf_state s" and "undelegate_validate c s = Inr f"
    and "ud_owner_address c = as_bytes a" and "ud_receiver_address c = as_bytes b"
    and "get_account s a = Some acc" and "now = get_prop_i64 s LATEST_BLOCK_HEADER_TIMESTAMP"
  shows "\<exists>s' acc'. undelegate_execute c s = (Inr (ExecutionResult 0), s') \<and> wf_state s'
     \<and> total_trx s' = total_trx s \<and> get_account s' a = Some acc'
     \<and> (\<forall>q. frozen_amount acc' q
          = frozen_amount acc q + (if q = ud_resource c then ud_balance c else 0))
     \<and> (\<forall>q. resource_valid q \<longrightarrow> owner_delegated acc' q
          = owner_delegated acc q - (if q = ud_resource c then ud_balance c else 0))
     \<and> (\<forall>l. get_delegation s a b True = Some l \<and> now \<le> rec_expire l (ud_resource c) \<longrightarrow>
          get_delegation s' a b True = Some l)
     \<and> opt_val (\<lambda>r. rec_frozen r (ud_resource c)) (get_delegation s' a b False)
         = undelegate_available now (ud_resource c) (get_delegation s a b False)
             (get_delegation s a b True) - ud_balance c"
proof -
  obtain a' b' ac d s' where r: "ud_owner_address c = as_bytes a'" "ud_receiver_address c = as_bytes b'"
    "a' \<noteq> b'" "get_account s a' = Some ac"
    "undelegate_execute c s = (Inr (ExecutionResult 0), s')" "wf_state s'" "total_trx s' = total_trx s"
    "s' = put_account a' (undelegating_account c ac)
       (undelegate_receiver b' (ud_resource c) (ud_balance c) s\<lparr>ws_delegation := d\<rparr>)"
    "\<forall>l. ws_delegation s (a', b', True) = Some l
       \<and> get_prop_i64 s LATEST_BLOCK_HEADER_TIMESTAMP \<le> rec_expire l (ud_resource c) \<longrightarrow>
       d (a', b', True) = Some l"
    "opt_val (\<lambda>x. rec_frozen x (ud_resource c)) (d (a', b', False))
       = undelegate_available (get_prop_i64 s LATEST_BLOCK_HEADER_TIMESTAMP) (ud_resource c)
           (ws_delegation s (a', b', False)) (ws_delegation s (a', b', True)) - ud_balance c"
    using assms(1,2) by (rule undelegate_result)
  have same: "a' = a" "b' = b" "ac = acc" using r(1,2,4) assms(3-5) by auto
  from assms(2) have x: "0 < ud_balance c" and rv: "resource_valid (ud_resource c)"
    and av: "ud_balance c \<le> undelegate_available now (ud_resource c)
      (get_delegation s a b False) (get_delegation s a b True)"
    unfolding undelegate_validate_Inr using assms(3,4,6) by auto
  note ac = wf_state_account [OF assms(1,5)] and od = owner_dsum [OF assms(1,5) rv]
  have "dsum (ud_resource c) (ws_delegation s) a \<le> i64_max"
    using delegated_le(1,3) [OF ac(1) rv] ac(3) od(1) by simp
  from merge_expired_lock_spec [OF od(2) rv this, of b now] obtain d1 where
    "wf_delegations d1" "dsum (ud_resource c) d1 a = owner_delegated acc (ud_resource c)"
    "opt_val (\<lambda>x. rec_frozen x (ud_resource c)) (d1 (a, b, False))
       = undelegate_available now (ud_resource c) (ws_delegation s (a, b, False)) (ws_delegation s (a, b, True))"
    using od(1) rv by metis
  then have "ud_balance c \<le> owner_delegated acc (ud_resource c)"
    using dsum_member(1) [of d1 "ud_resource c" a b False] rv av by (simp add: get_delegation_def)
  note va = undelegating_account_value [OF ac(1,3) rv less_imp_le [OF x] this]
  have del: "ws_delegation s' = d" and acc': "get_account s' a = Some (undelegating_account c acc)"
    by (simp_all add: r(8) same put_account_def get_account_def)
  show ?thesis
    using r(5-7,9,10) same va del acc' assms(6)
    by (intro exI [of _ s'] exI [of _ "undelegating_account c acc"]) (simp add: get_delegation_def)
qed

definition delegation_ledger :: world_state where
  "delegation_ledger = ledger_of
     [(1, (wallet 1 0)\<lparr>acc_frozen_v2 := [\<lparr>fz_type = 0, fz_amount = 5000000\<rparr>]\<rparr>), (2, wallet 2 0)]"

definition delegation_example :: delegate_contract where
  "delegation_example = \<lparr>de_owner_address = as_bytes (addr_of 1), de_receiver_address = as_bytes (addr_of 2),
     de_resource = 0, de_balance = 2000000, de_lock = False, de_lock_period = 0\<rparr>"

lemma delegation_example_runs:
  obtains s' acc' where "delegate_execute delegation_example delegation_ledger = (Inr (ExecutionResult 0), s')"
    "wf_state s'" "get_account s' (addr_of 1) = Some acc'" "frozen_amount acc' 0 = 3000000"
    "opt_val (\<lambda>r. rec_frozen r 0) (get_delegation s' (addr_of 1) (addr_of 2) False) = 2000000"
    "get_delegation s' (addr_of 1) (addr_of 2) True = None"
    "get_prop_i64 s' LATEST_BLOCK_HEADER_TIMESTAMP = 0"
proof -
  let ?acc = "(wallet 1 0)\<lparr>acc_frozen_v2 := [\<lparr>fz_type = 0, fz_amount = 5000000\<rparr>]\<rparr>"
  have w: "wf_state delegation_ledger"
    unfolding delegation_ledger_def
    by (rule ledger_two) (simp_all add: wallet_def account_default_def neutral_simps i64_max_def)
  have g: "get_account delegation_ledger (addr_of 1) = Some ?acc"
    "get_account delegation_ledger (addr_of 2) = Some (wallet 2 0)"
    by (simp_all add: delegation_ledger_def state_simps)
  have nod: "ws_delegation delegation_ledger k = None" for k
    by (simp add: delegation_ledger_def put_account_def ws_empty_def)
  have fz: "frozen_v2_amount ?acc 0 = 5000000"
    by (simp add: frozen_v2_amount_def i64_sat_add_def i64_bounds_defs)
  have v: "delegate_validate delegation_example delegation_ledger = Inr 0"
    unfolding delegate_validate_Inr using g fz
    by (auto simp: delegation_example_def TRX_PRECISION_def resource_valid_def resource_defs
        delegate_lock_check_def wallet_def account_default_def account_type_contract_def)
  have t: "lock_clock_ok delegation_example delegation_ledger"
    by (simp add: lock_clock_ok_def lock_expiry_def delegation_example_def delegation_ledger_def state_simps
        i64_max_def)
  obtain a b acc bcc s' where r: "de_owner_address delegation_example = as_bytes a"
    "de_receiver_address delegation_example = as_bytes b" "get_account delegation_ledger a = Some acc"
    "delegate_execute delegation_example delegation_ledger = (Inr (ExecutionResult 0), s')" "wf_state s'"
    "s' = put_delegation a b (de_lock delegation_example)
       (delegated_record delegation_example a b delegation_ledger)
       (put_account b (add_receiver_acquired (de_resource delegation_example) (de_balance delegation_example) bcc)
         (put_account a (delegating_account delegation_example acc) delegation_ledger))" "a \<noteq> b"
    using delegate_result [OF w v t] by metis
  have ab: "a = addr_of 1" "b = addr_of 2" using r(1,2) by (simp_all add: delegation_example_def)
  then have acc: "acc = ?acc" using r(3) g by simp
  have fa: "frozen_amount (delegating_account delegation_example ?acc) 0 = 3000000"
    using delegating_account_value(4) [of ?acc delegation_example 0] fz
    by (simp add: delegation_example_def resource_valid_def resource_defs wallet_def account_default_def
        neutral_simps i64_max_def frozen_amount_def)
  show ?thesis
  proof (rule that [OF r(4,5)])
    show "get_account s' (addr_of 1) = Some (delegating_account delegation_example ?acc)"
      using ab acc by (simp add: r(6) put_delegation_def put_account_def get_account_def)
    show "frozen_amount (delegating_account delegation_example ?acc) 0 = 3000000" by (rule fa)
    show "opt_val (\<lambda>r. rec_frozen r 0) (get_delegation s' (addr_of 1) (addr_of 2) False) = 2000000"
      "get_delegation s' (addr_of 1) (addr_of 2) True = None"
      using ab nod
      by (simp_all add: r(6) put_delegation_def get_delegation_def delegated_record_def delegation_example_def
          resource_valid_def resource_defs put_account_def)
    show "get_prop_i64 s' LATEST_BLOCK_HEADER_TIMESTAMP = 0"
      by (simp add: r(6) put_delegation_def get_prop_i64_def put_account_def delegation_ledger_def ws_empty_def)
  qed
qed

theorem undelegate_respects_lock_witness:
  "\<exists>s s' acc'. delegate_execute delegation_example delegation_ledger = (Inr (ExecutionResult 0), s)
     \<and> undelegate_execute \<lparr>ud_owner_address = as_bytes (addr_of 1),
         ud_receiver_address = as_bytes (addr_of 2), ud_resource = 0, ud_balance = 500000\<rparr> s
         = (Inr (ExecutionResult 0), s')
     \<and> get_account s' (addr_of 1) = Some acc' \<and> frozen_amount acc' 0 = 3500000"
proof -
  let ?u = "\<lparr>ud_owner_address = as_bytes (addr_of 1), ud_receiver_address = as_bytes (addr_of 2),
    ud_resource = 0, ud_balance = 500000\<rparr>"
  obtain s acc where s: "delegate_execute delegation_example delegation_ledger = (Inr (ExecutionResult 0), s)"
    "wf_state s" "get_account s (addr_of 1) = Some acc" "frozen_amount acc 0 = 3000000"
    "opt_val (\<lambda>r. rec_frozen r 0) (get_delegation s (addr_of 1) (addr_of 2) False) = 2000000"
    "get_delegation s (addr_of 1) (addr_of 2) True = None"
    "get_prop_i64 s LATEST_BLOCK_HEADER_TIMESTAMP = 0"
    by (rule delegation_example_runs)
  from s(5) obtain u where u: "get_delegation s (addr_of 1) (addr_of 2) False = Some u" "rec_frozen u 0 = 2000000"
    by (cases "get_delegation s (addr_of 1) (addr_of 2) False") auto
  have "undelegate_validate ?u s = Inr 0"
    unfolding undelegate_validate_Inr using s u
    by (auto simp: undelegate_available_def resource_valid_def resource_defs i64_bounds_defs)
  from undelegate_respects_lock [OF s(2) this _ _ s(3), of "addr_of 2" 0] s(1,4,7) show ?thesis
    by fastforce
qed

end
