(* ===== verification/Act_Governance.thy ===== *)
theory Act_Governance
  imports Act_Delegate
begin

text \<open>
  Witnesses, votes and committee proposals: \<open>vote.rs\<close>, \<open>witness.rs\<close>, \<open>brokerage.rs\<close>,
  \<open>withdraw.rs\<close>, \<open>permission.rs\<close> and \<open>proposal.rs\<close> of \<open>src/crates/actuators/src\<close>.

  The parameters of a proposal are a hash map in the code; the model keeps its entries as a
  list, in the order the map iterates (which only matters for which bad key is reported).
\<close>

section \<open>Votes\<close>

definition MAX_VOTE_NUMBER :: nat where
  "MAX_VOTE_NUMBER = 30"

record vote_contract =
  vc_owner_address :: bytes
  vc_votes :: "vote list"

definition witness_exists :: "world_state \<Rightarrow> address \<Rightarrow> bool" where
  "witness_exists s a \<longleftrightarrow> ws_witnesses s (as_bytes a) \<noteq> None"

definition tron_power_sun :: "account \<Rightarrow> i64" where
  "tron_power_sun acc = foldl i64_sat_add 0 (map fz_amount (acc_frozen_v2 acc))"

definition vote_parse_address :: "bytes \<Rightarrow> string \<Rightarrow> actuator_error + address" where
  "vote_parse_address bs msg = parse_address msg bs"

fun vote_sum :: "world_state \<Rightarrow> i64 \<Rightarrow> vote list \<Rightarrow> actuator_error + i64" where
  "vote_sum s acc [] = Inr acc"
| "vote_sum s acc (v # vs) =
     rbind (vote_parse_address (vote_address v) ''Invalid vote address!'') (\<lambda>w.
     rbind (ensure (0 < vote_count v) (Validate ''vote count must be greater than 0'')) (\<lambda>_.
     rbind (ensure (witness_exists s w)
       (Validate (''Witness['' @ hex (vote_address v) @ ''] not exists''))) (\<lambda>_.
     rbind (ok_or (i64_checked_add acc (vote_count v)) (Validate ''long overflow'')) (\<lambda>acc'.
     vote_sum s acc' vs))))"

definition vote_validate :: "vote_contract \<Rightarrow> world_state \<Rightarrow> actuator_error + i64" where
  "vote_validate c s =
     rbind (vote_parse_address (vc_owner_address c) ''Invalid address'') (\<lambda>owner.
     rbind (ensure (vc_votes c \<noteq> []) (Validate ''VoteNumber must more than 0'')) (\<lambda>_.
     rbind (ensure (length (vc_votes c) \<le> MAX_VOTE_NUMBER)
       (Validate (''VoteNumber more than maxVoteNumber '' @ nat_to_string MAX_VOTE_NUMBER))) (\<lambda>_.
     rbind (vote_sum s 0 (vc_votes c)) (\<lambda>sum.
     rbind (ok_or (get_account s owner)
       (Validate (''Account['' @ hex (vc_owner_address c) @ ''] not exists''))) (\<lambda>acc.
     let tron_power = tron_power_sun acc in
     rbind (ok_or (i64_checked_mul sum TRX_PRECISION) (Validate ''long overflow'')) (\<lambda>scaled.
     rbind (ensure (scaled \<le> tron_power)
       (Validate (''The total number of votes['' @ i64_to_string scaled
         @ ''] is greater than the tronPower['' @ i64_to_string tron_power @ '']''))) (\<lambda>_.
     Inr 0)))))))"

definition vote_execute :: "vote_contract \<Rightarrow> execution_result act" where
  "vote_execute c =
     modify_owner (\<lambda>bs. vote_parse_address bs ''Invalid address'') (vc_owner_address c)
       (\<lambda>acc. acc\<lparr>acc_votes := vc_votes c\<rparr>)"

section \<open>Witnesses\<close>

definition ACCOUNT_UPGRADE_COST :: string where
  "ACCOUNT_UPGRADE_COST = ''ACCOUNT_UPGRADE_COST''"

definition DEFAULT_ACCOUNT_UPGRADE_COST :: i64 where
  "DEFAULT_ACCOUNT_UPGRADE_COST = 9999000000"

definition MAX_URL_LEN :: nat where
  "MAX_URL_LEN = 256"

definition valid_url :: "bytes \<Rightarrow> bool" where
  "valid_url url \<longleftrightarrow> url \<noteq> [] \<and> length url \<le> MAX_URL_LEN"

definition get_witness :: "world_state \<Rightarrow> address \<Rightarrow> witness option" where
  "get_witness s a = ws_witnesses s (as_bytes a)"

definition put_witness :: "witness \<Rightarrow> world_state \<Rightarrow> world_state" where
  "put_witness w s = s\<lparr>ws_witnesses := (ws_witnesses s)(wit_address w \<mapsto> w)\<rparr>"

definition account_upgrade_cost :: "world_state \<Rightarrow> i64" where
  "account_upgrade_cost s =
     (let cost = get_prop_i64 s ACCOUNT_UPGRADE_COST in
      if 0 < cost then cost else DEFAULT_ACCOUNT_UPGRADE_COST)"

record witness_create_contract =
  wc_owner_address :: bytes
  wc_url :: bytes

definition witness_create_validate ::
  "witness_create_contract \<Rightarrow> world_state \<Rightarrow> actuator_error + i64" where
  "witness_create_validate c s =
     rbind (stake_parse_address (wc_owner_address c)) (\<lambda>owner.
     rbind (ensure (valid_url (wc_url c)) (Validate ''Invalid url'')) (\<lambda>_.
     rbind (ok_or (get_account s owner)
       (Validate (''account['' @ hex (as_bytes owner) @ ''] not exists''))) (\<lambda>acc.
     rbind (ensure (\<not> witness_exists s owner)
       (Validate (''Witness['' @ hex (as_bytes owner) @ ''] has existed''))) (\<lambda>_.
     let cost = account_upgrade_cost s in
     rbind (ensure (cost \<le> acc_balance acc) (Validate ''balance < AccountUpgradeCost'')) (\<lambda>_.
     Inr cost)))))"

definition witness_create_execute :: "witness_create_contract \<Rightarrow> execution_result act" where
  "witness_create_execute c =
     st_bind (st_lift (stake_parse_address (wc_owner_address c))) (\<lambda>owner.
     st_bind (st_gets account_upgrade_cost) (\<lambda>cost.
     st_bind (st_modify (put_witness \<lparr>wit_address = as_bytes owner, wit_vote_count = 0,
       wit_url = from_utf8_lossy (wc_url c), wit_is_jobs = True\<rparr>)) (\<lambda>_.
     st_bind (st_gets (\<lambda>s. get_account s owner)) (\<lambda>oa.
     st_bind (st_lift (ok_or oa (Execute ''owner account missing''))) (\<lambda>acc.
     st_bind (st_lift (checked_debit (acc_balance acc) cost (Execute ''balance is not sufficient''))) (\<lambda>b.
     st_bind (st_modify (put_account owner (acc\<lparr>acc_is_witness := True, acc_balance := b\<rparr>))) (\<lambda>_.
     st_bind (st_modify (burn_trx cost)) (\<lambda>_.
     st_return (ExecutionResult cost)))))))))"

record witness_update_contract =
  wu_owner_address :: bytes
  wu_update_url :: bytes

definition witness_update_validate ::
  "witness_update_contract \<Rightarrow> world_state \<Rightarrow> actuator_error + i64" where
  "witness_update_validate c s =
     rbind (stake_parse_address (wu_owner_address c)) (\<lambda>owner.
     rbind (ensure (account_exists s owner) (Validate ''account does not exist'')) (\<lambda>_.
     rbind (ensure (valid_url (wu_update_url c)) (Validate ''Invalid url'')) (\<lambda>_.
     rbind (ensure (witness_exists s owner) (Validate ''Witness does not exist'')) (\<lambda>_.
     Inr 0))))"

definition witness_update_execute :: "witness_update_contract \<Rightarrow> execution_result act" where
  "witness_update_execute c =
     st_bind (st_lift (stake_parse_address (wu_owner_address c))) (\<lambda>owner.
     st_bind (st_gets (\<lambda>s. get_witness s owner)) (\<lambda>ow.
     st_bind (st_lift (ok_or ow (Execute ''Witness does not exist''))) (\<lambda>w.
     st_bind (st_modify (put_witness (w\<lparr>wit_url := from_utf8_lossy (wu_update_url c)\<rparr>))) (\<lambda>_.
     st_return (ExecutionResult 0)))))"

section \<open>Brokerage and rewards\<close>

definition CHANGE_DELEGATION :: string where
  "CHANGE_DELEGATION = ''CHANGE_DELEGATION''"

record brokerage_contract =
  br_owner_address :: bytes
  br_brokerage :: int

definition brokerage_validate ::
  "(bytes \<Rightarrow> string) \<Rightarrow> brokerage_contract \<Rightarrow> world_state \<Rightarrow> actuator_error + i64" where
  "brokerage_validate hex_encode c s =
     rbind (require_feature s CHANGE_DELEGATION
       ''contract type error, unexpected type [UpdateBrokerageContract]'') (\<lambda>_.
     rbind (stake_parse_address (br_owner_address c)) (\<lambda>owner.
     rbind (ensure (0 \<le> br_brokerage c \<and> br_brokerage c \<le> 100)
       (Validate ''brokerage must be in the range of [0, 100]'')) (\<lambda>_.
     rbind (ensure (witness_exists s owner)
       (Validate (''Account['' @ to_hex hex_encode owner @ ''] is not a witness''))) (\<lambda>_.
     Inr 0))))"

definition brokerage_execute :: "brokerage_contract \<Rightarrow> execution_result act" where
  "brokerage_execute c =
     st_bind (st_lift (stake_parse_address (br_owner_address c))) (\<lambda>owner.
     st_bind (st_modify (put_brokerage owner (br_brokerage c))) (\<lambda>_.
     st_return (ExecutionResult 0)))"

definition WITHDRAW_INTERVAL_MS :: i64 where
  "WITHDRAW_INTERVAL_MS = 24 * 60 * 60 * 1000"

record withdraw_contract =
  wb_owner_address :: bytes

definition withdraw_validate :: "withdraw_contract \<Rightarrow> world_state \<Rightarrow> actuator_error + i64" where
  "withdraw_validate c s =
     rbind (stake_parse_address (wb_owner_address c)) (\<lambda>owner.
     rbind (ok_or (get_account s owner) (Validate ''Account does not exist'')) (\<lambda>acc.
     rbind (ensure (0 < acc_allowance acc)
       (Validate ''witnessAccount does not have any allowance'')) (\<lambda>_.
     let now = get_prop_i64 s LATEST_BLOCK_HEADER_TIMESTAMP in
     rbind (ensure (WITHDRAW_INTERVAL_MS \<le> i64_wrap (now - acc_latest_withdraw_time acc))
       (Validate ''The last withdraw time is less than 24 hours'')) (\<lambda>_.
     Inr 0))))"

definition withdraw_execute :: "withdraw_contract \<Rightarrow> execution_result act" where
  "withdraw_execute c =
     st_bind (st_lift (stake_parse_address (wb_owner_address c))) (\<lambda>owner.
     st_bind (st_gets (\<lambda>s. get_prop_i64 s LATEST_BLOCK_HEADER_TIMESTAMP)) (\<lambda>now.
     st_bind (st_gets (\<lambda>s. get_account s owner)) (\<lambda>oa.
     st_bind (st_lift (ok_or oa (Execute ''owner account missing''))) (\<lambda>acc.
     st_bind (st_lift (checked_credit (acc_balance acc) (acc_allowance acc) (Execute ''long overflow''))) (\<lambda>b.
     st_bind (st_modify (put_account owner
       (acc\<lparr>acc_balance := b, acc_allowance := 0, acc_latest_withdraw_time := now\<rparr>))) (\<lambda>_.
     st_return (ExecutionResult 0)))))))"

section \<open>Permissions\<close>

definition MAX_ACTIVE_PERMISSIONS :: nat where
  "MAX_ACTIVE_PERMISSIONS = 8"

definition MAX_KEYS :: nat where
  "MAX_KEYS = 5"

definition permission_parse_address :: "bytes \<Rightarrow> actuator_error + address" where
  "permission_parse_address bs = parse_address ''invalid ownerAddress'' bs"

fun key_weights :: "i64 \<Rightarrow> perm_key list \<Rightarrow> actuator_error + i64" where
  "key_weights acc [] = Inr acc"
| "key_weights acc (k # ks) =
     rbind (ensure (0 < key_weight k) (Validate ''key's weight should be greater than 0'')) (\<lambda>_.
     rbind (ensure (length (key_address k) = ADDRESS_LEN
         \<and> (key_address k \<noteq> [] \<and> hd (key_address k) = ADDRESS_PREFIX))
       (Validate ''key is not a validate address'')) (\<lambda>_.
     rbind (ok_or (i64_checked_add acc (key_weight k)) (Validate ''long overflow'')) (\<lambda>acc'.
     key_weights acc' ks)))"

definition check_permission :: "permission \<Rightarrow> actuator_error + unit" where
  "check_permission p =
     rbind (ensure (\<not> (perm_keys p = [] \<or> MAX_KEYS < length (perm_keys p)))
       (Validate (''number of keys in permission should not be greater than '' @ nat_to_string MAX_KEYS))) (\<lambda>_.
     rbind (ensure (0 < perm_threshold p)
       (Validate ''permission's threshold should be greater than 0'')) (\<lambda>_.
     rbind (key_weights 0 (perm_keys p)) (\<lambda>weight_sum.
     ensure (perm_threshold p \<le> weight_sum)
       (Validate ''sum of all key's weight should not be less than threshold''))))"

record permission_update_contract =
  pu_owner_address :: bytes
  pu_owner :: "permission option"
  pu_witness :: "permission option"
  pu_actives :: "permission list"

fun check_permissions :: "permission list \<Rightarrow> actuator_error + unit" where
  "check_permissions [] = Inr ()"
| "check_permissions (p # ps) = rbind (check_permission p) (\<lambda>_. check_permissions ps)"

definition permission_validate ::
  "permission_update_contract \<Rightarrow> world_state \<Rightarrow> actuator_error + i64" where
  "permission_validate c s =
     rbind (permission_parse_address (pu_owner_address c)) (\<lambda>owner.
     rbind (ok_or (get_account s owner) (Validate ''ownerAddress account does not exist'')) (\<lambda>_.
     rbind (ok_or (pu_owner c) (Validate ''owner permission is missing'')) (\<lambda>owner_perm.
     rbind (check_permission owner_perm) (\<lambda>_.
     rbind (ensure (length (pu_actives c) \<le> MAX_ACTIVE_PERMISSIONS)
       (Validate (''number of active permissions should not be greater than ''
         @ nat_to_string MAX_ACTIVE_PERMISSIONS))) (\<lambda>_.
     rbind (ensure (pu_actives c \<noteq> []) (Validate ''active permission is missing'')) (\<lambda>_.
     rbind (check_permissions (pu_actives c)) (\<lambda>_.
     Inr 0)))))))"

definition permission_execute :: "permission_update_contract \<Rightarrow> execution_result act" where
  "permission_execute c =
     modify_owner permission_parse_address (pu_owner_address c)
       (\<lambda>acc. acc\<lparr>acc_owner_permission := pu_owner c, acc_witness_permission := pu_witness c,
                  acc_active_permission := pu_actives c\<rparr>)"

section \<open>Proposals\<close>

definition LATEST_PROPOSAL_NUM :: string where
  "LATEST_PROPOSAL_NUM = ''LATEST_PROPOSAL_NUM''"

definition MAINTENANCE_TIME_INTERVAL_MS :: i64 where
  "MAINTENANCE_TIME_INTERVAL_MS = 6 * 3600 * 1000"

definition ALLOWED_PARAM_IDS :: "i64 list" where
  "ALLOWED_PARAM_IDS = [0, 1, 2, 3, 4, 5, 6, 7, 8, 9, 10, 11, 12, 13, 14, 15, 16, 17, 18, 19, 20, 21, 22,
     23, 24, 25, 26]"

definition state_pending :: int where
  "state_pending = 0"

definition state_canceled :: int where
  "state_canceled = 3"

definition get_proposal :: "world_state \<Rightarrow> i64 \<Rightarrow> proposal option" where
  "get_proposal s i = ws_proposals s i"

definition put_proposal :: "proposal \<Rightarrow> world_state \<Rightarrow> world_state" where
  "put_proposal p s = s\<lparr>ws_proposals := (ws_proposals s)(prop_id p \<mapsto> p)\<rparr>"

record proposal_create_contract =
  pc_owner_address :: bytes
  pc_parameters :: "(i64 \<times> i64) list"

fun check_parameters :: "(i64 \<times> i64) list \<Rightarrow> actuator_error + unit" where
  "check_parameters [] = Inr ()"
| "check_parameters ((k, v) # ps) =
     rbind (ensure (k \<in> set ALLOWED_PARAM_IDS)
       (Validate (''Bad chain parameter id ['' @ i64_to_string k @ '']''))) (\<lambda>_. check_parameters ps)"

definition proposal_create_validate ::
  "proposal_create_contract \<Rightarrow> world_state \<Rightarrow> actuator_error + i64" where
  "proposal_create_validate c s =
     rbind (stake_parse_address (pc_owner_address c)) (\<lambda>owner.
     rbind (ensure (account_exists s owner)
       (Validate (''Account['' @ hex (as_bytes owner) @ ''] not exists''))) (\<lambda>_.
     rbind (ensure (witness_exists s owner)
       (Validate (''Witness['' @ hex (as_bytes owner) @ ''] not exists''))) (\<lambda>_.
     rbind (ensure (pc_parameters c \<noteq> []) (Validate ''This proposal has no parameter.'')) (\<lambda>_.
     rbind (check_parameters (pc_parameters c)) (\<lambda>_.
     Inr 0)))))"

definition proposal_create_execute :: "proposal_create_contract \<Rightarrow> execution_result act" where
  "proposal_create_execute c =
     st_bind (st_lift (stake_parse_address (pc_owner_address c))) (\<lambda>owner.
     st_bind (st_gets (\<lambda>s. i64_wrap (get_prop_i64 s LATEST_PROPOSAL_NUM + 1))) (\<lambda>i.
     st_bind (st_gets (\<lambda>s. get_prop_i64 s LATEST_BLOCK_HEADER_TIMESTAMP)) (\<lambda>now.
     st_bind (st_lift (checked_credit now MAINTENANCE_TIME_INTERVAL_MS (Execute ''long overflow''))) (\<lambda>expiration.
     st_bind (st_modify (put_proposal
       \<lparr>prop_id = i, prop_proposer = as_bytes owner, prop_parameters = pc_parameters c,
        prop_expiration_time = expiration, prop_create_time = now, prop_approvals = [],
        prop_state = state_pending\<rparr>)) (\<lambda>_.
     st_bind (st_modify (put_prop_i64 LATEST_PROPOSAL_NUM i)) (\<lambda>_.
     st_return (ExecutionResult 0)))))))"

definition proposal_missing :: "i64 \<Rightarrow> string" where
  "proposal_missing i = ''Proposal['' @ i64_to_string i @ ''] not exists''"

text \<open>The checks \<open>Approve\<close> and \<open>Delete\<close> share: the proposal exists; it is neither expired nor canceled.\<close>

definition load_proposal :: "i64 \<Rightarrow> world_state \<Rightarrow> actuator_error + proposal" where
  "load_proposal i s =
     rbind (ensure (i \<le> get_prop_i64 s LATEST_PROPOSAL_NUM) (Validate (proposal_missing i))) (\<lambda>_.
     ok_or (get_proposal s i) (Validate (proposal_missing i)))"

definition check_open :: "i64 \<Rightarrow> proposal \<Rightarrow> world_state \<Rightarrow> actuator_error + unit" where
  "check_open i p s =
     rbind (ensure (get_prop_i64 s LATEST_BLOCK_HEADER_TIMESTAMP < prop_expiration_time p)
       (Validate (''Proposal['' @ i64_to_string i @ ''] expired''))) (\<lambda>_.
     ensure (prop_state p \<noteq> state_canceled)
       (Validate (''Proposal['' @ i64_to_string i @ ''] canceled'')))"

record proposal_approve_contract =
  pa_owner_address :: bytes
  pa_proposal_id :: i64
  pa_is_add_approval :: bool

definition proposal_approve_validate ::
  "proposal_approve_contract \<Rightarrow> world_state \<Rightarrow> actuator_error + i64" where
  "proposal_approve_validate c s =
     rbind (stake_parse_address (pa_owner_address c)) (\<lambda>owner.
     rbind (ensure (account_exists s owner)
       (Validate (''Account['' @ hex (as_bytes owner) @ ''] not exists''))) (\<lambda>_.
     rbind (ensure (witness_exists s owner)
       (Validate (''Witness['' @ hex (as_bytes owner) @ ''] not exists''))) (\<lambda>_.
     let i = pa_proposal_id c in
     rbind (load_proposal i s) (\<lambda>p.
     rbind (check_open i p s) (\<lambda>_.
     let already = as_bytes owner \<in> set (prop_approvals p) in
     if pa_is_add_approval c then
       rbind (ensure (\<not> already) (Validate (''Witness['' @ hex (as_bytes owner) @ '']has approved proposal[''
         @ i64_to_string i @ ''] before''))) (\<lambda>_. Inr 0)
     else
       rbind (ensure already (Validate (''Witness['' @ hex (as_bytes owner) @ '']has not approved proposal[''
         @ i64_to_string i @ ''] before''))) (\<lambda>_. Inr 0))))))"

definition proposal_approve_execute :: "proposal_approve_contract \<Rightarrow> execution_result act" where
  "proposal_approve_execute c =
     st_bind (st_lift (stake_parse_address (pa_owner_address c))) (\<lambda>owner.
     let i = pa_proposal_id c in
     st_bind (st_gets (\<lambda>s. get_proposal s i)) (\<lambda>op.
     st_bind (st_lift (ok_or op (Execute (proposal_missing i)))) (\<lambda>p.
     st_bind (st_modify (put_proposal (p\<lparr>prop_approvals :=
       (if pa_is_add_approval c then prop_approvals p @ [as_bytes owner]
        else filter (\<lambda>a. a \<noteq> as_bytes owner) (prop_approvals p))\<rparr>))) (\<lambda>_.
     st_return (ExecutionResult 0)))))"

record proposal_delete_contract =
  pd_owner_address :: bytes
  pd_proposal_id :: i64

definition proposal_delete_validate ::
  "proposal_delete_contract \<Rightarrow> world_state \<Rightarrow> actuator_error + i64" where
  "proposal_delete_validate c s =
     rbind (stake_parse_address (pd_owner_address c)) (\<lambda>owner.
     rbind (ensure (account_exists s owner)
       (Validate (''Account['' @ hex (as_bytes owner) @ ''] not exists''))) (\<lambda>_.
     let i = pd_proposal_id c in
     rbind (load_proposal i s) (\<lambda>p.
     rbind (ensure (prop_proposer p = as_bytes owner)
       (Validate (''Proposal['' @ i64_to_string i @ ''] is not proposed by '' @ hex (as_bytes owner)))) (\<lambda>_.
     rbind (check_open i p s) (\<lambda>_.
     Inr 0)))))"

definition proposal_delete_execute :: "proposal_delete_contract \<Rightarrow> execution_result act" where
  "proposal_delete_execute c =
     (let i = pd_proposal_id c in
     st_bind (st_gets (\<lambda>s. get_proposal s i)) (\<lambda>op.
     st_bind (st_lift (ok_or op (Execute (proposal_missing i)))) (\<lambda>p.
     st_bind (st_modify (put_proposal (p\<lparr>prop_state := state_canceled\<rparr>))) (\<lambda>_.
     st_return (ExecutionResult 0)))))"

section \<open>Votes and witnesses: what they do\<close>

lemmas [simp] = vote_parse_address_def permission_parse_address_def

lemma vote_sum_Inr:
  "vote_sum s acc vs = Inr t \<Longrightarrow> 0 \<le> acc \<Longrightarrow>
   t = acc + sum_list (map vote_count vs) \<and> 0 \<le> t
   \<and> (\<forall>v\<in>set vs. 0 < vote_count v
        \<and> (\<exists>w. wf_address w \<and> vote_address v = as_bytes w \<and> witness_exists s w))"
proof (induction vs arbitrary: acc)
  case (Cons v vs)
  then show ?case by (fastforce simp: result_simps)
qed simp

lemma tron_power_eq:
  assumes "wf_account acc" and "acc_trx acc \<le> i64_max"
  shows "tron_power_sun acc = stake_sum (acc_frozen_v2 acc)"
proof -
  have "foldl i64_sat_add a xs = a + sum_list xs"
    if "0 \<le> a" "\<forall>x\<in>set xs. 0 \<le> x" "a + sum_list xs \<le> i64_max" for a xs
    using that
  proof (induction xs arbitrary: a)
    case (Cons x xs)
    have "0 \<le> sum_list xs" using Cons.prems(2) by (intro sum_list_nonneg) auto
    with Cons show ?case by (simp add: i64_sat_add_def nonneg_in_i64)
  qed simp
  from this [of 0 "map fz_amount (acc_frozen_v2 acc)"] show ?thesis
    using assms stakes_le [OF assms(1)] by (simp add: tron_power_sun_def wf_account_def)
qed

lemma vote_validate_Inr:
  "vote_validate c s = Inr f \<longleftrightarrow>
     (\<exists>owner acc t. wf_address owner \<and> vc_owner_address c = as_bytes owner \<and> vc_votes c \<noteq> []
       \<and> length (vc_votes c) \<le> MAX_VOTE_NUMBER \<and> vote_sum s 0 (vc_votes c) = Inr t
       \<and> get_account s owner = Some acc \<and> in_i64 (t * TRX_PRECISION)
       \<and> t * TRX_PRECISION \<le> tron_power_sun acc \<and> f = 0)"
  by (auto simp: vote_validate_def result_simps Let_def)

lemma votes_neutral: "neutral (\<lambda>acc. acc\<lparr>acc_votes := v\<rparr>)"
  by (simp add: neutral_simps)

interpretation vote: actuator vote_validate vote_execute "\<lambda>_ _. True"
  by unfold_locales
    (auto simp: vote_validate_Inr vote_execute_def intro!: modify_owner_sound votes_neutral)

lemma permissions_neutral:
  "neutral (\<lambda>acc. acc\<lparr>acc_owner_permission := p, acc_witness_permission := q, acc_active_permission := ps\<rparr>)"
  by (simp add: neutral_simps)

interpretation permission: actuator permission_validate permission_execute "\<lambda>_ _. True"
  by unfold_locales
    (auto simp: permission_validate_def permission_execute_def result_simps
      intro!: modify_owner_sound permissions_neutral)

lemma get_account_frame [state_simps]:
  "get_account (put_witness w s) a = get_account s a"
  "get_account (put_proposal p s) a = get_account s a"
  "get_prop_i64 (put_witness w s) k = get_prop_i64 s k"
  "get_prop_i64 (put_proposal p s) k = get_prop_i64 s k"
  by (simp_all add: put_witness_def put_proposal_def get_account_def get_prop_i64_def)

lemma witness_frame [simp]:
  "wf_state (put_witness w s) = wf_state s" "total_trx (put_witness w s) = total_trx s"
  "wf_state (put_proposal p s) = wf_state s" "total_trx (put_proposal p s) = total_trx s"
  "wf_state (put_brokerage a b s) = wf_state s" "total_trx (put_brokerage a b s) = total_trx s"
  by (simp_all add: put_witness_def put_proposal_def put_brokerage_def)

lemma account_upgrade_cost_pos: "0 < account_upgrade_cost s"
  by (simp add: account_upgrade_cost_def Let_def DEFAULT_ACCOUNT_UPGRADE_COST_def)

lemma witness_create_validate_Inr:
  "witness_create_validate c s = Inr f \<longleftrightarrow>
     (\<exists>owner acc. wf_address owner \<and> wc_owner_address c = as_bytes owner \<and> valid_url (wc_url c)
       \<and> get_account s owner = Some acc \<and> \<not> witness_exists s owner
       \<and> f = account_upgrade_cost s \<and> f \<le> acc_balance acc)"
  by (auto simp: witness_create_validate_def result_simps Let_def)

interpretation witness_create: actuator witness_create_validate witness_create_execute "\<lambda>_ _. True"
proof
  fix s c f
  assume w: "wf_state s" and v: "witness_create_validate c s = Inr f"
  from v obtain owner acc where c: "wf_address owner" "wc_owner_address c = as_bytes owner"
    "get_account s owner = Some acc" and f: "f = account_upgrade_cost s" "f \<le> acc_balance acc"
    unfolding witness_create_validate_Inr by blast
  define wit where "wit = \<lparr>wit_address = as_bytes owner, wit_vote_count = 0,
       wit_url = from_utf8_lossy (wc_url c), wit_is_jobs = True\<rparr>"
  let ?a = "acc\<lparr>acc_is_witness := True\<rparr>"
  let ?s1 = "put_account owner ?a (put_witness wit s)"
  have wa: "wf_account ?a" "acc_trx ?a = acc_trx acc" "same_delegation (Some acc) ?a"
    using wf_state_account(1) [OF w c(3)] by (auto simp: neutral_simps)
  have w0: "wf_state (put_witness wit s)" "get_account (put_witness wit s) owner = Some acc"
    using w c(3) by (simp_all add: state_simps)
  note w1 = put_neutral [OF w0 wa]
  have f0: "0 \<le> f" using account_upgrade_cost_pos [of s] f by simp
  have g1: "get_account ?s1 owner = Some ?a" by (simp add: state_simps)
  have le: "f \<le> acc_balance ?a" using f by simp
  note w2 = move_debit [OF w1(1) g1 f0 le]
  let ?s2 = "put_account owner (?a\<lparr>acc_balance := acc_balance ?a - f\<rparr>) ?s1"
  have "total_trx ?s2 + f \<le> i64_max" using w2(2) w1(2) w by simp
  note w3 = move_burn [OF w2(1) f0 this]
  have "witness_create_execute c s = (Inr (ExecutionResult f), burn_trx f ?s2)"
    using c f w2(3)
    by (simp add: witness_create_execute_def st_bind_def st_prim_simps ok_or_def state_simps
        wit_def [symmetric] checked_debit_ok)
  with w3 w2(2) w1(2) show "\<exists>r s'. witness_create_execute c s = (Inr r, s') \<and> wf_state s'
      \<and> total_trx s' = total_trx s"
    by simp
qed

interpretation witness_update: actuator witness_update_validate witness_update_execute "\<lambda>_ _. True"
  by unfold_locales
    (auto simp: witness_update_validate_def witness_update_execute_def result_simps st_bind_def
      st_prim_simps ok_or_def witness_exists_def get_witness_def)

interpretation brokerage: actuator "brokerage_validate enc" brokerage_execute "\<lambda>_ _. True" for enc
  by unfold_locales
    (auto simp: brokerage_validate_def brokerage_execute_def result_simps st_bind_def st_prim_simps)

lemma withdraw_validate_Inr:
  "withdraw_validate c s = Inr f \<longleftrightarrow>
     (\<exists>owner acc. wf_address owner \<and> wb_owner_address c = as_bytes owner \<and> get_account s owner = Some acc
       \<and> 0 < acc_allowance acc
       \<and> WITHDRAW_INTERVAL_MS \<le> i64_wrap (get_prop_i64 s LATEST_BLOCK_HEADER_TIMESTAMP
            - acc_latest_withdraw_time acc) \<and> f = 0)"
  by (auto simp: withdraw_validate_def result_simps Let_def)

definition rewarded_account :: "i64 \<Rightarrow> account \<Rightarrow> account" where
  "rewarded_account now acc =
     acc\<lparr>acc_balance := acc_balance acc + acc_allowance acc, acc_allowance := 0, acc_latest_withdraw_time := now\<rparr>"

lemma withdraw_result:
  assumes w: "wf_state s" and c: "wf_address owner" "wb_owner_address c = as_bytes owner"
    "get_account s owner = Some acc" and now: "now = get_prop_i64 s LATEST_BLOCK_HEADER_TIMESTAMP"
  shows "withdraw_execute c s = (Inr (ExecutionResult 0), put_account owner (rewarded_account now acc) s)"
    and "wf_state (put_account owner (rewarded_account now acc) s)"
    and "total_trx (put_account owner (rewarded_account now acc) s) = total_trx s"
proof -
  note a = wf_state_account [OF w c(3)]
  have "in_i64 (acc_balance acc + acc_allowance acc)"
    using acc_trx_parts [OF a(1)] a(3) by (intro nonneg_in_i64) (simp_all add: acc_trx_def)
  then show "withdraw_execute c s = (Inr (ExecutionResult 0), put_account owner (rewarded_account now acc) s)"
    using c now by (simp add: withdraw_execute_def st_bind_def st_prim_simps ok_or_def checked_credit_ok
        rewarded_account_def)
  have "wf_account (rewarded_account now acc)" "acc_trx (rewarded_account now acc) = acc_trx acc"
    "same_delegation (Some acc) (rewarded_account now acc)"
    using a(1) by (auto simp: rewarded_account_def neutral_simps)
  from put_neutral [OF w c(3) this]
  show "wf_state (put_account owner (rewarded_account now acc) s)"
    and "total_trx (put_account owner (rewarded_account now acc) s) = total_trx s" .
qed

interpretation withdraw: actuator withdraw_validate withdraw_execute "\<lambda>_ _. True"
proof
  fix s c f
  assume w: "wf_state s" and v: "withdraw_validate c s = Inr f"
  then obtain owner acc where c: "wf_address owner" "wb_owner_address c = as_bytes owner"
    "get_account s owner = Some acc"
    unfolding withdraw_validate_Inr by blast
  from withdraw_result [OF w c refl]
  show "\<exists>r s'. withdraw_execute c s = (Inr r, s') \<and> wf_state s' \<and> total_trx s' = total_trx s"
    by simp
qed

section \<open>Proposals: what they do\<close>

lemma load_proposal_Inr:
  "load_proposal i s = Inr p \<longleftrightarrow> i \<le> get_prop_i64 s LATEST_PROPOSAL_NUM \<and> get_proposal s i = Some p"
  by (auto simp: load_proposal_def result_simps)

lemma check_open_Inr:
  "check_open i p s = Inr u \<longleftrightarrow>
     get_prop_i64 s LATEST_BLOCK_HEADER_TIMESTAMP < prop_expiration_time p \<and> prop_state p \<noteq> state_canceled"
  by (auto simp: check_open_def result_simps)

lemma proposal_approve_validate_Inr:
  "proposal_approve_validate c s = Inr f \<longleftrightarrow>
     (\<exists>owner p. wf_address owner \<and> pa_owner_address c = as_bytes owner \<and> account_exists s owner
       \<and> witness_exists s owner \<and> load_proposal (pa_proposal_id c) s = Inr p
       \<and> check_open (pa_proposal_id c) p s = Inr ()
       \<and> (pa_is_add_approval c \<longleftrightarrow> as_bytes owner \<notin> set (prop_approvals p)) \<and> f = 0)"
  by (auto simp: proposal_approve_validate_def result_simps Let_def)

lemma proposal_delete_validate_Inr:
  "proposal_delete_validate c s = Inr f \<longleftrightarrow>
     (\<exists>owner p. wf_address owner \<and> pd_owner_address c = as_bytes owner \<and> account_exists s owner
       \<and> load_proposal (pd_proposal_id c) s = Inr p \<and> prop_proposer p = as_bytes owner
       \<and> check_open (pd_proposal_id c) p s = Inr () \<and> f = 0)"
  by (auto simp: proposal_delete_validate_def result_simps Let_def)

lemma proposal_create_execute_eq:
  assumes "wf_address owner" and "pc_owner_address c = as_bytes owner"
    and "in_i64 (get_prop_i64 s LATEST_BLOCK_HEADER_TIMESTAMP + MAINTENANCE_TIME_INTERVAL_MS)"
    and "i = i64_wrap (get_prop_i64 s LATEST_PROPOSAL_NUM + 1)"
  shows "proposal_create_execute c s = (Inr (ExecutionResult 0), put_prop_i64 LATEST_PROPOSAL_NUM i
     (put_proposal \<lparr>prop_id = i, prop_proposer = as_bytes owner, prop_parameters = pc_parameters c,
        prop_expiration_time = get_prop_i64 s LATEST_BLOCK_HEADER_TIMESTAMP + MAINTENANCE_TIME_INTERVAL_MS,
        prop_create_time = get_prop_i64 s LATEST_BLOCK_HEADER_TIMESTAMP, prop_approvals = [],
        prop_state = state_pending\<rparr> s))"
  using assms by (simp add: proposal_create_execute_def st_bind_def st_prim_simps checked_credit_ok)

interpretation proposal_create: actuator proposal_create_validate proposal_create_execute
  "\<lambda>_ s. in_i64 (get_prop_i64 s LATEST_BLOCK_HEADER_TIMESTAMP + MAINTENANCE_TIME_INTERVAL_MS)"
proof
  fix s c f
  assume w: "wf_state s" and t: "in_i64 (get_prop_i64 s LATEST_BLOCK_HEADER_TIMESTAMP
      + MAINTENANCE_TIME_INTERVAL_MS)" and v: "proposal_create_validate c s = Inr f"
  then obtain owner where "wf_address owner" "pc_owner_address c = as_bytes owner"
    by (auto simp: proposal_create_validate_def result_simps)
  from proposal_create_execute_eq [OF this t refl] w
  show "\<exists>r s'. proposal_create_execute c s = (Inr r, s') \<and> wf_state s' \<and> total_trx s' = total_trx s"
    by (simp add: LATEST_PROPOSAL_NUM_def prop_keys)
qed

interpretation proposal_approve: actuator proposal_approve_validate proposal_approve_execute "\<lambda>_ _. True"
  by unfold_locales
    (auto simp: proposal_approve_validate_Inr proposal_approve_execute_def load_proposal_Inr st_bind_def
      st_prim_simps ok_or_def Let_def)

interpretation proposal_delete: actuator proposal_delete_validate proposal_delete_execute "\<lambda>_ _. True"
  by unfold_locales
    (auto simp: proposal_delete_validate_Inr proposal_delete_execute_def load_proposal_Inr st_bind_def
      st_prim_simps ok_or_def Let_def)

section \<open>The life of a proposal\<close>

text \<open>
  The steps that touch proposals: an accepted create, approve or delete transaction, and the
  clock moving forward with a new block.
\<close>

inductive gov_step :: "world_state \<Rightarrow> world_state \<Rightarrow> bool" where
  create: "actuate proposal_create_validate proposal_create_execute c s = (Inr r, s') \<Longrightarrow>
    in_i64 (get_prop_i64 s LATEST_PROPOSAL_NUM + 1) \<Longrightarrow> gov_step s s'"
| approve: "actuate proposal_approve_validate proposal_approve_execute c s = (Inr r, s') \<Longrightarrow> gov_step s s'"
| delete: "actuate proposal_delete_validate proposal_delete_execute c s = (Inr r, s') \<Longrightarrow> gov_step s s'"
| tick: "get_prop_i64 s LATEST_BLOCK_HEADER_TIMESTAMP \<le> t \<Longrightarrow>
    gov_step s (put_prop_i64 LATEST_BLOCK_HEADER_TIMESTAMP t s)"

definition wf_proposals :: "world_state \<Rightarrow> bool" where
  "wf_proposals s \<longleftrightarrow> (\<forall>i p. get_proposal s i = Some p \<longrightarrow>
     prop_id p = i \<and> i \<le> get_prop_i64 s LATEST_PROPOSAL_NUM \<and> distinct (prop_approvals p))"

definition closed_proposal :: "world_state \<Rightarrow> proposal \<Rightarrow> bool" where
  "closed_proposal s p \<longleftrightarrow>
     prop_state p = state_canceled
     \<or> prop_expiration_time p \<le> get_prop_i64 s LATEST_BLOCK_HEADER_TIMESTAMP"

lemma get_proposal_put [simp]:
  "get_proposal (put_proposal p s) i = (if i = prop_id p then Some p else get_proposal s i)"
  "get_proposal (put_prop_i64 k v s) i = get_proposal s i"
  by (simp_all add: put_proposal_def get_proposal_def put_prop_i64_def)

lemma actuate_Inr:
  "actuate v x c s = (Inr r, s') \<longleftrightarrow> (\<exists>f. v c s = Inr f) \<and> x c s = (Inr r, s')"
  by (auto simp: actuate_def split: sum.splits)

lemma gov_step_effect:
  assumes "gov_step s s'" and "wf_proposals s"
  shows "wf_proposals s'"
    and "\<And>i p. get_proposal s i = Some p \<Longrightarrow> closed_proposal s p \<Longrightarrow>
      get_proposal s' i = Some p \<and> closed_proposal s' p"
proof -
  have "wf_proposals s' \<and> (\<forall>i p. get_proposal s i = Some p \<and> closed_proposal s p \<longrightarrow>
      get_proposal s' i = Some p \<and> closed_proposal s' p)"
    using assms
  proof (cases rule: gov_step.cases)
    case (create c r)
    then obtain owner e where "pc_owner_address c = as_bytes owner"
      "s' = put_prop_i64 LATEST_PROPOSAL_NUM (get_prop_i64 s LATEST_PROPOSAL_NUM + 1)
        (put_proposal \<lparr>prop_id = get_prop_i64 s LATEST_PROPOSAL_NUM + 1, prop_proposer = as_bytes owner,
           prop_parameters = pc_parameters c, prop_expiration_time = e,
           prop_create_time = get_prop_i64 s LATEST_BLOCK_HEADER_TIMESTAMP, prop_approvals = [],
           prop_state = state_pending\<rparr> s)"
      by (auto simp: actuate_Inr proposal_create_execute_def result_simps st_prim_simps)
    with assms(2) show ?thesis
      by (fastforce simp: wf_proposals_def closed_proposal_def state_simps LATEST_PROPOSAL_NUM_def prop_keys)
  next
    case (approve c r)
    then have v: "\<exists>f. proposal_approve_validate c s = Inr f" and x: "proposal_approve_execute c s = (Inr r, s')"
      by (simp_all add: actuate_Inr)
    from v obtain owner p where o: "wf_address owner" "pa_owner_address c = as_bytes owner"
      and p: "get_proposal s (pa_proposal_id c) = Some p"
      "get_prop_i64 s LATEST_BLOCK_HEADER_TIMESTAMP < prop_expiration_time p" "prop_state p \<noteq> state_canceled"
      "pa_is_add_approval c \<longleftrightarrow> as_bytes owner \<notin> set (prop_approvals p)"
      unfolding proposal_approve_validate_Inr load_proposal_Inr check_open_Inr by blast
    have "s' = put_proposal (p\<lparr>prop_approvals := (if pa_is_add_approval c then prop_approvals p @ [as_bytes owner]
         else filter (\<lambda>a. a \<noteq> as_bytes owner) (prop_approvals p))\<rparr>) s"
      using x o p(1) by (simp add: proposal_approve_execute_def st_bind_def st_prim_simps ok_or_def Let_def)
    with p assms(2) show ?thesis
      by (cases "pa_is_add_approval c")
        (auto simp: wf_proposals_def closed_proposal_def state_simps split: if_splits)
  next
    case (delete c r)
    then show ?thesis
      using assms(2)
      by (auto simp: actuate_Inr proposal_delete_validate_Inr proposal_delete_execute_def load_proposal_Inr
          check_open_Inr result_simps st_prim_simps Let_def wf_proposals_def closed_proposal_def state_simps
          split: if_splits)
  next
    case (tick t)
    with assms(2) show ?thesis
      by (auto simp: wf_proposals_def closed_proposal_def state_simps LATEST_PROPOSAL_NUM_def prop_keys)
  qed
  then show "wf_proposals s'"
    and "\<And>i p. get_proposal s i = Some p \<Longrightarrow> closed_proposal s p \<Longrightarrow>
      get_proposal s' i = Some p \<and> closed_proposal s' p"
    by blast+
qed

section \<open>Properties\<close>

text \<open>
  C12: A closed proposal is final.  Along any sequence of accepted governance transactions and
  blocks, a proposal that has been canceled or has expired is never changed again, no proposal
  is ever overwritten by another, and no witness is counted twice among its approvals.
\<close>

theorem closed_proposal_final:
  assumes "gov_step\<^sup>*\<^sup>* s s'" and "wf_proposals s"
    and "get_proposal s i = Some p" and "closed_proposal s p"
  shows "get_proposal s' i = Some p \<and> closed_proposal s' p \<and> wf_proposals s'"
  using assms
proof (induction rule: rtranclp_induct)
  case (step t u)
  then show ?case using gov_step_effect [of t u] by blast
qed simp

definition gov_ledger :: world_state where
  "gov_ledger = put_prop_i64 LATEST_PROPOSAL_NUM 1 (put_proposal
     \<lparr>prop_id = 1, prop_proposer = as_bytes (addr_of 1), prop_parameters = [(0, 5)],
      prop_expiration_time = 100, prop_create_time = 0, prop_approvals = [], prop_state = state_canceled\<rparr>
     (put_witness \<lparr>wit_address = as_bytes (addr_of 1), wit_vote_count = 0, wit_url = [], wit_is_jobs = True\<rparr>
       (ledger_of [(1, wallet 1 0)])))"

theorem closed_proposal_final_witness:
  "\<exists>s' p. gov_step\<^sup>*\<^sup>* gov_ledger s' \<and> get_prop_i64 s' LATEST_PROPOSAL_NUM = 2
     \<and> get_proposal s' 1 = Some p \<and> prop_state p = state_canceled"
proof -
  let ?c = "\<lparr>pc_owner_address = as_bytes (addr_of 1), pc_parameters = [(0, 7)]\<rparr>"
  define p where "p = \<lparr>prop_id = 1, prop_proposer = as_bytes (addr_of 1), prop_parameters = [(0, 5)],
      prop_expiration_time = 100, prop_create_time = 0, prop_approvals = [], prop_state = state_canceled\<rparr>"
  have k: "get_prop_i64 gov_ledger LATEST_PROPOSAL_NUM = 1"
    "get_prop_i64 gov_ledger LATEST_BLOCK_HEADER_TIMESTAMP = 0"
    by (simp_all add: gov_ledger_def state_simps LATEST_PROPOSAL_NUM_def prop_keys)
  have v: "proposal_create_validate ?c gov_ledger = Inr 0"
    by (simp add: proposal_create_validate_def result_simps account_exists_iff witness_exists_def
        ALLOWED_PARAM_IDS_def gov_ledger_def state_simps put_witness_def put_prop_i64_def put_proposal_def
        get_account_def put_account_def)
  define s' where "s' = snd (proposal_create_execute ?c gov_ledger)"
  have e: "proposal_create_execute ?c gov_ledger = (Inr (ExecutionResult 0), s')"
    "get_prop_i64 s' LATEST_PROPOSAL_NUM = 2"
  proof -
    have "in_i64 (get_prop_i64 gov_ledger LATEST_BLOCK_HEADER_TIMESTAMP + MAINTENANCE_TIME_INTERVAL_MS)"
      "2 = i64_wrap (get_prop_i64 gov_ledger LATEST_PROPOSAL_NUM + 1)"
      unfolding k by (simp_all add: i64_bounds_defs MAINTENANCE_TIME_INTERVAL_MS_def)
    note x = proposal_create_execute_eq [OF wf_addr_of _ this, of ?c 1, simplified]
    show "proposal_create_execute ?c gov_ledger = (Inr (ExecutionResult 0), s')"
      "get_prop_i64 s' LATEST_PROPOSAL_NUM = 2"
      unfolding s'_def x by (simp_all add: state_simps)
  qed
  have "gov_step gov_ledger s'"
    by (rule gov_step.create [of ?c _ "ExecutionResult 0"]) (use v e k in \<open>simp_all add: actuate_def i64_bounds_defs\<close>)
  then have st: "gov_step\<^sup>*\<^sup>* gov_ledger s'" by blast
  have g: "get_proposal gov_ledger i = (if i = 1 then Some p else None)" for i
    by (simp add: gov_ledger_def p_def get_proposal_def put_witness_def put_prop_i64_def put_proposal_def
        put_account_def ws_empty_def)
  then have wf: "wf_proposals gov_ledger" using k by (simp add: wf_proposals_def p_def)
  have "get_proposal s' 1 = Some p"
    using closed_proposal_final [OF st wf, of 1 p] g by (simp add: closed_proposal_def p_def)
  with st e show ?thesis by (auto simp: p_def)
qed

text \<open>
  C13: Votes are backed by stake.  A validated vote executes and replaces the owner's vote list;
  every vote then names an existing witness with a positive count, at most 30 of them, and the
  votes together never exceed the owner's Stake 2.0 balance in whole TRX.
\<close>

theorem votes_backed_by_stake:
  assumes "wf_state s" and "vote_validate c s = Inr f"
    and "vc_owner_address c = as_bytes owner" and "get_account s owner = Some acc"
  shows "\<exists>s' acc'. vote_execute c s = (Inr (ExecutionResult 0), s') \<and> wf_state s'
     \<and> total_trx s' = total_trx s \<and> get_account s' owner = Some acc' \<and> acc_votes acc' = vc_votes c
     \<and> length (acc_votes acc') \<le> MAX_VOTE_NUMBER
     \<and> TRX_PRECISION * sum_list (map vote_count (acc_votes acc')) \<le> sum_list (map fz_amount (acc_frozen_v2 acc'))
     \<and> (\<forall>v\<in>set (acc_votes acc'). 0 < vote_count v
          \<and> (\<exists>w. vote_address v = as_bytes w \<and> witness_exists s w))"
proof -
  from assms(2-4) obtain t where o: "wf_address owner" and t: "vote_sum s 0 (vc_votes c) = Inr t"
    and n: "length (vc_votes c) \<le> MAX_VOTE_NUMBER" and p: "t * TRX_PRECISION \<le> tron_power_sun acc"
    unfolding vote_validate_Inr by auto
  note a = wf_state_account [OF assms(1,4)]
  let ?s = "put_account owner (acc\<lparr>acc_votes := vc_votes c\<rparr>) s"
  have x: "vote_execute c s = (Inr (ExecutionResult 0), ?s)"
    using o assms(3,4) by (simp add: vote_execute_def modify_owner_def st_bind_def st_prim_simps ok_or_def)
  have w: "wf_state ?s" "total_trx ?s = total_trx s"
    using vote.sound [OF assms(1) _ assms(2)] x by auto
  show ?thesis
    using x w vote_sum_Inr [OF t] n p tron_power_eq [OF a(1,3)]
    by (intro exI [of _ ?s] exI [of _ "acc\<lparr>acc_votes := vc_votes c\<rparr>"])
      (auto simp: state_simps algebra_simps)
qed

theorem votes_backed_by_stake_witness:
  "\<exists>s' acc'. vote_execute \<lparr>vc_owner_address = as_bytes (addr_of 1),
        vc_votes = [\<lparr>vote_address = as_bytes (addr_of 2), vote_count = 3\<rparr>]\<rparr>
        (put_witness \<lparr>wit_address = as_bytes (addr_of 2), wit_vote_count = 0, wit_url = [], wit_is_jobs = True\<rparr>
          (ledger_of [(1, staked_wallet)])) = (Inr (ExecutionResult 0), s')
     \<and> get_account s' (addr_of 1) = Some acc' \<and> length (acc_votes acc') = 1"
proof -
  let ?s = "put_witness \<lparr>wit_address = as_bytes (addr_of 2), wit_vote_count = 0, wit_url = [], wit_is_jobs = True\<rparr>
    (ledger_of [(1, staked_wallet)])"
  let ?c = "\<lparr>vc_owner_address = as_bytes (addr_of 1),
    vc_votes = [\<lparr>vote_address = as_bytes (addr_of 2), vote_count = 3\<rparr>]\<rparr>"
  have "wf_state (ledger_of [(1, staked_wallet)])"
    by (rule ledger_one)
      (simp_all add: staked_wallet_def wallet_def account_default_def neutral_simps i64_max_def)
  then have w: "wf_state ?s" by simp
  have g: "get_account ?s (addr_of 1) = Some staked_wallet" by (simp add: state_simps)
  have "vote_validate ?c ?s = Inr 0"
    unfolding vote_validate_Inr using g
    by (auto simp: MAX_VOTE_NUMBER_def result_simps witness_exists_def put_witness_def i64_bounds_defs
        TRX_PRECISION_def tron_power_sun_def staked_wallet_def i64_sat_add_def)
  from votes_backed_by_stake [OF w this _ g] show ?thesis by fastforce
qed

end
