(* ===== verification/Act_Asset.thy ===== *)
theory Act_Asset
  imports Act_Governance
begin

text \<open>
  TRC10 tokens: \<open>asset_issue.rs\<close>, \<open>asset_transfer.rs\<close>, \<open>participate_asset_issue.rs\<close>,
  \<open>unfreeze_asset.rs\<close> and \<open>update_asset.rs\<close> of \<open>src/crates/actuators/src\<close>.
\<close>

section \<open>Issue\<close>

definition ASSET_ISSUE_FEE :: string where
  "ASSET_ISSUE_FEE = ''ASSET_ISSUE_FEE''"

definition DEFAULT_ASSET_ISSUE_FEE :: i64 where
  "DEFAULT_ASSET_ISSUE_FEE = 1024000000"

definition ONE_DAY_NET_LIMIT_KEY :: string where
  "ONE_DAY_NET_LIMIT_KEY = ''ONE_DAY_NET_LIMIT''"

definition DEFAULT_ONE_DAY_NET_LIMIT :: i64 where
  "DEFAULT_ONE_DAY_NET_LIMIT = 57600000000"

definition MAX_ASSET_NAME_LEN :: nat where
  "MAX_ASSET_NAME_LEN = 32"

definition MAX_ASSET_DESCRIPTION_LEN :: nat where
  "MAX_ASSET_DESCRIPTION_LEN = 200"

definition PRECISION_DECIMAL :: int where
  "PRECISION_DECIMAL = 6"

definition MAX_FROZEN_SUPPLY_NUMBER :: nat where
  "MAX_FROZEN_SUPPLY_NUMBER = 10"

definition MIN_FROZEN_SUPPLY_TIME :: i64 where
  "MIN_FROZEN_SUPPLY_TIME = 1"

definition MAX_FROZEN_SUPPLY_TIME :: i64 where
  "MAX_FROZEN_SUPPLY_TIME = 3652"

definition asset_parse_address :: "bytes \<Rightarrow> actuator_error + address" where
  "asset_parse_address bs = parse_address ''Invalid ownerAddress'' bs"

definition valid_readable :: "bytes \<Rightarrow> nat \<Rightarrow> bool" where
  "valid_readable bs mx \<longleftrightarrow> bs \<noteq> [] \<and> length bs \<le> mx \<and> list_all readable_byte bs"

definition valid_description :: "bytes \<Rightarrow> bool" where
  "valid_description desc \<longleftrightarrow> length desc \<le> MAX_ASSET_DESCRIPTION_LEN"

definition ascii_lower :: "byte \<Rightarrow> byte" where
  "ascii_lower b = (if 0x41 \<le> b \<and> b \<le> 0x5a then b + 0x20 else b)"

definition eq_ignore_ascii_case :: "bytes \<Rightarrow> bytes \<Rightarrow> bool" where
  "eq_ignore_ascii_case a b \<longleftrightarrow> map ascii_lower a = map ascii_lower b"

definition asset_issue_fee :: "world_state \<Rightarrow> i64" where
  "asset_issue_fee s =
     (let f = get_prop_i64 s ASSET_ISSUE_FEE in if 0 < f then f else DEFAULT_ASSET_ISSUE_FEE)"

definition one_day_net_limit :: "world_state \<Rightarrow> i64" where
  "one_day_net_limit s =
     (let v = get_prop_i64 s ONE_DAY_NET_LIMIT_KEY in if 0 < v then v else DEFAULT_ONE_DAY_NET_LIMIT)"

fun check_frozen_supply :: "i64 \<Rightarrow> frozen_supply list \<Rightarrow> actuator_error + unit" where
  "check_frozen_supply remain [] = Inr ()"
| "check_frozen_supply remain (f # fs) =
     rbind (ensure (0 < fs_amount f) (Validate ''Frozen supply must be greater than 0!'')) (\<lambda>_.
     rbind (ensure (fs_amount f \<le> remain) (Validate ''Frozen supply cannot exceed total supply'')) (\<lambda>_.
     rbind (ensure (MIN_FROZEN_SUPPLY_TIME \<le> fs_days f \<and> fs_days f \<le> MAX_FROZEN_SUPPLY_TIME)
       (Validate (''frozenDuration must be less than '' @ i64_to_string MAX_FROZEN_SUPPLY_TIME
         @ '' days and more than '' @ i64_to_string MIN_FROZEN_SUPPLY_TIME @ '' days''))) (\<lambda>_.
     check_frozen_supply (i64_wrap (remain - fs_amount f)) fs)))"

text \<open>The checks on the token's own fields, in the order of the code.\<close>

definition check_asset_text :: "asset_issue \<Rightarrow> actuator_error + unit" where
  "check_asset_text c =
     rbind (ensure (valid_readable (ai_name c) MAX_ASSET_NAME_LEN) (Validate ''Invalid assetName'')) (\<lambda>_.
     rbind (ensure (\<not> eq_ignore_ascii_case (ai_name c) (bytes_of_string ''trx''))
       (Validate ''assetName can't be trx'')) (\<lambda>_.
     rbind (ensure (\<not> (ai_precision c \<noteq> 0 \<and> (ai_precision c < 0 \<or> PRECISION_DECIMAL < ai_precision c)))
       (Validate ''precision cannot exceed 6'')) (\<lambda>_.
     rbind (ensure (\<not> (ai_abbr c \<noteq> [] \<and> \<not> valid_readable (ai_abbr c) MAX_ASSET_NAME_LEN))
       (Validate ''Invalid abbreviation for token'')) (\<lambda>_.
     rbind (ensure (valid_url (ai_url c)) (Validate ''Invalid url'')) (\<lambda>_.
     ensure (valid_description (ai_description c)) (Validate ''Invalid description''))))))"

definition check_asset_sale :: "i64 \<Rightarrow> asset_issue \<Rightarrow> actuator_error + unit" where
  "check_asset_sale now c =
     rbind (ensure (ai_start_time c \<noteq> 0) (Validate ''Start time should be not empty'')) (\<lambda>_.
     rbind (ensure (ai_end_time c \<noteq> 0) (Validate ''End time should be not empty'')) (\<lambda>_.
     rbind (ensure (ai_start_time c < ai_end_time c)
       (Validate ''End time should be greater than start time'')) (\<lambda>_.
     rbind (ensure (now < ai_start_time c)
       (Validate ''Start time should be greater than HeadBlockTime'')) (\<lambda>_.
     rbind (ensure (0 < ai_total_supply c) (Validate ''TotalSupply must greater than 0!'')) (\<lambda>_.
     rbind (ensure (0 < ai_trx_num c) (Validate ''TrxNum must greater than 0!'')) (\<lambda>_.
     rbind (ensure (0 < ai_num c) (Validate ''Num must greater than 0!'')) (\<lambda>_.
     rbind (ensure (ai_public_free_asset_net_usage c = 0)
       (Validate ''PublicFreeAssetNetUsage must be 0!'')) (\<lambda>_.
     ensure (length (ai_frozen_supply c) \<le> MAX_FROZEN_SUPPLY_NUMBER)
       (Validate ''Frozen supply list length is too long'')))))))))"

definition check_net_limits :: "i64 \<Rightarrow> i64 \<Rightarrow> i64 \<Rightarrow> actuator_error + unit" where
  "check_net_limits day_limit free public =
     rbind (ensure (\<not> (free < 0 \<or> day_limit \<le> free)) (Validate ''Invalid FreeAssetNetLimit'')) (\<lambda>_.
     ensure (\<not> (public < 0 \<or> day_limit \<le> public)) (Validate ''Invalid PublicFreeAssetNetLimit''))"

definition asset_issue_validate :: "asset_issue \<Rightarrow> world_state \<Rightarrow> actuator_error + i64" where
  "asset_issue_validate c s =
     rbind (asset_parse_address (ai_owner_address c)) (\<lambda>owner.
     rbind (check_asset_text c) (\<lambda>_.
     rbind (check_asset_sale (get_prop_i64 s LATEST_BLOCK_HEADER_TIMESTAMP) c) (\<lambda>_.
     rbind (check_net_limits (one_day_net_limit s) (ai_free_asset_net_limit c)
       (ai_public_free_asset_net_limit c)) (\<lambda>_.
     rbind (check_frozen_supply (ai_total_supply c) (ai_frozen_supply c)) (\<lambda>_.
     rbind (ok_or (get_account s owner) (Validate ''Account not exists'')) (\<lambda>acc.
     rbind (ensure (acc_asset_issued_id acc = []) (Validate ''An account can only issue one asset'')) (\<lambda>_.
     let fee = asset_issue_fee s in
     rbind (ensure (fee \<le> acc_balance acc) (Validate ''No enough balance for fee!'')) (\<lambda>_.
     Inr fee))))))))"

text \<open>Split the supply into frozen entries and the remainder.\<close>

fun split_supply :: "i64 \<Rightarrow> i64 \<Rightarrow> frozen list \<Rightarrow> frozen_supply list \<Rightarrow> actuator_error + i64 \<times> frozen list" where
  "split_supply start remain acc [] = Inr (remain, acc)"
| "split_supply start remain acc (f # fs) =
     rbind (checked_credit start
       (case i64_checked_mul (fs_days f) FROZEN_PERIOD_MS of Some d \<Rightarrow> d | None \<Rightarrow> i64_max)
       (Execute ''long overflow'')) (\<lambda>expire_time.
     split_supply start (i64_wrap (remain - fs_amount f))
       (acc @ [\<lparr>fr_balance = fs_amount f, fr_expire_time = expire_time\<rparr>]) fs)"

definition asset_issue_execute :: "asset_issue \<Rightarrow> execution_result act" where
  "asset_issue_execute c =
     st_bind (st_lift (asset_parse_address (ai_owner_address c))) (\<lambda>owner.
     st_bind (st_gets asset_issue_fee) (\<lambda>fee.
     st_bind (st_gets (\<lambda>s. fst (allocate_token_id s))) (\<lambda>i.
     st_bind (st_modify (\<lambda>s. snd (allocate_token_id s))) (\<lambda>_.
     st_bind (st_modify (put_asset_issue i (c\<lparr>ai_id := i64_to_string i\<rparr>))) (\<lambda>_.
     st_bind (st_gets (\<lambda>s. get_account s owner)) (\<lambda>oa.
     st_bind (st_lift (ok_or oa (Execute ''owner account missing''))) (\<lambda>acc.
     st_bind (st_lift (checked_debit (acc_balance acc) fee (Execute ''balance is not sufficient''))) (\<lambda>b.
     st_bind (st_modify (burn_trx fee)) (\<lambda>_.
     st_bind (st_lift (split_supply (ai_start_time c) (ai_total_supply c) (acc_frozen_supply acc)
       (ai_frozen_supply c))) (\<lambda>(remain, frozen).
     st_bind (st_modify (put_account owner
       ((set_asset_v2_balance i remain (acc\<lparr>acc_balance := b, acc_frozen_supply := frozen\<rparr>))
          \<lparr>acc_asset_issued_id := bytes_of_string (i64_to_string i), acc_asset_issued_name := ai_name c\<rparr>))) (\<lambda>_.
     st_return (ExecutionResult fee))))))))))))"

section \<open>Transfer\<close>

definition TRANSFER_ASSET_FEE :: i64 where
  "TRANSFER_ASSET_FEE = 0"

record asset_transfer_contract =
  at_asset_name :: bytes
  at_owner_address :: bytes
  at_to_address :: bytes
  at_amount :: i64

definition asset_key :: "asset_transfer_contract \<Rightarrow> string" where
  "asset_key c = from_utf8_lossy (at_asset_name c)"

definition token_of :: "account \<Rightarrow> string \<Rightarrow> i64" where
  "token_of acc k = (case acc_asset_v2 acc k of Some v \<Rightarrow> v | None \<Rightarrow> 0)"

definition set_token :: "string \<Rightarrow> i64 \<Rightarrow> account \<Rightarrow> account" where
  "set_token k v acc = acc\<lparr>acc_asset_v2 := (acc_asset_v2 acc)(k \<mapsto> v)\<rparr>"

text \<open>The fee: what a missing target costs, and that an existing one can take the credit.\<close>

definition asset_transfer_fee ::
  "asset_transfer_contract \<Rightarrow> account \<Rightarrow> address \<Rightarrow> world_state \<Rightarrow> actuator_error + i64" where
  "asset_transfer_fee c owner_account to s =
     (case get_account s to of
        Some to_account \<Rightarrow>
          (case acc_asset_v2 to_account (asset_key c) of
             Some to_balance \<Rightarrow>
               rbind (ok_or (i64_checked_add to_balance (at_amount c)) (Validate ''long overflow''))
                 (\<lambda>_. Inr TRANSFER_ASSET_FEE)
           | None \<Rightarrow> Inr TRANSFER_ASSET_FEE)
      | None \<Rightarrow>
          let fee = i64_wrap (TRANSFER_ASSET_FEE + get_prop_i64 s CREATE_NEW_ACCOUNT_FEE_IN_SYSTEM_CONTRACT) in
          rbind (ensure (fee \<le> acc_balance owner_account)
            (Validate ''Validate TransferAssetActuator error, insufficient fee.'')) (\<lambda>_. Inr fee))"

definition asset_transfer_validate ::
  "asset_transfer_contract \<Rightarrow> world_state \<Rightarrow> actuator_error + i64" where
  "asset_transfer_validate c s =
     rbind (account_parse_address ''ownerAddress'' (at_owner_address c)) (\<lambda>owner.
     rbind (account_parse_address ''toAddress'' (at_to_address c)) (\<lambda>to.
     let amount = at_amount c in
     rbind (ensure (0 < amount) (Validate ''Amount must be greater than 0.'')) (\<lambda>_.
     rbind (ensure (owner \<noteq> to) (Validate ''Cannot transfer asset to yourself.'')) (\<lambda>_.
     rbind (ok_or (get_account s owner) (Validate ''No owner account!'')) (\<lambda>owner_account.
     let asset_balance = token_of owner_account (asset_key c) in
     rbind (ensure (0 < asset_balance) (Validate ''assetBalance must be greater than 0.'')) (\<lambda>_.
     rbind (ensure (amount \<le> asset_balance) (Validate ''assetBalance is not sufficient.'')) (\<lambda>_.
     asset_transfer_fee c owner_account to s)))))))"

definition asset_transfer_execute :: "asset_transfer_contract \<Rightarrow> execution_result act" where
  "asset_transfer_execute c =
     st_bind (st_lift (account_parse_address ''ownerAddress'' (at_owner_address c))) (\<lambda>owner.
     st_bind (st_lift (account_parse_address ''toAddress'' (at_to_address c))) (\<lambda>to.
     let amount = at_amount c; key = asset_key c in
     st_bind (st_gets (\<lambda>s. account_exists s to)) (\<lambda>present.
     st_bind (if present then st_return TRANSFER_ASSET_FEE
       else st_bind (st_modify (\<lambda>s. snd (create_account to s))) (\<lambda>_.
         st_gets (\<lambda>s. i64_wrap (TRANSFER_ASSET_FEE
           + get_prop_i64 s CREATE_NEW_ACCOUNT_FEE_IN_SYSTEM_CONTRACT)))) (\<lambda>fee.
     st_bind (st_gets (\<lambda>s. get_account s owner)) (\<lambda>oa.
     st_bind (st_lift (ok_or oa (Execute ''owner account missing''))) (\<lambda>owner_account.
     st_bind (st_lift (checked_debit (token_of owner_account key) amount
       (Execute ''reduceAssetAmount failed !''))) (\<lambda>new_owner_asset.
     st_bind (st_lift (checked_debit (acc_balance owner_account) fee
       (Execute ''Validate TransferAssetActuator error, insufficient fee.''))) (\<lambda>b.
     st_bind (st_modify (put_account owner ((set_token key new_owner_asset owner_account)\<lparr>acc_balance := b\<rparr>))) (\<lambda>_.
     st_bind (st_gets (\<lambda>s. get_account s to)) (\<lambda>ta.
     st_bind (st_lift (ok_or ta (Execute ''to account missing''))) (\<lambda>to_account.
     st_bind (st_lift (checked_credit (token_of to_account key) amount (Execute ''long overflow''))) (\<lambda>new_to_asset.
     st_bind (st_modify (put_account to (set_token key new_to_asset to_account))) (\<lambda>_.
     st_bind (st_modify (burn_fee fee)) (\<lambda>_.
     st_return (ExecutionResult fee)))))))))))))))"

section \<open>Participate in a sale\<close>

record participate_contract =
  pt_owner_address :: bytes
  pt_to_address :: bytes
  pt_asset_name :: bytes
  pt_amount :: i64

text \<open>
  The division is by the issued token's \<open>trx_num\<close>, which issuing makes positive
  (\<open>wf_assets\<close> below).
\<close>

definition exchange_amount :: "i64 \<Rightarrow> int \<Rightarrow> int \<Rightarrow> actuator_error + i64" where
  "exchange_amount amount num trx_num =
     ok_or (i64_checked ((amount * num) sdiv trx_num)) (Validate ''long overflow'')"

definition no_asset_named :: "bytes \<Rightarrow> string" where
  "no_asset_named bs = ''No asset named '' @ from_utf8_lossy bs"

definition participate_validate :: "participate_contract \<Rightarrow> world_state \<Rightarrow> actuator_error + i64" where
  "participate_validate c s =
     rbind (account_parse_address ''ownerAddress'' (pt_owner_address c)) (\<lambda>owner.
     rbind (account_parse_address ''toAddress'' (pt_to_address c)) (\<lambda>to.
     rbind (ensure (0 < pt_amount c) (Validate ''Amount must greater than 0!'')) (\<lambda>_.
     rbind (ensure (owner \<noteq> to) (Validate ''Cannot participate asset Issue yourself !'')) (\<lambda>_.
     rbind (ok_or (get_account s owner) (Validate ''Account does not exist!'')) (\<lambda>owner_account.
     rbind (ensure (pt_amount c \<le> acc_balance owner_account) (Validate ''No enough balance !'')) (\<lambda>_.
     rbind (ok_or (parse_id (pt_asset_name c)) (Validate (no_asset_named (pt_asset_name c)))) (\<lambda>i.
     rbind (ok_or (get_asset_issue s i) (Validate (no_asset_named (pt_asset_name c)))) (\<lambda>asset.
     rbind (ensure (ai_owner_address asset = as_bytes to)
       (Validate (''The asset is not issued by '' @ hex (as_bytes to)))) (\<lambda>_.
     let now = get_prop_i64 s LATEST_BLOCK_HEADER_TIMESTAMP in
     rbind (ensure (\<not> (ai_end_time asset \<le> now \<or> now < ai_start_time asset))
       (Validate ''No longer valid period!'')) (\<lambda>_.
     rbind (exchange_amount (pt_amount c) (ai_num asset) (ai_trx_num asset)) (\<lambda>exchange.
     rbind (ensure (0 < exchange) (Validate ''Can not process the exchange!'')) (\<lambda>_.
     rbind (ok_or (get_account s to) (Validate ''To account does not exist!'')) (\<lambda>to_account.
     rbind (ensure (exchange \<le> asset_v2_balance to_account i)
       (Validate ''Asset balance is not enough !'')) (\<lambda>_.
     Inr 0))))))))))))))"

text \<open>The text of a wrapped error (\<open>format!("{e:?}")\<close>) is a parameter.\<close>

definition participate_execute ::
  "(actuator_error \<Rightarrow> string) \<Rightarrow> participate_contract \<Rightarrow> execution_result act" where
  "participate_execute debug_text c =
     st_bind (st_lift (account_parse_address ''ownerAddress'' (pt_owner_address c))) (\<lambda>owner.
     st_bind (st_lift (account_parse_address ''toAddress'' (pt_to_address c))) (\<lambda>to.
     st_bind (st_lift (ok_or (parse_id (pt_asset_name c)) (Execute ''bad asset name''))) (\<lambda>i.
     st_bind (st_gets (\<lambda>s. get_asset_issue s i)) (\<lambda>oasset.
     st_bind (st_lift (ok_or oasset (Execute ''asset record missing''))) (\<lambda>asset.
     st_bind (st_lift (case exchange_amount (pt_amount c) (ai_num asset) (ai_trx_num asset) of
       Inl e \<Rightarrow> Inl (Execute (debug_text e)) | Inr x \<Rightarrow> Inr x)) (\<lambda>exchange.
     st_bind (st_gets (\<lambda>s. get_account s owner)) (\<lambda>oa.
     st_bind (st_lift (ok_or oa (Execute ''owner account missing''))) (\<lambda>owner_account.
     st_bind (st_lift (checked_debit (acc_balance owner_account) (pt_amount c)
       (Execute ''balance is not sufficient''))) (\<lambda>ob.
     st_bind (st_lift (checked_credit (asset_v2_balance owner_account i) exchange
       (Execute ''long overflow''))) (\<lambda>new_owner_tokens.
     st_bind (st_gets (\<lambda>s. get_account s to)) (\<lambda>ta.
     st_bind (st_lift (ok_or ta (Execute ''to account missing''))) (\<lambda>to_account.
     st_bind (st_lift (checked_credit (acc_balance to_account) (pt_amount c)
       (Execute ''long overflow''))) (\<lambda>tb.
     st_bind (st_lift (checked_debit (asset_v2_balance to_account i) exchange
       (Execute ''reduceAssetAmount failed !''))) (\<lambda>new_to_tokens.
     st_bind (st_modify (put_account owner
       (set_asset_v2_balance i new_owner_tokens (owner_account\<lparr>acc_balance := ob\<rparr>)))) (\<lambda>_.
     st_bind (st_modify (put_account to
       (set_asset_v2_balance i new_to_tokens (to_account\<lparr>acc_balance := tb\<rparr>)))) (\<lambda>_.
     st_return (ExecutionResult 0)))))))))))))))))"

section \<open>Unfreeze the frozen supply\<close>

record unfreeze_asset_contract =
  ua_owner_address :: bytes

definition unfreeze_asset_validate :: "unfreeze_asset_contract \<Rightarrow> world_state \<Rightarrow> actuator_error + i64" where
  "unfreeze_asset_validate c s =
     rbind (stake_parse_address (ua_owner_address c)) (\<lambda>owner.
     rbind (ok_or (get_account s owner)
       (Validate (''Account['' @ hex (as_bytes owner) @ ''] does not exist''))) (\<lambda>acc.
     rbind (ensure (acc_frozen_supply acc \<noteq> []) (Validate ''no frozen supply balance'')) (\<lambda>_.
     rbind (ensure (acc_asset_issued_id acc \<noteq> [])
       (Validate ''this account has not issued any asset'')) (\<lambda>_.
     let now = get_prop_i64 s LATEST_BLOCK_HEADER_TIMESTAMP in
     rbind (ensure (list_ex (\<lambda>f. fr_expire_time f \<le> now) (acc_frozen_supply acc))
       (Validate ''It's not time to unfreeze asset supply'')) (\<lambda>_.
     Inr 0)))))"

fun split_matured :: "i64 \<Rightarrow> i64 \<Rightarrow> frozen list \<Rightarrow> frozen list \<Rightarrow> actuator_error + i64 \<times> frozen list" where
  "split_matured now amount remaining [] = Inr (amount, remaining)"
| "split_matured now amount remaining (f # fs) =
     (if fr_expire_time f \<le> now
      then rbind (checked_credit amount (fr_balance f) (Execute ''long overflow''))
             (\<lambda>a. split_matured now a remaining fs)
      else split_matured now amount (remaining @ [f]) fs)"

definition unfreeze_asset_execute :: "unfreeze_asset_contract \<Rightarrow> execution_result act" where
  "unfreeze_asset_execute c =
     st_bind (st_lift (stake_parse_address (ua_owner_address c))) (\<lambda>owner.
     st_bind (st_gets (\<lambda>s. get_prop_i64 s LATEST_BLOCK_HEADER_TIMESTAMP)) (\<lambda>now.
     st_bind (st_gets (\<lambda>s. get_account s owner)) (\<lambda>oa.
     st_bind (st_lift (ok_or oa (Execute ''owner account missing''))) (\<lambda>acc.
     st_bind (st_lift (ok_or (parse_id (acc_asset_issued_id acc)) (Execute ''owner has no issued asset''))) (\<lambda>i.
     st_bind (st_lift (split_matured now 0 [] (acc_frozen_supply acc))) (\<lambda>(amount, remaining).
     st_bind (st_lift (checked_credit (asset_v2_balance acc i) amount (Execute ''long overflow''))) (\<lambda>b.
     st_bind (st_modify (put_account owner
       ((set_asset_v2_balance i b acc)\<lparr>acc_frozen_supply := remaining\<rparr>))) (\<lambda>_.
     st_return (ExecutionResult 0)))))))))"

section \<open>Update the token record\<close>

record update_asset_contract =
  up_owner_address :: bytes
  up_description :: bytes
  up_url :: bytes
  up_new_limit :: i64
  up_new_public_limit :: i64

definition update_asset_validate :: "update_asset_contract \<Rightarrow> world_state \<Rightarrow> actuator_error + i64" where
  "update_asset_validate c s =
     rbind (asset_parse_address (up_owner_address c)) (\<lambda>owner.
     rbind (ok_or (get_account s owner) (Validate ''Account does not exist'')) (\<lambda>acc.
     rbind (ensure (acc_asset_issued_id acc \<noteq> []) (Validate ''Account has not issued any asset'')) (\<lambda>_.
     rbind (ok_or (parse_id (acc_asset_issued_id acc)) (Validate ''Account has not issued any asset'')) (\<lambda>i.
     rbind (ok_or (get_asset_issue s i) (Validate ''Asset is not existed in AssetIssueV2Store'')) (\<lambda>_.
     rbind (ensure (valid_url (up_url c)) (Validate ''Invalid url'')) (\<lambda>_.
     rbind (ensure (valid_description (up_description c)) (Validate ''Invalid description'')) (\<lambda>_.
     rbind (check_net_limits (one_day_net_limit s) (up_new_limit c) (up_new_public_limit c)) (\<lambda>_.
     Inr 0))))))))"

definition update_asset_execute :: "update_asset_contract \<Rightarrow> execution_result act" where
  "update_asset_execute c =
     st_bind (st_lift (asset_parse_address (up_owner_address c))) (\<lambda>owner.
     st_bind (st_gets (\<lambda>s. get_account s owner)) (\<lambda>oa.
     st_bind (st_lift (ok_or oa (Execute ''owner account missing''))) (\<lambda>acc.
     st_bind (st_lift (ok_or (parse_id (acc_asset_issued_id acc)) (Execute ''owner has no issued asset''))) (\<lambda>i.
     st_bind (st_gets (\<lambda>s. get_asset_issue s i)) (\<lambda>oasset.
     st_bind (st_lift (ok_or oasset (Execute ''asset record missing''))) (\<lambda>asset.
     st_bind (st_modify (put_asset_issue i
       (asset\<lparr>ai_free_asset_net_limit := up_new_limit c, ai_public_free_asset_net_limit := up_new_public_limit c,
              ai_url := up_url c, ai_description := up_description c\<rparr>))) (\<lambda>_.
     st_return (ExecutionResult 0))))))))"

section \<open>Token balances\<close>

lemmas [simp] = asset_parse_address_def

lemma asset_v2_token:
  "asset_v2_balance acc i = token_of acc (i64_to_string i)"
  "set_asset_v2_balance i v acc = set_token (i64_to_string i) v acc"
  by (simp_all add: asset_v2_balance_def set_asset_v2_balance_def token_of_def set_token_def)

lemma token_of_set [simp]:
  "token_of (set_token k v acc) k' = (if k' = k then v else token_of acc k')"
  "token_of (acc\<lparr>acc_balance := b\<rparr>) k = token_of acc k"
  "acc_balance (set_token k v acc) = acc_balance acc"
  by (simp_all add: token_of_def set_token_def)

lemma set_token_value:
  "acc_trx (set_token k v acc) = acc_trx acc"
  "wf_account acc \<Longrightarrow> 0 \<le> v \<Longrightarrow> v \<le> i64_max \<Longrightarrow> wf_account (set_token k v acc)"
  "same_delegation old (set_token k v acc) = same_delegation old acc"
  by (simp_all add: set_token_def acc_trx_def wf_account_def same_delegation_def delegated_energy_def)

lemma same_delegation_simps [simp]:
  "same_delegation (Some acc) acc"
  "same_delegation old (acc\<lparr>acc_balance := b\<rparr>) = same_delegation old acc"
  by (simp_all add: same_delegation_def delegated_energy_def)

lemma token_of_bounds: "wf_account acc \<Longrightarrow> 0 \<le> token_of acc k \<and> token_of acc k \<le> i64_max"
  by (auto simp: token_of_def wf_account_def i64_max_def split: option.splits)

text \<open>How much of a token all accounts hold together.\<close>

definition token_total :: "string \<Rightarrow> world_state \<Rightarrow> int" where
  "token_total k s = msum (\<lambda>acc. token_of acc k) (ws_accounts s)"

lemma token_total_put:
  "wf_state s \<Longrightarrow> token_total k (put_account a acc s)
     = token_total k s - opt_val (\<lambda>acc. token_of acc k) (get_account s a) + token_of acc k"
  by (simp add: token_total_def put_account_def wf_state_def msum_upd get_account_def)

lemma token_total_put2:
  assumes "finite (dom (ws_accounts s))" and "get_account s a = Some x" and "get_account s b = Some y" and "a \<noteq> b"
  shows "token_total k (put_account b y' (put_account a x' s))
     = token_total k s - token_of x k + token_of x' k - token_of y k + token_of y' k"
  using assms by (simp add: token_total_def put_account_def msum_upd get_account_def)

lemma token_total_frame [simp]:
  "token_total k (put_prop_i64 p v s) = token_total k s"
  "token_total k (burn_trx x s) = token_total k s" "token_total k (burn_fee x s) = token_total k s"
  by (simp_all add: token_total_def put_prop_i64_def burn_trx_def burn_fee_def)

lemma new_account_tokens [simp]: "acc_asset_v2 (new_account a s) = Map.empty" "token_of (new_account a s) k = 0"
  by (simp_all add: new_account_def account_default_def token_of_def)

lemma token_total_with_account [simp]:
  "wf_state s \<Longrightarrow> token_total k (with_account a s) = token_total k s"
  by (auto simp: with_account_def token_total_put account_exists_iff split: if_splits)

section \<open>Transfer: what it does\<close>

lemma asset_transfer_fee_Inr:
  "asset_transfer_fee c acc to s = Inr f \<longleftrightarrow>
     (\<forall>tacc v. get_account s to = Some tacc \<and> acc_asset_v2 tacc (asset_key c) = Some v \<longrightarrow> in_i64 (v + at_amount c))
     \<and> (get_account s to = None \<longrightarrow> f \<le> acc_balance acc) \<and> f = transfer_fee s to"
  by (auto simp: asset_transfer_fee_def transfer_fee_def account_exists_iff TRANSFER_ASSET_FEE_def
      TRANSFER_FEE_def result_simps Let_def split: option.splits)

lemma asset_transfer_validate_Inr:
  "asset_transfer_validate c s = Inr f \<longleftrightarrow>
     (\<exists>owner to acc. wf_address owner \<and> at_owner_address c = as_bytes owner
       \<and> wf_address to \<and> at_to_address c = as_bytes to \<and> 0 < at_amount c \<and> owner \<noteq> to
       \<and> get_account s owner = Some acc \<and> at_amount c \<le> token_of acc (asset_key c)
       \<and> asset_transfer_fee c acc to s = Inr f)"
  by (auto simp: asset_transfer_validate_def result_simps Let_def)

lemma asset_transfer_result:
  assumes w: "wf_state s" and v: "asset_transfer_validate c s = Inr f"
  obtains owner to acc tacc s' where "at_owner_address c = as_bytes owner"
    "at_to_address c = as_bytes to" "owner \<noteq> to" "get_account s owner = Some acc"
    "get_account (with_account to s) to = Some tacc"
    "asset_transfer_execute c s = (Inr (ExecutionResult f), s')" "wf_state s'" "total_trx s' = total_trx s"
    "s' = burn_fee f (put_account to (set_token (asset_key c) (token_of tacc (asset_key c) + at_amount c) tacc)
       (put_account owner ((set_token (asset_key c) (token_of acc (asset_key c) - at_amount c) acc)
          \<lparr>acc_balance := acc_balance acc - f\<rparr>) (with_account to s)))"
proof -
  let ?k = "asset_key c" and ?x = "at_amount c"
  from v obtain owner to acc where c: "wf_address owner" "at_owner_address c = as_bytes owner"
    "wf_address to" "at_to_address c = as_bytes to" "owner \<noteq> to" "get_account s owner = Some acc"
    and x: "0 < ?x" "?x \<le> token_of acc ?k" and f: "asset_transfer_fee c acc to s = Inr f"
    unfolding asset_transfer_validate_Inr by blast
  let ?s1 = "with_account to s"
  obtain tacc where t: "get_account ?s1 to = Some tacc" using with_account_get(1) by blast
  note w1 = with_account_wf [OF w, of to]
  have o1: "get_account ?s1 owner = Some acc" using c(5,6) with_account_get(2) by metis
  note a = wf_state_account [OF w c(6)] and b = wf_state_account [OF w1(1) t]
  have f0: "0 \<le> f" "f = transfer_fee s to"
    using f transfer_fee_nonneg [OF w, of to] by (simp_all add: asset_transfer_fee_Inr)
  have fb: "f \<le> acc_balance acc"
    using f f0 a(1) by (cases "get_account s to")
      (auto simp: asset_transfer_fee_Inr transfer_fee_def account_exists_iff TRANSFER_FEE_def wf_account_def)
  have fit: "in_i64 (token_of acc ?k - ?x)" "0 \<le> token_of acc ?k - ?x" "token_of acc ?k - ?x \<le> i64_max"
    using token_of_bounds [OF a(1), of ?k] x by (auto intro!: nonneg_in_i64)
  have tfit: "in_i64 (token_of tacc ?k + ?x)"
  proof (cases "acc_asset_v2 tacc ?k")
    case None
    then show ?thesis
      using token_of_bounds [OF a(1), of ?k] x by (auto simp: token_of_def intro!: nonneg_in_i64)
  next
    case (Some v)
    then have "get_account s to = Some tacc"
      using t by (auto simp: with_account_def state_simps account_exists_iff split: if_splits)
    with Some f show ?thesis by (auto simp: asset_transfer_fee_Inr token_of_def)
  qed
  let ?a = "set_token ?k (token_of acc ?k - ?x) acc"
  let ?s2 = "put_account owner (?a\<lparr>acc_balance := acc_balance acc - f\<rparr>) ?s1"
  let ?b = "set_token ?k (token_of tacc ?k + ?x) tacc"
  let ?s3 = "put_account to ?b ?s2"
  have le: "total_trx s \<le> i64_max" using w by simp
  have wa: "wf_account (?a\<lparr>acc_balance := acc_balance acc - f\<rparr>)"
    using a(1) fit fb by (intro wf_account_balance set_token_value(2)) simp_all
  have w2: "wf_state ?s2" "total_trx ?s2 = total_trx s - f"
    using move_account [OF w1(1) o1 wa] w1(2) le f0(1)
    by (simp_all add: acc_trx_balance set_token_value)
  have t2: "get_account ?s2 to = Some tacc" using t c(5) by (simp add: state_simps)
  have wb: "wf_account ?b"
    using b(1) tfit token_of_bounds [OF b(1), of ?k] x by (intro set_token_value(2)) (auto simp: i64_bounds_defs)
  have w3: "wf_state ?s3" "total_trx ?s3 = total_trx s - f"
    using put_neutral [OF w2(1) t2 wb] w2(2) by (simp_all add: set_token_value)
  have "total_trx ?s3 + f \<le> i64_max" using w3 le by simp
  note w4 = move_burn_fee [OF w3(1) f0(1) this]
  have fitb: "in_i64 (acc_balance acc - f)" using move_debit(3) [OF w c(6) f0(1) fb] .
  have "asset_transfer_execute c s = (Inr (ExecutionResult f), burn_fee f ?s3)"
  proof (cases "account_exists s to")
    case True
    then have "?s1 = s" "f = TRANSFER_ASSET_FEE"
      using f0(2) by (simp_all add: with_account_def transfer_fee_def TRANSFER_FEE_def TRANSFER_ASSET_FEE_def)
    with True c t fit tfit fitb fb x show ?thesis
      by (simp add: asset_transfer_execute_def st_bind_def st_prim_simps ok_or_def Let_def state_simps
          checked_debit_ok checked_credit_ok)
  next
    case False
    then have "?s1 = put_account to (new_account to s) s" and fe: "f = i64_wrap (TRANSFER_ASSET_FEE
        + get_prop_i64 s CREATE_NEW_ACCOUNT_FEE_IN_SYSTEM_CONTRACT)"
      using f0(2) by (simp_all add: with_account_def transfer_fee_def TRANSFER_FEE_def TRANSFER_ASSET_FEE_def)
    with False c t o1 fit tfit fitb fb x show ?thesis
      by (simp add: asset_transfer_execute_def st_bind_def st_prim_simps ok_or_def Let_def state_simps
          create_account_def checked_debit_ok checked_credit_ok)
  qed
  then show ?thesis
    using that [OF c(2,4,5,6) t] w4 w3 by auto
qed

interpretation asset_transfer: actuator asset_transfer_validate asset_transfer_execute "\<lambda>_ _. True"
  by unfold_locales (metis asset_transfer_result)

section \<open>Participate: what it does\<close>

lemma participate_validate_Inr:
  "participate_validate c s = Inr f \<longleftrightarrow>
     (\<exists>owner to acc i asset x tacc. wf_address owner \<and> pt_owner_address c = as_bytes owner
       \<and> wf_address to \<and> pt_to_address c = as_bytes to \<and> 0 < pt_amount c \<and> owner \<noteq> to
       \<and> get_account s owner = Some acc \<and> pt_amount c \<le> acc_balance acc
       \<and> parse_id (pt_asset_name c) = Some i \<and> get_asset_issue s i = Some asset
       \<and> ai_owner_address asset = as_bytes to
       \<and> ai_start_time asset \<le> get_prop_i64 s LATEST_BLOCK_HEADER_TIMESTAMP
       \<and> get_prop_i64 s LATEST_BLOCK_HEADER_TIMESTAMP < ai_end_time asset
       \<and> exchange_amount (pt_amount c) (ai_num asset) (ai_trx_num asset) = Inr x \<and> 0 < x
       \<and> get_account s to = Some tacc \<and> x \<le> asset_v2_balance tacc i \<and> f = 0)"
  by (auto simp: participate_validate_def result_simps Let_def not_le not_less)

text \<open>The buyer's token balance can take what is bought.\<close>

definition purchase_fits :: "participate_contract \<Rightarrow> world_state \<Rightarrow> bool" where
  "purchase_fits c s \<longleftrightarrow> (\<forall>owner acc i asset x. pt_owner_address c = as_bytes owner \<and> get_account s owner = Some acc
     \<and> parse_id (pt_asset_name c) = Some i \<and> get_asset_issue s i = Some asset
     \<and> exchange_amount (pt_amount c) (ai_num asset) (ai_trx_num asset) = Inr x \<longrightarrow>
     asset_v2_balance acc i + x \<le> i64_max)"

lemma participate_result:
  assumes w: "wf_state s" and v: "participate_validate c s = Inr f" and fits: "purchase_fits c s"
  obtains owner to acc tacc k x s' where "pt_owner_address c = as_bytes owner"
    "pt_to_address c = as_bytes to" "owner \<noteq> to" "get_account s owner = Some acc" "get_account s to = Some tacc"
    "participate_execute dbg c s = (Inr (ExecutionResult 0), s')" "wf_state s'" "total_trx s' = total_trx s"
    "s' = put_account to (set_token k (token_of tacc k - x) (tacc\<lparr>acc_balance := acc_balance tacc + pt_amount c\<rparr>))
       (put_account owner (set_token k (token_of acc k + x) (acc\<lparr>acc_balance := acc_balance acc - pt_amount c\<rparr>)) s)"
proof -
  let ?y = "pt_amount c"
  from v obtain owner to acc i asset x tacc where c: "wf_address owner" "pt_owner_address c = as_bytes owner"
    "wf_address to" "pt_to_address c = as_bytes to" "owner \<noteq> to" "get_account s owner = Some acc"
    "get_account s to = Some tacc"
    and as: "parse_id (pt_asset_name c) = Some i" "get_asset_issue s i = Some asset"
      "exchange_amount ?y (ai_num asset) (ai_trx_num asset) = Inr x"
    and y: "0 < ?y" "?y \<le> acc_balance acc" and x: "0 < x" "x \<le> asset_v2_balance tacc i"
    unfolding participate_validate_Inr by blast
  let ?k = "i64_to_string i"
  note a = wf_state_account [OF w c(6)] and b = wf_state_account [OF w c(7)]
  have "token_of acc ?k + x \<le> i64_max"
    using fits c as unfolding purchase_fits_def asset_v2_token by blast
  then have fx: "in_i64 (token_of acc ?k + x)" "0 \<le> token_of acc ?k + x" "token_of acc ?k + x \<le> i64_max"
    using token_of_bounds [OF a(1), of ?k] x by (auto intro!: nonneg_in_i64)
  have fy: "in_i64 (token_of tacc ?k - x)" "0 \<le> token_of tacc ?k - x" "token_of tacc ?k - x \<le> i64_max"
    using token_of_bounds [OF b(1), of ?k] x by (auto intro!: nonneg_in_i64 simp: asset_v2_token)
  let ?a = "set_token ?k (token_of acc ?k + x) (acc\<lparr>acc_balance := acc_balance acc - ?y\<rparr>)"
  let ?b = "set_token ?k (token_of tacc ?k - x) (tacc\<lparr>acc_balance := acc_balance tacc + ?y\<rparr>)"
  let ?s1 = "put_account owner ?a s" and ?s2 = "put_account to ?b (put_account owner ?a s)"
  have le: "total_trx s \<le> i64_max" using w by simp
  have wa: "wf_account ?a" using a(1) y fx by (intro set_token_value(2) wf_account_balance) simp_all
  have w1: "wf_state ?s1" "total_trx ?s1 = total_trx s - ?y"
    using move_account [OF w c(6) wa] y le by (simp_all add: set_token_value acc_trx_balance)
  have t1: "get_account ?s1 to = Some tacc" using c by (simp add: state_simps)
  have b0: "0 \<le> acc_balance tacc" using b(1) by (simp add: wf_account_def)
  have wb: "wf_account ?b" using b(1) y fy b0 by (intro set_token_value(2) wf_account_balance) simp_all
  have w2: "wf_state ?s2" "total_trx ?s2 = total_trx s"
    using move_account [OF w1(1) t1 wb] w1(2) le by (simp_all add: set_token_value acc_trx_balance)
  have "in_i64 (acc_balance tacc + ?y)"
    using move_credit(3) [OF w1(1) t1 less_imp_le [OF y(1)]] w1(2) le by simp
  moreover have "in_i64 (acc_balance acc - ?y)"
    using move_debit(3) [OF w c(6) less_imp_le [OF y(1)] y(2)] .
  ultimately have "participate_execute dbg c s = (Inr (ExecutionResult 0), ?s2)"
    using c as y x fx fy
    by (simp add: participate_execute_def st_bind_def st_prim_simps ok_or_def Let_def state_simps
        checked_debit_ok checked_credit_ok asset_v2_token)
  with that [OF c(2,4,5,6,7)] w2 show ?thesis by blast
qed

interpretation participate: actuator participate_validate "participate_execute dbg" purchase_fits for dbg
  by unfold_locales (metis participate_result)

section \<open>Frozen supply and updates: what they do\<close>

lemma split_matured_Inr:
  assumes "0 \<le> a" and "\<forall>f\<in>set fs. 0 \<le> fr_balance f" and "a + sum_list (map fr_balance fs) \<le> i64_max"
  shows "split_matured now a r fs
     = Inr (a + sum_list (map fr_balance (filter (\<lambda>f. fr_expire_time f \<le> now) fs)),
            r @ filter (\<lambda>f. \<not> fr_expire_time f \<le> now) fs)"
  using assms
proof (induction fs arbitrary: a r)
  case (Cons f fs)
  have "0 \<le> sum_list (map fr_balance fs)" using Cons.prems(2) by (intro sum_list_nonneg_map) simp
  with Cons show ?case by (simp add: checked_credit_ok nonneg_in_i64)
qed simp

lemma unfreeze_asset_validate_Inr:
  "unfreeze_asset_validate c s = Inr f \<longleftrightarrow>
     (\<exists>owner acc. wf_address owner \<and> ua_owner_address c = as_bytes owner \<and> get_account s owner = Some acc
       \<and> acc_frozen_supply acc \<noteq> [] \<and> acc_asset_issued_id acc \<noteq> []
       \<and> list_ex (\<lambda>f. fr_expire_time f \<le> get_prop_i64 s LATEST_BLOCK_HEADER_TIMESTAMP) (acc_frozen_supply acc)
       \<and> f = 0)"
  by (auto simp: unfreeze_asset_validate_def result_simps Let_def)

text \<open>An issuer: the issued id parses, and the whole frozen supply fits into the balance.\<close>

definition issuer_ok :: "account \<Rightarrow> bool" where
  "issuer_ok acc \<longleftrightarrow> (\<exists>i. parse_id (acc_asset_issued_id acc) = Some i
     \<and> (\<forall>f\<in>set (acc_frozen_supply acc). 0 \<le> fr_balance f)
     \<and> token_of acc (i64_to_string i) + sum_list (map fr_balance (acc_frozen_supply acc)) \<le> i64_max)"

definition released_account :: "i64 \<Rightarrow> account \<Rightarrow> account" where
  "released_account now acc =
     (let k = i64_to_string (the (parse_id (acc_asset_issued_id acc))) in
      (set_token k (token_of acc k
         + sum_list (map fr_balance (filter (\<lambda>f. fr_expire_time f \<le> now) (acc_frozen_supply acc)))) acc)
      \<lparr>acc_frozen_supply := filter (\<lambda>f. \<not> fr_expire_time f \<le> now) (acc_frozen_supply acc)\<rparr>)"

lemma unfreeze_asset_result:
  assumes w: "wf_state s" and c: "wf_address owner" "ua_owner_address c = as_bytes owner"
    "get_account s owner = Some acc" and i: "issuer_ok acc"
    and now: "now = get_prop_i64 s LATEST_BLOCK_HEADER_TIMESTAMP"
  shows "unfreeze_asset_execute c s = (Inr (ExecutionResult 0), put_account owner (released_account now acc) s)"
    and "wf_state (put_account owner (released_account now acc) s)"
    and "total_trx (put_account owner (released_account now acc) s) = total_trx s"
proof -
  from i obtain n where n: "parse_id (acc_asset_issued_id acc) = Some n"
    and nn: "\<forall>f\<in>set (acc_frozen_supply acc). 0 \<le> fr_balance f"
    and le: "token_of acc (i64_to_string n) + sum_list (map fr_balance (acc_frozen_supply acc)) \<le> i64_max"
    unfolding issuer_ok_def by blast
  let ?k = "i64_to_string n"
  let ?m = "sum_list (map fr_balance (filter (\<lambda>f. fr_expire_time f \<le> now) (acc_frozen_supply acc)))"
  note a = wf_state_account [OF w c(3)]
  note t = token_of_bounds [OF a(1), of ?k]
  have m: "0 \<le> ?m" "?m \<le> sum_list (map fr_balance (acc_frozen_supply acc))"
    using nn frozen_sum_split [of "\<lambda>f. fr_expire_time f \<le> now" "acc_frozen_supply acc"]
      sum_list_nonneg_map [of "filter (\<lambda>f. \<not> fr_expire_time f \<le> now) (acc_frozen_supply acc)" fr_balance]
    by (auto intro!: sum_list_nonneg_map)
  have sp: "split_matured now 0 [] (acc_frozen_supply acc)
      = Inr (?m, filter (\<lambda>f. \<not> fr_expire_time f \<le> now) (acc_frozen_supply acc))"
    using split_matured_Inr [OF order_refl nn] le t by simp
  have fit: "in_i64 (token_of acc ?k + ?m)" "0 \<le> token_of acc ?k + ?m" "token_of acc ?k + ?m \<le> i64_max"
    using t m le by (auto intro!: nonneg_in_i64)
  show "unfreeze_asset_execute c s = (Inr (ExecutionResult 0), put_account owner (released_account now acc) s)"
    using c fit n
    by (simp add: unfreeze_asset_execute_def st_bind_def st_prim_simps ok_or_def now [symmetric] sp
        checked_credit_ok asset_v2_token released_account_def Let_def)
  have "wf_account (set_token ?k (token_of acc ?k + ?m) acc)"
    using a(1) fit by (intro set_token_value(2))
  then have "wf_account (released_account now acc)" "acc_trx (released_account now acc) = acc_trx acc"
    "same_delegation (Some acc) (released_account now acc)"
    by (simp_all add: released_account_def n Let_def neutral_simps) (simp_all add: set_token_def)
  from put_neutral [OF w c(3) this]
  show "wf_state (put_account owner (released_account now acc) s)"
    and "total_trx (put_account owner (released_account now acc) s) = total_trx s" .
qed

interpretation unfreeze_asset: actuator unfreeze_asset_validate unfreeze_asset_execute
  "\<lambda>c s. \<forall>owner acc. ua_owner_address c = as_bytes owner \<and> get_account s owner = Some acc \<longrightarrow> issuer_ok acc"
proof
  fix s c f
  assume w: "wf_state s" and i: "\<forall>owner acc. ua_owner_address c = as_bytes owner
      \<and> get_account s owner = Some acc \<longrightarrow> issuer_ok acc" and v: "unfreeze_asset_validate c s = Inr f"
  then obtain owner acc where c: "wf_address owner" "ua_owner_address c = as_bytes owner"
    "get_account s owner = Some acc"
    unfolding unfreeze_asset_validate_Inr by blast
  have "issuer_ok acc" using i c by blast
  from unfreeze_asset_result [OF w c this refl]
  show "\<exists>r s'. unfreeze_asset_execute c s = (Inr r, s') \<and> wf_state s' \<and> total_trx s' = total_trx s"
    by simp
qed

lemma put_asset_issue_frame [simp]:
  "wf_state (put_asset_issue i a s) = wf_state s" "total_trx (put_asset_issue i a s) = total_trx s"
  "get_account (put_asset_issue i a s) b = get_account s b"
  "get_asset_issue (put_asset_issue i a s) j = (if j = i then Some a else get_asset_issue s j)"
  by (simp_all add: put_asset_issue_def get_account_def get_asset_issue_def)

lemma update_asset_validate_Inr:
  assumes "update_asset_validate c s = Inr f"
  obtains owner acc i asset where "wf_address owner" "up_owner_address c = as_bytes owner"
    "get_account s owner = Some acc" "parse_id (acc_asset_issued_id acc) = Some i"
    "get_asset_issue s i = Some asset"
  using assms by (auto simp: update_asset_validate_def result_simps)

interpretation update_asset: actuator update_asset_validate update_asset_execute "\<lambda>_ _. True"
  by unfold_locales
    (auto simp: update_asset_execute_def st_bind_def st_prim_simps ok_or_def elim!: update_asset_validate_Inr)

section \<open>Issue: what it does\<close>

lemma check_frozen_supply_Inr:
  assumes "check_frozen_supply remain fs = Inr u" and "0 \<le> remain" and "remain \<le> i64_max"
  shows "sum_list (map fs_amount fs) \<le> remain"
    and "\<forall>f\<in>set fs. 0 < fs_amount f \<and> MIN_FROZEN_SUPPLY_TIME \<le> fs_days f \<and> fs_days f \<le> MAX_FROZEN_SUPPLY_TIME"
proof -
  have "sum_list (map fs_amount fs) \<le> remain \<and>
    (\<forall>f\<in>set fs. 0 < fs_amount f \<and> MIN_FROZEN_SUPPLY_TIME \<le> fs_days f \<and> fs_days f \<le> MAX_FROZEN_SUPPLY_TIME)"
    using assms
  proof (induction fs arbitrary: remain)
    case (Cons f fs)
    then have "in_i64 (remain - fs_amount f)"
      by (auto simp: result_simps intro!: nonneg_in_i64)
    with Cons show ?case by (force simp: result_simps)
  qed simp
  then show "sum_list (map fs_amount fs) \<le> remain"
    and "\<forall>f\<in>set fs. 0 < fs_amount f \<and> MIN_FROZEN_SUPPLY_TIME \<le> fs_days f \<and> fs_days f \<le> MAX_FROZEN_SUPPLY_TIME"
    by blast+
qed

definition frozen_entry :: "i64 \<Rightarrow> frozen_supply \<Rightarrow> frozen" where
  "frozen_entry start f =
     \<lparr>fr_balance = fs_amount f, fr_expire_time = start + fs_days f * FROZEN_PERIOD_MS\<rparr>"

lemma split_supply_Inr:
  assumes "\<forall>f\<in>set fs. 0 < fs_amount f \<and> MIN_FROZEN_SUPPLY_TIME \<le> fs_days f \<and> fs_days f \<le> MAX_FROZEN_SUPPLY_TIME"
    and "sum_list (map fs_amount fs) \<le> remain" and "remain \<le> i64_max"
    and "in_i64 start" and "start + MAX_FROZEN_SUPPLY_TIME * FROZEN_PERIOD_MS \<le> i64_max"
  shows "split_supply start remain acc fs
     = Inr (remain - sum_list (map fs_amount fs), acc @ map (frozen_entry start) fs)"
  using assms(1-3)
proof (induction fs arbitrary: remain acc)
  case (Cons f fs)
  have d: "1 \<le> fs_days f" "fs_days f \<le> 3652" and f0: "0 < fs_amount f"
    using Cons.prems(1) by (simp_all add: MIN_FROZEN_SUPPLY_TIME_def MAX_FROZEN_SUPPLY_TIME_def)
  have "in_i64 (fs_days f * FROZEN_PERIOD_MS)" "in_i64 (start + fs_days f * FROZEN_PERIOD_MS)"
    using d assms(4,5) by (auto simp: FROZEN_PERIOD_MS_def i64_bounds_defs MAX_FROZEN_SUPPLY_TIME_def)
  moreover have "0 \<le> sum_list (map fs_amount fs)"
    using Cons.prems(1) by (intro sum_list_nonneg_map) auto
  then have "in_i64 (remain - fs_amount f)"
    using Cons.prems(2,3) f0 by (intro nonneg_in_i64) simp_all
  moreover have "sum_list (map fs_amount fs) \<le> remain - fs_amount f" "remain - fs_amount f \<le> i64_max"
    using Cons.prems(2,3) f0 by simp_all
  note ih = Cons.IH [OF _ this]
  ultimately show ?case
    using Cons.prems(1)
    by (simp add: checked_credit_ok i64_checked_mul_def i64_checked_def frozen_entry_def ih)
qed simp

definition issue_ok :: "asset_issue \<Rightarrow> world_state \<Rightarrow> bool" where
  "issue_ok c s \<longleftrightarrow> ai_total_supply c \<le> i64_max \<and> in_i64 (ai_start_time c)
     \<and> ai_start_time c + MAX_FROZEN_SUPPLY_TIME * FROZEN_PERIOD_MS \<le> i64_max"

definition next_token_id :: "world_state \<Rightarrow> i64" where
  "next_token_id s = i64_wrap (get_token_id_num s + 1)"

lemma asset_issue_validate_Inr:
  assumes "asset_issue_validate c s = Inr f"
  obtains owner acc where "wf_address owner" "ai_owner_address c = as_bytes owner"
    "get_account s owner = Some acc" "acc_asset_issued_id acc = []" "f = asset_issue_fee s"
    "f \<le> acc_balance acc" "check_frozen_supply (ai_total_supply c) (ai_frozen_supply c) = Inr ()"
    "0 < ai_total_supply c" "0 < ai_trx_num c" "0 < ai_num c"
  using assms by (auto simp: asset_issue_validate_def check_asset_sale_def result_simps Let_def)

definition issuer_account :: "asset_issue \<Rightarrow> world_state \<Rightarrow> account \<Rightarrow> account" where
  "issuer_account c s acc =
     (set_token (i64_to_string (next_token_id s)) (ai_total_supply c - sum_list (map fs_amount (ai_frozen_supply c)))
       (acc\<lparr>acc_balance := acc_balance acc - asset_issue_fee s,
            acc_frozen_supply := acc_frozen_supply acc @ map (frozen_entry (ai_start_time c)) (ai_frozen_supply c)\<rparr>))
     \<lparr>acc_asset_issued_id := bytes_of_string (i64_to_string (next_token_id s)), acc_asset_issued_name := ai_name c\<rparr>"

lemma asset_issue_result:
  assumes w: "wf_state s" and v: "asset_issue_validate c s = Inr f" and ok: "issue_ok c s"
  obtains owner acc s' where "ai_owner_address c = as_bytes owner" "get_account s owner = Some acc"
    "asset_issue_execute c s = (Inr (ExecutionResult f), s')" "wf_state s'" "total_trx s' = total_trx s"
    "s' = put_account owner (issuer_account c s acc) (burn_trx (asset_issue_fee s)
       (put_asset_issue (next_token_id s) (c\<lparr>ai_id := i64_to_string (next_token_id s)\<rparr>)
         (put_prop_i64 TOKEN_ID_NUM (next_token_id s) s)))"
proof -
  from v obtain owner acc where c: "wf_address owner" "ai_owner_address c = as_bytes owner"
    "get_account s owner = Some acc" and f: "f = asset_issue_fee s" "f \<le> acc_balance acc"
    and fs: "check_frozen_supply (ai_total_supply c) (ai_frozen_supply c) = Inr ()" and t0: "0 < ai_total_supply c"
    by (rule asset_issue_validate_Inr)
  let ?i = "next_token_id s" and ?q = "sum_list (map fs_amount (ai_frozen_supply c))"
  have tm: "ai_total_supply c \<le> i64_max" using ok by (simp add: issue_ok_def)
  note cf = check_frozen_supply_Inr [OF fs less_imp_le [OF t0] tm]
  have sp: "split_supply (ai_start_time c) (ai_total_supply c) (acc_frozen_supply acc) (ai_frozen_supply c)
      = Inr (ai_total_supply c - ?q, acc_frozen_supply acc @ map (frozen_entry (ai_start_time c)) (ai_frozen_supply c))"
    using split_supply_Inr [OF cf(2,1) tm] ok by (simp add: issue_ok_def)
  have q0: "0 \<le> ?q" using cf(2) by (intro sum_list_nonneg_map) auto
  have f0: "0 < f" using f(1) by (simp add: asset_issue_fee_def Let_def DEFAULT_ASSET_ISSUE_FEE_def)
  note a = wf_state_account [OF w c(3)]
  let ?s1 = "put_asset_issue ?i (c\<lparr>ai_id := i64_to_string ?i\<rparr>) (put_prop_i64 TOKEN_ID_NUM ?i s)"
  have w1: "wf_state ?s1" "total_trx ?s1 = total_trx s" "get_account ?s1 owner = Some acc"
    using w c(3) by (simp_all add: prop_keys state_simps)
  let ?a = "issuer_account c s acc"
  have "wf_account (set_token (i64_to_string ?i) (ai_total_supply c - ?q) (acc\<lparr>acc_balance := acc_balance acc - f\<rparr>))"
    using a(1) f(2) cf(1) tm q0 by (intro set_token_value(2) wf_account_balance) simp_all
  then have wa: "wf_account ?a"
    by (simp add: issuer_account_def f(1) wf_account_def set_token_def)
  have ta: "acc_trx ?a = acc_trx acc - f" "same_delegation (Some acc) ?a"
    by (simp_all add: issuer_account_def f(1) neutral_simps set_token_def)
  let ?s2 = "put_account owner ?a ?s1"
  have m: "total_trx s \<le> i64_max" using w by (simp add: wf_state_def)
  have w2: "wf_state ?s2" "total_trx ?s2 = total_trx s - f"
    using move_account [OF w1(1,3) wa ta(2)] ta(1) w1(2) f0 m by simp_all
  have "total_trx ?s2 + f \<le> i64_max" using w2 m by simp
  note w3 = move_burn [OF w2(1) less_imp_le [OF f0] this]
  have comm: "burn_trx f ?s2 = put_account owner ?a (burn_trx f ?s1)"
    by (simp add: burn_trx_def put_account_def put_prop_i64_def get_prop_i64_def)
  have "in_i64 (acc_balance acc - f)" using move_debit(3) [OF w c(3) less_imp_le [OF f0] f(2)] .
  then have "asset_issue_execute c s = (Inr (ExecutionResult f), put_account owner ?a (burn_trx f ?s1))"
    using c f sp w1(3)
    by (simp add: asset_issue_execute_def st_bind_def st_prim_simps ok_or_def allocate_token_id_def Let_def
        save_token_id_num_def next_token_id_def [symmetric] checked_debit_ok asset_v2_token issuer_account_def)
  with that [OF c(2,3)] w3 w2 comm f(1) show ?thesis by auto
qed

interpretation asset_issue: actuator asset_issue_validate asset_issue_execute issue_ok
  by unfold_locales (metis asset_issue_result)

text \<open>Issued tokens always have a positive exchange rate, so a sale never divides by zero.\<close>

definition wf_assets :: "world_state \<Rightarrow> bool" where
  "wf_assets s \<longleftrightarrow> (\<forall>i a. get_asset_issue s i = Some a \<longrightarrow> 0 < ai_trx_num a \<and> 0 < ai_num a)"

lemma wf_assets_issue:
  assumes "wf_state s" and "wf_assets s" and "issue_ok c s" and "asset_issue_validate c s = Inr f"
    and "asset_issue_execute c s = (r, s')"
  shows "wf_assets s'"
proof -
  obtain owner acc where "s' = put_account owner (issuer_account c s acc) (burn_trx (asset_issue_fee s)
       (put_asset_issue (next_token_id s) (c\<lparr>ai_id := i64_to_string (next_token_id s)\<rparr>)
         (put_prop_i64 TOKEN_ID_NUM (next_token_id s) s)))"
    using asset_issue_result [OF assms(1,4,3)] assms(5) by (metis prod.inject)
  then have "get_asset_issue s' i = (if i = next_token_id s then Some (c\<lparr>ai_id := i64_to_string i\<rparr>)
      else get_asset_issue s i)" for i
    by (simp add: put_account_def burn_trx_def put_prop_i64_def put_asset_issue_def get_asset_issue_def)
  then show ?thesis
    using assms(2) asset_issue_validate_Inr [OF assms(4)] by (auto simp: wf_assets_def)
qed

lemma wf_assets_update:
  assumes "wf_assets s" and "update_asset_execute c s = (Inr r, s')"
  shows "wf_assets s'"
  using assms by (auto simp: update_asset_execute_def result_simps st_prim_simps wf_assets_def split: if_splits)

section \<open>Correctness\<close>

text \<open>A validated token transfer executes: the amount leaves the owner's token balance and arrives at
  the recipient, an account is created when the recipient has none, and the sum of every token's balances
  as well as the total of TRX (with the fee burnt) stay what they were.\<close>

theorem asset_transfer_conserves:
  assumes "wf_state s" and "asset_transfer_validate c s = Inr f"
    and "at_owner_address c = as_bytes owner" and "at_to_address c = as_bytes to"
  shows "\<exists>s'. asset_transfer_execute c s = (Inr (ExecutionResult f), s') \<and> wf_state s'
     \<and> total_trx s' = total_trx s \<and> (\<forall>k. token_total k s' = token_total k s)
     \<and> opt_val (\<lambda>a. token_of a (asset_key c)) (get_account s' owner)
         = opt_val (\<lambda>a. token_of a (asset_key c)) (get_account s owner) - at_amount c
     \<and> opt_val (\<lambda>a. token_of a (asset_key c)) (get_account s' to)
         = opt_val (\<lambda>a. token_of a (asset_key c)) (get_account s to) + at_amount c"
proof -
  obtain o' t' acc tacc s' where d: "at_owner_address c = as_bytes o'" "at_to_address c = as_bytes t'" "o' \<noteq> t'"
    and g: "get_account s o' = Some acc" "get_account (with_account t' s) t' = Some tacc"
    and e: "asset_transfer_execute c s = (Inr (ExecutionResult f), s')" "wf_state s'" "total_trx s' = total_trx s"
    and s': "s' = burn_fee f (put_account t' (set_token (asset_key c) (token_of tacc (asset_key c) + at_amount c) tacc)
       (put_account o' ((set_token (asset_key c) (token_of acc (asset_key c) - at_amount c) acc)
          \<lparr>acc_balance := acc_balance acc - f\<rparr>) (with_account t' s)))"
    by (rule asset_transfer_result [OF assms(1,2)]) blast
  have ids: "o' = owner" "t' = to" using d assms(3,4) by simp_all
  have fin: "finite (dom (ws_accounts s))" using assms(1) by (simp add: wf_state_def)
  have go: "get_account (with_account t' s) o' = Some acc"
    using g(1) d(3) by (simp add: with_account_def state_simps)
  have tk: "token_of tacc k = opt_val (\<lambda>a. token_of a k) (get_account s t')" for k
    using g(2) by (auto simp: with_account_def account_exists_iff state_simps split: if_splits)
  have "finite (dom (ws_accounts (with_account t' s)))"
    using fin by (simp add: with_account_def put_account_def)
  then have "token_total k s' = token_total k (with_account t' s)" for k
    unfolding s' token_total_frame by (subst token_total_put2 [OF _ go g(2) d(3)])
      (simp_all add: set_token_def token_of_def)
  then have "\<forall>k. token_total k s' = token_total k s" using assms(1) by simp
  moreover have "opt_val (\<lambda>a. token_of a (asset_key c)) (get_account s' owner) = token_of acc (asset_key c) - at_amount c"
    "opt_val (\<lambda>a. token_of a (asset_key c)) (get_account s' to) = token_of tacc (asset_key c) + at_amount c"
    using d(3) unfolding s' by (simp_all add: ids state_simps set_token_def token_of_def burn_fee_def)
  ultimately show ?thesis using e g(1) tk ids by auto
qed

definition token_wallet :: "byte \<Rightarrow> i64 \<Rightarrow> account" where
  "token_wallet b v = (wallet b 100)\<lparr>acc_asset_v2 := [''1000001'' \<mapsto> v]\<rparr>"

theorem asset_transfer_conserves_witness:
  "\<exists>s'. asset_transfer_execute \<lparr>at_asset_name = bytes_of_string ''1000001'', at_owner_address = as_bytes (addr_of 1),
        at_to_address = as_bytes (addr_of 2), at_amount = 30\<rparr> (ledger_of [(1, token_wallet 1 50)])
      = (Inr (ExecutionResult 0), s')
    \<and> opt_val (\<lambda>a. token_of a ''1000001'') (get_account s' (addr_of 1)) = 20
    \<and> opt_val (\<lambda>a. token_of a ''1000001'') (get_account s' (addr_of 2)) = 30"
proof -
  let ?s = "ledger_of [(1, token_wallet 1 50)]"
  let ?c = "\<lparr>at_asset_name = bytes_of_string ''1000001'', at_owner_address = as_bytes (addr_of 1),
        at_to_address = as_bytes (addr_of 2), at_amount = 30\<rparr>"
  have w: "wf_state ?s"
    by (rule ledger_one) (simp_all add: token_wallet_def wallet_def account_default_def wf_account_def acc_trx_def
        same_delegation_def delegated_energy_def i64_bounds_defs)
  have k: "asset_key ?c = ''1000001''"
    unfolding asset_key_def by code_simp
  have "asset_transfer_validate ?c ?s = Inr 0"
    unfolding asset_transfer_validate_Inr asset_transfer_fee_Inr k
    by (simp add: state_simps token_wallet_def token_of_def transfer_fee_def TRANSFER_FEE_def account_exists_iff)
  from asset_transfer_conserves [OF w this, of "addr_of 1" "addr_of 2"] show ?thesis
    unfolding k by (auto simp: state_simps token_wallet_def token_of_def)
qed

text \<open>C14: Issuing a token and releasing its frozen supply is a round trip.  A validated issue executes and
  gives the issuer exactly the part of the supply that is not frozen; once every frozen part has matured,
  unfreezing is accepted, executes, and leaves the issuer with the whole declared supply and nothing frozen.\<close>

theorem asset_issue_unfreeze_supply:
  assumes w: "wf_state s" and v: "asset_issue_validate c s = Inr f" and ok: "issue_ok c s"
    and o: "ai_owner_address c = as_bytes owner" and g: "get_account s owner = Some acc" and fr: "acc_frozen_supply acc = []"
    and ne: "ai_frozen_supply c \<noteq> []"
    and now: "\<forall>q\<in>set (ai_frozen_supply c). ai_start_time c + fs_days q * FROZEN_PERIOD_MS \<le> now"
  shows "\<exists>s1 s2 acc2. asset_issue_execute c s = (Inr (ExecutionResult f), s1)
     \<and> opt_val (\<lambda>a. token_of a (i64_to_string (next_token_id s))) (get_account s1 owner)
         = ai_total_supply c - sum_list (map fs_amount (ai_frozen_supply c))
     \<and> unfreeze_asset_validate \<lparr>ua_owner_address = as_bytes owner\<rparr>
         (put_prop_i64 LATEST_BLOCK_HEADER_TIMESTAMP now s1) = Inr 0
     \<and> unfreeze_asset_execute \<lparr>ua_owner_address = as_bytes owner\<rparr>
         (put_prop_i64 LATEST_BLOCK_HEADER_TIMESTAMP now s1) = (Inr (ExecutionResult 0), s2)
     \<and> get_account s2 owner = Some acc2 \<and> token_of acc2 (i64_to_string (next_token_id s)) = ai_total_supply c
     \<and> acc_frozen_supply acc2 = [] \<and> wf_state s2 \<and> total_trx s2 = total_trx s"
proof -
  obtain o' acc' s1 where d: "ai_owner_address c = as_bytes o'" "get_account s o' = Some acc'"
    and e: "asset_issue_execute c s = (Inr (ExecutionResult f), s1)" "wf_state s1" "total_trx s1 = total_trx s"
    and s1': "s1 = put_account o' (issuer_account c s acc') (burn_trx (asset_issue_fee s)
       (put_asset_issue (next_token_id s) (c\<lparr>ai_id := i64_to_string (next_token_id s)\<rparr>)
         (put_prop_i64 TOKEN_ID_NUM (next_token_id s) s)))"
    by (rule asset_issue_result [OF w v ok]) blast
  have id: "o' = owner" "acc' = acc" using d o g by auto
  note s1 = s1' [unfolded id]
  let ?k = "i64_to_string (next_token_id s)" and ?a = "issuer_account c s acc"
  let ?q = "sum_list (map fs_amount (ai_frozen_supply c))"
  have wo: "wf_address owner" and t0: "0 < ai_total_supply c"
    and fs: "check_frozen_supply (ai_total_supply c) (ai_frozen_supply c) = Inr ()"
    using asset_issue_validate_Inr [OF v] o by force+
  have tm: "ai_total_supply c \<le> i64_max" using ok by (simp add: issue_ok_def)
  note cf = check_frozen_supply_Inr [OF fs less_imp_le [OF t0] tm]
  have a: "token_of ?a ?k = ai_total_supply c - ?q" "acc_frozen_supply ?a = map (frozen_entry (ai_start_time c)) (ai_frozen_supply c)"
    "parse_id (acc_asset_issued_id ?a) = Some (next_token_id s)" "acc_asset_issued_id ?a \<noteq> []"
    using fr parse_id_to_string [of "next_token_id s"]
    by (auto simp: issuer_account_def set_token_def token_of_def next_token_id_def bytes_of_string_def i64_to_string_def)
  have bal: "sum_list (map (fr_balance \<circ> frozen_entry (ai_start_time c)) (ai_frozen_supply c)) = ?q"
    by (simp add: frozen_entry_def comp_def)
  have old: "filter (\<lambda>f. fr_expire_time f \<le> now) (acc_frozen_supply ?a) = acc_frozen_supply ?a"
    "filter (\<lambda>f. \<not> fr_expire_time f \<le> now) (acc_frozen_supply ?a) = []"
    "list_ex (\<lambda>f. fr_expire_time f \<le> now) (acc_frozen_supply ?a)"
    using now ne by (auto simp: a(2) frozen_entry_def filter_id_conv list_ex_iff neq_Nil_conv)
  let ?t = "put_prop_i64 LATEST_BLOCK_HEADER_TIMESTAMP now s1"
  have gt: "get_account ?t owner = Some ?a" "get_prop_i64 ?t LATEST_BLOCK_HEADER_TIMESTAMP = now"
    unfolding s1 by (simp_all add: state_simps)
  have tt: "wf_state ?t" "total_trx ?t = total_trx s" using e by (simp_all add: prop_keys)
  have iok: "issuer_ok ?a"
    using cf tm unfolding issuer_ok_def a by (auto simp: a(1) bal frozen_entry_def)
  note u = unfreeze_asset_result [OF tt(1) wo _ gt(1) iok gt(2) [symmetric], of "\<lparr>ua_owner_address = as_bytes owner\<rparr>"]
  have va: "unfreeze_asset_validate \<lparr>ua_owner_address = as_bytes owner\<rparr> ?t = Inr 0"
    unfolding unfreeze_asset_validate_Inr using wo gt old(3) a(2,4) ne by auto
  have rel: "token_of (released_account now ?a) ?k = ai_total_supply c" "acc_frozen_supply (released_account now ?a) = []"
    unfolding released_account_def a(3) old Let_def using a(1) by (simp_all add: set_token_def token_of_def a(2) bal)
  have "get_account s1 owner = Some ?a" unfolding s1 by (simp add: state_simps)
  with a(1) have bal1: "opt_val (\<lambda>a. token_of a ?k) (get_account s1 owner) = ai_total_supply c - ?q" by simp
  have "get_account (put_account owner (released_account now ?a) ?t) owner = Some (released_account now ?a)"
    by (simp add: state_simps)
  with e(1) bal1 va u rel tt(2) show ?thesis by (intro exI conjI) (assumption | simp)+
qed

definition sample_issue :: asset_issue where
  "sample_issue = \<lparr>ai_id = [], ai_owner_address = as_bytes (addr_of 1), ai_name = bytes_of_string ''Token'',
     ai_abbr = [], ai_total_supply = 1000, ai_frozen_supply = [\<lparr>fs_amount = 400, fs_days = 2\<rparr>], ai_trx_num = 1,
     ai_precision = 0, ai_num = 1, ai_start_time = 1000, ai_end_time = 2000, ai_description = [],
     ai_url = bytes_of_string ''tron.network'', ai_free_asset_net_limit = 0, ai_public_free_asset_net_limit = 0,
     ai_public_free_asset_net_usage = 0\<rparr>"

theorem asset_issue_unfreeze_supply_witness:
  "\<exists>s1 s2 acc2. asset_issue_execute sample_issue (ledger_of [(1, wallet 1 2000000000)])
        = (Inr (ExecutionResult 1024000000), s1)
     \<and> opt_val (\<lambda>a. token_of a ''1000001'') (get_account s1 (addr_of 1)) = 600
     \<and> unfreeze_asset_execute \<lparr>ua_owner_address = as_bytes (addr_of 1)\<rparr>
         (put_prop_i64 LATEST_BLOCK_HEADER_TIMESTAMP 172801000 s1) = (Inr (ExecutionResult 0), s2)
     \<and> get_account s2 (addr_of 1) = Some acc2 \<and> token_of acc2 ''1000001'' = 1000"
proof -
  let ?s = "ledger_of [(1, wallet 1 2000000000)]"
  have w: "wf_state ?s" by (rule ledger_one) (simp_all add: i64_max_def)
  have t: "check_asset_text sample_issue = Inr ()" unfolding sample_issue_def by code_simp
  have v: "asset_issue_validate sample_issue ?s = Inr 1024000000"
    by (simp add: asset_issue_validate_def t)
      (simp add: sample_issue_def check_asset_sale_def check_net_limits_def state_simps ok_or_def ensure_def
        one_day_net_limit_def asset_issue_fee_def DEFAULT_ASSET_ISSUE_FEE_def DEFAULT_ONE_DAY_NET_LIMIT_def Let_def
        MAX_FROZEN_SUPPLY_NUMBER_def MIN_FROZEN_SUPPLY_TIME_def MAX_FROZEN_SUPPLY_TIME_def wallet_def account_default_def)
  have ok: "issue_ok sample_issue ?s"
    by (simp add: issue_ok_def sample_issue_def i64_bounds_defs MAX_FROZEN_SUPPLY_TIME_def FROZEN_PERIOD_MS_def)
  have digit: "digit_char 0 = CHR ''0''" "digit_char (Suc 0) = CHR ''1''"
    unfolding digit_char_def by code_simp+
  have n: "i64_to_string (next_token_id ?s) = ''1000001''"
    by (simp add: next_token_id_def get_token_id_num_def state_simps TOKEN_ID_BASE_def i64_wrap_def
        i64_to_string_def nat_to_string.simps digit)
  from asset_issue_unfreeze_supply [OF w v ok, of "addr_of 1" "wallet 1 2000000000" 172801000]
  show ?thesis
    unfolding n by (auto simp: sample_issue_def state_simps wallet_def account_default_def FROZEN_PERIOD_MS_def)
qed

end
