(* ===== verification/Act_Setting.thy ===== *)
theory Act_Setting
  imports Act_Asset
begin

text \<open>
  Settings of a deployed contract: \<open>update_setting.rs\<close>, \<open>update_energy_limit.rs\<close> and \<open>clear_abi.rs\<close> of
  \<open>src/crates/actuators/src\<close>.  Only the creator of a contract (its origin address) may change its record.
  \<open>hex_encode\<close> stands for the encoder of the \<open>hex\<close> crate, used in error texts.
\<close>

section \<open>Update the user's share of the energy\<close>

record update_setting_contract =
  us_owner_address :: bytes
  us_contract_address :: bytes
  us_consume_user_resource_percent :: i64

definition update_setting_validate ::
  "(bytes \<Rightarrow> string) \<Rightarrow> update_setting_contract \<Rightarrow> world_state \<Rightarrow> actuator_error + i64" where
  "update_setting_validate hex_encode c s =
     rbind (stake_parse_address (us_owner_address c)) (\<lambda>owner.
     rbind (stake_parse_address (us_contract_address c)) (\<lambda>contract_addr.
     rbind (ensure (account_exists s owner)
       (Validate (''Account['' @ to_hex hex_encode owner @ ''] does not exist''))) (\<lambda>_.
     let new_percent = us_consume_user_resource_percent c in
     rbind (ensure (0 \<le> new_percent \<and> new_percent \<le> 100) (Validate ''percent not in [0, 100]'')) (\<lambda>_.
     rbind (ok_or (get_contract s contract_addr) (Validate ''Contract does not exist'')) (\<lambda>rec.
     rbind (ensure (sc_origin_address rec = as_bytes owner)
       (Validate (''Account['' @ to_hex hex_encode owner @ ''] is not the owner of the contract''))) (\<lambda>_.
     Inr 0))))))"

definition update_setting_execute :: "update_setting_contract \<Rightarrow> execution_result act" where
  "update_setting_execute c =
     st_bind (st_lift (stake_parse_address (us_contract_address c))) (\<lambda>contract_addr.
     st_bind (st_gets (\<lambda>s. get_contract s contract_addr)) (\<lambda>orec.
     st_bind (st_lift (ok_or orec (Execute ''Contract does not exist''))) (\<lambda>rec.
     st_bind (st_modify (put_contract contract_addr
       (rec\<lparr>sc_consume_user_resource_percent := us_consume_user_resource_percent c\<rparr>))) (\<lambda>_.
     st_return (ExecutionResult 0)))))"

section \<open>Update the creator's energy limit\<close>

definition ALLOW_TVM_CONSTANTINOPLE :: string where
  "ALLOW_TVM_CONSTANTINOPLE = ''ALLOW_TVM_CONSTANTINOPLE''"

record update_energy_limit_contract =
  ue_owner_address :: bytes
  ue_contract_address :: bytes
  ue_origin_energy_limit :: i64

definition update_energy_limit_validate ::
  "(bytes \<Rightarrow> string) \<Rightarrow> update_energy_limit_contract \<Rightarrow> world_state \<Rightarrow> actuator_error + i64" where
  "update_energy_limit_validate hex_encode c s =
     rbind (require_feature s ALLOW_TVM_CONSTANTINOPLE
       ''contract type error, unexpected type [UpdateEnergyLimitContract]'') (\<lambda>_.
     rbind (stake_parse_address (ue_owner_address c)) (\<lambda>owner.
     rbind (stake_parse_address (ue_contract_address c)) (\<lambda>contract_addr.
     rbind (ensure (account_exists s owner)
       (Validate (''Account['' @ to_hex hex_encode owner @ ''] does not exist''))) (\<lambda>_.
     rbind (ensure (0 < ue_origin_energy_limit c) (Validate ''origin energy limit must be > 0'')) (\<lambda>_.
     rbind (ok_or (get_contract s contract_addr) (Validate ''Contract does not exist'')) (\<lambda>rec.
     rbind (ensure (sc_origin_address rec = as_bytes owner)
       (Validate (''Account['' @ to_hex hex_encode owner @ ''] is not the owner of the contract''))) (\<lambda>_.
     Inr 0)))))))"

definition update_energy_limit_execute :: "update_energy_limit_contract \<Rightarrow> execution_result act" where
  "update_energy_limit_execute c =
     st_bind (st_lift (stake_parse_address (ue_contract_address c))) (\<lambda>contract_addr.
     st_bind (st_gets (\<lambda>s. get_contract s contract_addr)) (\<lambda>orec.
     st_bind (st_lift (ok_or orec (Execute ''Contract does not exist''))) (\<lambda>rec.
     st_bind (st_modify (put_contract contract_addr
       (rec\<lparr>sc_origin_energy_limit := ue_origin_energy_limit c\<rparr>))) (\<lambda>_.
     st_return (ExecutionResult 0)))))"

section \<open>Clear the ABI\<close>

record clear_abi_contract =
  ca_owner_address :: bytes
  ca_contract_address :: bytes

definition clear_abi_validate ::
  "(bytes \<Rightarrow> string) \<Rightarrow> clear_abi_contract \<Rightarrow> world_state \<Rightarrow> actuator_error + i64" where
  "clear_abi_validate hex_encode c s =
     rbind (require_feature s ALLOW_TVM_CONSTANTINOPLE
       ''contract type error,unexpected type [ClearABIContract]'') (\<lambda>_.
     rbind (stake_parse_address (ca_owner_address c)) (\<lambda>owner.
     rbind (stake_parse_address (ca_contract_address c)) (\<lambda>contract_addr.
     rbind (ensure (account_exists s owner)
       (Validate (''Account['' @ to_hex hex_encode owner @ ''] not exists''))) (\<lambda>_.
     rbind (ok_or (get_contract s contract_addr) (Validate ''Contract not exists'')) (\<lambda>rec.
     rbind (ensure (sc_origin_address rec = as_bytes owner)
       (Validate (''Account['' @ to_hex hex_encode owner @ ''] is not the owner of the contract''))) (\<lambda>_.
     Inr 0))))))"

definition clear_abi_execute :: "clear_abi_contract \<Rightarrow> execution_result act" where
  "clear_abi_execute c =
     st_bind (st_lift (stake_parse_address (ca_contract_address c))) (\<lambda>contract_addr.
     st_bind (st_gets (\<lambda>s. get_contract s contract_addr)) (\<lambda>orec.
     st_bind (st_lift (ok_or orec (Execute ''Contract not exists''))) (\<lambda>rec.
     st_bind (st_modify (put_contract contract_addr (rec\<lparr>sc_abi := None\<rparr>))) (\<lambda>_.
     st_return (ExecutionResult 0)))))"

section \<open>What they keep\<close>

text \<open>A rewrite of one contract record touches no account and moves no value.\<close>

definition modify_contract :: "string \<Rightarrow> bytes \<Rightarrow> (smart_contract \<Rightarrow> smart_contract) \<Rightarrow> execution_result act" where
  "modify_contract msg bs g =
     st_bind (st_lift (stake_parse_address bs)) (\<lambda>a.
     st_bind (st_gets (\<lambda>s. get_contract s a)) (\<lambda>orec.
     st_bind (st_lift (ok_or orec (Execute msg))) (\<lambda>rec.
     st_bind (st_modify (put_contract a (g rec))) (\<lambda>_.
     st_return (ExecutionResult 0)))))"

lemma setting_execute_modify:
  "update_setting_execute c = modify_contract ''Contract does not exist'' (us_contract_address c)
     (\<lambda>rec. rec\<lparr>sc_consume_user_resource_percent := us_consume_user_resource_percent c\<rparr>)"
  "update_energy_limit_execute d = modify_contract ''Contract does not exist'' (ue_contract_address d)
     (\<lambda>rec. rec\<lparr>sc_origin_energy_limit := ue_origin_energy_limit d\<rparr>)"
  "clear_abi_execute e = modify_contract ''Contract not exists'' (ca_contract_address e) (\<lambda>rec. rec\<lparr>sc_abi := None\<rparr>)"
  by (simp_all add: modify_contract_def update_setting_execute_def update_energy_limit_execute_def clear_abi_execute_def)

lemma put_contract_frame [simp]:
  "wf_state (put_contract a rec s) = wf_state s" "total_trx (put_contract a rec s) = total_trx s"
  "get_account (put_contract a rec s) b = get_account s b"
  "get_contract (put_contract a rec s) b = (if b = a then Some rec else get_contract s b)"
  by (simp_all add: put_contract_def get_account_def get_contract_def)

lemma modify_contract_result:
  assumes "wf_address a" and "bs = as_bytes a" and "get_contract s a = Some rec"
  shows "modify_contract msg bs g s = (Inr (ExecutionResult 0), put_contract a (g rec) s)"
  using assms by (simp add: modify_contract_def st_bind_def st_prim_simps ok_or_def)

lemma update_setting_validate_Inr:
  assumes "update_setting_validate enc c s = Inr f"
  obtains owner a rec where "wf_address a" "us_contract_address c = as_bytes a" "get_contract s a = Some rec"
    "us_owner_address c = as_bytes owner" "sc_origin_address rec = as_bytes owner"
    "0 \<le> us_consume_user_resource_percent c" "us_consume_user_resource_percent c \<le> 100"
  using assms by (auto simp: update_setting_validate_def result_simps Let_def)

lemma update_energy_limit_validate_Inr:
  assumes "update_energy_limit_validate enc c s = Inr f"
  obtains owner a rec where "wf_address a" "ue_contract_address c = as_bytes a" "get_contract s a = Some rec"
    "ue_owner_address c = as_bytes owner" "sc_origin_address rec = as_bytes owner" "0 < ue_origin_energy_limit c"
  using assms by (auto simp: update_energy_limit_validate_def result_simps)

lemma clear_abi_validate_Inr:
  assumes "clear_abi_validate enc c s = Inr f"
  obtains owner a rec where "wf_address a" "ca_contract_address c = as_bytes a" "get_contract s a = Some rec"
    "ca_owner_address c = as_bytes owner" "sc_origin_address rec = as_bytes owner"
  using assms by (auto simp: clear_abi_validate_def result_simps)

interpretation update_setting: actuator "update_setting_validate enc" update_setting_execute "\<lambda>_ _. True" for enc
  by unfold_locales
    (auto simp: setting_execute_modify modify_contract_result elim!: update_setting_validate_Inr)

interpretation update_energy_limit: actuator "update_energy_limit_validate enc" update_energy_limit_execute "\<lambda>_ _. True" for enc
  by unfold_locales
    (auto simp: setting_execute_modify modify_contract_result elim!: update_energy_limit_validate_Inr)

interpretation clear_abi: actuator "clear_abi_validate enc" clear_abi_execute "\<lambda>_ _. True" for enc
  by unfold_locales
    (auto simp: setting_execute_modify modify_contract_result elim!: clear_abi_validate_Inr)

section \<open>Only the creator changes a contract\<close>

inductive setting_step :: "(bytes \<Rightarrow> string) \<Rightarrow> bytes \<Rightarrow> world_state \<Rightarrow> world_state \<Rightarrow> bool" for enc where
  setting: "actuate (update_setting_validate enc) update_setting_execute c s = (r, s') \<Longrightarrow>
     setting_step enc (us_owner_address c) s s'"
| energy_limit: "actuate (update_energy_limit_validate enc) update_energy_limit_execute c s = (r, s') \<Longrightarrow>
     setting_step enc (ue_owner_address c) s s'"
| abi: "actuate (clear_abi_validate enc) clear_abi_execute c s = (r, s') \<Longrightarrow>
     setting_step enc (ca_owner_address c) s s'"

inductive setting_steps :: "(bytes \<Rightarrow> string) \<Rightarrow> bytes set \<Rightarrow> world_state \<Rightarrow> world_state \<Rightarrow> bool" for enc A where
  settings_none: "setting_steps enc A s s"
| settings_more: "setting_steps enc A s s' \<Longrightarrow> setting_step enc w s' s'' \<Longrightarrow> w \<in> A \<Longrightarrow> setting_steps enc A s s''"

text \<open>A contract record whose share and limit are in range.\<close>

definition wf_contract :: "smart_contract \<Rightarrow> bool" where
  "wf_contract rec \<longleftrightarrow> 0 \<le> sc_consume_user_resource_percent rec \<and> sc_consume_user_resource_percent rec \<le> 100
     \<and> 0 \<le> sc_origin_energy_limit rec"

lemma actuate_cases:
  assumes "actuate v e c s = (r, s')"
  obtains "s' = s" | f where "v c s = Inr f" "e c s = (r, s')"
  using assms by (auto simp: actuate_def split: sum.splits)

lemma setting_step_contract:
  assumes "setting_step enc w s s'" and "get_contract s a = Some rec"
  shows "\<exists>rec'. get_contract s' a = Some rec' \<and> sc_origin_address rec' = sc_origin_address rec
     \<and> (w \<noteq> sc_origin_address rec \<longrightarrow> rec' = rec) \<and> (wf_contract rec \<longrightarrow> wf_contract rec')"
  using assms
proof cases
  case (setting c r)
  from setting(2) show ?thesis
    by (rule actuate_cases) (use assms(2) setting(1) in \<open>auto simp: setting_execute_modify modify_contract_result
      wf_contract_def elim!: update_setting_validate_Inr\<close>)
next
  case (energy_limit c r)
  from energy_limit(2) show ?thesis
    by (rule actuate_cases) (use assms(2) energy_limit(1) in \<open>auto simp: setting_execute_modify modify_contract_result
      wf_contract_def elim!: update_energy_limit_validate_Inr\<close>)
next
  case (abi c r)
  from abi(2) show ?thesis
    by (rule actuate_cases) (use assms(2) abi(1) in \<open>auto simp: setting_execute_modify modify_contract_result
      wf_contract_def elim!: clear_abi_validate_Inr\<close>)
qed


definition sample_contract :: smart_contract where
  "sample_contract = \<lparr>sc_origin_address = as_bytes (addr_of 1), sc_contract_address = as_bytes (addr_of 9), sc_abi = None,
     sc_bytecode = [], sc_consume_user_resource_percent = 0, sc_origin_energy_limit = 0\<rparr>"


end
