(* ===== verification/Act_Exchange.thy ===== *)
theory Act_Exchange
  imports Act_Setting Complex_Main
begin

text \<open>
  The on-chain exchange: \<open>exchange.rs\<close> of \<open>src/crates/actuators/src\<close>.  A pool holds two tokens; TRX has the
  token id \<open>_\<close> and lives in the balance of an account, a TRC10 token has a numeric id and lives in the token
  map.  The swap price and the precision check of a withdrawal are computed in \<open>f64\<close>.  The precision of
  \<open>powf\<close> is not specified by the language, so the floating-point operations are a parameter, a record of
  operations on a type \<open>'f\<close>; the code is translated over it operation by operation.  The reference instance
  \<open>exact_f64\<close> computes in the real numbers.
\<close>

section \<open>Parameters\<close>

definition LATEST_EXCHANGE_NUM :: string where
  "LATEST_EXCHANGE_NUM = ''LATEST_EXCHANGE_NUM''"

definition EXCHANGE_CREATE_FEE :: string where
  "EXCHANGE_CREATE_FEE = ''EXCHANGE_CREATE_FEE''"

definition DEFAULT_EXCHANGE_CREATE_FEE :: i64 where
  "DEFAULT_EXCHANGE_CREATE_FEE = 1024000000"

definition EXCHANGE_BALANCE_LIMIT :: string where
  "EXCHANGE_BALANCE_LIMIT = ''EXCHANGE_BALANCE_LIMIT''"

definition DEFAULT_EXCHANGE_BALANCE_LIMIT :: i64 where
  "DEFAULT_EXCHANGE_BALANCE_LIMIT = 1000000000000000"

definition BANCOR_SUPPLY :: i64 where
  "BANCOR_SUPPLY = 1000000000000000000"

definition create_fee :: "world_state \<Rightarrow> i64" where
  "create_fee s = (let f = get_prop_i64 s EXCHANGE_CREATE_FEE in if 0 < f then f else DEFAULT_EXCHANGE_CREATE_FEE)"

definition balance_limit :: "world_state \<Rightarrow> i64" where
  "balance_limit s =
     (let l = get_prop_i64 s EXCHANGE_BALANCE_LIMIT in if 0 < l then l else DEFAULT_EXCHANGE_BALANCE_LIMIT)"

section \<open>Tokens of an account\<close>

definition token_key :: "bytes \<Rightarrow> string" where
  "token_key i = from_utf8_lossy i"

definition token_balance :: "account \<Rightarrow> bytes \<Rightarrow> i64" where
  "token_balance acc i = (if is_trx i then acc_balance acc else token_of acc (token_key i))"

definition debit_token :: "bytes \<Rightarrow> i64 \<Rightarrow> account \<Rightarrow> actuator_error + account" where
  "debit_token i amount acc =
     (if is_trx i
      then rbind (checked_debit (acc_balance acc) amount (Execute ''balance is not sufficient''))
             (\<lambda>b. Inr (acc\<lparr>acc_balance := b\<rparr>))
      else rbind (checked_debit (token_of acc (token_key i)) amount (Execute ''asset balance is not sufficient''))
             (\<lambda>nb. Inr (set_token (token_key i) nb acc)))"

definition credit_token :: "bytes \<Rightarrow> i64 \<Rightarrow> account \<Rightarrow> actuator_error + account" where
  "credit_token i amount acc =
     (if is_trx i
      then rbind (checked_credit (acc_balance acc) amount (Execute ''long overflow''))
             (\<lambda>b. Inr (acc\<lparr>acc_balance := b\<rparr>))
      else rbind (checked_credit (token_of acc (token_key i)) amount (Execute ''long overflow''))
             (\<lambda>nb. Inr (set_token (token_key i) nb acc)))"

text \<open>\<open>other * quant / this\<close> in \<open>i128\<close> (it cannot overflow there), truncated towards zero.\<close>

definition proportional :: "i64 \<Rightarrow> i64 \<Rightarrow> i64 \<Rightarrow> actuator_error + i64" where
  "proportional other quant this =
     ok_or (i64_checked ((other * quant) sdiv this)) (Validate ''long overflow'')"

section \<open>The swap price\<close>

record 'f f64_ops =
  f_of_i64 :: "i64 \<Rightarrow> 'f"
  f_lit :: "int \<Rightarrow> nat \<Rightarrow> 'f"
  f_neg :: "'f \<Rightarrow> 'f"
  f_add :: "'f \<Rightarrow> 'f \<Rightarrow> 'f"
  f_sub :: "'f \<Rightarrow> 'f \<Rightarrow> 'f"
  f_mul :: "'f \<Rightarrow> 'f \<Rightarrow> 'f"
  f_div :: "'f \<Rightarrow> 'f \<Rightarrow> 'f"
  f_powf :: "'f \<Rightarrow> 'f \<Rightarrow> 'f"
  f_round :: "'f \<Rightarrow> 'f"
  f_gt :: "'f \<Rightarrow> 'f \<Rightarrow> bool"
  f_to_i64 :: "'f \<Rightarrow> i64"

text \<open>\<open>f_lit m e\<close> is the literal \<open>m * 10 ^ -e\<close>, \<open>f_to_i64\<close> the cast \<open>as i64\<close>.\<close>

definition bancor_exchange :: "'f f64_ops \<Rightarrow> i64 \<Rightarrow> i64 \<Rightarrow> i64 \<Rightarrow> i64" where
  "bancor_exchange F sell_balance buy_balance sell_quant =
     (let supply = BANCOR_SUPPLY;
          new_balance = i64_wrap (sell_balance + sell_quant);
          issued_supply = f_mul F (f_neg F (f_of_i64 F supply))
            (f_sub F (f_lit F 1 0)
              (f_powf F (f_add F (f_lit F 1 0) (f_div F (f_of_i64 F sell_quant) (f_of_i64 F new_balance))) (f_lit F 5 4)));
          relay = f_to_i64 F issued_supply;
          supply = i64_wrap (supply + relay);
          supply = i64_wrap (supply - relay);
          exchange_balance = f_mul F (f_of_i64 F buy_balance)
            (f_sub F (f_powf F (f_add F (f_lit F 1 0) (f_div F (f_of_i64 F relay) (f_of_i64 F supply))) (f_lit F 2000 0))
              (f_lit F 1 0))
      in f_to_i64 F exchange_balance)"

definition pool_transaction :: "'f f64_ops \<Rightarrow> exchange \<Rightarrow> bytes \<Rightarrow> i64 \<Rightarrow> i64 \<times> i64 \<times> i64" where
  "pool_transaction F ex sell_id sell_quant =
     (let fb = ex_first_balance ex; sb = ex_second_balance ex in
      if ex_first_id ex = sell_id
      then let buy = bancor_exchange F fb sb sell_quant in (buy, i64_wrap (fb + sell_quant), i64_wrap (sb - buy))
      else let buy = bancor_exchange F sb fb sell_quant in (buy, i64_wrap (fb - buy), i64_wrap (sb + sell_quant)))"

section \<open>Create\<close>

definition get_exchange :: "world_state \<Rightarrow> i64 \<Rightarrow> exchange option" where
  "get_exchange s i = ws_exchanges s i"

definition put_exchange :: "exchange \<Rightarrow> world_state \<Rightarrow> world_state" where
  "put_exchange ex s = s\<lparr>ws_exchanges := (ws_exchanges s)(ex_id ex \<mapsto> ex)\<rparr>"

record exchange_create_contract =
  xc_owner_address :: bytes
  xc_first_token_id :: bytes
  xc_first_token_balance :: i64
  xc_second_token_id :: bytes
  xc_second_token_balance :: i64

text \<open>One side of the new pool: TRX must also cover the fee.\<close>

definition check_side :: "account \<Rightarrow> i64 \<Rightarrow> bytes \<Rightarrow> i64 \<Rightarrow> string \<Rightarrow> actuator_error + unit" where
  "check_side acc fee i bal msg =
     (if is_trx i then ensure (i64_wrap (bal + fee) \<le> acc_balance acc) (Validate ''balance is not enough'')
      else ensure (bal \<le> token_balance acc i) (Validate msg))"

definition exchange_create_validate :: "exchange_create_contract \<Rightarrow> world_state \<Rightarrow> actuator_error + i64" where
  "exchange_create_validate c s =
     rbind (stake_parse_address (xc_owner_address c)) (\<lambda>owner.
     rbind (ok_or (get_account s owner)
       (Validate (''account['' @ hex (as_bytes owner) @ ''] not exists''))) (\<lambda>acc.
     let fee = create_fee s in
     rbind (ensure (fee \<le> acc_balance acc) (Validate ''No enough balance for exchange create fee!'')) (\<lambda>_.
     let first_id = xc_first_token_id c; second_id = xc_second_token_id c;
         first_bal = xc_first_token_balance c; second_bal = xc_second_token_balance c in
     rbind (ensure (is_trx first_id \<or> is_number first_id) (Validate ''first token id is not a valid number'')) (\<lambda>_.
     rbind (ensure (is_trx second_id \<or> is_number second_id) (Validate ''second token id is not a valid number'')) (\<lambda>_.
     rbind (ensure (first_id \<noteq> second_id) (Validate ''cannot exchange same tokens'')) (\<lambda>_.
     rbind (ensure (\<not> (first_bal \<le> 0 \<or> second_bal \<le> 0)) (Validate ''token balance must greater than zero'')) (\<lambda>_.
     let limit = balance_limit s in
     rbind (ensure (\<not> (limit < first_bal \<or> limit < second_bal))
       (Validate (''token balance must less than '' @ i64_to_string limit))) (\<lambda>_.
     rbind (check_side acc fee first_id first_bal ''first token balance is not enough'') (\<lambda>_.
     rbind (check_side acc fee second_id second_bal ''second token balance is not enough'') (\<lambda>_.
     Inr fee))))))))))"

definition exchange_create_execute :: "exchange_create_contract \<Rightarrow> execution_result act" where
  "exchange_create_execute c =
     st_bind (st_lift (stake_parse_address (xc_owner_address c))) (\<lambda>owner.
     st_bind (st_gets create_fee) (\<lambda>fee.
     st_bind (st_gets (\<lambda>s. get_account s owner)) (\<lambda>oa.
     st_bind (st_lift (ok_or oa (Execute ''owner account missing''))) (\<lambda>acc.
     st_bind (st_lift (checked_debit (acc_balance acc) fee (Execute ''balance is not sufficient''))) (\<lambda>b.
     st_bind (st_lift (debit_token (xc_first_token_id c) (xc_first_token_balance c) (acc\<lparr>acc_balance := b\<rparr>))) (\<lambda>acc.
     st_bind (st_lift (debit_token (xc_second_token_id c) (xc_second_token_balance c) acc)) (\<lambda>acc.
     st_bind (st_modify (put_account owner acc)) (\<lambda>_.
     st_bind (st_modify (burn_fee fee)) (\<lambda>_.
     st_bind (st_gets (\<lambda>s. i64_wrap (get_prop_i64 s LATEST_EXCHANGE_NUM + 1))) (\<lambda>i.
     st_bind (st_gets (\<lambda>s. get_prop_i64 s LATEST_BLOCK_HEADER_TIMESTAMP)) (\<lambda>now.
     st_bind (st_modify (put_exchange \<lparr>ex_id = i, ex_creator = as_bytes owner, ex_create_time = now,
        ex_first_id = xc_first_token_id c, ex_first_balance = xc_first_token_balance c,
        ex_second_id = xc_second_token_id c, ex_second_balance = xc_second_token_balance c\<rparr>)) (\<lambda>_.
     st_bind (st_modify (put_prop_i64 LATEST_EXCHANGE_NUM i)) (\<lambda>_.
     st_return (ExecutionResult fee))))))))))))))"

section \<open>Inject and withdraw\<close>

definition load_owner_and_pool ::
  "world_state \<Rightarrow> bytes \<Rightarrow> i64 \<Rightarrow> string \<Rightarrow> bool \<Rightarrow> actuator_error + address \<times> account \<times> exchange" where
  "load_owner_and_pool s owner_bytes exchange_id verb require_creator =
     rbind (stake_parse_address owner_bytes) (\<lambda>owner.
     rbind (ok_or (get_account s owner)
       (Validate (''account['' @ hex (as_bytes owner) @ ''] not exists''))) (\<lambda>acc.
     rbind (ensure (0 \<le> acc_balance acc) (Validate (''No enough balance for exchange '' @ verb @ '' fee!''))) (\<lambda>_.
     rbind (ok_or (get_exchange s exchange_id)
       (Validate (''Exchange['' @ i64_to_string exchange_id @ ''] not exists''))) (\<lambda>ex.
     rbind (ensure (\<not> (require_creator \<and> ex_creator ex \<noteq> as_bytes owner))
       (Validate (''account['' @ hex (as_bytes owner) @ ''] is not creator''))) (\<lambda>_.
     Inr (owner, acc, ex))))))"

definition paired :: "exchange \<Rightarrow> bytes \<Rightarrow> i64 \<Rightarrow> actuator_error + bytes \<times> i64" where
  "paired ex token_id quant =
     (if token_id = ex_first_id ex
      then rbind (proportional (ex_second_balance ex) quant (ex_first_balance ex)) (\<lambda>q. Inr (ex_second_id ex, q))
      else rbind (proportional (ex_first_balance ex) quant (ex_second_balance ex)) (\<lambda>q. Inr (ex_first_id ex, q)))"

definition exchange_closed :: string where
  "exchange_closed = ''Token balance in exchange is equal with 0,the exchange has been closed''"

record exchange_inject_contract =
  xi_owner_address :: bytes
  xi_exchange_id :: i64
  xi_token_id :: bytes
  xi_quant :: i64

definition not_enough :: "bytes \<Rightarrow> bool \<Rightarrow> string" where
  "not_enough i another =
     (if is_trx i then ''balance is not enough''
      else if another then ''another token balance is not enough'' else ''token balance is not enough'')"

definition exchange_inject_validate :: "exchange_inject_contract \<Rightarrow> world_state \<Rightarrow> actuator_error + i64" where
  "exchange_inject_validate c s =
     rbind (load_owner_and_pool s (xi_owner_address c) (xi_exchange_id c) ''inject'' True) (\<lambda>(_, acc, ex).
     let token_id = xi_token_id c; quant = xi_quant c in
     rbind (ensure (is_trx token_id \<or> is_number token_id) (Validate ''token id is not a valid number'')) (\<lambda>_.
     rbind (ensure (token_id = ex_first_id ex \<or> token_id = ex_second_id ex)
       (Validate ''token id is not in exchange'')) (\<lambda>_.
     rbind (ensure (\<not> (ex_first_balance ex = 0 \<or> ex_second_balance ex = 0)) (Validate exchange_closed)) (\<lambda>_.
     rbind (ensure (0 < quant) (Validate ''injected token quant must greater than zero'')) (\<lambda>_.
     rbind (paired ex token_id quant) (\<lambda>(another_id, another_quant).
     rbind (ensure (0 < another_quant) (Validate ''the calculated token quant  must be greater than 0'')) (\<lambda>_.
     let (new_token_bal, new_another_bal) =
       (if token_id = ex_first_id ex
        then (i64_wrap (ex_first_balance ex + quant), i64_wrap (ex_second_balance ex + another_quant))
        else (i64_wrap (ex_second_balance ex + quant), i64_wrap (ex_first_balance ex + another_quant)));
       limit = balance_limit s in
     rbind (ensure (\<not> (limit < new_token_bal \<or> limit < new_another_bal))
       (Validate (''token balance must less than '' @ i64_to_string limit))) (\<lambda>_.
     rbind (ensure (quant \<le> token_balance acc token_id) (Validate (not_enough token_id False))) (\<lambda>_.
     rbind (ensure (another_quant \<le> token_balance acc another_id) (Validate (not_enough another_id True))) (\<lambda>_.
     Inr 0))))))))))"

text \<open>Change both sides of the pool, \<open>f\<close> being the wrapping addition or subtraction.\<close>

definition move_pool :: "(i64 \<Rightarrow> i64 \<Rightarrow> i64) \<Rightarrow> bytes \<Rightarrow> i64 \<Rightarrow> i64 \<Rightarrow> exchange \<Rightarrow> exchange" where
  "move_pool f token_id quant another_quant ex =
     (if token_id = ex_first_id ex
      then ex\<lparr>ex_first_balance := f (ex_first_balance ex) quant,
              ex_second_balance := f (ex_second_balance ex) another_quant\<rparr>
      else ex\<lparr>ex_second_balance := f (ex_second_balance ex) quant,
              ex_first_balance := f (ex_first_balance ex) another_quant\<rparr>)"

definition exchange_inject_execute :: "exchange_inject_contract \<Rightarrow> execution_result act" where
  "exchange_inject_execute c =
     st_bind (st_lift (stake_parse_address (xi_owner_address c))) (\<lambda>owner.
     st_bind (st_gets (\<lambda>s. get_exchange s (xi_exchange_id c))) (\<lambda>oex.
     st_bind (st_lift (ok_or oex (Execute ''exchange missing''))) (\<lambda>ex.
     st_bind (st_lift (paired ex (xi_token_id c) (xi_quant c))) (\<lambda>(another_id, another_quant).
     st_bind (st_gets (\<lambda>s. get_account s owner)) (\<lambda>oa.
     st_bind (st_lift (ok_or oa (Execute ''owner account missing''))) (\<lambda>acc.
     st_bind (st_lift (debit_token (xi_token_id c) (xi_quant c) acc)) (\<lambda>acc.
     st_bind (st_lift (debit_token another_id another_quant acc)) (\<lambda>acc.
     st_bind (st_modify (put_account owner acc)) (\<lambda>_.
     st_bind (st_modify (put_exchange
       (move_pool (\<lambda>x y. i64_wrap (x + y)) (xi_token_id c) (xi_quant c) another_quant ex))) (\<lambda>_.
     st_return (ExecutionResult 0)))))))))))"

record exchange_withdraw_contract =
  xw_owner_address :: bytes
  xw_exchange_id :: i64
  xw_token_id :: bytes
  xw_quant :: i64

definition not_precise :: "'f f64_ops \<Rightarrow> i64 \<Rightarrow> i64 \<Rightarrow> i64 \<Rightarrow> i64 \<Rightarrow> bool" where
  "not_precise F other_bal quant this_bal another_quant =
     (let exact = f_div F (f_mul F (f_of_i64 F other_bal) (f_of_i64 F quant)) (f_of_i64 F this_bal);
          rounded = f_div F (f_round F (f_mul F exact (f_lit F 10000 0))) (f_lit F 10000 0);
          remainder = f_sub F rounded (f_of_i64 F another_quant)
      in f_gt F (f_div F remainder (f_of_i64 F another_quant)) (f_lit F 1 4))"

definition exchange_withdraw_validate ::
  "'f f64_ops \<Rightarrow> exchange_withdraw_contract \<Rightarrow> world_state \<Rightarrow> actuator_error + i64" where
  "exchange_withdraw_validate F c s =
     rbind (load_owner_and_pool s (xw_owner_address c) (xw_exchange_id c) ''withdraw'' True) (\<lambda>(_, _, ex).
     let token_id = xw_token_id c; quant = xw_quant c in
     rbind (ensure (is_trx token_id \<or> is_number token_id) (Validate ''token id is not a valid number'')) (\<lambda>_.
     rbind (ensure (token_id = ex_first_id ex \<or> token_id = ex_second_id ex)
       (Validate ''token is not in exchange'')) (\<lambda>_.
     rbind (ensure (0 < quant) (Validate ''withdraw token quant must greater than zero'')) (\<lambda>_.
     rbind (ensure (\<not> (ex_first_balance ex = 0 \<or> ex_second_balance ex = 0)) (Validate exchange_closed)) (\<lambda>_.
     let (this_bal, other_bal) =
       (if token_id = ex_first_id ex then (ex_first_balance ex, ex_second_balance ex)
        else (ex_second_balance ex, ex_first_balance ex)) in
     rbind (proportional other_bal quant this_bal) (\<lambda>another_quant.
     rbind (ensure (\<not> (this_bal < quant \<or> other_bal < another_quant)) (Validate ''exchange balance is not enough'')) (\<lambda>_.
     rbind (ensure (0 < another_quant) (Validate ''withdraw another token quant must greater than zero'')) (\<lambda>_.
     rbind (ensure (\<not> not_precise F other_bal quant this_bal another_quant) (Validate ''Not precise enough'')) (\<lambda>_.
     Inr 0)))))))))"

definition exchange_withdraw_execute :: "exchange_withdraw_contract \<Rightarrow> execution_result act" where
  "exchange_withdraw_execute c =
     st_bind (st_lift (stake_parse_address (xw_owner_address c))) (\<lambda>owner.
     st_bind (st_gets (\<lambda>s. get_exchange s (xw_exchange_id c))) (\<lambda>oex.
     st_bind (st_lift (ok_or oex (Execute ''exchange missing''))) (\<lambda>ex.
     st_bind (st_lift (paired ex (xw_token_id c) (xw_quant c))) (\<lambda>(another_id, another_quant).
     st_bind (st_gets (\<lambda>s. get_account s owner)) (\<lambda>oa.
     st_bind (st_lift (ok_or oa (Execute ''owner account missing''))) (\<lambda>acc.
     st_bind (st_lift (credit_token (xw_token_id c) (xw_quant c) acc)) (\<lambda>acc.
     st_bind (st_lift (credit_token another_id another_quant acc)) (\<lambda>acc.
     st_bind (st_modify (put_account owner acc)) (\<lambda>_.
     st_bind (st_modify (put_exchange
       (move_pool (\<lambda>x y. i64_wrap (x - y)) (xw_token_id c) (xw_quant c) another_quant ex))) (\<lambda>_.
     st_return (ExecutionResult 0)))))))))))"

section \<open>Swap\<close>

record exchange_transaction_contract =
  xt_owner_address :: bytes
  xt_exchange_id :: i64
  xt_token_id :: bytes
  xt_quant :: i64
  xt_expected :: i64

definition exchange_transaction_validate ::
  "'f f64_ops \<Rightarrow> exchange_transaction_contract \<Rightarrow> world_state \<Rightarrow> actuator_error + i64" where
  "exchange_transaction_validate F c s =
     rbind (load_owner_and_pool s (xt_owner_address c) (xt_exchange_id c) ''transaction'' False) (\<lambda>(_, acc, ex).
     let token_id = xt_token_id c; quant = xt_quant c; expected = xt_expected c in
     rbind (ensure (is_trx token_id \<or> is_number token_id) (Validate ''token id is not a valid number'')) (\<lambda>_.
     rbind (ensure (token_id = ex_first_id ex \<or> token_id = ex_second_id ex)
       (Validate ''token is not in exchange'')) (\<lambda>_.
     rbind (ensure (0 < quant) (Validate ''token quant must greater than zero'')) (\<lambda>_.
     rbind (ensure (0 < expected) (Validate ''token expected must greater than zero'')) (\<lambda>_.
     rbind (ensure (\<not> (ex_first_balance ex = 0 \<or> ex_second_balance ex = 0)) (Validate exchange_closed)) (\<lambda>_.
     let token_bal = (if token_id = ex_first_id ex then ex_first_balance ex else ex_second_balance ex);
         limit = balance_limit s in
     rbind (ensure (i64_wrap (token_bal + quant) \<le> limit)
       (Validate (''token balance must less than '' @ i64_to_string limit))) (\<lambda>_.
     rbind (ensure (quant \<le> token_balance acc token_id) (Validate (not_enough token_id False))) (\<lambda>_.
     rbind (ensure (expected \<le> fst (pool_transaction F ex token_id quant))
       (Validate ''token required must greater than expected'')) (\<lambda>_.
     Inr 0)))))))))"

definition exchange_transaction_execute ::
  "'f f64_ops \<Rightarrow> exchange_transaction_contract \<Rightarrow> execution_result act" where
  "exchange_transaction_execute F c =
     st_bind (st_lift (stake_parse_address (xt_owner_address c))) (\<lambda>owner.
     st_bind (st_gets (\<lambda>s. get_exchange s (xt_exchange_id c))) (\<lambda>oex.
     st_bind (st_lift (ok_or oex (Execute ''exchange missing''))) (\<lambda>ex.
     let (buy, new_first, new_second) = pool_transaction F ex (xt_token_id c) (xt_quant c);
         another_id = (if xt_token_id c = ex_first_id ex then ex_second_id ex else ex_first_id ex) in
     st_bind (st_gets (\<lambda>s. get_account s owner)) (\<lambda>oa.
     st_bind (st_lift (ok_or oa (Execute ''owner account missing''))) (\<lambda>acc.
     st_bind (st_lift (debit_token (xt_token_id c) (xt_quant c) acc)) (\<lambda>acc.
     st_bind (st_lift (credit_token another_id buy acc)) (\<lambda>acc.
     st_bind (st_modify (put_account owner acc)) (\<lambda>_.
     st_bind (st_modify (put_exchange (ex\<lparr>ex_first_balance := new_first, ex_second_balance := new_second\<rparr>))) (\<lambda>_.
     st_return (ExecutionResult 0))))))))))"

section \<open>Tokens: what the updates do\<close>

definition upd_token :: "bytes \<Rightarrow> i64 \<Rightarrow> account \<Rightarrow> account" where
  "upd_token i v acc = (if is_trx i then acc\<lparr>acc_balance := v\<rparr> else set_token (token_key i) v acc)"

lemma valid_token_key:
  assumes "is_number i" and "is_number j"
  shows "token_key i = token_key j \<longleftrightarrow> i = j"
proof -
  have ascii: "token_key k = string_of_bytes k" if "is_number k" for k
  proof -
    have "unat b < 0x80" if "b \<in> set k" for b
      using that \<open>is_number k\<close> by (auto simp: is_number_def list_all_iff word_le_nat_alt)
    then show ?thesis by (simp add: token_key_def)
  qed
  show ?thesis using assms by (metis ascii bytes_of_string_of_bytes)
qed

lemma token_balance_upd [simp]:
  assumes "valid_token i" and "valid_token u"
  shows "token_balance (upd_token i v acc) u = (if u = i then v else token_balance acc u)"
  using assms valid_token_key [of i u]
  by (auto simp: token_balance_def upd_token_def valid_token_def is_trx_def set_token_def token_of_def)

lemma debit_token_ok:
  assumes "0 \<le> x" and "x \<le> token_balance acc i" and "token_balance acc i \<le> i64_max"
  shows "debit_token i x acc = Inr (upd_token i (token_balance acc i - x) acc)"
  using assms
  by (auto simp: debit_token_def upd_token_def token_balance_def checked_debit_ok i64_bounds_defs)

lemma credit_token_ok:
  assumes "0 \<le> x" and "0 \<le> token_balance acc i" and "token_balance acc i + x \<le> i64_max"
  shows "credit_token i x acc = Inr (upd_token i (token_balance acc i + x) acc)"
  using assms
  by (auto simp: credit_token_def upd_token_def token_balance_def checked_credit_ok i64_bounds_defs)

lemma upd_token_value:
  "acc_trx (upd_token i v acc) = acc_trx acc + (if is_trx i then v - acc_balance acc else 0)"
  "wf_account acc \<Longrightarrow> 0 \<le> v \<Longrightarrow> v \<le> i64_max \<Longrightarrow> wf_account (upd_token i v acc)"
  "same_delegation (Some a) (upd_token i v acc) = same_delegation (Some a) acc"
  "acc_balance (upd_token i v acc) = (if is_trx i then v else acc_balance acc)"
  by (auto simp: upd_token_def acc_trx_def wf_account_def set_token_def same_delegation_def delegated_energy_def)

lemma token_balance_bounds:
  assumes "wf_state s" and "get_account s a = Some acc"
  shows "0 \<le> token_balance acc i" and "token_balance acc i \<le> i64_max"
  using wf_state_account [OF assms] token_of_bounds [of acc "token_key i"]
  by (auto simp: token_balance_def wf_account_def)

section \<open>Pools: what the updates do\<close>

lemma put_exchange_frame [simp]:
  "get_account (put_exchange ex s) a = get_account s a" "get_prop_i64 (put_exchange ex s) k = get_prop_i64 s k"
  "get_exchange (put_exchange ex s) i = (if i = ex_id ex then Some ex else get_exchange s i)"
  "get_exchange (put_account a acc s) i = get_exchange s i" "get_exchange (burn_fee x s) i = get_exchange s i"
  by (simp_all add: put_exchange_def get_account_def get_prop_i64_def get_exchange_def put_account_def burn_fee_def
      burn_trx_def put_prop_i64_def)

lemma total_trx_put_exchange:
  "wf_state s \<Longrightarrow> total_trx (put_exchange ex s)
     = total_trx s - opt_val ex_trx (get_exchange s (ex_id ex)) + ex_trx ex"
  by (simp add: total_trx_def put_exchange_def wf_state_def msum_upd get_prop_i64_def get_exchange_def)

lemma wf_state_put_exchange:
  assumes "wf_state s" and "wf_exchange ex"
    and "total_trx s - opt_val ex_trx (get_exchange s (ex_id ex)) + ex_trx ex \<le> i64_max"
  shows "wf_state (put_exchange ex s)"
  using assms total_trx_put_exchange [OF assms(1), of ex]
  by (auto simp: wf_state_def wf_delegation_def records_of_def put_exchange_def get_prop_i64_def)

lemma put_exchange_account: "put_exchange ex (put_account a acc s) = put_account a acc (put_exchange ex s)"
  by (simp add: put_exchange_def put_account_def)

text \<open>An account and a pool that exchange value: the sum stays, whichever side gives.\<close>

lemma move_account_pool:
  assumes w: "wf_state s" and a: "get_account s a = Some acc" and e: "get_exchange s (ex_id ex') = Some ex"
    and wa: "wf_account acc'" and sd: "same_delegation (Some acc) acc'" and we: "wf_exchange ex'"
    and eq: "acc_trx acc' + ex_trx ex' = acc_trx acc + ex_trx ex"
  shows "wf_state (put_exchange ex' (put_account a acc' s))"
    and "total_trx (put_exchange ex' (put_account a acc' s)) = total_trx s"
proof -
  have m: "total_trx s \<le> i64_max" using w by simp
  have "wf_state (put_exchange ex' (put_account a acc' s))
    \<and> total_trx (put_exchange ex' (put_account a acc' s)) = total_trx s"
  proof (cases "acc_trx acc' \<le> acc_trx acc")
    case True
    then have "total_trx s + acc_trx acc' - acc_trx acc \<le> i64_max" using m by simp
    note 1 = move_account [OF w a wa sd this]
    have "total_trx (put_account a acc' s) - opt_val ex_trx (get_exchange (put_account a acc' s) (ex_id ex')) + ex_trx ex' \<le> i64_max"
      using m eq e 1(2) by simp
    from wf_state_put_exchange [OF 1(1) we this] total_trx_put_exchange [OF 1(1), of ex'] 1(2) e eq
    show ?thesis by simp
  next
    case False
    then have le: "total_trx s - opt_val ex_trx (get_exchange s (ex_id ex')) + ex_trx ex' \<le> i64_max"
      using m e eq by simp
    note 1 = wf_state_put_exchange [OF w we le] and t = total_trx_put_exchange [OF w, of ex']
    have "total_trx (put_exchange ex' s) + acc_trx acc' - acc_trx acc \<le> i64_max"
      using m eq e t by simp
    from move_account [OF 1 _ wa sd this, of a] a t e eq show ?thesis
      by (simp add: put_exchange_account)
  qed
  then show "wf_state (put_exchange ex' (put_account a acc' s))"
    and "total_trx (put_exchange ex' (put_account a acc' s)) = total_trx s" by simp_all
qed

text \<open>The quantity of a token in accounts, pools and orders.\<close>

definition pool_holding :: "bytes \<Rightarrow> exchange \<Rightarrow> int" where
  "pool_holding u ex = (if ex_first_id ex = u then ex_first_balance ex else 0)
     + (if ex_second_id ex = u then ex_second_balance ex else 0)"

definition order_holding :: "bytes \<Rightarrow> market_order \<Rightarrow> int" where
  "order_holding u m = (if mo_sell_id m = u then mo_sell_remain m else 0)"

definition unit_total :: "bytes \<Rightarrow> world_state \<Rightarrow> int" where
  "unit_total u s = msum (\<lambda>acc. token_balance acc u) (ws_accounts s) + msum (pool_holding u) (ws_exchanges s)
     + msum (order_holding u) (ws_orders s)"

definition units_fit :: "world_state \<Rightarrow> bool" where
  "units_fit s \<longleftrightarrow> (\<forall>u. valid_token u \<longrightarrow> unit_total u s \<le> i64_max)"

lemma unit_total_move:
  assumes "wf_state s" and "get_account s a = Some acc" and "get_exchange s (ex_id ex') = Some ex"
    and "token_balance acc' u + pool_holding u ex' = token_balance acc u + pool_holding u ex"
  shows "unit_total u (put_exchange ex' (put_account a acc' s)) = unit_total u s"
  using assms
  by (simp add: unit_total_def put_exchange_def put_account_def wf_state_def msum_upd get_account_def get_exchange_def)

lemma unit_total_account_pool:
  assumes w: "wf_state s" and "get_account s a = Some acc" and "get_exchange s i = Some ex"
  shows "token_balance acc u + pool_holding u ex \<le> unit_total u s"
proof -
  have "opt_val (\<lambda>acc. token_balance acc u) (ws_accounts s a) \<le> msum (\<lambda>acc. token_balance acc u) (ws_accounts s)"
    using w token_balance_bounds(1) [OF w, of _ _ u] by (intro msum_member) (auto simp: wf_state_def get_account_def)
  moreover have "opt_val (pool_holding u) (ws_exchanges s i) \<le> msum (pool_holding u) (ws_exchanges s)"
    using w by (intro msum_member) (auto simp: wf_state_def wf_exchange_def pool_holding_def)
  moreover have "0 \<le> msum (order_holding u) (ws_orders s)"
    using w by (intro msum_nonneg) (auto simp: wf_state_def wf_order_def order_holding_def)
  ultimately show ?thesis using assms(2,3) by (simp add: unit_total_def get_account_def get_exchange_def)
qed

section \<open>Trades between an account and a pool\<close>

definition other_id :: "exchange \<Rightarrow> bytes \<Rightarrow> bytes" where
  "other_id ex t = (if t = ex_first_id ex then ex_second_id ex else ex_first_id ex)"

definition side :: "exchange \<Rightarrow> bytes \<Rightarrow> int" where
  "side ex t = (if t = ex_first_id ex then ex_first_balance ex else ex_second_balance ex)"

definition in_pool :: "exchange \<Rightarrow> bytes \<Rightarrow> bool" where
  "in_pool ex t \<longleftrightarrow> wf_exchange ex \<and> (t = ex_first_id ex \<or> t = ex_second_id ex)"

text \<open>The pool after \<open>d\<close> of \<open>t\<close> and \<open>e\<close> of the other token went in, and the account they came from.\<close>

definition traded_pool :: "bytes \<Rightarrow> int \<Rightarrow> int \<Rightarrow> exchange \<Rightarrow> exchange" where
  "traded_pool t d e ex = move_pool (+) t d e ex"

definition traded_account :: "exchange \<Rightarrow> bytes \<Rightarrow> int \<Rightarrow> int \<Rightarrow> account \<Rightarrow> account" where
  "traded_account ex t d e acc = upd_token (other_id ex t) (token_balance acc (other_id ex t) - e)
     (upd_token t (token_balance acc t - d) acc)"

lemma in_pool_valid:
  "in_pool ex t \<Longrightarrow> valid_token t" "in_pool ex t \<Longrightarrow> valid_token (other_id ex t)" "in_pool ex t \<Longrightarrow> other_id ex t \<noteq> t"
  "in_pool ex t \<Longrightarrow> 0 \<le> side ex t" "in_pool ex t \<Longrightarrow> 0 \<le> side ex (other_id ex t)"
  "in_pool ex t \<Longrightarrow> side ex t \<le> i64_max" "in_pool ex t \<Longrightarrow> side ex (other_id ex t) \<le> i64_max"
  "in_pool ex t \<Longrightarrow> t \<noteq> other_id ex t"
  by (auto simp: in_pool_def wf_exchange_def other_id_def side_def)

lemma pool_holding_in_pool:
  "in_pool ex t \<Longrightarrow> pool_holding u ex = (if u = t then side ex t else if u = other_id ex t then side ex (other_id ex t) else 0)"
  by (auto simp: in_pool_def pool_holding_def other_id_def side_def wf_exchange_def)

lemma traded_pool_simps [simp]:
  "ex_id (traded_pool t d e ex) = ex_id ex" "ex_creator (traded_pool t d e ex) = ex_creator ex"
  "other_id (traded_pool t d e ex) u = other_id ex u"
  "in_pool ex t \<Longrightarrow> side (traded_pool t d e ex) t = side ex t + d"
  "in_pool ex t \<Longrightarrow> side (traded_pool t d e ex) (other_id ex t) = side ex (other_id ex t) + e"
  by (auto simp: traded_pool_def move_pool_def other_id_def side_def in_pool_def wf_exchange_def)

lemma traded_pool_wf:
  assumes "in_pool ex t" and "0 \<le> side ex t + d" and "side ex t + d \<le> i64_max"
    and "0 \<le> side ex (other_id ex t) + e" and "side ex (other_id ex t) + e \<le> i64_max"
  shows "wf_exchange (traded_pool t d e ex)" and "in_pool (traded_pool t d e ex) t"
  using assms by (auto simp: traded_pool_def move_pool_def other_id_def side_def in_pool_def wf_exchange_def)

lemma ex_trx_holding: "wf_exchange ex \<Longrightarrow> ex_trx ex = pool_holding TRX_SYMBOL_BYTES ex"
  by (simp add: ex_trx_def pool_holding_def)

lemma trx_unit [simp]: "valid_token TRX_SYMBOL_BYTES" "is_trx TRX_SYMBOL_BYTES"
  by (simp_all add: valid_token_def is_trx_def)

lemma acc_trx_unit: "acc_trx (upd_token i v acc) - acc_trx acc
   = token_balance (upd_token i v acc) TRX_SYMBOL_BYTES - token_balance acc TRX_SYMBOL_BYTES"
  by (simp add: upd_token_value token_balance_def)

lemma pool_trade:
  assumes w: "wf_state s" and a: "get_account s a = Some acc" and e: "get_exchange s i = Some ex"
    and t: "in_pool ex t"
    and b: "0 \<le> token_balance acc t - d" "token_balance acc t - d \<le> i64_max"
      "0 \<le> token_balance acc (other_id ex t) - e" "token_balance acc (other_id ex t) - e \<le> i64_max"
    and p: "0 \<le> side ex t + d" "side ex t + d \<le> i64_max"
      "0 \<le> side ex (other_id ex t) + e" "side ex (other_id ex t) + e \<le> i64_max"
    and s': "s' = put_exchange (traded_pool t d e ex) (put_account a (traded_account ex t d e acc) s)"
  shows "wf_state s'" and "total_trx s' = total_trx s" and "valid_token u \<Longrightarrow> unit_total u s' = unit_total u s"
proof -
  let ?p = "traded_pool t d e ex" and ?a = "traded_account ex t d e acc"
  have id: "ex_id ex = i" using w e by (simp add: wf_state_def get_exchange_def)
  note v = in_pool_valid [OF t] and wp = traded_pool_wf [OF t p]
  have "same_delegation (Some acc) acc" by (simp add: same_delegation_def)
  then have wa: "wf_account ?a" "same_delegation (Some acc) ?a"
    using wf_state_account(1) [OF w a] b v
    by (auto simp: traded_account_def upd_token_value(3) intro!: upd_token_value(2))
  have bal: "token_balance ?a u + pool_holding u ?p = token_balance acc u + pool_holding u ex" if "valid_token u" for u
    using that v by (simp add: traded_account_def pool_holding_in_pool [OF t] pool_holding_in_pool [OF wp(2)] t)
  have "acc_trx ?a - acc_trx acc = token_balance ?a TRX_SYMBOL_BYTES - token_balance acc TRX_SYMBOL_BYTES"
    using acc_trx_unit [of "other_id ex t" "token_balance acc (other_id ex t) - e" "upd_token t (token_balance acc t - d) acc"]
      acc_trx_unit [of t "token_balance acc t - d" acc]
    unfolding traded_account_def by linarith
  then have "acc_trx ?a + ex_trx ?p = acc_trx acc + ex_trx ex"
    using bal [OF trx_unit(1)] t wp(1) by (simp add: ex_trx_holding in_pool_def)
  from move_account_pool [OF w a _ wa wp(1) this] e id
  show "wf_state s'" and "total_trx s' = total_trx s" by (simp_all add: s')
  show "valid_token u \<Longrightarrow> unit_total u s' = unit_total u s"
    using unit_total_move [OF w a _ bal] e id by (simp add: s')
qed

lemma load_owner_and_pool_Inr [simp]:
  "load_owner_and_pool s ob i verb rc = Inr (owner, acc, ex) \<longleftrightarrow>
     wf_address owner \<and> ob = as_bytes owner \<and> get_account s owner = Some acc \<and> 0 \<le> acc_balance acc
     \<and> get_exchange s i = Some ex \<and> (rc \<longrightarrow> ex_creator ex = as_bytes owner)"
  by (auto simp: load_owner_and_pool_def result_simps)

lemma proportional_Inr:
  assumes "0 \<le> x" and "0 < q" and "0 < y"
  shows "proportional x q y = Inr aq \<longleftrightarrow> aq = x * q div y \<and> aq \<le> i64_max"
proof -
  have "0 \<le> x * q div y" using assms by (simp add: pos_imp_zdiv_nonneg_iff)
  then show ?thesis
    using assms by (auto simp: proportional_def sdiv_nonneg i64_checked_def i64_bounds_defs result_simps)
qed

lemma paired_Inr:
  assumes t: "in_pool ex t" and q: "0 < q" and nz: "\<not> (ex_first_balance ex = 0 \<or> ex_second_balance ex = 0)"
  shows "paired ex t q = Inr (o', aq) \<longleftrightarrow> o' = other_id ex t \<and> aq = side ex (other_id ex t) * q div side ex t \<and> aq \<le> i64_max"
proof -
  have pos: "0 < ex_first_balance ex" "0 < ex_second_balance ex"
    using t nz by (auto simp: in_pool_def wf_exchange_def order.order_iff_strict)
  note pr = proportional_Inr [OF less_imp_le [OF pos(1)] q pos(2)] proportional_Inr [OF less_imp_le [OF pos(2)] q pos(1)]
  show ?thesis
    using t by (auto simp: paired_def pr other_id_def side_def result_simps in_pool_def wf_exchange_def)
qed

lemma pool_of:
  assumes "wf_state s" and "get_exchange s i = Some ex" and "t = ex_first_id ex \<or> t = ex_second_id ex"
  shows "in_pool ex t"
  using assms by (auto simp: in_pool_def wf_state_def get_exchange_def)

lemma side_pos:
  assumes "in_pool ex t" and "\<not> (ex_first_balance ex = 0 \<or> ex_second_balance ex = 0)"
  shows "0 < side ex t" and "0 < side ex (other_id ex t)"
  using assms by (auto simp: in_pool_def wf_exchange_def side_def other_id_def order.order_iff_strict)

text \<open>The paired quantity of an injection or a withdrawal.\<close>

definition share :: "exchange \<Rightarrow> bytes \<Rightarrow> i64 \<Rightarrow> i64" where
  "share ex t q = side ex (other_id ex t) * q div side ex t"

lemma share_nonneg: "in_pool ex t \<Longrightarrow> 0 \<le> q \<Longrightarrow> 0 \<le> share ex t q"
  using in_pool_valid [of ex t] by (cases "side ex t = 0") (auto simp: share_def pos_imp_zdiv_nonneg_iff)

section \<open>Inject: what it does\<close>

lemma exchange_inject_validate_Inr:
  assumes w: "wf_state s" and v: "exchange_inject_validate c s = Inr f"
  obtains owner acc ex where "wf_address owner" "xi_owner_address c = as_bytes owner" "get_account s owner = Some acc"
    "get_exchange s (xi_exchange_id c) = Some ex" "ex_creator ex = as_bytes owner" "in_pool ex (xi_token_id c)"
    "0 < xi_quant c" "\<not> (ex_first_balance ex = 0 \<or> ex_second_balance ex = 0)"
    "paired ex (xi_token_id c) (xi_quant c) = Inr (other_id ex (xi_token_id c), share ex (xi_token_id c) (xi_quant c))"
    "0 < share ex (xi_token_id c) (xi_quant c)" "xi_quant c \<le> token_balance acc (xi_token_id c)"
    "share ex (xi_token_id c) (xi_quant c) \<le> token_balance acc (other_id ex (xi_token_id c))" "f = 0"
proof -
  from v obtain owner acc ex o' aq where *: "wf_address owner" "xi_owner_address c = as_bytes owner" "get_account s owner = Some acc"
    "get_exchange s (xi_exchange_id c) = Some ex" "ex_creator ex = as_bytes owner"
    "xi_token_id c = ex_first_id ex \<or> xi_token_id c = ex_second_id ex" "0 < xi_quant c"
    "\<not> (ex_first_balance ex = 0 \<or> ex_second_balance ex = 0)" "paired ex (xi_token_id c) (xi_quant c) = Inr (o', aq)" "0 < aq"
    "xi_quant c \<le> token_balance acc (xi_token_id c)" "aq \<le> token_balance acc o'" "f = 0"
    by (auto simp: exchange_inject_validate_def result_simps Let_def case_prod_beta)
  note t = pool_of [OF w *(4,6)]
  have "o' = other_id ex (xi_token_id c)" "aq = share ex (xi_token_id c) (xi_quant c)"
    using *(9) paired_Inr [OF t *(7,8)] by (simp_all add: share_def)
  with * t that show thesis by blast
qed

lemma exchange_inject_result:
  assumes w: "wf_state s" and u: "units_fit s" and v: "exchange_inject_validate c s = Inr f"
  obtains owner acc ex s' where "xi_owner_address c = as_bytes owner" "get_account s owner = Some acc"
    "get_exchange s (xi_exchange_id c) = Some ex" "ex_creator ex = as_bytes owner" "in_pool ex (xi_token_id c)"
    "0 < side ex (xi_token_id c)" "0 < xi_quant c" "0 < share ex (xi_token_id c) (xi_quant c)"
    "exchange_inject_execute c s = (Inr (ExecutionResult 0), s')" "wf_state s'" "total_trx s' = total_trx s"
    "\<forall>u. valid_token u \<longrightarrow> unit_total u s' = unit_total u s"
    "s' = put_exchange (traded_pool (xi_token_id c) (xi_quant c) (share ex (xi_token_id c) (xi_quant c)) ex)
       (put_account owner (traded_account ex (xi_token_id c) (xi_quant c) (share ex (xi_token_id c) (xi_quant c)) acc) s)"
proof -
  let ?t = "xi_token_id c" and ?q = "xi_quant c"
  from v obtain owner acc ex where c: "wf_address owner" "xi_owner_address c = as_bytes owner" "get_account s owner = Some acc"
    "get_exchange s (xi_exchange_id c) = Some ex" and cr: "ex_creator ex = as_bytes owner" and t: "in_pool ex ?t"
    and q: "0 < ?q" and nz: "\<not> (ex_first_balance ex = 0 \<or> ex_second_balance ex = 0)"
    and p: "paired ex ?t ?q = Inr (other_id ex ?t, share ex ?t ?q)" "0 < share ex ?t ?q"
    and b: "?q \<le> token_balance acc ?t" "share ex ?t ?q \<le> token_balance acc (other_id ex ?t)"
    by (rule exchange_inject_validate_Inr [OF w])
  let ?o = "other_id ex ?t" and ?r = "share ex ?t ?q"
  note v' = in_pool_valid [OF t] and bd = token_balance_bounds [OF w c(3)]
  have fit: "side ex ?t + ?q \<le> i64_max" "side ex ?o + ?r \<le> i64_max"
    using unit_total_account_pool [OF w c(3,4), of ?t] unit_total_account_pool [OF w c(3,4), of ?o] u v' b
    by (fastforce simp: units_fit_def pool_holding_in_pool [OF t])+
  have wrap: "i64_wrap (side ex ?t + ?q) = side ex ?t + ?q" "i64_wrap (side ex ?o + ?r) = side ex ?o + ?r"
    using fit q p(2) v' by (auto intro!: i64_wrap_id nonneg_in_i64)
  have mv: "move_pool (\<lambda>x y. i64_wrap (x + y)) ?t ?q ?r ex = traded_pool ?t ?q ?r ex"
    using wrap t unfolding move_pool_def traded_pool_def
    by (auto simp: side_def other_id_def in_pool_def wf_exchange_def split: if_splits)
  have d1: "debit_token ?t ?q acc = Inr (upd_token ?t (token_balance acc ?t - ?q) acc)"
    using q b(1) bd by (intro debit_token_ok) simp_all
  have d2: "debit_token ?o ?r (upd_token ?t (token_balance acc ?t - ?q) acc) = Inr (traded_account ex ?t ?q ?r acc)"
    using debit_token_ok [of ?r "upd_token ?t (token_balance acc ?t - ?q) acc" ?o] p(2) b(2) bd v'
    by (simp add: traded_account_def)
  let ?s' = "put_exchange (traded_pool ?t ?q ?r ex) (put_account owner (traded_account ex ?t ?q ?r acc) s)"
  have ex: "exchange_inject_execute c s = (Inr (ExecutionResult 0), ?s')"
    using c by (simp add: exchange_inject_execute_def st_bind_def st_prim_simps ok_or_def p(1) d1 d2 mv)
  have "0 \<le> token_balance acc ?t - ?q" "token_balance acc ?t - ?q \<le> i64_max" "0 \<le> token_balance acc ?o - ?r"
    "token_balance acc ?o - ?r \<le> i64_max" "0 \<le> side ex ?t + ?q" "0 \<le> side ex ?o + ?r"
    using b q p(2) bd(2) [of ?t] bd(2) [of ?o] v' by simp_all
  note tr = pool_trade [OF w c(3,4) t this(1-5) fit(1) this(6) fit(2) refl]
  show thesis
    by (rule that [OF c(2-4) cr t side_pos(1) [OF t nz] q p(2) ex tr(1,2) _ refl]) (use tr(3) in blast)
qed

interpretation exchange_inject: actuator exchange_inject_validate exchange_inject_execute "\<lambda>_ s. units_fit s"
  by unfold_locales (metis exchange_inject_result)

section \<open>Withdraw: what it does\<close>

lemma case_if_pair: "(case (if p then (a, b) else (b, a)) of (x, y) \<Rightarrow> h x y) = h (if p then a else b) (if p then b else a)"
  by simp

lemma exchange_withdraw_validate_Inr:
  assumes w: "wf_state s" and v: "exchange_withdraw_validate F c s = Inr f"
  obtains owner acc ex where "wf_address owner" "xw_owner_address c = as_bytes owner" "get_account s owner = Some acc"
    "get_exchange s (xw_exchange_id c) = Some ex" "ex_creator ex = as_bytes owner" "in_pool ex (xw_token_id c)"
    "0 < xw_quant c" "\<not> (ex_first_balance ex = 0 \<or> ex_second_balance ex = 0)"
    "paired ex (xw_token_id c) (xw_quant c) = Inr (other_id ex (xw_token_id c), share ex (xw_token_id c) (xw_quant c))"
    "0 < share ex (xw_token_id c) (xw_quant c)" "xw_quant c \<le> side ex (xw_token_id c)"
    "share ex (xw_token_id c) (xw_quant c) \<le> side ex (other_id ex (xw_token_id c))" "f = 0"
proof -
  let ?t = "xw_token_id c" and ?q = "xw_quant c"
  from v obtain owner acc ex aq where *: "wf_address owner" "xw_owner_address c = as_bytes owner" "get_account s owner = Some acc"
    "get_exchange s (xw_exchange_id c) = Some ex" "ex_creator ex = as_bytes owner"
    "?t = ex_first_id ex \<or> ?t = ex_second_id ex" "0 < ?q" "\<not> (ex_first_balance ex = 0 \<or> ex_second_balance ex = 0)"
    "proportional (if ?t = ex_first_id ex then ex_second_balance ex else ex_first_balance ex) ?q
      (if ?t = ex_first_id ex then ex_first_balance ex else ex_second_balance ex) = Inr aq" "0 < aq"
    "?q \<le> (if ?t = ex_first_id ex then ex_first_balance ex else ex_second_balance ex)"
    "aq \<le> (if ?t = ex_first_id ex then ex_second_balance ex else ex_first_balance ex)" "f = 0"
    by (auto simp: exchange_withdraw_validate_def result_simps Let_def case_if_pair)
  note t = pool_of [OF w *(4,6)]
  have p: "paired ex ?t ?q = Inr (other_id ex ?t, aq)"
    using *(9) by (simp add: paired_def other_id_def split: if_splits)
  then have "aq = share ex ?t ?q" using paired_Inr [OF t *(7,8)] by (simp add: share_def)
  moreover have "?q \<le> side ex ?t" "aq \<le> side ex (other_id ex ?t)"
    using *(11,12) t by (auto simp: side_def other_id_def in_pool_def wf_exchange_def split: if_splits)
  ultimately show thesis using * t p that by simp
qed

lemma exchange_withdraw_result:
  assumes w: "wf_state s" and u: "units_fit s" and v: "exchange_withdraw_validate F c s = Inr f"
  obtains owner acc ex s' where "xw_owner_address c = as_bytes owner" "get_account s owner = Some acc"
    "get_exchange s (xw_exchange_id c) = Some ex" "ex_creator ex = as_bytes owner" "in_pool ex (xw_token_id c)"
    "0 < side ex (xw_token_id c)" "0 < xw_quant c" "0 < share ex (xw_token_id c) (xw_quant c)"
    "exchange_withdraw_execute c s = (Inr (ExecutionResult 0), s')" "wf_state s'" "total_trx s' = total_trx s"
    "\<forall>u. valid_token u \<longrightarrow> unit_total u s' = unit_total u s"
    "s' = put_exchange (traded_pool (xw_token_id c) (- xw_quant c) (- share ex (xw_token_id c) (xw_quant c)) ex)
       (put_account owner (traded_account ex (xw_token_id c) (- xw_quant c) (- share ex (xw_token_id c) (xw_quant c)) acc) s)"
proof -
  let ?t = "xw_token_id c" and ?q = "xw_quant c"
  from v obtain owner acc ex where c: "wf_address owner" "xw_owner_address c = as_bytes owner" "get_account s owner = Some acc"
    "get_exchange s (xw_exchange_id c) = Some ex" and cr: "ex_creator ex = as_bytes owner" and t: "in_pool ex ?t"
    and q: "0 < ?q" and nz: "\<not> (ex_first_balance ex = 0 \<or> ex_second_balance ex = 0)"
    and p: "paired ex ?t ?q = Inr (other_id ex ?t, share ex ?t ?q)" "0 < share ex ?t ?q"
    and b: "?q \<le> side ex ?t" "share ex ?t ?q \<le> side ex (other_id ex ?t)"
    by (rule exchange_withdraw_validate_Inr [OF w])
  let ?o = "other_id ex ?t" and ?r = "share ex ?t ?q"
  note v' = in_pool_valid [OF t] and bd = token_balance_bounds [OF w c(3)]
  have fit: "token_balance acc ?t + ?q \<le> i64_max" "token_balance acc ?o + ?r \<le> i64_max"
    using unit_total_account_pool [OF w c(3,4), of ?t] unit_total_account_pool [OF w c(3,4), of ?o] u v' b
    by (fastforce simp: units_fit_def pool_holding_in_pool [OF t])+
  have wrap: "i64_wrap (side ex ?t - ?q) = side ex ?t - ?q" "i64_wrap (side ex ?o - ?r) = side ex ?o - ?r"
    using b q p(2) v' by (auto intro!: i64_wrap_id nonneg_in_i64)
  have mv: "move_pool (\<lambda>x y. i64_wrap (x - y)) ?t ?q ?r ex = traded_pool ?t (- ?q) (- ?r) ex"
    using wrap t unfolding move_pool_def traded_pool_def
    by (auto simp: side_def other_id_def in_pool_def wf_exchange_def split: if_splits)
  have d1: "credit_token ?t ?q acc = Inr (upd_token ?t (token_balance acc ?t + ?q) acc)"
    using q fit(1) bd by (subst credit_token_ok) simp_all
  have d2: "credit_token ?o ?r (upd_token ?t (token_balance acc ?t + ?q) acc) = Inr (traded_account ex ?t (- ?q) (- ?r) acc)"
    using credit_token_ok [of ?r "upd_token ?t (token_balance acc ?t + ?q) acc" ?o] p(2) fit(2) bd v'
    by (simp add: traded_account_def)
  let ?s' = "put_exchange (traded_pool ?t (- ?q) (- ?r) ex) (put_account owner (traded_account ex ?t (- ?q) (- ?r) acc) s)"
  have ex: "exchange_withdraw_execute c s = (Inr (ExecutionResult 0), ?s')"
    using c by (simp add: exchange_withdraw_execute_def st_bind_def st_prim_simps ok_or_def p(1) d1 d2 mv)
  have "0 \<le> token_balance acc ?t - - ?q" "token_balance acc ?t - - ?q \<le> i64_max" "0 \<le> token_balance acc ?o - - ?r"
    "token_balance acc ?o - - ?r \<le> i64_max" "0 \<le> side ex ?t + - ?q" "side ex ?t + - ?q \<le> i64_max"
    "0 \<le> side ex ?o + - ?r" "side ex ?o + - ?r \<le> i64_max"
    using b q p(2) fit bd(1) [of ?t] bd(1) [of ?o] v' by simp_all
  note tr = pool_trade [OF w c(3,4) t this refl]
  show thesis
    by (rule that [OF c(2-4) cr t side_pos(1) [OF t nz] q p(2) ex tr(1,2) _ refl]) (use tr(3) in blast)
qed

interpretation exchange_withdraw: actuator "exchange_withdraw_validate F" exchange_withdraw_execute "\<lambda>_ s. units_fit s" for F
  by unfold_locales (metis exchange_withdraw_result)

section \<open>Swap: what it does\<close>

text \<open>What the caller gets; the pool must be able to pay it.\<close>

definition swap_buy :: "'f f64_ops \<Rightarrow> exchange \<Rightarrow> bytes \<Rightarrow> i64 \<Rightarrow> i64" where
  "swap_buy F ex t q = bancor_exchange F (side ex t) (side ex (other_id ex t)) q"

definition swap_covered :: "'f f64_ops \<Rightarrow> exchange_transaction_contract \<Rightarrow> world_state \<Rightarrow> bool" where
  "swap_covered F c s \<longleftrightarrow> (\<forall>ex. get_exchange s (xt_exchange_id c) = Some ex \<longrightarrow>
     swap_buy F ex (xt_token_id c) (xt_quant c) \<le> side ex (other_id ex (xt_token_id c)))"

lemma pool_transaction_side:
  assumes "in_pool ex t"
  shows "fst (pool_transaction F ex t q) = swap_buy F ex t q"
    and "pool_transaction F ex t q = (buy, nf, ns) \<Longrightarrow> in_i64 (side ex t + q) \<Longrightarrow> in_i64 (side ex (other_id ex t) - buy) \<Longrightarrow>
      ex\<lparr>ex_first_balance := nf, ex_second_balance := ns\<rparr> = traded_pool t q (- buy) ex"
  using assms
  by (auto simp: pool_transaction_def swap_buy_def side_def other_id_def in_pool_def wf_exchange_def Let_def
      traded_pool_def move_pool_def split: if_splits)

lemma exchange_transaction_validate_Inr:
  assumes w: "wf_state s" and v: "exchange_transaction_validate F c s = Inr f"
  obtains owner acc ex where "wf_address owner" "xt_owner_address c = as_bytes owner" "get_account s owner = Some acc"
    "get_exchange s (xt_exchange_id c) = Some ex" "in_pool ex (xt_token_id c)"
    "0 < xt_quant c" "\<not> (ex_first_balance ex = 0 \<or> ex_second_balance ex = 0)" "0 < xt_expected c"
    "xt_quant c \<le> token_balance acc (xt_token_id c)" "xt_expected c \<le> swap_buy F ex (xt_token_id c) (xt_quant c)" "f = 0"
proof -
  let ?t = "xt_token_id c" and ?q = "xt_quant c"
  from v obtain owner acc ex where *: "wf_address owner" "xt_owner_address c = as_bytes owner" "get_account s owner = Some acc"
    "get_exchange s (xt_exchange_id c) = Some ex" "?t = ex_first_id ex \<or> ?t = ex_second_id ex" "0 < ?q"
    "\<not> (ex_first_balance ex = 0 \<or> ex_second_balance ex = 0)" "0 < xt_expected c" "?q \<le> token_balance acc ?t"
    "xt_expected c \<le> fst (pool_transaction F ex ?t ?q)" "f = 0"
    by (auto simp: exchange_transaction_validate_def result_simps Let_def)
  note t = pool_of [OF w *(4,5)]
  from * t that show thesis by (simp add: pool_transaction_side(1) [OF t])
qed

lemma exchange_transaction_result:
  assumes w: "wf_state s" and u: "units_fit s" and k: "swap_covered F c s"
    and v: "exchange_transaction_validate F c s = Inr f"
  obtains owner acc ex s' where "xt_owner_address c = as_bytes owner" "get_account s owner = Some acc"
    "get_exchange s (xt_exchange_id c) = Some ex" "in_pool ex (xt_token_id c)"
    "0 < side ex (xt_token_id c)" "0 < side ex (other_id ex (xt_token_id c))" "0 < xt_quant c"
    "xt_expected c \<le> swap_buy F ex (xt_token_id c) (xt_quant c)" "side ex (xt_token_id c) + xt_quant c \<le> i64_max"
    "exchange_transaction_execute F c s = (Inr (ExecutionResult 0), s')" "wf_state s'" "total_trx s' = total_trx s"
    "\<forall>u. valid_token u \<longrightarrow> unit_total u s' = unit_total u s"
    "s' = put_exchange (traded_pool (xt_token_id c) (xt_quant c) (- swap_buy F ex (xt_token_id c) (xt_quant c)) ex)
       (put_account owner (traded_account ex (xt_token_id c) (xt_quant c) (- swap_buy F ex (xt_token_id c) (xt_quant c)) acc) s)"
proof -
  let ?t = "xt_token_id c" and ?q = "xt_quant c"
  from v obtain owner acc ex where c: "wf_address owner" "xt_owner_address c = as_bytes owner" "get_account s owner = Some acc"
    "get_exchange s (xt_exchange_id c) = Some ex" and t: "in_pool ex ?t"
    and q: "0 < ?q" and nz: "\<not> (ex_first_balance ex = 0 \<or> ex_second_balance ex = 0)" and x0: "0 < xt_expected c"
    and b: "?q \<le> token_balance acc ?t" and x: "xt_expected c \<le> swap_buy F ex ?t ?q"
    by (rule exchange_transaction_validate_Inr [OF w])
  let ?o = "other_id ex ?t" and ?r = "swap_buy F ex ?t ?q"
  have r: "0 < ?r" "?r \<le> side ex ?o" using x x0 k c(4) by (auto simp: swap_covered_def)
  note v' = in_pool_valid [OF t] and bd = token_balance_bounds [OF w c(3)]
  have fit: "side ex ?t + ?q \<le> i64_max" "token_balance acc ?o + ?r \<le> i64_max"
    using unit_total_account_pool [OF w c(3,4), of ?t] unit_total_account_pool [OF w c(3,4), of ?o] u v' b r
    by (fastforce simp: units_fit_def pool_holding_in_pool [OF t])+
  obtain nf ns where pt: "pool_transaction F ex ?t ?q = (?r, nf, ns)"
    using pool_transaction_side(1) [OF t, of F ?q] by (metis prod.collapse)
  have mv: "ex\<lparr>ex_first_balance := nf, ex_second_balance := ns\<rparr> = traded_pool ?t ?q (- ?r) ex"
    using fit q r v' by (intro pool_transaction_side(2) [OF t pt]) (auto intro!: nonneg_in_i64)
  have d1: "debit_token ?t ?q acc = Inr (upd_token ?t (token_balance acc ?t - ?q) acc)"
    using q b bd by (intro debit_token_ok) simp_all
  have d2: "credit_token ?o ?r (upd_token ?t (token_balance acc ?t - ?q) acc) = Inr (traded_account ex ?t ?q (- ?r) acc)"
    using credit_token_ok [of ?r "upd_token ?t (token_balance acc ?t - ?q) acc" ?o] r fit(2) bd v'
    by (simp add: traded_account_def)
  let ?s' = "put_exchange (traded_pool ?t ?q (- ?r) ex) (put_account owner (traded_account ex ?t ?q (- ?r) acc) s)"
  have o: "(if ?t = ex_first_id ex then ex_second_id ex else ex_first_id ex) = ?o" by (simp add: other_id_def)
  have ex: "exchange_transaction_execute F c s = (Inr (ExecutionResult 0), ?s')"
    using c unfolding exchange_transaction_execute_def st_bind_def st_prim_simps
    by (simp add: ok_or_def pt Let_def o d1 d2 mv)
  have "0 \<le> token_balance acc ?t - ?q" "token_balance acc ?t - ?q \<le> i64_max" "0 \<le> token_balance acc ?o - - ?r"
    "token_balance acc ?o - - ?r \<le> i64_max" "0 \<le> side ex ?t + ?q" "side ex ?t + ?q \<le> i64_max"
    "0 \<le> side ex ?o + - ?r" "side ex ?o + - ?r \<le> i64_max"
    using b q r fit bd(1) [of ?o] bd(2) [of ?t] v' by simp_all
  note tr = pool_trade [OF w c(3,4) t this refl]
  show thesis
    by (rule that [OF c(2-4) t side_pos [OF t nz] q x fit(1) ex tr(1,2) _ refl]) (use tr(3) in blast)
qed

interpretation exchange_transaction: actuator "exchange_transaction_validate F" "exchange_transaction_execute F"
  "\<lambda>c s. units_fit s \<and> swap_covered F c s" for F
  by unfold_locales (metis exchange_transaction_result)

section \<open>Create: what it does\<close>

text \<open>The pools are numbered up to the counter, and the balance limit leaves room for the fee.\<close>

definition pools_numbered :: "world_state \<Rightarrow> bool" where
  "pools_numbered s \<longleftrightarrow> (\<forall>i ex. get_exchange s i = Some ex \<longrightarrow> i \<le> get_prop_i64 s LATEST_EXCHANGE_NUM)
     \<and> 0 \<le> get_prop_i64 s LATEST_EXCHANGE_NUM \<and> get_prop_i64 s LATEST_EXCHANGE_NUM < i64_max"

definition create_ok :: "exchange_create_contract \<Rightarrow> world_state \<Rightarrow> bool" where
  "create_ok c s \<longleftrightarrow> pools_numbered s \<and> balance_limit s + create_fee s \<le> i64_max"

definition created_account :: "exchange_create_contract \<Rightarrow> world_state \<Rightarrow> account \<Rightarrow> account" where
  "created_account c s acc =
     (let a1 = acc\<lparr>acc_balance := acc_balance acc - create_fee s\<rparr>;
          a2 = upd_token (xc_first_token_id c) (token_balance a1 (xc_first_token_id c) - xc_first_token_balance c) a1
      in upd_token (xc_second_token_id c) (token_balance a2 (xc_second_token_id c) - xc_second_token_balance c) a2)"

definition created_pool :: "exchange_create_contract \<Rightarrow> world_state \<Rightarrow> exchange" where
  "created_pool c s = \<lparr>ex_id = get_prop_i64 s LATEST_EXCHANGE_NUM + 1, ex_creator = xc_owner_address c,
     ex_create_time = get_prop_i64 s LATEST_BLOCK_HEADER_TIMESTAMP,
     ex_first_id = xc_first_token_id c, ex_first_balance = xc_first_token_balance c,
     ex_second_id = xc_second_token_id c, ex_second_balance = xc_second_token_balance c\<rparr>"

lemma exchange_create_validate_Inr:
  assumes "exchange_create_validate c s = Inr f" and "create_ok c s"
  obtains owner acc where "wf_address owner" "xc_owner_address c = as_bytes owner" "get_account s owner = Some acc"
    "f = create_fee s" "0 < f" "f \<le> acc_balance acc" "wf_exchange (created_pool c s)"
    "0 < xc_first_token_balance c" "0 < xc_second_token_balance c"
    "xc_first_token_balance c \<le> token_balance (acc\<lparr>acc_balance := acc_balance acc - f\<rparr>) (xc_first_token_id c)"
    "xc_second_token_balance c \<le> token_balance (acc\<lparr>acc_balance := acc_balance acc - f\<rparr>) (xc_second_token_id c)"
proof -
  let ?f = "create_fee s" and ?x = "xc_first_token_balance c" and ?y = "xc_second_token_balance c"
  from assms(1) obtain owner acc where *: "wf_address owner" "xc_owner_address c = as_bytes owner" "get_account s owner = Some acc"
    "?f \<le> acc_balance acc" "valid_token (xc_first_token_id c)" "valid_token (xc_second_token_id c)"
    "xc_first_token_id c \<noteq> xc_second_token_id c" "0 < ?x" "0 < ?y" "?x \<le> balance_limit s" "?y \<le> balance_limit s"
    "check_side acc ?f (xc_first_token_id c) ?x ''first token balance is not enough'' = Inr ()"
    "check_side acc ?f (xc_second_token_id c) ?y ''second token balance is not enough'' = Inr ()" "f = ?f"
    by (auto simp: exchange_create_validate_def result_simps Let_def valid_token_def not_less)
  have f0: "0 < ?f" by (simp add: create_fee_def Let_def DEFAULT_EXCHANGE_CREATE_FEE_def)
  have lim: "balance_limit s + ?f \<le> i64_max" using assms(2) by (simp add: create_ok_def)
  have side: "b \<le> token_balance (acc\<lparr>acc_balance := acc_balance acc - ?f\<rparr>) i"
    if "check_side acc ?f i b msg = Inr ()" "0 < b" "b \<le> balance_limit s" for i b msg
  proof -
    have "i64_wrap (b + ?f) = b + ?f" using that f0 lim by (intro i64_wrap_id nonneg_in_i64) simp_all
    with that show ?thesis
      by (auto simp: check_side_def token_balance_def token_of_def split: if_splits)
  qed
  have "wf_exchange (created_pool c s)"
    using * lim f0 by (simp add: wf_exchange_def created_pool_def)
  with * f0 side that show thesis by auto
qed

lemma wf_state_pool_props [simp]:
  "wf_state (put_prop_i64 LATEST_EXCHANGE_NUM v s) = wf_state s"
  "total_trx (put_prop_i64 LATEST_EXCHANGE_NUM v s) = total_trx s"
  by (simp_all add: prop_keys LATEST_EXCHANGE_NUM_def)

lemma exchange_create_result:
  assumes w: "wf_state s" and k: "create_ok c s" and v: "exchange_create_validate c s = Inr f"
  obtains owner acc s' where "xc_owner_address c = as_bytes owner" "get_account s owner = Some acc"
    "exchange_create_execute c s = (Inr (ExecutionResult f), s')" "wf_state s'" "total_trx s' = total_trx s"
    "s' = put_prop_i64 LATEST_EXCHANGE_NUM (ex_id (created_pool c s)) (put_exchange (created_pool c s)
       (burn_fee f (put_account owner (created_account c s acc) s)))"
proof -
  from v k obtain owner acc where c: "wf_address owner" "xc_owner_address c = as_bytes owner" "get_account s owner = Some acc"
    and f: "f = create_fee s" "0 < f" "f \<le> acc_balance acc" and we: "wf_exchange (created_pool c s)"
    and pos: "0 < xc_first_token_balance c" "0 < xc_second_token_balance c"
    and b: "xc_first_token_balance c \<le> token_balance (acc\<lparr>acc_balance := acc_balance acc - f\<rparr>) (xc_first_token_id c)"
    "xc_second_token_balance c \<le> token_balance (acc\<lparr>acc_balance := acc_balance acc - f\<rparr>) (xc_second_token_id c)"
    by (rule exchange_create_validate_Inr)
  let ?i = "xc_first_token_id c" and ?j = "xc_second_token_id c" and ?x = "xc_first_token_balance c"
    and ?y = "xc_second_token_balance c" and ?a1 = "acc\<lparr>acc_balance := acc_balance acc - f\<rparr>"
  have v: "valid_token ?i" "valid_token ?j" "?i \<noteq> ?j" using we by (simp_all add: wf_exchange_def created_pool_def)
  note d = move_debit [OF w c(3) less_imp_le [OF f(2)] f(3)]
  have g1: "get_account (put_account owner ?a1 s) owner = Some ?a1" by (simp add: state_simps)
  note bd = token_balance_bounds [OF d(1) g1]
  let ?a2 = "upd_token ?i (token_balance ?a1 ?i - ?x) ?a1" and ?a3 = "created_account c s acc"
  have a3: "?a3 = upd_token ?j (token_balance ?a2 ?j - ?y) ?a2" by (simp add: created_account_def f(1) Let_def)
  have d1: "debit_token ?i ?x ?a1 = Inr ?a2" using pos b bd by (intro debit_token_ok) simp_all
  have d2: "debit_token ?j ?y ?a2 = Inr ?a3" unfolding a3 using pos b bd v by (intro debit_token_ok) simp_all
  have sd: "same_delegation (Some acc) ?a1" by simp
  have wa: "wf_account ?a3" "same_delegation (Some acc) ?a3"
    unfolding a3 using wf_state_account(1) [OF d(1) g1] pos b bd(2) [of ?i] bd(2) [of ?j] v sd
    by (auto simp: upd_token_value(3) intro!: upd_token_value(2))
  have "acc_trx ?a3 - acc_trx ?a1 = token_balance ?a3 TRX_SYMBOL_BYTES - token_balance ?a1 TRX_SYMBOL_BYTES"
    using acc_trx_unit [of ?j "token_balance ?a2 ?j - ?y" ?a2] acc_trx_unit [of ?i "token_balance ?a1 ?i - ?x" ?a1]
    unfolding a3 by linarith
  moreover have "token_balance ?a3 TRX_SYMBOL_BYTES = token_balance ?a1 TRX_SYMBOL_BYTES - ex_trx (created_pool c s)"
    unfolding a3 using v by (auto simp: ex_trx_def created_pool_def)
  ultimately have tx: "acc_trx ?a3 = acc_trx acc - f - ex_trx (created_pool c s)"
    by (simp add: acc_trx_balance)
  have e0: "0 \<le> ex_trx (created_pool c s)" using we by (auto simp: ex_trx_def wf_exchange_def)
  have m: "total_trx s \<le> i64_max" using w by simp
  let ?s1 = "put_account owner ?a3 s"
  have s1: "wf_state ?s1" "total_trx ?s1 = total_trx s - f - ex_trx (created_pool c s)"
    using move_account [OF w c(3) wa] tx m e0 f(2) by simp_all
  let ?s2 = "burn_fee f ?s1"
  have s2: "wf_state ?s2" "total_trx ?s2 = total_trx s - ex_trx (created_pool c s)"
    using move_burn_fee [OF s1(1), of f] s1(2) m e0 f(2) by simp_all
  have num: "get_prop_i64 s LATEST_EXCHANGE_NUM + 1 \<le> i64_max" "0 \<le> get_prop_i64 s LATEST_EXCHANGE_NUM"
    and fresh: "get_exchange s (get_prop_i64 s LATEST_EXCHANGE_NUM + 1) = None"
    using k by (auto simp: create_ok_def pools_numbered_def dest: spec)
  let ?s3 = "put_exchange (created_pool c s) ?s2"
  have f3: "get_exchange ?s2 (ex_id (created_pool c s)) = None" using fresh by (simp add: created_pool_def)
  have s3: "wf_state ?s3" "total_trx ?s3 = total_trx s"
    using wf_state_put_exchange [OF s2(1) we] total_trx_put_exchange [OF s2(1), of "created_pool c s"] s2(2) f3 m by simp_all
  let ?s4 = "put_prop_i64 LATEST_EXCHANGE_NUM (ex_id (created_pool c s)) ?s3"
  have pr: "get_prop_i64 ?s2 LATEST_EXCHANGE_NUM = get_prop_i64 s LATEST_EXCHANGE_NUM"
    "get_prop_i64 ?s2 LATEST_BLOCK_HEADER_TIMESTAMP = get_prop_i64 s LATEST_BLOCK_HEADER_TIMESTAMP"
    by (simp_all add: burn_fee_def burn_trx_def state_simps prop_keys LATEST_EXCHANGE_NUM_def)
  have wr: "i64_wrap (get_prop_i64 s LATEST_EXCHANGE_NUM + 1) = get_prop_i64 s LATEST_EXCHANGE_NUM + 1"
    using num by (intro i64_wrap_id nonneg_in_i64) simp_all
  have pool: "\<lparr>ex_id = get_prop_i64 s LATEST_EXCHANGE_NUM + 1, ex_creator = as_bytes owner,
        ex_create_time = get_prop_i64 s LATEST_BLOCK_HEADER_TIMESTAMP, ex_first_id = ?i, ex_first_balance = ?x,
        ex_second_id = ?j, ex_second_balance = ?y\<rparr> = created_pool c s"
    "get_prop_i64 s LATEST_EXCHANGE_NUM + 1 = ex_id (created_pool c s)"
    using c(2) by (simp_all add: created_pool_def)
  have "exchange_create_execute c s = (Inr (ExecutionResult f), ?s4)"
    using c f(2,3) d(3) unfolding exchange_create_execute_def st_bind_def st_prim_simps
    by (simp add: ok_or_def f(1) [symmetric] checked_debit_ok d1 d2 pr wr pool(1)) (simp add: pool(2))
  with that [OF c(2,3)] s3 show thesis by simp
qed

interpretation exchange_create: actuator exchange_create_validate exchange_create_execute create_ok
  by unfold_locales (metis exchange_create_result)

end
