(* ===== verification/Act_Bancor.thy ===== *)
theory Act_Bancor
  imports Act_Exchange
begin

text \<open>
  The price of a swap, \<open>bancor_exchange\<close> of \<open>exchange.rs\<close>, in exact arithmetic.  The code raises the growth
  of one side of the pool to the power 1/2000, truncates to an integer number of relay units, and raises
  back to the power 2000.  With real numbers for \<open>f64\<close> the result is the constant-product price up to the
  error of the truncation; the statements about swaps follow.
\<close>

section \<open>Exact floating-point operations\<close>

definition trunc_real :: "real \<Rightarrow> int" where
  "trunc_real x = (if x < 0 then \<lceil>x\<rceil> else \<lfloor>x\<rfloor>)"

definition round_real :: "real \<Rightarrow> real" where
  "round_real x = (if x < 0 then - real_of_int \<lfloor>- x + 1 / 2\<rfloor> else real_of_int \<lfloor>x + 1 / 2\<rfloor>)"

definition exact_f64 :: "real f64_ops" where
  "exact_f64 = \<lparr>f_of_i64 = real_of_int, f_lit = (\<lambda>m e. real_of_int m / 10 ^ e), f_neg = uminus, f_add = (+),
     f_sub = (-), f_mul = (*), f_div = (/), f_powf = (powr), f_round = round_real, f_gt = (>),
     f_to_i64 = (\<lambda>x. i64_sat (trunc_real x))\<rparr>"

lemma exact_f64_simps [simp]:
  "f_of_i64 exact_f64 n = real_of_int n" "f_lit exact_f64 m e = real_of_int m / 10 ^ e" "f_neg exact_f64 x = - x"
  "f_add exact_f64 x y = x + y" "f_sub exact_f64 x y = x - y" "f_mul exact_f64 x y = x * y" "f_div exact_f64 x y = x / y"
  "f_powf exact_f64 x y = x powr y" "f_to_i64 exact_f64 x = i64_sat (trunc_real x)"
  by (simp_all add: exact_f64_def)

section \<open>The two steps of the price\<close>

definition growth :: "int \<Rightarrow> int \<Rightarrow> real" where
  "growth b q = 1 + real_of_int q / real_of_int (b + q)"

definition relay_of :: "int \<Rightarrow> int \<Rightarrow> int" where
  "relay_of b q = \<lfloor>10 ^ 18 * (growth b q powr (1 / 2000) - 1)\<rfloor>"

lemma growth_bounds: "0 < b \<Longrightarrow> 0 < q \<Longrightarrow> 1 < growth b q \<and> growth b q < 2"
  by (simp add: growth_def field_simps)

lemma root_bounds:
  assumes "0 < b" and "0 < q"
  shows "1 \<le> growth b q powr (1 / 2000)" and "growth b q powr (1 / 2000) \<le> 2"
proof -
  note g = growth_bounds [OF assms]
  from g show "1 \<le> growth b q powr (1 / 2000)" by (intro ge_one_powr_ge_zero) simp_all
  have "growth b q powr (1 / 2000) \<le> growth b q powr 1" using g by (intro powr_mono) simp_all
  with g show "growth b q powr (1 / 2000) \<le> 2" by simp
qed

lemma relay_bounds:
  assumes "0 < b" and "0 < q"
  shows "0 \<le> relay_of b q" and "relay_of b q \<le> 10 ^ 18"
    and "1 + real_of_int (relay_of b q) / 10 ^ 18 \<le> growth b q powr (1 / 2000)"
    and "growth b q powr (1 / 2000) < 1 + (real_of_int (relay_of b q) + 1) / 10 ^ 18"
proof -
  note r = root_bounds [OF assms]
  let ?x = "10 ^ 18 * (growth b q powr (1 / 2000) - 1)"
  have x: "0 \<le> ?x" "?x \<le> 10 ^ 18" using r by simp_all
  have f: "real_of_int (relay_of b q) \<le> ?x" "?x < real_of_int (relay_of b q) + 1"
    unfolding relay_of_def by linarith+
  show "0 \<le> relay_of b q" using x(1) unfolding relay_of_def by simp
  have "real_of_int (relay_of b q) \<le> real_of_int (10 ^ 18)" using f(1) x(2) by simp
  then show "relay_of b q \<le> 10 ^ 18" by (simp only: of_int_le_iff)
  show "1 + real_of_int (relay_of b q) / 10 ^ 18 \<le> growth b q powr (1 / 2000)"
    using f(1) by (simp add: field_simps)
  show "growth b q powr (1 / 2000) < 1 + (real_of_int (relay_of b q) + 1) / 10 ^ 18"
    using f(2) by (simp add: field_simps)
qed

lemma root_power: "0 < b \<Longrightarrow> 0 < q \<Longrightarrow> (growth b q powr (1 / 2000)) ^ 2000 = growth b q"
  using growth_bounds [of b q] by (simp add: powr_realpow [symmetric] powr_powr)

lemma power_gap:
  fixes y z e :: real
  assumes "1 \<le> z" and "0 \<le> e" and "e \<le> 1" and "z - e \<le> y"
  shows "z ^ n * (1 - real n * e) \<le> y ^ n"
proof -
  have "e \<le> z * e" using assms mult_right_mono [of 1 z e] by simp
  then have "z * (1 - e) \<le> y" using assms(4) by (simp add: algebra_simps)
  moreover have "0 \<le> z * (1 - e)" using assms by simp
  ultimately have "z ^ n * (1 - e) ^ n \<le> y ^ n" by (metis power_mono power_mult_distrib)
  moreover have "1 - real n * e \<le> (1 - e) ^ n"
    using Bernoulli_inequality [of "- e" n] assms by simp
  then have "z ^ n * (1 - real n * e) \<le> z ^ n * (1 - e) ^ n"
    using assms(1) by (intro mult_left_mono) simp_all
  ultimately show ?thesis by simp
qed

text \<open>What comes back after the power of 2000.\<close>

definition regrowth :: "int \<Rightarrow> int \<Rightarrow> real" where
  "regrowth b q = (1 + real_of_int (relay_of b q) / 10 ^ 18) ^ 2000"

lemma regrowth_bounds:
  assumes "0 < b" and "0 < q"
  shows "1 \<le> regrowth b q" and "regrowth b q \<le> growth b q" and "growth b q * (1 - 2000 / 10 ^ 18) \<le> regrowth b q"
proof -
  note r = relay_bounds [OF assms] and g = growth_bounds [OF assms] and p = root_power [OF assms]
  let ?y = "1 + real_of_int (relay_of b q) / 10 ^ 18" and ?z = "growth b q powr (1 / 2000)"
  have y: "1 \<le> ?y" using r(1) by simp
  then show "1 \<le> regrowth b q" unfolding regrowth_def by (rule one_le_power)
  show "regrowth b q \<le> growth b q"
    unfolding regrowth_def using y r(3) power_mono [of ?y ?z 2000] p by simp
  have z: "1 \<le> ?z" by (rule root_bounds [OF assms])
  have "?z - 1 / 10 ^ 18 \<le> ?y" using r(4) by (simp add: add_divide_distrib)
  from power_gap [OF z _ _ this, of 2000]
  show "growth b q * (1 - 2000 / 10 ^ 18) \<le> regrowth b q"
    unfolding regrowth_def p by simp
qed

lemma trunc_pos: "0 \<le> x \<Longrightarrow> trunc_real x = \<lfloor>x\<rfloor>"
  by (simp add: trunc_real_def)

lemma bancor_exact:
  assumes "0 < b" and "0 < q" and "b + q \<le> i64_max" and "0 \<le> w" and "w \<le> i64_max"
  shows "bancor_exchange exact_f64 b w q = \<lfloor>real_of_int w * (regrowth b q - 1)\<rfloor>"
proof -
  note r = relay_bounds [OF assms(1,2)] and g = growth_bounds [OF assms(1,2)] and rg = regrowth_bounds [OF assms(1,2)]
  have w1: "i64_wrap (b + q) = b + q" using assms by (intro i64_wrap_id nonneg_in_i64) simp_all
  have "0 \<le> 10 ^ 18 * (growth b q powr (1 / 2000) - 1)" using root_bounds(1) [OF assms(1,2)] by simp
  from trunc_pos [OF this] have tr: "trunc_real (10 ^ 18 * (growth b q powr (1 / 2000) - 1)) = relay_of b q"
    by (simp only: relay_of_def)
  have neg: "- (10 ^ 18) * (1 - growth b q powr (1 / 2000)) = 10 ^ 18 * (growth b q powr (1 / 2000) - 1)"
    by (simp add: algebra_simps)
  have rel: "i64_sat (trunc_real (- (10 ^ 18) * (1 - growth b q powr (1 / 2000)))) = relay_of b q"
    unfolding neg tr using r(1,2) by (simp add: i64_sat_def i64_bounds_defs)
  have w2: "i64_wrap (10 ^ 18 + relay_of b q) = 10 ^ 18 + relay_of b q"
    using r(1,2) by (intro i64_wrap_id) (simp add: i64_bounds_defs)
  have w3: "i64_wrap (10 ^ 18) = 10 ^ 18" by (intro i64_wrap_id) (simp add: i64_bounds_defs)
  have y: "0 < 1 + real_of_int (relay_of b q) / 10 ^ 18" using r(1) by (simp add: add_pos_nonneg)
  have e0: "0 \<le> real_of_int w * (regrowth b q - 1)" using assms(4) rg(1) by simp
  have "real_of_int w * (regrowth b q - 1) \<le> real_of_int w * 1"
    using assms(4) rg(2) g by (intro mult_left_mono) simp_all
  then have "\<lfloor>real_of_int w * (regrowth b q - 1)\<rfloor> \<le> w" by linarith
  then have fin: "i64_sat (trunc_real (real_of_int w * (regrowth b q - 1))) = \<lfloor>real_of_int w * (regrowth b q - 1)\<rfloor>"
    using e0 assms(5) by (simp add: trunc_pos i64_sat_def i64_bounds_defs)
  have re: "(1 + real_of_int (relay_of b q) / 10 ^ 18) powr 2000 = regrowth b q"
    unfolding regrowth_def using powr_realpow [OF y, of 2000] by simp
  show ?thesis
    unfolding bancor_exchange_def Let_def w1 exact_f64_simps BANCOR_SUPPLY_def
    using rel w2 w3 fin re by (simp add: growth_def)
qed

section \<open>The price is the constant-product price\<close>

lemma bancor_exact_bounds:
  assumes "0 < b" and "0 < q" and "b + q \<le> i64_max" and "0 \<le> w" and "w \<le> i64_max"
  shows "bancor_exchange exact_f64 b w q * (b + q) \<le> w * q" and "bancor_exchange exact_f64 b w q \<le> w"
    and "0 \<le> bancor_exchange exact_f64 b w q"
proof -
  note g = growth_bounds [OF assms(1,2)] and r = regrowth_bounds [OF assms(1,2)]
  let ?buy = "bancor_exchange exact_f64 b w q"
  have "real_of_int ?buy \<le> real_of_int w * (regrowth b q - 1)"
    unfolding bancor_exact [OF assms] by linarith
  also have "\<dots> \<le> real_of_int w * (growth b q - 1)" using assms(4) r(2) by (intro mult_left_mono) simp_all
  also have "\<dots> = real_of_int (w * q) / real_of_int (b + q)" by (simp add: growth_def)
  finally have "real_of_int ?buy * real_of_int (b + q) \<le> real_of_int (w * q)"
    using assms(1,2) by (simp add: pos_le_divide_eq)
  then show le: "?buy * (b + q) \<le> w * q" by (simp only: of_int_mult [symmetric] of_int_le_iff)
  also have "w * q \<le> w * (b + q)" using assms by (intro mult_left_mono) simp_all
  finally show "?buy \<le> w" using assms(1,2) by simp
  show "0 \<le> ?buy" unfolding bancor_exact [OF assms] using assms(4) r(1) by simp
qed

lemma bancor_exact_lower:
  assumes "0 < b" and "0 < q" and "b + q \<le> i64_max" and "0 \<le> w" and "w \<le> i64_max"
  shows "real_of_int w * real_of_int q / real_of_int (b + q) - 1 - real_of_int w * 4000 / 10 ^ 18
     < real_of_int (bancor_exchange exact_f64 b w q)"
proof -
  note g = growth_bounds [OF assms(1,2)] and r = regrowth_bounds [OF assms(1,2)]
  let ?buy = "bancor_exchange exact_f64 b w q" and ?x = "real_of_int w * (regrowth b q - 1)"
  have buy: "?x < real_of_int ?buy + 1" unfolding bancor_exact [OF assms] by linarith
  have "growth b q - 4000 / 10 ^ 18 \<le> regrowth b q"
    using r(3) g by (simp add: algebra_simps)
  then have "real_of_int w * (growth b q - 1 - 4000 / 10 ^ 18) \<le> ?x"
    using assms(4) by (intro mult_left_mono) simp_all
  then have "real_of_int w * (growth b q - 1) - real_of_int w * 4000 / 10 ^ 18 \<le> ?x"
    by (simp add: algebra_simps)
  with buy show ?thesis by (simp add: growth_def)
qed



section \<open>Swaps in exact arithmetic\<close>

lemma swap_covered_exact:
  assumes w: "wf_state s" and u: "units_fit s" and v: "exchange_transaction_validate exact_f64 c s = Inr f"
  shows "swap_covered exact_f64 c s"
proof -
  obtain owner acc ex where c: "get_account s owner = Some acc" "get_exchange s (xt_exchange_id c) = Some ex"
    and t: "in_pool ex (xt_token_id c)" and q: "0 < xt_quant c" and nz: "\<not> (ex_first_balance ex = 0 \<or> ex_second_balance ex = 0)"
    and b: "xt_quant c \<le> token_balance acc (xt_token_id c)"
    using v by (rule exchange_transaction_validate_Inr [OF w])
  note v' = in_pool_valid [OF t]
  have "side ex (xt_token_id c) + xt_quant c \<le> i64_max"
    using unit_total_account_pool [OF w c, of "xt_token_id c"] u v' b
    by (fastforce simp: units_fit_def pool_holding_in_pool [OF t])
  from bancor_exact_bounds(2) [OF side_pos(1) [OF t nz] q this v'(5,7)] c(2) show ?thesis
    by (simp add: swap_covered_def swap_buy_def)
qed


definition sample_pool :: exchange where
  "sample_pool = \<lparr>ex_id = 1, ex_creator = as_bytes (addr_of 1), ex_create_time = 0, ex_first_id = TRX_SYMBOL_BYTES,
     ex_first_balance = 1000, ex_second_id = [0x31], ex_second_balance = 1000\<rparr>"

definition pool_owner :: account where
  "pool_owner = (wallet 1 5000)\<lparr>acc_asset_v2 := [''1'' \<mapsto> 5000]\<rparr>"

definition pool_ledger :: world_state where
  "pool_ledger = put_exchange sample_pool (ledger_of [(1, pool_owner)])"

lemma sample_pool_wf: "wf_exchange sample_pool"
  by (simp add: sample_pool_def wf_exchange_def i64_max_def valid_token_def is_number_def is_trx_def TRX_SYMBOL_BYTES_def)

lemma pool_ledger_wf: "wf_state pool_ledger"
proof -
  have a: "wf_account pool_owner" "same_delegation None pool_owner" "acc_trx pool_owner = 5000"
    by (simp_all add: pool_owner_def wallet_def account_default_def wf_account_def acc_trx_def
        same_delegation_def delegated_energy_def i64_bounds_defs)
  have w: "wf_state (ledger_of [(1, pool_owner)])" "total_trx (ledger_of [(1, pool_owner)]) = 5000"
    using ledger_one [OF a(1,2), of 1] a(3) by (simp_all add: i64_max_def)
  have "get_exchange (ledger_of [(1, pool_owner)]) 1 = None" by (simp add: get_exchange_def put_account_def ws_empty_def)
  then show ?thesis
    unfolding pool_ledger_def using w
    by (intro wf_state_put_exchange [OF w(1) sample_pool_wf]) (simp add: sample_pool_def ex_trx_def i64_max_def TRX_SYMBOL_BYTES_def)
qed

lemma pool_ledger_units: "units_fit pool_ledger"
proof -
  have m: "msum h [k \<mapsto> x] = h x" "msum h' Map.empty = 0" for h h' k x by (simp_all add: msum_def)
  have t: "unit_total u pool_ledger = token_balance pool_owner u + pool_holding u sample_pool" for u
    by (simp add: unit_total_def pool_ledger_def put_exchange_def put_account_def ws_empty_def m)
  have b: "token_balance pool_owner u \<le> 5000" "pool_holding u sample_pool \<le> 1000" for u
    by (auto simp: token_balance_def token_of_def pool_owner_def wallet_def pool_holding_def sample_pool_def
        TRX_SYMBOL_BYTES_def)
  have "unit_total u pool_ledger \<le> 6000" for u using t [of u] b [of u] by linarith
  moreover have "6000 \<le> i64_max" by (simp add: i64_max_def)
  ultimately show ?thesis unfolding units_fit_def by (blast intro: order_trans)
qed

lemmas pool_ledger_simps = pool_ledger_def sample_pool_def state_simps pool_owner_def wallet_def account_default_def


section \<open>Liquidity\<close>

text \<open>The two results for a known creator and pool.\<close>

lemma exchange_inject_at:
  assumes "wf_state s" and "units_fit s" and "exchange_inject_validate c s = Inr f"
    and o: "xi_owner_address c = as_bytes owner" and a: "get_account s owner = Some acc"
    and g: "get_exchange s (xi_exchange_id c) = Some ex" and r: "r = share ex (xi_token_id c) (xi_quant c)"
    and s': "s' = put_exchange (traded_pool (xi_token_id c) (xi_quant c) r ex)
       (put_account owner (traded_account ex (xi_token_id c) (xi_quant c) r acc) s)"
  shows "in_pool ex (xi_token_id c)" and "0 < side ex (xi_token_id c)" and "0 < xi_quant c" and "0 < r"
    and "exchange_inject_execute c s = (Inr (ExecutionResult 0), s')" and "wf_state s'" and "total_trx s' = total_trx s"
    and "units_fit s'"
proof -
  obtain owner' acc' ex' s1 where *: "xi_owner_address c = as_bytes owner'" "get_account s owner' = Some acc'"
    "get_exchange s (xi_exchange_id c) = Some ex'" "in_pool ex' (xi_token_id c)" "0 < side ex' (xi_token_id c)" "0 < xi_quant c"
    "0 < share ex' (xi_token_id c) (xi_quant c)" "exchange_inject_execute c s = (Inr (ExecutionResult 0), s1)" "wf_state s1"
    "total_trx s1 = total_trx s" "\<forall>u. valid_token u \<longrightarrow> unit_total u s1 = unit_total u s"
    "s1 = put_exchange (traded_pool (xi_token_id c) (xi_quant c) (share ex' (xi_token_id c) (xi_quant c)) ex')
       (put_account owner' (traded_account ex' (xi_token_id c) (xi_quant c) (share ex' (xi_token_id c) (xi_quant c)) acc') s)"
    by (rule exchange_inject_result [OF assms(1-3)])
  have id: "owner' = owner" "acc' = acc" "ex' = ex" "s1 = s'" using * o a g r s' by auto
  from * show "in_pool ex (xi_token_id c)" and "0 < side ex (xi_token_id c)" and "0 < xi_quant c" and "0 < r"
    and "exchange_inject_execute c s = (Inr (ExecutionResult 0), s')" and "wf_state s'" and "total_trx s' = total_trx s"
    and "units_fit s'"
    using assms(2) unfolding id r units_fit_def by simp_all
qed

lemma exchange_withdraw_at:
  assumes "wf_state s" and "units_fit s" and "exchange_withdraw_validate F c s = Inr f"
    and o: "xw_owner_address c = as_bytes owner" and a: "get_account s owner = Some acc"
    and g: "get_exchange s (xw_exchange_id c) = Some ex" and r: "r = share ex (xw_token_id c) (xw_quant c)"
    and s': "s' = put_exchange (traded_pool (xw_token_id c) (- xw_quant c) (- r) ex)
       (put_account owner (traded_account ex (xw_token_id c) (- xw_quant c) (- r) acc) s)"
  shows "exchange_withdraw_execute c s = (Inr (ExecutionResult 0), s')" and "wf_state s'" and "total_trx s' = total_trx s"
    and "units_fit s'"
proof -
  obtain owner' acc' ex' s1 where *: "xw_owner_address c = as_bytes owner'" "get_account s owner' = Some acc'"
    "get_exchange s (xw_exchange_id c) = Some ex'" "exchange_withdraw_execute c s = (Inr (ExecutionResult 0), s1)" "wf_state s1"
    "total_trx s1 = total_trx s" "\<forall>u. valid_token u \<longrightarrow> unit_total u s1 = unit_total u s"
    "s1 = put_exchange (traded_pool (xw_token_id c) (- xw_quant c) (- share ex' (xw_token_id c) (xw_quant c)) ex')
       (put_account owner' (traded_account ex' (xw_token_id c) (- xw_quant c) (- share ex' (xw_token_id c) (xw_quant c)) acc') s)"
    by (rule exchange_withdraw_result [OF assms(1-3)])
  have id: "owner' = owner" "acc' = acc" "ex' = ex" "s1 = s'" using * o a g r s' by auto
  from * show "exchange_withdraw_execute c s = (Inr (ExecutionResult 0), s')" and "wf_state s'" and "total_trx s' = total_trx s"
    and "units_fit s'"
    using assms(2) unfolding id r units_fit_def by simp_all
qed

lemma share_after_inject:
  assumes t: "in_pool ex t" "0 < side ex t" and q: "0 < q"
  shows "share (traded_pool t q (share ex t q) ex) t q \<le> share ex t q"
proof -
  let ?r = "share ex t q" and ?T = "side ex t" and ?O = "side ex (other_id ex t)"
  have "?O * q < (?r + 1) * ?T"
    using t(2) unfolding share_def by (metis distrib_right floor_divide_lower less_add_one add.commute
      div_mult_mod_eq mult_1 add_less_cancel_left pos_mod_bound)
  then have "(?O + ?r) * q < (?r + 1) * (?T + q)" using q by (simp add: algebra_simps)
  moreover have "(?O + ?r) * q div (?T + q) * (?T + q) \<le> (?O + ?r) * q"
    using div_mult_mod_eq [of "(?O + ?r) * q" "?T + q"] pos_mod_sign [of "?T + q" "(?O + ?r) * q"] t(2) q by linarith
  ultimately have "(?O + ?r) * q div (?T + q) * (?T + q) < (?r + 1) * (?T + q)" by linarith
  then have "(?O + ?r) * q div (?T + q) < ?r + 1"
    using t(2) q by (simp only: mult_less_cancel_right)
  then show ?thesis using t(1) by (simp add: share_def)
qed

text \<open>C18: Adding liquidity and taking the same quantity out again never gains anything: the creator has back
  exactly the quantity they injected and at most what was paired with it, and nothing is created or lost.\<close>

theorem inject_withdraw_no_gain:
  assumes w: "wf_state s" and u: "units_fit s" and v: "exchange_inject_validate c s = Inr f"
    and o: "xi_owner_address c = as_bytes owner" and a: "get_account s owner = Some acc"
    and g: "get_exchange s (xi_exchange_id c) = Some ex"
    and d: "d = \<lparr>xw_owner_address = xi_owner_address c, xw_exchange_id = xi_exchange_id c,
        xw_token_id = xi_token_id c, xw_quant = xi_quant c\<rparr>"
    and v2: "exchange_withdraw_validate F d (snd (exchange_inject_execute c s)) = Inr f'"
  shows "\<exists>s' acc'. exchange_withdraw_execute d (snd (exchange_inject_execute c s)) = (Inr (ExecutionResult 0), s')
     \<and> wf_state s' \<and> units_fit s' \<and> total_trx s' = total_trx s \<and> get_account s' owner = Some acc'
     \<and> token_balance acc' (xi_token_id c) = token_balance acc (xi_token_id c)
     \<and> token_balance acc' (other_id ex (xi_token_id c)) \<le> token_balance acc (other_id ex (xi_token_id c))"
proof -
  let ?t = "xi_token_id c" and ?q = "xi_quant c" and ?r = "share ex (xi_token_id c) (xi_quant c)"
  let ?p = "traded_pool ?t ?q ?r ex" and ?a = "traded_account ex ?t ?q ?r acc"
  let ?s1 = "put_exchange ?p (put_account owner ?a s)" and ?r' = "share (traded_pool ?t ?q ?r ex) ?t ?q"
  note i = exchange_inject_at [OF w u v o a g refl refl] and v' = in_pool_valid [OF i(1)]
  have id: "ex_id ex = xi_exchange_id c" using w g by (simp add: wf_state_def get_exchange_def)
  have g1: "get_exchange ?s1 (xw_exchange_id d) = Some ?p" "get_account ?s1 owner = Some ?a"
    using id by (simp_all add: d state_simps)
  have dd: "xw_owner_address d = as_bytes owner" "xw_token_id d = ?t" "xw_quant d = ?q" using o by (simp_all add: d)
  have v3: "exchange_withdraw_validate F d ?s1 = Inr f'" using v2 i(5) by simp
  let ?a2 = "traded_account ?p ?t (- ?q) (- ?r') ?a"
  note x = exchange_withdraw_at [OF i(6,8) v3 dd(1) g1(2,1) refl refl, unfolded dd]
  have "token_balance ?a2 ?t = token_balance acc ?t"
    "token_balance ?a2 (other_id ex ?t) = token_balance acc (other_id ex ?t) - ?r + ?r'"
    using v' by (simp_all add: traded_account_def)
  moreover have "get_account (put_exchange (traded_pool ?t (- ?q) (- ?r') ?p) (put_account owner ?a2 ?s1)) owner = Some ?a2"
    by (simp add: state_simps)
  ultimately show ?thesis
    using x i(5,7) share_after_inject [OF i(1-3)]
    by (intro exI [of _ "put_exchange (traded_pool ?t (- ?q) (- ?r') ?p) (put_account owner ?a2 ?s1)"] exI [of _ ?a2]) simp
qed

theorem inject_withdraw_no_gain_witness:
  "\<exists>s' acc'. exchange_withdraw_execute \<lparr>xw_owner_address = as_bytes (addr_of 1), xw_exchange_id = 1,
        xw_token_id = TRX_SYMBOL_BYTES, xw_quant = 500\<rparr>
       (snd (exchange_inject_execute \<lparr>xi_owner_address = as_bytes (addr_of 1), xi_exchange_id = 1,
          xi_token_id = TRX_SYMBOL_BYTES, xi_quant = 500\<rparr> pool_ledger)) = (Inr (ExecutionResult 0), s')
     \<and> get_account s' (addr_of 1) = Some acc' \<and> token_balance acc' TRX_SYMBOL_BYTES = 5000"
proof -
  let ?c = "\<lparr>xi_owner_address = as_bytes (addr_of 1), xi_exchange_id = 1, xi_token_id = TRX_SYMBOL_BYTES, xi_quant = 500\<rparr>"
  let ?d = "\<lparr>xw_owner_address = as_bytes (addr_of 1), xw_exchange_id = 1, xw_token_id = TRX_SYMBOL_BYTES, xw_quant = 500\<rparr>"
  have key: "token_key [0x31] = ''1''" unfolding token_key_def by code_simp
  have trx: "is_trx TRX_SYMBOL_BYTES" "\<not> is_trx [0x31]" "TRX_SYMBOL_BYTES \<noteq> [0x31]"
    by (simp_all add: is_trx_def TRX_SYMBOL_BYTES_def)
  have sd: "1000 * 500 sdiv (1000 :: int) = 500" "1500 * 500 sdiv (1500 :: int) = 500" by (simp_all add: sdiv_nonneg)
  have v: "exchange_inject_validate ?c pool_ledger = Inr 0"
    using trx key sd by (simp add: exchange_inject_validate_def load_owner_and_pool_def paired_def proportional_def ok_or_def
        ensure_def Let_def balance_limit_def DEFAULT_EXCHANGE_BALANCE_LIMIT_def token_balance_def pool_ledger_simps
        i64_wrap_def token_of_def i64_checked_def i64_bounds_defs)
  have g: "get_exchange pool_ledger 1 = Some sample_pool" by (simp add: pool_ledger_def sample_pool_def)
  have a: "get_account pool_ledger (addr_of 1) = Some pool_owner" by (simp add: pool_ledger_def state_simps)
  have sh: "share sample_pool TRX_SYMBOL_BYTES 500 = 500" using trx by (simp add: share_def side_def other_id_def sample_pool_def)
  have e: "snd (exchange_inject_execute ?c pool_ledger)
      = put_exchange (traded_pool TRX_SYMBOL_BYTES 500 500 sample_pool)
         (put_account (addr_of 1) (traded_account sample_pool TRX_SYMBOL_BYTES 500 500 pool_owner) pool_ledger)"
    using exchange_inject_at(5) [OF pool_ledger_wf pool_ledger_units v _ a _ refl refl] g by (simp add: sh)
  have "traded_pool TRX_SYMBOL_BYTES 500 500 sample_pool = sample_pool\<lparr>ex_first_balance := 1500, ex_second_balance := 1500\<rparr>"
    by (simp add: traded_pool_def move_pool_def sample_pool_def)
  moreover have "not_precise exact_f64 1500 500 1500 500 = False"
    by (simp add: not_precise_def exact_f64_def round_real_def)
  moreover have "0 \<le> acc_balance (traded_account sample_pool TRX_SYMBOL_BYTES 500 500 pool_owner)"
    using trx by (simp add: traded_account_def other_id_def sample_pool_def upd_token_value token_balance_def pool_owner_def)
  ultimately have v2: "exchange_withdraw_validate exact_f64 ?d (snd (exchange_inject_execute ?c pool_ledger)) = Inr 0"
    unfolding e using trx sd
    by (simp add: exchange_withdraw_validate_def load_owner_and_pool_def proportional_def ok_or_def ensure_def Let_def
        state_simps sample_pool_def i64_checked_def i64_bounds_defs)
  from inject_withdraw_no_gain [OF pool_ledger_wf pool_ledger_units v _ a _ _ v2] g show ?thesis
    by (auto simp: token_balance_def pool_owner_def trx)
qed

end
