(* ===== verification/Rust_Order.thy ===== *)
theory Rust_Order
  imports Prelude "HOL-Library.Multiset"
begin

text \<open>
  Comparisons and sorting of the Rust library as the node uses them: \<open>std::cmp::Ordering\<close>, the comparison of
  integers and of byte slices, \<open>then_with\<close>, and the stable \<open>sort_by\<close>.  The locale \<open>total_cmp\<close> states what
  a comparator of a total order satisfies; in it the result of a sort depends on the multiset of its input only.
\<close>

datatype ordering = Less | Equal | Greater

definition cmp_int :: "int \<Rightarrow> int \<Rightarrow> ordering" where
  "cmp_int a b = (if a < b then Less else if a = b then Equal else Greater)"

fun cmp_bytes :: "bytes \<Rightarrow> bytes \<Rightarrow> ordering" where
  "cmp_bytes [] [] = Equal"
| "cmp_bytes [] (b # bs) = Less"
| "cmp_bytes (a # as) [] = Greater"
| "cmp_bytes (a # as) (b # bs) = (if a < b then Less else if b < a then Greater else cmp_bytes as bs)"

definition then_with :: "ordering \<Rightarrow> ordering \<Rightarrow> ordering" where
  "then_with c d = (if c = Equal then d else c)"

text \<open>
  \<open>slice::sort_by\<close> is a stable sort; insertion from the right, before the first element that is not smaller,
  gives the same list.
\<close>

fun insert_by :: "('a \<Rightarrow> 'a \<Rightarrow> ordering) \<Rightarrow> 'a \<Rightarrow> 'a list \<Rightarrow> 'a list" where
  "insert_by cmp a [] = [a]"
| "insert_by cmp a (b # bs) = (if cmp b a = Less then b # insert_by cmp a bs else a # b # bs)"

definition sort_by :: "('a \<Rightarrow> 'a \<Rightarrow> ordering) \<Rightarrow> 'a list \<Rightarrow> 'a list" where
  "sort_by cmp xs = foldr (insert_by cmp) xs []"

lemma mset_insert_by [simp]: "mset (insert_by cmp a xs) = add_mset a (mset xs)"
  by (induction xs) auto

lemma mset_sort_by [simp]: "mset (sort_by cmp xs) = mset xs"
  by (induction xs) (simp_all add: sort_by_def)

lemma set_sort_by [simp]: "set (sort_by cmp xs) = set xs"
  by (metis mset_sort_by set_mset_mset)

lemma length_sort_by [simp]: "length (sort_by cmp xs) = length xs"
  by (metis mset_sort_by size_mset)

lemma distinct_sort_by [simp]: "distinct (sort_by cmp xs) = distinct xs"
  by (metis mset_sort_by mset_eq_imp_distinct_iff)

text \<open>Each element is not greater than the later ones.\<close>

definition sorted_by :: "('a \<Rightarrow> 'a \<Rightarrow> ordering) \<Rightarrow> 'a list \<Rightarrow> bool" where
  "sorted_by cmp xs \<longleftrightarrow> sorted_wrt (\<lambda>a b. cmp a b \<noteq> Greater) xs"

text \<open>A comparator by a key: what a sort needs for its result to be in order.\<close>

locale weak_cmp =
  fixes cmp :: "'a \<Rightarrow> 'a \<Rightarrow> ordering"
  assumes flip: "cmp a b = Greater \<longleftrightarrow> cmp b a = Less"
    and trans: "cmp a b \<noteq> Greater \<Longrightarrow> cmp b c \<noteq> Greater \<Longrightarrow> cmp a c \<noteq> Greater"
begin

lemma sorted_insert_by: "sorted_by cmp xs \<Longrightarrow> sorted_by cmp (insert_by cmp a xs)"
proof (induction xs)
  case Nil
  then show ?case by (simp add: sorted_by_def)
next
  case (Cons b xs)
  have s: "set (insert_by cmp a xs) = insert a (set xs)" by (metis mset_insert_by set_mset_add_mset_insert set_mset_mset)
  show ?case
  proof (cases "cmp b a = Less")
    case True
    with Cons s show ?thesis by (auto simp: sorted_by_def)
  next
    case False
    then have ab: "cmp a b \<noteq> Greater" using flip by blast
    then have "cmp a y \<noteq> Greater" if "y \<in> set xs" for y
      using Cons(2) that trans [OF ab] by (auto simp: sorted_by_def)
    with False Cons(2) ab show ?thesis by (auto simp: sorted_by_def)
  qed
qed

lemma sorted_sort_by: "sorted_by cmp (sort_by cmp xs)"
proof (induction xs)
  case Nil
  then show ?case by (simp add: sorted_by_def sort_by_def)
next
  case (Cons a xs)
  then show ?case using sorted_insert_by [of "sort_by cmp xs" a] by (simp add: sort_by_def)
qed

end

locale total_cmp = weak_cmp +
  assumes equal: "cmp a b = Equal \<longleftrightarrow> a = b"
begin

lemma not_greater_antisym: "cmp a b \<noteq> Greater \<Longrightarrow> cmp b a \<noteq> Greater \<Longrightarrow> a = b"
  using equal flip by (metis ordering.exhaust)

lemma sorted_unique: "sorted_by cmp xs \<Longrightarrow> sorted_by cmp ys \<Longrightarrow> mset xs = mset ys \<Longrightarrow> xs = ys"
proof (induction xs arbitrary: ys)
  case Nil
  then show ?case by simp
next
  case (Cons a xs)
  then obtain b ys' where ys: "ys = b # ys'" by (cases ys) auto
  have "b \<in> set (a # xs)" "a \<in> set (b # ys')" using Cons(4) ys by (metis list.set_intros(1) set_mset_mset)+
  moreover have "cmp a a \<noteq> Greater" for a using equal [of a a] by simp
  ultimately have "cmp a b \<noteq> Greater" "cmp b a \<noteq> Greater" using Cons(2,3) ys by (auto simp: sorted_by_def)
  then have "a = b" by (rule not_greater_antisym)
  with Cons ys show ?case by (auto simp: sorted_by_def)
qed

lemma sort_by_permutation: "mset xs = mset ys \<Longrightarrow> sort_by cmp xs = sort_by cmp ys"
  by (rule sorted_unique [OF sorted_sort_by sorted_sort_by]) simp

end

lemma cmp_int_simps [simp]:
  "cmp_int a b = Less \<longleftrightarrow> a < b" "cmp_int a b = Equal \<longleftrightarrow> a = b" "cmp_int a b = Greater \<longleftrightarrow> b < a"
  by (auto simp: cmp_int_def)

lemma cmp_bytes_flip: "cmp_bytes a b = Greater \<longleftrightarrow> cmp_bytes b a = Less"
  by (induction a b rule: cmp_bytes.induct) auto

lemma cmp_bytes_Equal [simp]: "cmp_bytes a b = Equal \<longleftrightarrow> a = b"
  by (induction a b rule: cmp_bytes.induct) auto

lemma cmp_bytes_trans: "cmp_bytes a b \<noteq> Greater \<Longrightarrow> cmp_bytes b c \<noteq> Greater \<Longrightarrow> cmp_bytes a c \<noteq> Greater"
proof (induction a b arbitrary: c rule: cmp_bytes.induct)
  case (4 a as b bs)
  then show ?case by (cases c) (auto split: if_splits)
qed (auto elim: cmp_bytes.elims)

interpretation int_order: total_cmp cmp_int
  by unfold_locales (auto simp: cmp_int_def split: if_splits)

interpretation bytes_order: total_cmp cmp_bytes
  using cmp_bytes_flip cmp_bytes_trans by unfold_locales auto

end
