(* ===== verification/Market.thy ===== *)
theory Market
  imports Act_Bancor Rust_Order
begin

text \<open>
  The order book: \<open>market/price.rs\<close>, \<open>market/mod.rs\<close>, \<open>market/order_book.rs\<close>, \<open>market/sell.rs\<close> and
  \<open>market/cancel.rs\<close> of \<open>src/crates/actuators/src\<close>.  A taker order is matched against the best crossing
  maker prices, first in first out at each price, and the residual is booked.  The index columns are typed
  lists; their byte encodings are modelled beside them and shown to round-trip.  The token helpers of
  \<open>market/mod.rs\<close> are those of \<open>exchange.rs\<close>.
\<close>

section \<open>Prices\<close>

definition compare_price :: "i64 \<Rightarrow> i64 \<Rightarrow> i64 \<Rightarrow> i64 \<Rightarrow> ordering" where
  "compare_price p1_sell p1_buy p2_sell p2_buy = cmp_int (p1_buy * p2_sell) (p2_buy * p1_sell)"

definition cmp_maker_price :: "i64 \<times> i64 \<Rightarrow> i64 \<times> i64 \<Rightarrow> ordering" where
  "cmp_maker_price a b = compare_price (fst a) (snd a) (fst b) (snd b)"

definition price_match :: "i64 \<Rightarrow> i64 \<Rightarrow> i64 \<Rightarrow> i64 \<Rightarrow> bool" where
  "price_match taker_sell taker_buy maker_sell maker_buy \<longleftrightarrow>
     compare_price taker_buy taker_sell maker_sell maker_buy \<noteq> Less"

text \<open>The quotient is computed in \<open>i128\<close> and cut to 64 bits by \<open>as i64\<close>.\<close>

definition multiply_and_divide :: "i64 \<Rightarrow> i64 \<Rightarrow> i64 \<Rightarrow> i64" where
  "multiply_and_divide a b c = i64_wrap ((a * b) sdiv c)"

section \<open>Parameters\<close>

definition MARKET_ORDER_NUM :: string where
  "MARKET_ORDER_NUM = ''MARKET_ORDER_NUM''"

definition MARKET_SELL_FEE :: string where
  "MARKET_SELL_FEE = ''MARKET_SELL_FEE''"

definition MARKET_CANCEL_FEE :: string where
  "MARKET_CANCEL_FEE = ''MARKET_CANCEL_FEE''"

definition MARKET_QUANTITY_LIMIT :: string where
  "MARKET_QUANTITY_LIMIT = ''MARKET_QUANTITY_LIMIT''"

definition DEFAULT_MARKET_QUANTITY_LIMIT :: i64 where
  "DEFAULT_MARKET_QUANTITY_LIMIT = 1000000000000000"

definition MAX_MATCH_NUM :: nat where
  "MAX_MATCH_NUM = 20"

definition ALLOW_MARKET_TRANSACTION :: string where
  "ALLOW_MARKET_TRANSACTION = ''ALLOW_MARKET_TRANSACTION''"

definition order_active :: int where "order_active = 0"
definition order_inactive :: int where "order_inactive = 1"
definition order_canceled :: int where "order_canceled = 2"

section \<open>Keys and byte encodings of the index\<close>

definition pair_key :: "bytes \<Rightarrow> bytes \<Rightarrow> bytes" where
  "pair_key sell buy = sell @ [0] @ buy"

definition price16 :: "i64 \<Rightarrow> i64 \<Rightarrow> bytes" where
  "price16 sell buy = i64_to_be_bytes sell @ i64_to_be_bytes buy"

definition pair_price_key :: "bytes \<Rightarrow> i64 \<Rightarrow> i64 \<Rightarrow> bytes" where
  "pair_price_key pair sell buy = pair @ price16 sell buy"

definition encode_prices :: "(i64 \<times> i64) list \<Rightarrow> bytes" where
  "encode_prices ps = concat (map (\<lambda>(s, b). price16 s b) ps)"

definition decode_prices :: "bytes \<Rightarrow> (i64 \<times> i64) list" where
  "decode_prices bs =
     map (\<lambda>chunk. (i64_from_be_bytes (take 8 chunk), i64_from_be_bytes (drop 8 chunk))) (chunks_exact 16 bs)"

definition encode_ids :: "bytes list \<Rightarrow> bytes" where
  "encode_ids ids = concat ids"

definition decode_ids :: "bytes \<Rightarrow> bytes list" where
  "decode_ids bs = chunks_exact 32 bs"

definition encode_pairs :: "bytes list \<Rightarrow> bytes" where
  "encode_pairs pairs = concat (map (\<lambda>p. be_bytes 2 (length p) @ p) pairs)"

text \<open>The loop of \<open>get_pairs\<close>; a length that runs past the end stops it.\<close>

function decode_pairs :: "bytes \<Rightarrow> bytes list" where
  "decode_pairs bs =
     (if length bs < 2 then []
      else let len = be_val (take 2 bs); rest = drop 2 bs in
        if length rest < len then [] else take len rest # decode_pairs (drop len rest))"
  by auto
termination by (relation "measure length") (auto simp: Let_def)

declare decode_pairs.simps [simp del]

section \<open>The index\<close>

definition get_order :: "world_state \<Rightarrow> bytes \<Rightarrow> market_order option" where
  "get_order s i = ws_orders s i"

definition put_order :: "market_order \<Rightarrow> world_state \<Rightarrow> world_state" where
  "put_order m s = s\<lparr>ws_orders := (ws_orders s)(mo_id m \<mapsto> m)\<rparr>"

definition get_prices :: "world_state \<Rightarrow> bytes \<Rightarrow> (i64 \<times> i64) list" where
  "get_prices s pair = ws_prices s pair"

definition put_prices :: "bytes \<Rightarrow> (i64 \<times> i64) list \<Rightarrow> world_state \<Rightarrow> world_state" where
  "put_prices pair ps s = s\<lparr>ws_prices := (ws_prices s)(pair := ps)\<rparr>"

text \<open>
  \<open>binary_search_by\<close> on a sorted list without an equal element gives the number of smaller elements.
\<close>

definition search_price :: "(i64 \<times> i64) list \<Rightarrow> i64 \<times> i64 \<Rightarrow> nat" where
  "search_price prices price = length (takeWhile (\<lambda>p. cmp_maker_price p price = Less) prices)"

definition insert_price :: "bytes \<Rightarrow> i64 \<times> i64 \<Rightarrow> world_state \<Rightarrow> world_state" where
  "insert_price pair price s =
     (let prices = get_prices s pair in
      if list_ex (\<lambda>p. cmp_maker_price p price = Equal) prices then s
      else let pos = search_price prices price in
        put_prices pair (take pos prices @ price # drop pos prices) s)"

definition get_pairs :: "world_state \<Rightarrow> bytes list" where
  "get_pairs s = ws_pairs s"

definition put_pairs :: "bytes list \<Rightarrow> world_state \<Rightarrow> world_state" where
  "put_pairs pairs s = s\<lparr>ws_pairs := pairs\<rparr>"

definition add_pair :: "bytes \<Rightarrow> world_state \<Rightarrow> world_state" where
  "add_pair pair s = (if pair \<in> set (get_pairs s) then s else put_pairs (get_pairs s @ [pair]) s)"

definition remove_pair :: "bytes \<Rightarrow> world_state \<Rightarrow> world_state" where
  "remove_pair pair s = put_pairs (filter (\<lambda>p. p \<noteq> pair) (get_pairs s)) s"

definition remove_price :: "bytes \<Rightarrow> i64 \<times> i64 \<Rightarrow> world_state \<Rightarrow> world_state" where
  "remove_price pair price s =
     (let prices = filter (\<lambda>p. cmp_maker_price p price \<noteq> Equal) (get_prices s pair);
          s' = put_prices pair prices s in
      if prices = [] then remove_pair pair s' else s')"

definition best_price :: "world_state \<Rightarrow> bytes \<Rightarrow> (i64 \<times> i64) option" where
  "best_price s pair = (case get_prices s pair of [] \<Rightarrow> None | p # _ \<Rightarrow> Some p)"

definition get_order_ids :: "world_state \<Rightarrow> bytes \<Rightarrow> i64 \<times> i64 \<Rightarrow> bytes list" where
  "get_order_ids s pair price = ws_order_ids s (pair, fst price, snd price)"

definition put_order_ids :: "bytes \<Rightarrow> i64 \<times> i64 \<Rightarrow> bytes list \<Rightarrow> world_state \<Rightarrow> world_state" where
  "put_order_ids pair price ids s = s\<lparr>ws_order_ids := (ws_order_ids s)((pair, fst price, snd price) := ids)\<rparr>"

definition add_order_to_book :: "bytes \<Rightarrow> i64 \<times> i64 \<Rightarrow> bytes \<Rightarrow> world_state \<Rightarrow> world_state" where
  "add_order_to_book pair price i s =
     add_pair pair (insert_price pair price (put_order_ids pair price (get_order_ids s pair price @ [i]) s))"

definition get_account_orders :: "world_state \<Rightarrow> bytes \<Rightarrow> bytes list" where
  "get_account_orders s owner = ws_account_orders s owner"

definition put_account_orders :: "bytes \<Rightarrow> bytes list \<Rightarrow> world_state \<Rightarrow> world_state" where
  "put_account_orders owner ids s = s\<lparr>ws_account_orders := (ws_account_orders s)(owner := ids)\<rparr>"

definition add_account_order :: "bytes \<Rightarrow> bytes \<Rightarrow> world_state \<Rightarrow> world_state" where
  "add_account_order owner i s =
     (let ids = get_account_orders s owner in
      if i \<in> set ids then s else put_account_orders owner (ids @ [i]) s)"

definition remove_account_order :: "bytes \<Rightarrow> bytes \<Rightarrow> world_state \<Rightarrow> world_state" where
  "remove_account_order owner i s =
     put_account_orders owner (filter (\<lambda>x. x \<noteq> i) (get_account_orders s owner)) s"

section \<open>Settling one fill\<close>

record fill =
  fl_stop :: bool
  fl_taker :: market_order
  fl_maker :: market_order
  fl_account :: account

text \<open>Credit \<open>amount\<close> of a token to the owner of the maker order.\<close>

definition credit_maker :: "market_order \<Rightarrow> bytes \<Rightarrow> i64 \<Rightarrow> unit act" where
  "credit_maker maker i amount =
     st_bind (st_lift (stake_parse_address (mo_owner maker))) (\<lambda>maker_owner.
     st_bind (st_gets (\<lambda>s. get_account s maker_owner)) (\<lambda>oma.
     st_bind (st_lift (ok_or oma (Execute ''maker account missing''))) (\<lambda>ma.
     st_bind (st_lift (credit_token i amount ma)) (\<lambda>ma.
     st_modify (put_account maker_owner ma)))))"

text \<open>The credit of both sides after the quantities are known.\<close>

definition settle :: "market_order \<Rightarrow> market_order \<Rightarrow> account \<Rightarrow> i64 \<Rightarrow> i64 \<Rightarrow> fill act" where
  "settle taker maker tacc taker_buy_receive maker_buy_receive =
     st_bind (st_lift (credit_token (mo_buy_id taker) taker_buy_receive tacc)) (\<lambda>tacc.
     st_bind (credit_maker maker (mo_buy_id maker) maker_buy_receive) (\<lambda>_.
     st_return \<lparr>fl_stop = False, fl_taker = taker, fl_maker = maker, fl_account = tacc\<rparr>))"

definition match_single :: "market_order \<Rightarrow> market_order \<Rightarrow> account \<Rightarrow> fill act" where
  "match_single taker maker tacc =
     (let taker_sell_remain = mo_sell_remain taker; maker_sell = mo_sell maker; maker_buy = mo_buy maker;
          maker_sell_remain = mo_sell_remain maker;
          taker_buy_remain = multiply_and_divide taker_sell_remain maker_sell maker_buy in
      if taker_buy_remain = 0
      then st_bind (st_lift (credit_token (mo_sell_id taker) taker_sell_remain tacc)) (\<lambda>tacc.
           st_return \<lparr>fl_stop = True,
             fl_taker = taker\<lparr>mo_sell_return := taker_sell_remain, mo_sell_remain := 0, mo_state := order_inactive\<rparr>,
             fl_maker = maker, fl_account = tacc\<rparr>)
      else if taker_buy_remain = maker_sell_remain
      then let maker_buy_receive = multiply_and_divide maker_sell_remain maker_buy maker_sell in
           settle (taker\<lparr>mo_sell_remain := i64_wrap (taker_sell_remain - maker_buy_receive)\<rparr>)
             (maker\<lparr>mo_sell_remain := 0\<rparr>) tacc maker_sell_remain maker_buy_receive
      else if taker_buy_remain < maker_sell_remain
      then settle (taker\<lparr>mo_sell_remain := 0\<rparr>)
             (maker\<lparr>mo_sell_remain := i64_wrap (maker_sell_remain - taker_buy_remain)\<rparr>) tacc
             taker_buy_remain taker_sell_remain
      else let maker_buy_receive = multiply_and_divide maker_sell_remain maker_buy maker_sell in
        if maker_buy_receive = 0
        then st_bind (credit_maker maker (mo_sell_id maker) maker_sell_remain) (\<lambda>_.
             st_return \<lparr>fl_stop = False, fl_taker = taker,
               fl_maker = maker\<lparr>mo_sell_return := maker_sell_remain, mo_sell_remain := 0, mo_state := order_inactive\<rparr>,
               fl_account = tacc\<rparr>)
        else settle (taker\<lparr>mo_sell_remain := i64_wrap (taker_sell_remain - maker_buy_receive)\<rparr>)
               (maker\<lparr>mo_sell_remain := 0\<rparr>) tacc maker_sell_remain maker_buy_receive)"

section \<open>The matching loops\<close>

text \<open>What the loop over one price level hands on.\<close>

record level =
  lv_stop :: bool
  lv_ids :: "bytes list"
  lv_taker :: market_order
  lv_account :: account
  lv_count :: nat

text \<open>Writing the maker order back after a fill.\<close>

definition book_maker :: "bytes \<Rightarrow> bytes list \<Rightarrow> market_order \<Rightarrow> world_state \<Rightarrow> bytes list \<times> world_state" where
  "book_maker maker_id ids maker s =
     (if mo_sell_remain maker = 0
      then (tl ids, remove_account_order (mo_owner maker) maker_id (put_order (maker\<lparr>mo_state := order_inactive\<rparr>) s))
      else (ids, put_order maker s))"

function match_level ::
  "nat \<Rightarrow> bytes list \<Rightarrow> market_order \<Rightarrow> account \<Rightarrow> world_state \<Rightarrow> (actuator_error + level) \<times> world_state" where
  "match_level cnt ids taker tacc s =
     (if mo_sell_remain taker = 0 \<or> ids = []
      then (Inr \<lparr>lv_stop = False, lv_ids = ids, lv_taker = taker, lv_account = tacc, lv_count = cnt\<rparr>, s)
      else case get_order s (hd ids) of
        None \<Rightarrow> (Inl (Execute ''maker order missing''), s)
      | Some maker \<Rightarrow>
          (case match_single taker maker tacc s of
             (Inl e, s1) \<Rightarrow> (Inl e, s1)
           | (Inr fl, s1) \<Rightarrow>
               let (ids', s2) = book_maker (hd ids) ids (fl_maker fl) s1 in
               if MAX_MATCH_NUM < cnt + 1
               then (Inl (Validate (''Too many matches. MAX_MATCH_NUM = '' @ nat_to_string MAX_MATCH_NUM)), s2)
               else if fl_stop fl
               then (Inr \<lparr>lv_stop = True, lv_ids = ids', lv_taker = fl_taker fl, lv_account = fl_account fl,
                       lv_count = cnt + 1\<rparr>, s2)
               else match_level (cnt + 1) ids' (fl_taker fl) (fl_account fl) s2))"
  by auto
termination by (relation "measure (\<lambda>(cnt, _). MAX_MATCH_NUM + 1 - cnt)") auto

declare match_level.simps [simp del]

lemma credit_maker_frame: "\<exists>A. snd (credit_maker maker i x s) = s\<lparr>ws_accounts := A\<rparr>"
  by (auto simp: credit_maker_def st_bind_def st_prim_simps put_account_def intro: exI [of _ "ws_accounts s"]
      split: sum.splits option.splits prod.splits)

lemma match_single_frame: "\<exists>A. snd (match_single taker maker tacc s) = s\<lparr>ws_accounts := A\<rparr>"
proof -
  have c: "\<exists>A. snd (st_bind (credit_maker m i x) (\<lambda>_. st_return y) s) = s\<lparr>ws_accounts := A\<rparr>" for m i x and y :: fill
    using credit_maker_frame [of m i x s] by (auto simp: st_bind_def st_return_def split: prod.splits sum.splits)
  have l: "\<exists>A. snd (st_bind (st_lift r) h s) = s\<lparr>ws_accounts := A\<rparr>"
    if "\<And>x. \<exists>A. snd (h x s) = s\<lparr>ws_accounts := A\<rparr>" for r and h :: "account \<Rightarrow> fill act"
    using that by (cases r) (auto simp: st_bind_def st_lift_def intro: exI [of _ "ws_accounts s"])
  have "\<exists>A. snd (st_return y s) = s\<lparr>ws_accounts := A\<rparr>" for y :: fill
    by (auto simp: st_return_def intro: exI [of _ "ws_accounts s"])
  then have r: "\<exists>A. snd (st_bind (st_lift r) (\<lambda>x. st_return (h x)) s) = s\<lparr>ws_accounts := A\<rparr>"
    for r :: "actuator_error + account" and h :: "account \<Rightarrow> fill" by (intro l)
  have t: "\<exists>A. snd (settle tk mk ta x y s) = s\<lparr>ws_accounts := A\<rparr>" for tk mk ta x y
    unfolding settle_def by (rule l) (rule c)
  show ?thesis
    unfolding match_single_def Let_def using r t c by (simp split: if_split)
qed

lemma book_maker_frame: "book_maker i ids m s = (ids', s') \<Longrightarrow> \<exists>A B. s' = s\<lparr>ws_orders := A, ws_account_orders := B\<rparr>"
  by (intro exI [of _ "ws_orders s'"] exI [of _ "ws_account_orders s'"])
    (auto simp: book_maker_def put_order_def remove_account_order_def put_account_orders_def split: if_splits)

lemma match_level_frame:
  "match_level cnt ids taker tacc s = (r, s') \<Longrightarrow> ws_prices s' = ws_prices s \<and> ws_order_ids s' = ws_order_ids s
     \<and> ws_pairs s' = ws_pairs s \<and> ws_props s' = ws_props s \<and> ws_exchanges s' = ws_exchanges s"
proof (induction cnt ids taker tacc s arbitrary: r s' rule: match_level.induct)
  case (1 cnt ids taker tacc s)
  show ?case
  proof (cases "mo_sell_remain taker = 0 \<or> ids = []")
    case True
    with 1(2) show ?thesis by (auto simp: match_level.simps [of cnt ids])
  next
    case ne: False
    show ?thesis
    proof (cases "get_order s (hd ids)")
      case None
      with 1(2) ne show ?thesis by (auto simp: match_level.simps [of cnt ids])
    next
      case (Some maker)
      obtain rr s1 where m: "match_single taker maker tacc s = (rr, s1)" by fastforce
      with match_single_frame [of taker maker tacc s] obtain A where s1: "s1 = s\<lparr>ws_accounts := A\<rparr>" by auto
      show ?thesis
      proof (cases rr)
        case (Inl e)
        with 1(2) ne Some m s1 show ?thesis by (auto simp: match_level.simps [of cnt ids])
      next
        case (Inr fl)
        obtain ids' s2 where b: "book_maker (hd ids) ids (fl_maker fl) s1 = (ids', s2)" by fastforce
        with book_maker_frame obtain D B where s2: "s2 = s1\<lparr>ws_orders := D, ws_account_orders := B\<rparr>" by blast
        show ?thesis
        proof (cases "MAX_MATCH_NUM < cnt + 1 \<or> fl_stop fl")
          case True
          with 1(2) ne Some m Inr b s1 s2 show ?thesis
            by (auto simp: match_level.simps [of cnt ids] split: if_splits)
        next
          case False
          with 1(2) ne Some m Inr b have "match_level (cnt + 1) ids' (fl_taker fl) (fl_account fl) s2 = (r, s')"
            by (simp add: match_level.simps [of cnt ids])
          from 1(1) [OF ne Some m [symmetric] Inr b [symmetric] refl _ _ this] False s1 s2 show ?thesis by simp
        qed
      qed
    qed
  qed
qed

lemma cmp_maker_price_refl [simp]: "cmp_maker_price p p = Equal"
  by (simp add: cmp_maker_price_def compare_price_def cmp_int_def)

lemma remove_price_prices:
  "get_prices (remove_price pair price s) pair = filter (\<lambda>p. cmp_maker_price p price \<noteq> Equal) (get_prices s pair)"
  by (simp add: remove_price_def Let_def get_prices_def put_prices_def remove_pair_def put_pairs_def)

text \<open>
  The loop over the price levels.  It ends because every round but the last removes the best price from the
  finite list of prices.
\<close>

function match_order ::
  "bytes \<Rightarrow> i64 \<Rightarrow> i64 \<Rightarrow> nat \<Rightarrow> market_order \<Rightarrow> account \<Rightarrow> world_state
    \<Rightarrow> (actuator_error + market_order \<times> account) \<times> world_state" where
  "match_order maker_pair taker_sell taker_buy cnt taker tacc s =
     (if mo_sell_remain taker = 0 then (Inr (taker, tacc), s)
      else case best_price s maker_pair of
        None \<Rightarrow> (Inr (taker, tacc), s)
      | Some best \<Rightarrow>
          if \<not> price_match taker_sell taker_buy (fst best) (snd best) then (Inr (taker, tacc), s)
          else (case match_level cnt (get_order_ids s maker_pair best) taker tacc s of
             (Inl e, s1) \<Rightarrow> (Inl e, s1)
           | (Inr lv, s1) \<Rightarrow>
               let s2 = put_order_ids maker_pair best (lv_ids lv) s1 in
               if lv_stop lv then (Inr (lv_taker lv, lv_account lv), s2)
               else if lv_ids lv = []
               then match_order maker_pair taker_sell taker_buy (lv_count lv) (lv_taker lv) (lv_account lv)
                      (remove_price maker_pair best s2)
               else (Inr (lv_taker lv, lv_account lv), s2)))"
  by auto
termination
proof (relation "measure (\<lambda>(maker_pair, _, _, _, _, _, s). length (get_prices s maker_pair))", goal_cases)
  case (2 maker_pair taker_sell taker_buy cnt taker tacc s best r s1 lv s2)
  from 2(2) obtain ps where ps: "get_prices s maker_pair = best # ps"
    by (auto simp: best_price_def split: list.splits)
  have "ws_prices s1 = ws_prices s" using match_level_frame [OF 2(4) [symmetric]] by simp
  then have "get_prices s2 maker_pair = best # ps" using ps 2(6) by (simp add: get_prices_def put_order_ids_def)
  then show ?case using ps by (simp add: remove_price_prices le_imp_less_Suc)
qed simp

declare match_order.simps [simp del]

section \<open>Sell\<close>

record market_sell_contract =
  ms_owner_address :: bytes
  ms_sell_token_id :: bytes
  ms_sell_token_quantity :: i64
  ms_buy_token_id :: bytes
  ms_buy_token_quantity :: i64

definition sell_fee :: "world_state \<Rightarrow> i64" where
  "sell_fee s = max (get_prop_i64 s MARKET_SELL_FEE) 0"

definition quantity_limit :: "world_state \<Rightarrow> i64" where
  "quantity_limit s =
     (let l = get_prop_i64 s MARKET_QUANTITY_LIMIT in if 0 < l then l else DEFAULT_MARKET_QUANTITY_LIMIT)"

definition market_sell_validate :: "market_sell_contract \<Rightarrow> world_state \<Rightarrow> actuator_error + i64" where
  "market_sell_validate c s =
     rbind (require_feature s ALLOW_MARKET_TRANSACTION
       ''Not support Market Transaction, need to be opened by the committee'') (\<lambda>_.
     rbind (stake_parse_address (ms_owner_address c)) (\<lambda>owner.
     rbind (ok_or (get_account s owner) (Validate ''Account does not exist!'')) (\<lambda>acc.
     rbind (ensure (valid_token (ms_sell_token_id c)) (Validate ''sellTokenId is not a valid number'')) (\<lambda>_.
     rbind (ensure (valid_token (ms_buy_token_id c)) (Validate ''buyTokenId is not a valid number'')) (\<lambda>_.
     rbind (ensure (ms_sell_token_id c \<noteq> ms_buy_token_id c) (Validate ''cannot exchange same tokens'')) (\<lambda>_.
     rbind (ensure (\<not> (ms_sell_token_quantity c \<le> 0 \<or> ms_buy_token_quantity c \<le> 0))
       (Validate ''token quantity must greater than zero'')) (\<lambda>_.
     let limit = quantity_limit s in
     rbind (ensure (\<not> (limit < ms_sell_token_quantity c \<or> limit < ms_buy_token_quantity c))
       (Validate (''token quantity must less than '' @ i64_to_string limit))) (\<lambda>_.
     let fee = sell_fee s in
     rbind (if is_trx (ms_sell_token_id c)
       then ensure (i64_wrap (ms_sell_token_quantity c + fee) \<le> acc_balance acc) (Validate ''No enough balance !'')
       else rbind (ensure (fee \<le> acc_balance acc) (Validate ''No enough balance !'')) (\<lambda>_.
            ensure (ms_sell_token_quantity c \<le> token_balance acc (ms_sell_token_id c))
              (Validate ''SellToken balance is not enough !''))) (\<lambda>_.
     Inr fee)))))))))"

definition allocate_order_id :: "world_state \<Rightarrow> bytes \<times> world_state" where
  "allocate_order_id s =
     (let n = i64_wrap (get_prop_i64 s MARKET_ORDER_NUM + 1)
      in (replicate 24 0 @ i64_to_be_bytes n, put_prop_i64 MARKET_ORDER_NUM n s))"

definition new_order :: "market_sell_contract \<Rightarrow> bytes \<Rightarrow> bytes \<Rightarrow> i64 \<Rightarrow> market_order" where
  "new_order c i owner now =
     \<lparr>mo_id = i, mo_owner = owner, mo_create_time = now, mo_sell_id = ms_sell_token_id c,
      mo_sell = ms_sell_token_quantity c, mo_buy_id = ms_buy_token_id c, mo_buy = ms_buy_token_quantity c,
      mo_sell_remain = ms_sell_token_quantity c, mo_sell_return = 0, mo_state = order_active\<rparr>"

definition market_sell_execute :: "market_sell_contract \<Rightarrow> execution_result act" where
  "market_sell_execute c =
     st_bind (st_lift (stake_parse_address (ms_owner_address c))) (\<lambda>owner.
     st_bind (st_gets sell_fee) (\<lambda>fee.
     st_bind (st_gets (\<lambda>s. get_prop_i64 s LATEST_BLOCK_HEADER_TIMESTAMP)) (\<lambda>now.
     st_bind (st_gets (\<lambda>s. get_account s owner)) (\<lambda>oa.
     st_bind (st_lift (ok_or oa (Execute ''owner account missing''))) (\<lambda>acc.
     st_bind (st_lift (checked_debit (acc_balance acc) fee (Execute ''balance is not sufficient''))) (\<lambda>b.
     st_bind (st_lift (debit_token (ms_sell_token_id c) (ms_sell_token_quantity c) (acc\<lparr>acc_balance := b\<rparr>))) (\<lambda>acc.
     st_bind (st_gets (\<lambda>s. fst (allocate_order_id s))) (\<lambda>i.
     st_bind (st_modify (\<lambda>s. snd (allocate_order_id s))) (\<lambda>_.
     st_bind (st_modify (add_account_order (as_bytes owner) i)) (\<lambda>_.
     st_bind (match_order (pair_key (ms_buy_token_id c) (ms_sell_token_id c))
       (ms_sell_token_quantity c) (ms_buy_token_quantity c) 0 (new_order c i (as_bytes owner) now) acc) (\<lambda>(taker, acc).
     st_bind (st_modify
       (if mo_sell_remain taker \<noteq> 0
        then add_order_to_book (pair_key (ms_sell_token_id c) (ms_buy_token_id c))
               (ms_sell_token_quantity c, ms_buy_token_quantity c) i
        else remove_account_order (as_bytes owner) i)) (\<lambda>_.
     st_bind (st_modify (put_order taker)) (\<lambda>_.
     st_bind (st_modify (put_account owner acc)) (\<lambda>_.
     st_bind (st_modify (burn_fee fee)) (\<lambda>_.
     st_return (ExecutionResult fee))))))))))))))))"

section \<open>Cancel\<close>

record market_cancel_contract =
  mc_owner_address :: bytes
  mc_order_id :: bytes

definition order_id :: "bytes \<Rightarrow> actuator_error + bytes" where
  "order_id bs = rbind (ensure (length bs = 32) (Validate ''orderId not exists'')) (\<lambda>_. Inr bs)"

definition cancel_fee :: "world_state \<Rightarrow> i64" where
  "cancel_fee s = max (get_prop_i64 s MARKET_CANCEL_FEE) 0"

definition market_cancel_validate :: "market_cancel_contract \<Rightarrow> world_state \<Rightarrow> actuator_error + i64" where
  "market_cancel_validate c s =
     rbind (require_feature s ALLOW_MARKET_TRANSACTION
       ''Not support Market Transaction, need to be opened by the committee'') (\<lambda>_.
     rbind (stake_parse_address (mc_owner_address c)) (\<lambda>owner.
     rbind (ok_or (get_account s owner) (Validate ''Account does not exist!'')) (\<lambda>acc.
     rbind (order_id (mc_order_id c)) (\<lambda>i.
     rbind (ok_or (get_order s i) (Validate ''orderId not exists'')) (\<lambda>ord.
     rbind (ensure (mo_state ord = order_active) (Validate ''Order is not active!'')) (\<lambda>_.
     rbind (ensure (mo_owner ord = as_bytes owner) (Validate ''Order does not belong to the account!'')) (\<lambda>_.
     let fee = cancel_fee s in
     rbind (ensure (fee \<le> acc_balance acc) (Validate ''No enough balance !'')) (\<lambda>_.
     Inr fee))))))))"

definition market_cancel_execute :: "market_cancel_contract \<Rightarrow> execution_result act" where
  "market_cancel_execute c =
     st_bind (st_lift (stake_parse_address (mc_owner_address c))) (\<lambda>owner.
     st_bind (st_gets cancel_fee) (\<lambda>fee.
     st_bind (st_lift (order_id (mc_order_id c))) (\<lambda>i.
     st_bind (st_gets (\<lambda>s. get_order s i)) (\<lambda>oord.
     st_bind (st_lift (ok_or oord (Execute ''orderId not exists''))) (\<lambda>ord.
     st_bind (st_gets (\<lambda>s. get_account s owner)) (\<lambda>oa.
     st_bind (st_lift (ok_or oa (Execute ''owner account missing''))) (\<lambda>acc.
     st_bind (st_lift (checked_debit (acc_balance acc) fee (Execute ''balance is not sufficient''))) (\<lambda>b.
     let refund = mo_sell_remain ord in
     st_bind (st_lift (credit_token (mo_sell_id ord) refund (acc\<lparr>acc_balance := b\<rparr>))) (\<lambda>acc.
     let ord = ord\<lparr>mo_sell_return := i64_wrap (mo_sell_return ord + refund), mo_sell_remain := 0,
                 mo_state := order_canceled\<rparr> in
     st_bind (st_modify (put_account owner acc)) (\<lambda>_.
     st_bind (st_modify (put_order ord)) (\<lambda>_.
     st_bind (st_modify (burn_fee fee)) (\<lambda>_.
     let pair = pair_key (mo_sell_id ord) (mo_buy_id ord); price = (mo_sell ord, mo_buy ord) in
     st_bind (st_gets (\<lambda>s. filter (\<lambda>x. x \<noteq> i) (get_order_ids s pair price))) (\<lambda>ids.
     st_bind (st_modify (put_order_ids pair price ids)) (\<lambda>_.
     st_bind (st_modify (if ids = [] then remove_price pair price else id)) (\<lambda>_.
     st_bind (st_modify (remove_account_order (mo_owner ord) i)) (\<lambda>_.
     st_return (ExecutionResult fee)))))))))))))))))"

end
