(* ===== verification/Market_Props.thy ===== *)
theory Market_Props
  imports Market
begin

text \<open>
  What the order book keeps.  The encodings of the index round-trip, the price list of a pair stays sorted,
  a fill respects the maker's price up to rounding, and a sell order that executes neither creates nor loses
  any token as long as no quantity overflows and the owner does not trade with themself; a concrete order
  shows what an overflowing quotient does.
\<close>

section \<open>Encodings\<close>

lemma decode_encode_ids: "\<forall>i\<in>set ids. length i = 32 \<Longrightarrow> decode_ids (encode_ids ids) = ids"
  by (simp add: decode_ids_def encode_ids_def chunks_exact_concat)

lemma decode_encode_prices:
  assumes "\<forall>(s, b)\<in>set ps. in_i64 s \<and> in_i64 b"
  shows "decode_prices (encode_prices ps) = ps"
proof -
  have "chunks_exact 16 (concat (map (\<lambda>(s, b). price16 s b) ps)) = map (\<lambda>(s, b). price16 s b) ps"
    by (rule chunks_exact_concat) (auto simp: price16_def)
  then show ?thesis
    using assms by (auto simp: decode_prices_def encode_prices_def price16_def intro!: map_idI)
qed

lemma decode_encode_pairs:
  "\<forall>p\<in>set ps. length p < 2 ^ 16 \<Longrightarrow> decode_pairs (encode_pairs ps) = ps"
proof (induction ps)
  case Nil
  show ?case by (simp add: encode_pairs_def decode_pairs.simps)
next
  case (Cons p ps)
  let ?rest = "encode_pairs ps"
  have e: "encode_pairs (p # ps) = be_bytes 2 (length p) @ p @ ?rest" by (simp add: encode_pairs_def)
  have v: "be_val (be_bytes 2 (length p)) = length p"
    using Cons.prems by (simp add: be_val_be_bytes)
  have l: "length (be_bytes 2 (length p)) = 2" by simp
  show ?case
    unfolding e by (subst decode_pairs.simps) (use Cons v l in \<open>simp add: Let_def\<close>)
qed

interpretation pricec: codec encode_prices "\<lambda>bs. Some (decode_prices bs)" "\<lambda>ps. \<forall>(s, b)\<in>set ps. in_i64 s \<and> in_i64 b"
  by unfold_locales (simp add: decode_encode_prices)

interpretation idc: codec encode_ids "\<lambda>bs. Some (decode_ids bs)" "all_width 32"
  by unfold_locales (simp add: decode_encode_ids all_width_def)

interpretation pairc: codec encode_pairs "\<lambda>bs. Some (decode_pairs bs)" "\<lambda>ps. \<forall>p\<in>set ps. length p < 2 ^ 16"
  by unfold_locales (simp add: decode_encode_pairs)

lemma pair_key_inject:
  assumes "0 \<notin> set a" and "0 \<notin> set b"
  shows "pair_key a x = pair_key b y \<longleftrightarrow> a = b \<and> x = y"
proof -
  have "takeWhile (\<lambda>c. c \<noteq> 0) (pair_key a x) = a" if "0 \<notin> set a" for a x :: bytes
    using that by (induction a) (auto simp: pair_key_def)
  with assms have "pair_key a x = pair_key b y \<Longrightarrow> a = b" by metis
  then show ?thesis by (auto simp: pair_key_def)
qed

lemma valid_token_no_nul: "valid_token i \<Longrightarrow> 0 \<notin> set i"
  by (auto simp: valid_token_def is_trx_def TRX_SYMBOL_BYTES_def is_number_def list_all_iff)

lemma price16_inject: "in_i64 s \<Longrightarrow> in_i64 b \<Longrightarrow> in_i64 s' \<Longrightarrow> in_i64 b' \<Longrightarrow>
   price16 s b = price16 s' b' \<longleftrightarrow> s = s' \<and> b = b'"
  by (auto simp: price16_def) (metis i64_be_roundtrip)+

lemma pair_price_key_inject:
  assumes "in_i64 s" and "in_i64 b" and "in_i64 s'" and "in_i64 b'"
  shows "pair_price_key p s b = pair_price_key p' s' b' \<longleftrightarrow> p = p' \<and> s = s' \<and> b = b'"
  using price16_inject [OF assms] by (auto simp: pair_price_key_def price16_def)

section \<open>Sorted prices\<close>

text \<open>A price (sell, buy) with positive quantities; the order is that of the ratio buy over sell.\<close>

definition price_pos :: "i64 \<times> i64 \<Rightarrow> bool" where
  "price_pos p \<longleftrightarrow> 0 < fst p \<and> 0 < snd p"

definition price_less :: "i64 \<times> i64 \<Rightarrow> i64 \<times> i64 \<Rightarrow> bool" where
  "price_less p q \<longleftrightarrow> cmp_maker_price p q = Less"

lemma price_less_iff: "price_less p q \<longleftrightarrow> snd p * fst q < snd q * fst p"
  by (simp add: price_less_def cmp_maker_price_def compare_price_def cmp_int_def)

lemma price_equal_iff: "cmp_maker_price p q = Equal \<longleftrightarrow> snd p * fst q = snd q * fst p"
  by (simp add: cmp_maker_price_def compare_price_def cmp_int_def)

lemma price_less_trans:
  assumes "price_pos p" and "price_pos q" and "price_pos r" and "price_less p q" and "price_less q r"
  shows "price_less p r"
proof -
  have "(snd p * fst q) * fst r < (snd q * fst p) * fst r"
    using assms by (simp add: price_pos_def price_less_iff)
  moreover have "(snd q * fst r) * fst p < (snd r * fst q) * fst p"
    using assms by (simp add: price_pos_def price_less_iff)
  ultimately have "(snd p * fst r) * fst q < (snd r * fst p) * fst q"
    by (simp add: mult.assoc mult.commute mult.left_commute)
  then show ?thesis using assms(2) by (simp add: price_less_iff price_pos_def)
qed

definition sorted_prices :: "(i64 \<times> i64) list \<Rightarrow> bool" where
  "sorted_prices ps \<longleftrightarrow> sorted_wrt price_less ps \<and> (\<forall>p\<in>set ps. price_pos p)"

lemma sorted_prices_insert:
  assumes "sorted_prices ps" and "price_pos p" and "\<not> list_ex (\<lambda>q. cmp_maker_price q p = Equal) ps"
  shows "sorted_prices (take (search_price ps p) ps @ p # drop (search_price ps p) ps)"
  using assms
proof (induction ps)
  case Nil
  then show ?case by (simp add: sorted_prices_def search_price_def)
next
  case (Cons q ps)
  have q: "price_pos q" "\<forall>r\<in>set ps. price_less q r" "sorted_prices ps" "\<forall>r\<in>set ps. price_pos r"
    using Cons.prems(1) by (simp_all add: sorted_prices_def)
  show ?case
  proof (cases "price_less q p")
    case True
    then have "search_price (q # ps) p = Suc (search_price ps p)" by (simp add: search_price_def price_less_def)
    moreover have "sorted_prices (take (search_price ps p) ps @ p # drop (search_price ps p) ps)"
      using Cons q by simp
    ultimately show ?thesis
      using q True Cons.prems(2) set_take_subset set_drop_subset by (fastforce simp: sorted_prices_def)
  next
    case False
    then have "search_price (q # ps) p = 0" by (simp add: search_price_def price_less_def)
    moreover have pq: "price_less p q"
      using False Cons.prems(3) by (auto simp: price_less_iff price_equal_iff)
    moreover have "price_less p r" if "r \<in> set ps" for r
      using price_less_trans [OF Cons.prems(2) q(1) _ pq] q that by blast
    ultimately show ?thesis using Cons.prems(1,2) by (simp add: sorted_prices_def)
  qed
qed

lemma sorted_prices_filter: "sorted_prices ps \<Longrightarrow> sorted_prices (filter P ps)"
  by (simp add: sorted_prices_def sorted_wrt_filter)

section \<open>One fill\<close>

lemma credit_token_Inr:
  "credit_token i x acc = Inr acc' \<longleftrightarrow> in_i64 (token_balance acc i + x) \<and> acc' = upd_token i (token_balance acc i + x) acc"
  by (auto simp: credit_token_def upd_token_def token_balance_def result_simps)

lemma credit_maker_Inr:
  assumes "credit_maker maker i x s = (Inr u, s')"
  obtains a ma where "wf_address a" "mo_owner maker = as_bytes a" "get_account s a = Some ma"
    "in_i64 (token_balance ma i + x)" "s' = put_account a (upd_token i (token_balance ma i + x) ma) s"
  using assms by (auto simp: credit_maker_def result_simps st_prim_simps credit_token_Inr)

lemma multiply_and_divide_id:
  assumes "0 \<le> a" and "0 \<le> b" and "0 < c" and "a * b div c \<le> i64_max"
  shows "multiply_and_divide a b c = a * b div c"
proof -
  have "0 \<le> a * b div c" using assms by (simp add: pos_imp_zdiv_nonneg_iff)
  with assms show ?thesis
    by (simp add: multiply_and_divide_def sdiv_nonneg nonneg_in_i64)
qed

text \<open>The maker's rest costs the taker no more than they have, when they can buy it all.\<close>

lemma maker_rest_cost:
  fixes tr ms mb mr :: int
  assumes "0 < ms" and "0 < mb" and "mr \<le> tr * ms div mb"
  shows "mr * mb div ms \<le> tr"
proof -
  have "mr * mb \<le> tr * ms div mb * mb" using assms by (intro mult_right_mono) simp_all
  also have "\<dots> \<le> tr * ms" using assms(2) by (rule div_le_times)
  finally have "mr * mb div ms \<le> tr * ms div ms" using assms(1) by (rule zdiv_mono1)
  with assms(1) show ?thesis by simp
qed

text \<open>
  \<open>P\<close> is what the taker pays, \<open>R\<close> what they receive.  When the taker is exhausted the maker gets at least
  their price; when the maker is exhausted they lose less than one unit to rounding.
\<close>

definition fair_fill :: "market_order \<Rightarrow> market_order \<Rightarrow> int \<Rightarrow> int \<Rightarrow> bool" where
  "fair_fill taker maker P R \<longleftrightarrow> 0 \<le> P \<and> P \<le> mo_sell_remain taker \<and> 0 < R \<and> R \<le> mo_sell_remain maker
     \<and> (P = mo_sell_remain taker \<or> R = mo_sell_remain maker)
     \<and> R * mo_buy maker < (P + 1) * mo_sell maker"

inductive match_result :: "market_order \<Rightarrow> market_order \<Rightarrow> account \<Rightarrow> world_state \<Rightarrow> fill \<Rightarrow> world_state \<Rightarrow> bool"
  for taker maker tacc s where
  taker_returned: "in_i64 (token_balance tacc (mo_sell_id taker) + mo_sell_remain taker) \<Longrightarrow>
     match_result taker maker tacc s
       \<lparr>fl_stop = True,
        fl_taker = taker\<lparr>mo_sell_return := mo_sell_remain taker, mo_sell_remain := 0, mo_state := order_inactive\<rparr>,
        fl_maker = maker,
        fl_account = upd_token (mo_sell_id taker) (token_balance tacc (mo_sell_id taker) + mo_sell_remain taker) tacc\<rparr> s"
| both_filled: "fair_fill taker maker P R \<Longrightarrow> mo_owner maker = as_bytes a \<Longrightarrow> get_account s a = Some ma \<Longrightarrow>
     in_i64 (token_balance tacc (mo_buy_id taker) + R) \<Longrightarrow> in_i64 (token_balance ma (mo_buy_id maker) + P) \<Longrightarrow>
     match_result taker maker tacc s
       \<lparr>fl_stop = False, fl_taker = taker\<lparr>mo_sell_remain := mo_sell_remain taker - P\<rparr>,
        fl_maker = maker\<lparr>mo_sell_remain := mo_sell_remain maker - R\<rparr>,
        fl_account = upd_token (mo_buy_id taker) (token_balance tacc (mo_buy_id taker) + R) tacc\<rparr>
       (put_account a (upd_token (mo_buy_id maker) (token_balance ma (mo_buy_id maker) + P) ma) s)"
| maker_returned: "mo_owner maker = as_bytes a \<Longrightarrow> get_account s a = Some ma \<Longrightarrow>
     in_i64 (token_balance ma (mo_sell_id maker) + mo_sell_remain maker) \<Longrightarrow>
     match_result taker maker tacc s
       \<lparr>fl_stop = False, fl_taker = taker,
        fl_maker = maker\<lparr>mo_sell_return := mo_sell_remain maker, mo_sell_remain := 0, mo_state := order_inactive\<rparr>,
        fl_account = tacc\<rparr>
       (put_account a (upd_token (mo_sell_id maker) (token_balance ma (mo_sell_id maker) + mo_sell_remain maker) ma) s)"

lemma settle_Inr:
  assumes "settle taker' maker' tacc R P s = (Inr fl, s')"
    and t: "taker' = taker\<lparr>mo_sell_remain := mo_sell_remain taker - P\<rparr>"
    and m: "maker' = maker\<lparr>mo_sell_remain := mo_sell_remain maker - R\<rparr>" and f: "fair_fill taker maker P R"
  shows "match_result taker maker tacc s fl s'"
proof -
  from assms(1) obtain u where fl: "fl = \<lparr>fl_stop = False, fl_taker = taker', fl_maker = maker',
      fl_account = upd_token (mo_buy_id taker') (token_balance tacc (mo_buy_id taker') + R) tacc\<rparr>"
    and i: "in_i64 (token_balance tacc (mo_buy_id taker') + R)"
    and c: "credit_maker maker' (mo_buy_id maker') P s = (Inr u, s')"
    by (auto simp: settle_def result_simps st_prim_simps credit_token_Inr)
  from c show ?thesis
    by (rule credit_maker_Inr) (use i f both_filled in \<open>simp add: fl t m\<close>)
qed

lemma match_single_result:
  assumes e: "match_single taker maker tacc s = (Inr fl, s')"
    and tr: "0 < mo_sell_remain taker" "mo_sell_remain taker \<le> i64_max" and w: "wf_order maker"
    and nw: "mo_sell_remain taker * mo_sell maker div mo_buy maker \<le> i64_max"
  shows "match_result taker maker tacc s fl s'"
proof -
  let ?tr = "mo_sell_remain taker" and ?ms = "mo_sell maker" and ?mb = "mo_buy maker" and ?mr = "mo_sell_remain maker"
  let ?b = "?tr * ?ms div ?mb" and ?p = "?mr * ?mb div ?ms"
  have m: "0 < ?ms" "0 < ?mb" "0 \<le> ?mr" "?mr \<le> i64_max" using w by (simp_all add: wf_order_def)
  have b0: "0 \<le> ?b" using tr m by (simp add: pos_imp_zdiv_nonneg_iff)
  have p0: "0 \<le> ?p" using m by (simp add: pos_imp_zdiv_nonneg_iff)
  have b: "multiply_and_divide ?tr ?ms ?mb = ?b" using tr m nw by (intro multiply_and_divide_id) simp_all
  have lower: "?mr * ?mb < (?p + 1) * ?ms" using m by (intro times_less_div)
  have p: "multiply_and_divide ?mr ?mb ?ms = ?p" "?p \<le> ?tr" if "?mr \<le> ?b"
  proof -
    show le: "?p \<le> ?tr" using m that by (intro maker_rest_cost)
    then show "multiply_and_divide ?mr ?mb ?ms = ?p" using m tr by (intro multiply_and_divide_id) simp_all
  qed
  consider "?b = 0" | "?b \<noteq> 0" "?b = ?mr" | "?b \<noteq> 0" "?b < ?mr" | "?b \<noteq> 0" "?mr < ?b" by linarith
  then show ?thesis
  proof cases
    case 1
    then show ?thesis
      using e b taker_returned [of tacc taker] by (auto simp: match_single_def Let_def result_simps st_prim_simps credit_token_Inr)
  next
    case 2
    have f: "fair_fill taker maker ?p ?mr" using 2 p p0 b0 lower m by (simp add: fair_fill_def)
    have "i64_wrap (?tr - ?p) = ?tr - ?p" using p 2 p0 tr by (intro i64_wrap_id nonneg_in_i64) simp_all
    with 2 e b p have "settle (taker\<lparr>mo_sell_remain := ?tr - ?p\<rparr>) (maker\<lparr>mo_sell_remain := 0\<rparr>) tacc ?mr ?p s = (Inr fl, s')"
      by (simp add: match_single_def Let_def)
    from settle_Inr [OF this refl _ f] show ?thesis by simp
  next
    case 3
    have "?b * ?mb < (?tr + 1) * ?ms" using div_le_times [OF m(2), of "?tr * ?ms"] m(1) by (simp add: algebra_simps)
    then have f: "fair_fill taker maker ?tr ?b" using 3 tr b0 by (simp add: fair_fill_def)
    have "i64_wrap (?mr - ?b) = ?mr - ?b" using 3 b0 m by (intro i64_wrap_id nonneg_in_i64) simp_all
    with 3 e b have "settle (taker\<lparr>mo_sell_remain := 0\<rparr>) (maker\<lparr>mo_sell_remain := ?mr - ?b\<rparr>) tacc ?b ?tr s = (Inr fl, s')"
      by (simp add: match_single_def Let_def)
    from settle_Inr [OF this _ refl f] show ?thesis by simp
  next
    case 4
    show ?thesis
    proof (cases "?p = 0")
      case True
      with 4 e b p obtain u where c: "credit_maker maker (mo_sell_id maker) ?mr s = (Inr u, s')"
        and fl: "fl = \<lparr>fl_stop = False, fl_taker = taker,
          fl_maker = maker\<lparr>mo_sell_return := ?mr, mo_sell_remain := 0, mo_state := order_inactive\<rparr>, fl_account = tacc\<rparr>"
        by (auto simp: match_single_def Let_def result_simps st_prim_simps)
      from c show ?thesis by (rule credit_maker_Inr) (use maker_returned in \<open>simp add: fl\<close>)
    next
      case False
      have mr: "0 < ?mr" using False p0 m by (cases "?mr = 0") auto
      have f: "fair_fill taker maker ?p ?mr" using 4 p p0 mr lower by (simp add: fair_fill_def)
      have "i64_wrap (?tr - ?p) = ?tr - ?p" using p 4 p0 tr by (intro i64_wrap_id nonneg_in_i64) simp_all
      with 4 False e b p have "settle (taker\<lparr>mo_sell_remain := ?tr - ?p\<rparr>) (maker\<lparr>mo_sell_remain := 0\<rparr>) tacc ?mr ?p s = (Inr fl, s')"
        by (simp add: match_single_def Let_def)
      from settle_Inr [OF this refl _ f] show ?thesis by simp
    qed
  qed
qed

section \<open>Moving tokens between accounts and orders\<close>

text \<open>The accounts differ in their token balances only, the orders in what remains of them.\<close>

definition same_rest :: "account \<Rightarrow> account \<Rightarrow> bool" where
  "same_rest acc acc' \<longleftrightarrow> acc' = acc\<lparr>acc_balance := acc_balance acc', acc_asset_v2 := acc_asset_v2 acc'\<rparr>"

definition same_terms :: "market_order \<Rightarrow> market_order \<Rightarrow> bool" where
  "same_terms m m' \<longleftrightarrow> mo_id m' = mo_id m \<and> mo_owner m' = mo_owner m \<and> mo_sell_id m' = mo_sell_id m
     \<and> mo_sell m' = mo_sell m \<and> mo_buy_id m' = mo_buy_id m \<and> mo_buy m' = mo_buy m"

lemma same_rest_simps:
  "same_rest acc acc" "same_rest acc (upd_token i v acc)" "same_rest acc (acc\<lparr>acc_balance := b\<rparr>)"
  by (simp_all add: same_rest_def upd_token_def set_token_def)

lemma same_rest_ex: "same_rest acc acc' \<longleftrightarrow> (\<exists>b m. acc' = acc\<lparr>acc_balance := b, acc_asset_v2 := m\<rparr>)"
  unfolding same_rest_def by (rule iffI, blast) auto

lemma same_rest_trans: "same_rest a b \<Longrightarrow> same_rest b c \<Longrightarrow> same_rest a c"
  unfolding same_rest_ex by (elim exE, intro exI) simp

lemma same_rest_value:
  assumes "same_rest acc acc'"
  shows "acc_trx acc' = acc_trx acc - token_balance acc TRX_SYMBOL_BYTES + token_balance acc' TRX_SYMBOL_BYTES"
    and "same_delegation (Some acc) acc'"
proof -
  obtain b m where "acc' = acc\<lparr>acc_balance := b, acc_asset_v2 := m\<rparr>" using assms by (auto simp: same_rest_ex)
  then show "acc_trx acc' = acc_trx acc - token_balance acc TRX_SYMBOL_BYTES + token_balance acc' TRX_SYMBOL_BYTES"
    and "same_delegation (Some acc) acc'"
    by (simp_all add: acc_trx_def token_balance_def same_delegation_def delegated_energy_def)
qed

definition tokens_moved :: "world_state \<Rightarrow> world_state \<Rightarrow> bool" where
  "tokens_moved s0 s \<longleftrightarrow>
     (\<forall>b. rel_option same_rest (ws_accounts s0 b) (ws_accounts s b))
     \<and> (\<forall>b acc. ws_accounts s b = Some acc \<longrightarrow> wf_account acc)
     \<and> (\<forall>j. rel_option same_terms (ws_orders s0 j) (ws_orders s j))
     \<and> (\<forall>j m. ws_orders s j = Some m \<longrightarrow> wf_order m \<and> mo_id m = j)
     \<and> ws_exchanges s = ws_exchanges s0 \<and> ws_delegation s = ws_delegation s0"

lemma rel_option_dom: "(\<And>b. rel_option R (f b) (g b)) \<Longrightarrow> dom f = dom g"
  by (auto simp: dom_def option_rel_Some1 option_rel_Some2) (metis option.rel_distinct(1) option.exhaust
      option.rel_distinct(2))+

lemma tokens_moved_refl: "wf_state s \<Longrightarrow> tokens_moved s s"
  by (auto simp: tokens_moved_def wf_state_def same_rest_simps same_terms_def intro!: option.rel_refl)

lemma tokens_moved_finite:
  assumes "wf_state s0" and "tokens_moved s0 s"
  shows "finite (dom (ws_accounts s))" and "finite (dom (ws_orders s))"
  using assms rel_option_dom [of same_rest "ws_accounts s0" "ws_accounts s"] rel_option_dom [of same_terms "ws_orders s0" "ws_orders s"]
  by (auto simp: tokens_moved_def wf_state_def)

lemma tokens_moved_account:
  assumes "tokens_moved s0 s" and "get_account s b = Some x" and "same_rest x x'" and "wf_account x'"
  shows "tokens_moved s0 (put_account b x' s)"
  using assms same_rest_trans
  by (auto simp: tokens_moved_def put_account_def get_account_def option_rel_Some2 dest!: spec [of _ b])

lemma tokens_moved_order:
  assumes "tokens_moved s0 s" and "get_order s (mo_id m') = Some m" and "same_terms m m'" and "wf_order m'"
  shows "tokens_moved s0 (put_order m' s)"
proof -
  have "rel_option same_terms (ws_orders s0 (mo_id m')) (Some m)"
    using assms(1,2) unfolding tokens_moved_def get_order_def by metis
  then have "rel_option same_terms (ws_orders s0 (mo_id m')) (Some m')"
    using assms(3) by (cases "ws_orders s0 (mo_id m')") (simp_all add: same_terms_def)
  with assms(1,4) show ?thesis unfolding tokens_moved_def put_order_def by simp
qed

lemma tokens_moved_frame [simp]:
  "tokens_moved s0 (remove_account_order w i s) = tokens_moved s0 s"
  "tokens_moved s0 (put_order_ids p q ids s) = tokens_moved s0 s" "tokens_moved s0 (remove_price p q s) = tokens_moved s0 s"
  by (simp_all add: tokens_moved_def remove_account_order_def put_account_orders_def put_order_ids_def remove_price_def
      put_prices_def remove_pair_def put_pairs_def Let_def)

lemma unit_total_accounts:
  assumes "finite (dom (ws_accounts s))"
  shows "unit_total u (put_account b x s)
     = unit_total u s - opt_val (\<lambda>acc. token_balance acc u) (get_account s b) + token_balance x u"
  using assms by (simp add: unit_total_def put_account_def msum_upd get_account_def)

lemma unit_total_orders:
  assumes "finite (dom (ws_orders s))"
  shows "unit_total u (put_order m s) = unit_total u s - opt_val (order_holding u) (get_order s (mo_id m)) + order_holding u m"
  using assms by (simp add: unit_total_def put_order_def msum_upd get_order_def)

lemma unit_total_index [simp]:
  "unit_total u (remove_account_order w i s) = unit_total u s" "unit_total u (add_account_order w i s) = unit_total u s"
  "unit_total u (put_order_ids p q ids s) = unit_total u s" "unit_total u (remove_price p q s) = unit_total u s"
  "unit_total u (add_order_to_book p q i s) = unit_total u s" "unit_total u (put_prop_i64 k v s) = unit_total u s"
  by (simp_all add: unit_total_def remove_account_order_def add_account_order_def put_account_orders_def put_order_ids_def
      remove_price_def put_prices_def remove_pair_def put_pairs_def add_order_to_book_def insert_price_def add_pair_def
      put_prop_i64_def Let_def)

text \<open>Moving tokens keeps the ledger well-formed when the TRX among them add up.\<close>

lemma tokens_moved_total:
  assumes w: "wf_state s0" and m: "tokens_moved s0 s" and p: "ws_props s = ws_props s0"
  shows "total_trx s - unit_total TRX_SYMBOL_BYTES s = total_trx s0 - unit_total TRX_SYMBOL_BYTES s0"
proof -
  have d: "dom (ws_accounts s) = dom (ws_accounts s0)"
    using m rel_option_dom [of same_rest "ws_accounts s0" "ws_accounts s"] by (simp add: tokens_moved_def)
  let ?g = "\<lambda>acc. acc_trx acc - token_balance acc TRX_SYMBOL_BYTES"
  have "msum ?g (ws_accounts s) = msum ?g (ws_accounts s0)"
    unfolding msum_def d
  proof (rule sum.cong [OF refl])
    fix a
    assume "a \<in> dom (ws_accounts s0)"
    with m obtain x y where xy: "ws_accounts s0 a = Some x" "ws_accounts s a = Some y" "same_rest x y"
      by (auto simp: tokens_moved_def dom_def option_rel_Some1 dest!: spec [of _ a])
    then show "?g (the (ws_accounts s a)) = ?g (the (ws_accounts s0 a))" using same_rest_value(1) [OF xy(3)] by simp
  qed
  then have "msum acc_trx (ws_accounts s) - msum (\<lambda>acc. token_balance acc TRX_SYMBOL_BYTES) (ws_accounts s)
      = msum acc_trx (ws_accounts s0) - msum (\<lambda>acc. token_balance acc TRX_SYMBOL_BYTES) (ws_accounts s0)"
    by (simp add: msum_def sum_subtractf)
  moreover have "msum ex_trx (ws_exchanges t) = msum (pool_holding TRX_SYMBOL_BYTES) (ws_exchanges t)" for t :: world_state
    by (rule arg_cong [of _ _ "\<lambda>h. msum h (ws_exchanges t)"]) (auto simp: ex_trx_def pool_holding_def)
  moreover have "msum order_trx (ws_orders t) = msum (order_holding TRX_SYMBOL_BYTES) (ws_orders t)" for t :: world_state
    by (rule arg_cong [of _ _ "\<lambda>h. msum h (ws_orders t)"]) (auto simp: order_trx_def order_holding_def)
  ultimately show ?thesis
    using p m by (simp add: total_trx_def unit_total_def get_prop_i64_def tokens_moved_def)
qed

lemma tokens_moved_wf:
  assumes w: "wf_state s0" and m: "tokens_moved s0 s" and p: "ws_props s = ws_props s0" and t: "total_trx s \<le> i64_max"
  shows "wf_state s"
proof -
  have rel: "rel_option same_rest (ws_accounts s0 a) (ws_accounts s a)" for a using m by (simp add: tokens_moved_def)
  have "opt_val acc_delegated_bandwidth (ws_accounts s a) = opt_val acc_delegated_bandwidth (ws_accounts s0 a)
      \<and> opt_val delegated_energy (ws_accounts s a) = opt_val delegated_energy (ws_accounts s0 a)" for a
    using rel [of a] same_rest_value(2)
    by (cases "ws_accounts s0 a"; cases "ws_accounts s a") (auto simp: same_delegation_def)
  with w m have "wf_delegation s" by (simp add: wf_state_def wf_delegation_def records_of_def tokens_moved_def)
  with w m p t tokens_moved_finite [OF w m] show ?thesis
    by (auto simp: wf_state_def tokens_moved_def get_prop_i64_def)
qed

section \<open>The matching loops\<close>

text \<open>
  What a maker order of the opposite side satisfies: it trades the same two tokens the other way, belongs to
  somebody else, and the quotient of the largest possible fill fits into 64 bits.
\<close>

definition maker_ok :: "market_order \<Rightarrow> market_order \<Rightarrow> bool" where
  "maker_ok taker m \<longleftrightarrow> mo_sell_id m = mo_buy_id taker \<and> mo_buy_id m = mo_sell_id taker \<and> mo_owner m \<noteq> mo_owner taker
     \<and> mo_sell taker * mo_sell m div mo_buy m \<le> i64_max"

text \<open>
  The state of the loops: the account of the taker and the taker order are held outside the stores, and
  every token is accounted for.
\<close>

definition matching :: "world_state \<Rightarrow> address \<Rightarrow> market_order \<Rightarrow> account \<Rightarrow> market_order \<Rightarrow> account \<Rightarrow> world_state \<Rightarrow> bool" where
  "matching s0 a taker0 tacc0 taker tacc s \<longleftrightarrow>
     tokens_moved s0 s \<and> get_account s a = get_account s0 a \<and> same_rest tacc0 tacc \<and> wf_account tacc
     \<and> same_terms taker0 taker \<and> mo_owner taker = as_bytes a
     \<and> 0 \<le> mo_sell_remain taker \<and> mo_sell_remain taker \<le> mo_sell taker
     \<and> get_order s (mo_id taker) = None
     \<and> (\<forall>u. valid_token u \<longrightarrow> unit_total u s + token_balance tacc u + order_holding u taker
          = unit_total u s0 + token_balance tacc0 u + order_holding u taker0)"

lemma same_terms_simps [simp]:
  "same_terms m m" "same_terms m (m\<lparr>mo_sell_remain := x\<rparr>)" "same_terms m (m\<lparr>mo_state := y\<rparr>)"
  "same_terms m (m\<lparr>mo_sell_return := z, mo_sell_remain := x, mo_state := y\<rparr>)"
  "same_terms m (m\<lparr>mo_sell_remain := x, mo_state := y\<rparr>)"
  "same_terms m (m\<lparr>mo_sell_return := z, mo_sell_remain := x, mo_state := y, mo_state := y'\<rparr>)"
  by (simp_all add: same_terms_def)

lemma same_terms_trans: "same_terms a b \<Longrightarrow> same_terms b c \<Longrightarrow> same_terms a c"
  by (simp add: same_terms_def)

lemma maker_ok_terms: "maker_ok taker m \<Longrightarrow> same_terms taker taker' \<Longrightarrow> same_terms m m' \<Longrightarrow> maker_ok taker' m'"
  by (simp add: maker_ok_def same_terms_def)

text \<open>Writing the maker back: the state of the order apart, it is the order that the fill left.\<close>

lemma book_maker_state:
  assumes "book_maker i ids m s = (ids', s')"
  shows "\<exists>m' B. same_terms m m' \<and> mo_sell_remain m' = mo_sell_remain m \<and> s' = (put_order m' s)\<lparr>ws_account_orders := B\<rparr>
     \<and> (ids' = ids \<or> ids' = tl ids)"
proof (cases "mo_sell_remain m = 0")
  case True
  with assms show ?thesis
    by (intro exI [of _ "m\<lparr>mo_state := order_inactive\<rparr>"] exI [of _ "ws_account_orders s'"])
      (auto simp: book_maker_def remove_account_order_def put_account_orders_def put_order_def)
next
  case False
  with assms show ?thesis
    by (intro exI [of _ m] exI [of _ "ws_account_orders s'"]) (auto simp: book_maker_def put_order_def)
qed

lemma index_frame [simp]:
  "tokens_moved s0 (s\<lparr>ws_account_orders := B\<rparr>) = tokens_moved s0 s" "unit_total u (s\<lparr>ws_account_orders := B\<rparr>) = unit_total u s"
  "get_account (s\<lparr>ws_account_orders := B\<rparr>) a = get_account s a" "get_order (s\<lparr>ws_account_orders := B\<rparr>) i = get_order s i"
  "get_account (put_order m s) a = get_account s a" "get_order (put_account a x s) i = get_order s i"
  "get_order (put_order m s) i = (if i = mo_id m then Some m else get_order s i)"
  by (simp_all add: tokens_moved_def unit_total_def get_account_def get_order_def put_order_def put_account_def)

text \<open>
  The effect of a fill on the stores: the maker's owner is credited \<open>x\<close> of one token and the maker order
  shrinks to \<open>r\<close>.
\<close>

lemma matching_credit:
  assumes w: "wf_state s0" and m: "matching s0 a taker0 tacc0 taker tacc s"
    and g: "get_order s (mo_id maker) = Some maker" and v: "valid_token i" and x: "0 \<le> x"
    and b: "b \<noteq> a" "get_account s b = Some ma" "in_i64 (token_balance ma i + x)"
    and m': "same_terms maker m'" "wf_order m'"
    and s': "s' = (put_order m' (put_account b (upd_token i (token_balance ma i + x) ma) s))\<lparr>ws_account_orders := B\<rparr>"
  shows "tokens_moved s0 s'" and "get_account s' a = get_account s a" and "get_order s' (mo_id taker) = None"
    and "valid_token u \<Longrightarrow> unit_total u s' = unit_total u s + (if u = i then x else 0)
       - order_holding u maker + order_holding u m'"
proof -
  let ?ma = "upd_token i (token_balance ma i + x) ma"
  have tm: "tokens_moved s0 s" and fin: "finite (dom (ws_accounts s))" "finite (dom (ws_orders s))"
    using m tokens_moved_finite [OF w] by (auto simp: matching_def)
  have wm: "wf_account ma" using tm b(2) by (auto simp: tokens_moved_def get_account_def)
  have "0 \<le> token_balance ma i" using wm token_of_bounds [OF wm] by (auto simp: token_balance_def wf_account_def)
  then have "wf_account ?ma" using wm x b(3) by (intro upd_token_value(2)) (simp_all add: i64_bounds_defs)
  note t1 = tokens_moved_account [OF tm b(2) same_rest_simps(2) this]
  have id: "mo_id m' = mo_id maker" using m'(1) by (simp add: same_terms_def)
  show "tokens_moved s0 s'"
    unfolding s' index_frame using t1 g id m' by (intro tokens_moved_order [of s0 _ m' maker]) simp_all
  show "get_account s' a = get_account s a" using b(1) by (simp add: s' state_simps)
  have "mo_id taker \<noteq> mo_id maker" using m g by (auto simp: matching_def)
  then show "get_order s' (mo_id taker) = None" using m by (simp add: s' id matching_def)
  have f2: "finite (dom (ws_orders (put_account b ?ma s)))" using fin(2) by (simp add: put_account_def)
  show "unit_total u s' = unit_total u s + (if u = i then x else 0) - order_holding u maker + order_holding u m'"
    if "valid_token u"
    using that v g b(2) unfolding s' index_frame
    by (simp add: unit_total_orders [OF f2] unit_total_accounts [OF fin(1)] id)
qed

lemma wf_token_balance: "wf_account acc \<Longrightarrow> 0 \<le> token_balance acc i"
  using token_of_bounds [of acc "token_key i"] by (auto simp: token_balance_def wf_account_def)

lemma matching_step:
  assumes w: "wf_state s0" and m: "matching s0 a taker0 tacc0 taker tacc s"
    and tk: "wf_order taker0" "0 < mo_sell_remain taker"
    and g: "get_order s i = Some maker" and ok: "maker_ok taker maker"
    and r: "match_result taker maker tacc s fl s1" and b: "book_maker i ids (fl_maker fl) s1 = (ids', s2)"
  shows "matching s0 a taker0 tacc0 (fl_taker fl) (fl_account fl) s2"
proof -
  have tm: "tokens_moved s0 s" and ct: "\<And>u. valid_token u \<Longrightarrow> unit_total u s + token_balance tacc u + order_holding u taker
          = unit_total u s0 + token_balance tacc0 u + order_holding u taker0" and wt: "wf_account tacc"
    and own: "mo_owner taker = as_bytes a" and fresh: "get_order s (mo_id taker) = None"
    and st: "same_terms taker0 taker" and rest: "same_rest tacc0 tacc"
    using m by (auto simp: matching_def)
  have own0: "mo_owner taker0 = as_bytes a" "get_order s (mo_id taker0) = None"
    using st own fresh by (simp_all add: same_terms_def)
  have wm: "wf_order maker" "mo_id maker = i" using tm g by (auto simp: tokens_moved_def get_order_def)
  have v: "valid_token (mo_sell_id taker)" "valid_token (mo_buy_id taker)" "mo_sell_id taker \<noteq> mo_buy_id taker"
    "mo_sell_id maker = mo_buy_id taker" "mo_buy_id maker = mo_sell_id taker"
    using tk(1) st ok by (auto simp: wf_order_def same_terms_def maker_ok_def)
  obtain m' B where bm: "same_terms (fl_maker fl) m'" "mo_sell_remain m' = mo_sell_remain (fl_maker fl)"
    and s2: "s2 = (put_order m' s1)\<lparr>ws_account_orders := B\<rparr>"
    using book_maker_state [OF b] by blast
  have g': "get_order s (mo_id maker) = Some maker" using g wm(2) by simp
  have other: "c \<noteq> a" if "mo_owner maker = as_bytes c" for c using that ok own by (auto simp: maker_ok_def)
  from r show ?thesis
  proof cases
    case taker_returned
    have t: "same_terms maker m'" "mo_sell_remain m' = mo_sell_remain maker" "mo_id m' = i"
      using bm wm(2) by (simp_all add: taker_returned same_terms_def)
    have fin: "finite (dom (ws_orders s))" using tokens_moved_finite [OF w tm] by simp
    have tm2: "tokens_moved s0 s2"
      unfolding s2 index_frame taker_returned using tm g t wm
      by (intro tokens_moved_order [of s0 _ m' maker]) (auto simp: wf_order_def same_terms_def)
    have "order_holding u m' = order_holding u maker" for u using t by (simp add: order_holding_def same_terms_def)
    then have "unit_total u s2 = unit_total u s" for u
      unfolding s2 index_frame taker_returned using g t(3) by (simp add: unit_total_orders [OF fin])
    moreover have "mo_id taker \<noteq> i" using fresh g by auto
    moreover have "unit_total u s2 + token_balance (fl_account fl) u + order_holding u (fl_taker fl)
        = unit_total u s0 + token_balance tacc0 u + order_holding u taker0" if "valid_token u" for u
      using ct [OF that] that v calculation(1) by (auto simp: taker_returned order_holding_def)
    ultimately show ?thesis
      using tm2 m own0 t(3) upd_token_value(2) [OF wt] taker_returned(3) wf_token_balance [OF wt, of "mo_sell_id taker"] tk(2)
        same_rest_trans [OF rest same_rest_simps(2)]
      unfolding matching_def s2 index_frame taker_returned(1,2)
      by (simp add: same_terms_def i64_bounds_defs)
  next
    case (both_filled P R c ma)
    have f: "0 \<le> P" "P \<le> mo_sell_remain taker" "0 < R" "R \<le> mo_sell_remain maker"
      using both_filled by (simp_all add: fair_fill_def)
    have t: "same_terms maker m'" "mo_sell_remain m' = mo_sell_remain maker - R" "wf_order m'"
      using bm wm(1) f by (auto simp: both_filled same_terms_def wf_order_def)
    note mc = matching_credit [OF w m g' v(1) f(1) other [OF both_filled(4)] both_filled(5) both_filled(7) [unfolded v] t(1,3) s2 [unfolded both_filled v]]
    have "order_holding u m' = order_holding u maker - (if u = mo_buy_id taker then R else 0)" for u
      using t v by (simp add: order_holding_def same_terms_def)
    then have "valid_token u \<Longrightarrow> unit_total u s2 = unit_total u s + (if u = mo_sell_id taker then P else 0)
        - (if u = mo_buy_id taker then R else 0)" for u using mc(4) by simp
    then have "unit_total u s2 + token_balance (fl_account fl) u + order_holding u (fl_taker fl)
        = unit_total u s0 + token_balance tacc0 u + order_holding u taker0" if "valid_token u" for u
      using ct [OF that] that v by (auto simp: both_filled(1) order_holding_def)
    with mc(1-3) m own0 f both_filled(6) upd_token_value(2) [OF wt] wf_token_balance [OF wt, of "mo_buy_id taker"]
      same_rest_trans [OF rest same_rest_simps(2)] show ?thesis
      unfolding matching_def both_filled(1) by (simp add: same_terms_def i64_bounds_defs)
  next
    case (maker_returned c ma)
    have t: "same_terms maker m'" "mo_sell_remain m' = 0" "wf_order m'"
      using bm wm(1) by (auto simp: maker_returned same_terms_def wf_order_def i64_bounds_defs)
    have r0: "0 \<le> mo_sell_remain maker" using wm(1) by (simp add: wf_order_def)
    note mc = matching_credit [OF w m g' v(2) r0 other [OF maker_returned(3)] maker_returned(4) maker_returned(5) [unfolded v] t(1,3) s2 [unfolded maker_returned v]]
    have "order_holding u m' = 0" "order_holding u maker = (if u = mo_buy_id taker then mo_sell_remain maker else 0)" for u
      using t v by (simp_all add: order_holding_def same_terms_def)
    then have "valid_token u \<Longrightarrow> unit_total u s2 = unit_total u s" for u using mc(4) by simp
    with mc(1-3) m maker_returned show ?thesis by (simp add: matching_def)
  qed
qed


text \<open>
  The orders listed for a price level can be matched with the taker.  The condition speaks of the state before
  the loops, because a fill changes no term of an order.
\<close>

definition level_ok :: "world_state \<Rightarrow> market_order \<Rightarrow> bytes list \<Rightarrow> bool" where
  "level_ok s0 taker ids \<longleftrightarrow> (\<forall>i\<in>set ids. \<forall>m. get_order s0 i = Some m \<longrightarrow> maker_ok taker m)"

definition book_ok :: "world_state \<Rightarrow> market_order \<Rightarrow> bytes \<Rightarrow> world_state \<Rightarrow> bool" where
  "book_ok s0 taker pair s \<longleftrightarrow> (\<forall>price. level_ok s0 taker (get_order_ids s pair price))"

lemma matching_maker:
  assumes "matching s0 a taker0 tacc0 taker tacc s" and "get_order s i = Some m"
    and "\<And>m. get_order s0 i = Some m \<Longrightarrow> maker_ok taker0 m"
  shows "maker_ok taker m" and "wf_order m"
proof -
  have "rel_option same_terms (ws_orders s0 i) (Some m)"
    using assms(1,2) unfolding matching_def tokens_moved_def get_order_def by metis
  then obtain m0 where m0: "get_order s0 i = Some m0" "same_terms m0 m" by (auto simp: option_rel_Some2 get_order_def)
  have "same_terms taker0 taker" using assms(1) by (simp add: matching_def)
  then show "maker_ok taker m" using maker_ok_terms [OF assms(3) [OF m0(1)] _ m0(2)] by blast
  show "wf_order m" using assms(1,2) by (auto simp: matching_def tokens_moved_def get_order_def)
qed

lemma matching_single:
  assumes m: "matching s0 a taker0 tacc0 taker tacc s" and t0: "wf_order taker0" "mo_sell taker0 \<le> i64_max"
    and r: "mo_sell_remain taker \<noteq> 0" and g: "get_order s i = Some maker"
    and ok: "\<And>m. get_order s0 i = Some m \<Longrightarrow> maker_ok taker0 m" and e: "match_single taker maker tacc s = (Inr fl, s1)"
  shows "match_result taker maker tacc s fl s1"
proof (rule match_single_result [OF e])
  have mk: "maker_ok taker maker" "wf_order maker" using matching_maker [OF m g ok] by blast+
  have t: "0 \<le> mo_sell_remain taker" "mo_sell_remain taker \<le> mo_sell taker" "mo_sell taker = mo_sell taker0"
    using m by (auto simp: matching_def same_terms_def)
  show "0 < mo_sell_remain taker" "mo_sell_remain taker \<le> i64_max" using t r t0(2) by simp_all
  show "wf_order maker" by (rule mk(2))
  have "mo_sell_remain taker * mo_sell maker div mo_buy maker \<le> mo_sell taker * mo_sell maker div mo_buy maker"
    using t(2) mk(2) by (intro zdiv_mono1 mult_right_mono) (simp_all add: wf_order_def)
  with mk(1) show "mo_sell_remain taker * mo_sell maker div mo_buy maker \<le> i64_max" by (simp add: maker_ok_def)
qed

lemma book_maker_ids: "book_maker i ids m s = (ids', s') \<Longrightarrow> set ids' \<subseteq> set ids"
  by (cases ids) (auto simp: book_maker_def split: if_splits)

lemma match_level_matching:
  assumes w: "wf_state s0" and t0: "wf_order taker0" "mo_sell taker0 \<le> i64_max"
  shows "match_level cnt ids taker tacc s = (Inr lv, s') \<Longrightarrow> matching s0 a taker0 tacc0 taker tacc s
     \<Longrightarrow> level_ok s0 taker0 ids \<Longrightarrow> matching s0 a taker0 tacc0 (lv_taker lv) (lv_account lv) s'"
proof (induction cnt ids taker tacc s rule: match_level.induct)
  case (1 cnt ids taker tacc s)
  note eq = match_level.simps [of cnt ids taker tacc s]
  show ?case
  proof (cases "mo_sell_remain taker = 0 \<or> ids = []")
    case True
    with 1(2,3) show ?thesis by (auto simp: eq)
  next
    case ne: False
    with 1(2) obtain maker where g: "get_order s (hd ids) = Some maker" by (auto simp: eq split: option.splits)
    with 1(2) ne obtain fl s1 where m: "match_single taker maker tacc s = (Inr fl, s1)"
      by (auto simp: eq split: prod.splits sum.splits)
    obtain ids' s2 where b: "book_maker (hd ids) ids (fl_maker fl) s1 = (ids', s2)" by fastforce
    have hd: "maker_ok taker0 m" if "get_order s0 (hd ids) = Some m" for m
      using 1(4) ne that by (auto simp: level_ok_def)
    have "0 < mo_sell_remain taker" using ne 1(3) by (simp add: matching_def)
    from matching_step [OF w 1(3) t0(1) this g matching_maker(1) [OF 1(3) g hd] matching_single [OF 1(3) t0 _ g hd m] b] ne
    have m2: "matching s0 a taker0 tacc0 (fl_taker fl) (fl_account fl) s2" by simp
    show ?thesis
    proof (cases "MAX_MATCH_NUM < cnt + 1 \<or> fl_stop fl")
      case True
      with 1(2) ne g m b m2 show ?thesis by (auto simp: eq split: if_splits)
    next
      case False
      with 1(2) ne g m b have "match_level (cnt + 1) ids' (fl_taker fl) (fl_account fl) s2 = (Inr lv, s')"
        by (simp add: eq)
      moreover have "level_ok s0 taker0 ids'" using 1(4) book_maker_ids [OF b] by (auto simp: level_ok_def)
      ultimately show ?thesis
        using 1(1) [OF ne g m [symmetric] refl b [symmetric] refl] m2 False by simp
    qed
  qed
qed

lemma matching_index [simp]:
  "matching s0 a taker0 tacc0 taker tacc (put_order_ids p q ids s) = matching s0 a taker0 tacc0 taker tacc s"
  "matching s0 a taker0 tacc0 taker tacc (remove_price p q s) = matching s0 a taker0 tacc0 taker tacc s"
  by (simp_all add: matching_def get_account_def get_order_def put_order_ids_def remove_price_def put_prices_def
      remove_pair_def put_pairs_def Let_def tokens_moved_def unit_total_def)

lemma put_order_ids_props: "ws_props (put_order_ids p q ids s) = ws_props s"
  by (simp add: put_order_ids_def)

lemma match_order_matching:
  assumes w: "wf_state s0" and t0: "wf_order taker0" "mo_sell taker0 \<le> i64_max"
  shows "match_order pair x y cnt taker tacc s = (Inr (taker', tacc'), s') \<Longrightarrow> matching s0 a taker0 tacc0 taker tacc s
     \<Longrightarrow> book_ok s0 taker0 pair s
     \<Longrightarrow> matching s0 a taker0 tacc0 taker' tacc' s' \<and> ws_props s' = ws_props s"
proof (induction pair x y cnt taker tacc s rule: match_order.induct)
  case (1 pair x y cnt taker tacc s)
  note eq = match_order.simps [of pair x y cnt taker tacc s]
  show ?case
  proof (cases "mo_sell_remain taker = 0 \<or> best_price s pair = None
      \<or> (\<exists>best. best_price s pair = Some best \<and> \<not> price_match x y (fst best) (snd best))")
    case True
    with 1(2) have "(taker', tacc', s') = (taker, tacc, s)" by (auto simp: eq split: if_split_asm)
    with 1(3) show ?thesis by simp
  next
    case go: False
    then obtain best where best: "best_price s pair = Some best" "price_match x y (fst best) (snd best)" by auto
    with 1(2) go obtain lv s1 where l: "match_level cnt (get_order_ids s pair best) taker tacc s = (Inr lv, s1)"
      by (auto simp: eq split: prod.splits sum.splits)
    have "level_ok s0 taker0 (get_order_ids s pair best)" using 1(4) unfolding book_ok_def by (rule spec)
    note m1 = match_level_matching [OF w t0 l 1(3) this]
    note fr = match_level_frame [OF l]
    show ?thesis
    proof (cases "lv_stop lv \<or> lv_ids lv \<noteq> []")
      case True
      with 1(2) go best l
      have "(taker', tacc', s') = (lv_taker lv, lv_account lv, put_order_ids pair best (lv_ids lv) s1)"
        by (auto simp: eq Let_def split: if_splits)
      with m1 fr show ?thesis by (simp add: put_order_ids_props)
    next
      case False
      let ?s = "remove_price pair best (put_order_ids pair best (lv_ids lv) s1)"
      from False 1(2) go best l
      have r: "match_order pair x y (lv_count lv) (lv_taker lv) (lv_account lv) ?s = (Inr (taker', tacc'), s')"
        by (simp add: eq)
      have "get_order_ids ?s pair p = (if p = best then [] else get_order_ids s pair p)" for p
        using fr False by (auto simp: get_order_ids_def remove_price_def put_order_ids_def put_prices_def remove_pair_def
            put_pairs_def Let_def prod_eq_iff)
      then have "book_ok s0 taker0 pair ?s" using 1(4) by (simp add: book_ok_def level_ok_def)
      moreover have "ws_props ?s = ws_props s"
        using fr by (simp add: remove_price_def put_order_ids_def put_prices_def remove_pair_def put_pairs_def Let_def)
      ultimately show ?thesis
        using 1(1) [OF _ best(1) _ l [symmetric] refl refl _ _ r] m1 go best False by simp
    qed
  qed
qed

end
