(* ===== verification/Market_Sell.thy ===== *)
theory Market_Sell
  imports Market_Props
begin

text \<open>
  The two market actuators as wholes.  A sell that returns has moved every token between the account of the
  taker, the accounts of the makers and the orders, and nothing else: the quantity of each token is the same
  before and after, the fee apart, which is burnt.  A cancel refunds exactly what the order still holds.
\<close>

section \<open>Sell\<close>

text \<open>The taker order of a sell, and the account of the taker once fee and quantity are debited.\<close>

definition sell_id :: "world_state \<Rightarrow> bytes" where
  "sell_id s = fst (allocate_order_id s)"

definition sell_order :: "market_sell_contract \<Rightarrow> world_state \<Rightarrow> market_order" where
  "sell_order c s = new_order c (sell_id s) (ms_owner_address c) (get_prop_i64 s LATEST_BLOCK_HEADER_TIMESTAMP)"

definition charged :: "i64 \<Rightarrow> account \<Rightarrow> account" where
  "charged f acc = acc\<lparr>acc_balance := acc_balance acc - f\<rparr>"

definition sell_account :: "market_sell_contract \<Rightarrow> i64 \<Rightarrow> account \<Rightarrow> account" where
  "sell_account c f acc =
     upd_token (ms_sell_token_id c) (token_balance (charged f acc) (ms_sell_token_id c) - ms_sell_token_quantity c)
       (charged f acc)"

definition sell_pair :: "market_sell_contract \<Rightarrow> bytes" where
  "sell_pair c = pair_key (ms_buy_token_id c) (ms_sell_token_id c)"

definition sell_start :: "market_sell_contract \<Rightarrow> world_state \<Rightarrow> world_state" where
  "sell_start c s = add_account_order (ms_owner_address c) (sell_id s) (snd (allocate_order_id s))"

text \<open>
  What the sell relies on: the order number is not in use, and the orders listed on the opposite side of the book
  are orders of other accounts for the two tokens, small enough for the quotient of a fill to fit into 64 bits.
\<close>

definition sell_ready :: "market_sell_contract \<Rightarrow> world_state \<Rightarrow> bool" where
  "sell_ready c s \<longleftrightarrow> get_order s (sell_id s) = None \<and> book_ok s (sell_order c s) (sell_pair c) s"

lemma market_sell_validate_Inr:
  assumes "market_sell_validate c s = Inr f"
  obtains owner acc where "wf_address owner" "ms_owner_address c = as_bytes owner" "get_account s owner = Some acc"
    "f = sell_fee s" "valid_token (ms_sell_token_id c)" "valid_token (ms_buy_token_id c)"
    "ms_sell_token_id c \<noteq> ms_buy_token_id c" "0 < ms_sell_token_quantity c" "0 < ms_buy_token_quantity c"
  using assms by (auto simp: market_sell_validate_def Let_def result_simps not_le)

lemma debit_token_Inr:
  "debit_token i x acc = Inr acc' \<longleftrightarrow> in_i64 (token_balance acc i - x) \<and> x \<le> token_balance acc i
     \<and> acc' = upd_token i (token_balance acc i - x) acc"
  by (auto simp: debit_token_def upd_token_def token_balance_def result_simps)

lemma market_sell_state:
  assumes v: "market_sell_validate c s = Inr f" and e: "market_sell_execute c s = (Inr r, s')"
  obtains owner acc taker acc' sM where
    "ms_owner_address c = as_bytes owner" "get_account s owner = Some acc" "f = sell_fee s" "f \<le> acc_balance acc"
    "ms_sell_token_quantity c \<le> token_balance (charged f acc) (ms_sell_token_id c)"
    "match_order (sell_pair c) (ms_sell_token_quantity c) (ms_buy_token_quantity c) 0 (sell_order c s)
       (sell_account c f acc) (sell_start c s) = (Inr (taker, acc'), sM)"
    "s' = burn_fee f (put_account owner acc' (put_order taker
       ((if mo_sell_remain taker \<noteq> 0
         then add_order_to_book (pair_key (ms_sell_token_id c) (ms_buy_token_id c))
                (ms_sell_token_quantity c, ms_buy_token_quantity c) (sell_id s)
         else remove_account_order (ms_owner_address c) (sell_id s)) sM)))"
proof -
  obtain owner acc where c: "wf_address owner" "ms_owner_address c = as_bytes owner" "get_account s owner = Some acc" "f = sell_fee s"
    by (rule market_sell_validate_Inr [OF v])
  let ?i = "ms_sell_token_id c" and ?q = "ms_sell_token_quantity c"
  have p: "stake_parse_address (ms_owner_address c) = Inr owner" using c(1,2) by simp
  from e c p have d: "f \<le> acc_balance acc" "?q \<le> token_balance (charged f acc) ?i"
      "debit_token ?i ?q (charged f acc) = Inr (sell_account c f acc)"
    by (auto simp: market_sell_execute_def st_bind_def st_prim_simps Let_def debit_token_Inr charged_def sell_account_def
        split: sum.splits prod.splits)
  obtain x sM where m: "match_order (sell_pair c) ?q (ms_buy_token_quantity c) 0 (sell_order c s)
       (sell_account c f acc) (sell_start c s) = (x, sM)" by fastforce
  have in64: "checked_debit (acc_balance acc) f er = Inr (acc_balance acc - f)" for er
    using e c p by (auto simp: market_sell_execute_def st_bind_def st_prim_simps Let_def split: sum.splits prod.splits)
  note ev = market_sell_execute_def st_bind_def st_prim_simps Let_def c(1-3) in64 d(3) [unfolded charged_def] ok_or_def
    m [unfolded sell_pair_def sell_order_def sell_start_def sell_id_def c(2)] c(4) [symmetric]
  from e obtain y where x: "x = Inr y" by (cases x) (simp_all add: ev)
  obtain taker acc' where y: "y = (taker, acc')" by fastforce
  show ?thesis
    using e by (intro that [OF c(2-4) d(1,2) m [unfolded x y]]) (auto simp: ev x y sell_id_def)
qed

text \<open>The start: the two debits done, nothing matched yet.\<close>

lemma wf_state_add_account_order [simp]: "wf_state (add_account_order w i s) = wf_state s"
  by (simp add: wf_state_def add_account_order_def put_account_orders_def Let_def total_trx_def get_prop_i64_def
      wf_delegation_def records_of_def)

lemma MARKET_ORDER_NUM_keys [simp]:
  "MARKET_ORDER_NUM \<noteq> BURN_TRX_AMOUNT" "BURN_TRX_AMOUNT \<noteq> MARKET_ORDER_NUM" "MARKET_ORDER_NUM \<noteq> CREATE_NEW_ACCOUNT_FEE_IN_SYSTEM_CONTRACT"
  by (simp_all add: MARKET_ORDER_NUM_def prop_keys)

lemma sell_start_frame [simp]:
  "wf_state (sell_start c s) = wf_state s" "get_account (sell_start c s) a = get_account s a"
  "get_order (sell_start c s) i = get_order s i" "unit_total u (sell_start c s) = unit_total u s"
  "get_order_ids (sell_start c s) p q = get_order_ids s p q"
  "ws_accounts (sell_start c s) = ws_accounts s" "ws_orders (sell_start c s) = ws_orders s"
  "total_trx (sell_start c s) = total_trx s"
proof -
  show "wf_state (sell_start c s) = wf_state s" "unit_total u (sell_start c s) = unit_total u s"
    by (simp_all add: sell_start_def allocate_order_id_def Let_def)
  show "get_account (sell_start c s) a = get_account s a" "get_order (sell_start c s) i = get_order s i"
    "get_order_ids (sell_start c s) p q = get_order_ids s p q"
    "ws_accounts (sell_start c s) = ws_accounts s" "ws_orders (sell_start c s) = ws_orders s"
    by (simp_all add: sell_start_def allocate_order_id_def Let_def add_account_order_def put_account_orders_def
        put_prop_i64_def get_account_def get_order_def get_order_ids_def)
  show "total_trx (sell_start c s) = total_trx s"
    by (simp add: sell_start_def allocate_order_id_def Let_def add_account_order_def put_account_orders_def
        put_prop_i64_def total_trx_def get_prop_i64_def)
qed

lemma sell_order_wf:
  assumes v: "market_sell_validate c s = Inr f" and q: "ms_sell_token_quantity c \<le> i64_max"
  shows "wf_order (sell_order c s)" and "mo_sell (sell_order c s) = ms_sell_token_quantity c"
  using q by (auto intro: market_sell_validate_Inr [OF v] simp: sell_order_def new_order_def wf_order_def)

lemma sell_account_wf:
  assumes w: "wf_state s" and a: "get_account s a = Some acc" and f: "0 \<le> f" "f \<le> acc_balance acc"
    and q: "0 < ms_sell_token_quantity c" "ms_sell_token_quantity c \<le> token_balance (charged f acc) (ms_sell_token_id c)"
  shows "wf_account (sell_account c f acc)" and "same_rest acc (sell_account c f acc)" and "ms_sell_token_quantity c \<le> i64_max"
proof -
  have wc: "wf_account (charged f acc)"
    using wf_state_account(1) [OF w a] f by (auto simp: wf_account_def charged_def)
  have "wf_state (put_account a (charged f acc) s)" using move_debit(1) [OF w a f] by (simp add: charged_def)
  then have b: "token_balance (charged f acc) i \<le> i64_max" for i
    by (rule token_balance_bounds(2) [of _ a]) (simp add: state_simps)
  show "ms_sell_token_quantity c \<le> i64_max" using q(2) b by (rule order_trans)
  show "wf_account (sell_account c f acc)"
    unfolding sell_account_def using q b [of "ms_sell_token_id c"] by (intro upd_token_value(2) [OF wc]) simp_all
  show "same_rest acc (sell_account c f acc)"
    unfolding sell_account_def charged_def by (rule same_rest_trans [OF same_rest_simps(3) same_rest_simps(2)])
qed

lemma sell_matching:
  assumes w: "wf_state s" and v: "market_sell_validate c s = Inr f" and rd: "sell_ready c s"
    and o: "ms_owner_address c = as_bytes a" "get_account s a = Some acc" and f: "0 \<le> f" "f \<le> acc_balance acc"
    and q: "ms_sell_token_quantity c \<le> token_balance (charged f acc) (ms_sell_token_id c)"
    and m: "match_order (sell_pair c) (ms_sell_token_quantity c) (ms_buy_token_quantity c) 0 (sell_order c s)
       (sell_account c f acc) (sell_start c s) = (Inr (taker, acc'), sM)"
  shows "matching (sell_start c s) a (sell_order c s) (sell_account c f acc) taker acc' sM"
    and "ws_props sM = ws_props (sell_start c s)"
proof -
  have q0: "0 < ms_sell_token_quantity c" by (rule market_sell_validate_Inr [OF v])
  note sa = sell_account_wf [OF w o(2) f q0 q] and so = sell_order_wf [OF v sell_account_wf(3) [OF w o(2) f q0 q]]
  have "matching (sell_start c s) a (sell_order c s) (sell_account c f acc) (sell_order c s) (sell_account c f acc) (sell_start c s)"
    using w rd sa q0 o(1) by (simp add: matching_def tokens_moved_refl same_rest_simps sell_ready_def sell_order_def new_order_def)
  moreover have "book_ok (sell_start c s) (sell_order c s) (sell_pair c) (sell_start c s)"
    using rd by (simp add: sell_ready_def book_ok_def level_ok_def)
  ultimately show "matching (sell_start c s) a (sell_order c s) (sell_account c f acc) taker acc' sM"
    "ws_props sM = ws_props (sell_start c s)"
    using match_order_matching [of "sell_start c s" "sell_order c s", OF _ so(1) _ m] w sa(3) so(2) by simp_all
qed


text \<open>The end: the taker order, its place in the book and the account of the taker are written.\<close>

lemma wf_state_index [simp]:
  fixes s :: world_state
  shows "wf_state (s\<lparr>ws_order_ids := A, ws_prices := B, ws_pairs := C, ws_account_orders := D\<rparr>) = wf_state s"
    and "total_trx (s\<lparr>ws_order_ids := A, ws_prices := B, ws_pairs := C, ws_account_orders := D\<rparr>) = total_trx s"
    and "unit_total u (s\<lparr>ws_order_ids := A, ws_prices := B, ws_pairs := C, ws_account_orders := D\<rparr>) = unit_total u s"
  by (simp_all add: wf_state_def total_trx_def unit_total_def get_prop_i64_def wf_delegation_def records_of_def)

lemma add_order_to_book_index:
  "\<exists>A B C. add_order_to_book p q i s = s\<lparr>ws_order_ids := A, ws_prices := B, ws_pairs := C\<rparr>"
  by (rule exI [of _ "ws_order_ids (add_order_to_book p q i s)"], rule exI [of _ "ws_prices (add_order_to_book p q i s)"],
      rule exI [of _ "ws_pairs (add_order_to_book p q i s)"])
    (simp add: add_order_to_book_def insert_price_def add_pair_def put_pairs_def put_prices_def put_order_ids_def Let_def)

lemma put_order_new:
  assumes w: "wf_state s" and m: "wf_order m" and n: "get_order s (mo_id m) = None" and t: "total_trx s + order_trx m \<le> i64_max"
  shows "total_trx (put_order m s) = total_trx s + order_trx m" and "wf_state (put_order m s)"
proof -
  have "finite (dom (ws_orders s))" using w by (simp add: wf_state_def)
  then show tt: "total_trx (put_order m s) = total_trx s + order_trx m"
    using n by (simp add: total_trx_def put_order_def msum_upd get_prop_i64_def get_order_def)
  show "wf_state (put_order m s)"
    using w m t unfolding wf_state_def tt
    by (auto simp: put_order_def get_prop_i64_def wf_delegation_def records_of_def)
qed

lemma unit_total_burn_fee [simp]: "unit_total u (burn_fee x s) = unit_total u s"
  by (simp add: burn_fee_def burn_trx_def)

lemma order_trx_holding: "order_trx m = order_holding TRX_SYMBOL_BYTES m"
  by (simp add: order_trx_def order_holding_def)

lemma token_balance_charged:
  "valid_token u \<Longrightarrow> token_balance (charged f acc) u = token_balance acc u - (if u = TRX_SYMBOL_BYTES then f else 0)"
  by (auto simp: token_balance_def charged_def is_trx_def valid_token_def token_of_def)

lemma valid_token_trx [simp]: "valid_token TRX_SYMBOL_BYTES"
  by (simp add: valid_token_def is_trx_def)

lemma market_sell_result:
  assumes w: "wf_state s" and rd: "sell_ready c s" and v: "market_sell_validate c s = Inr f"
    and e: "market_sell_execute c s = (Inr r, s')"
  shows "wf_state s'" and "total_trx s' = total_trx s"
    and "valid_token u \<Longrightarrow> unit_total u s' = unit_total u s - (if u = TRX_SYMBOL_BYTES then f else 0)"
proof -
  obtain a acc taker acc' sM where o: "ms_owner_address c = as_bytes a" "get_account s a = Some acc"
    and f: "f = sell_fee s" "f \<le> acc_balance acc"
    and q: "ms_sell_token_quantity c \<le> token_balance (charged f acc) (ms_sell_token_id c)"
    and m: "match_order (sell_pair c) (ms_sell_token_quantity c) (ms_buy_token_quantity c) 0 (sell_order c s)
       (sell_account c f acc) (sell_start c s) = (Inr (taker, acc'), sM)"
    and s': "s' = burn_fee f (put_account a acc' (put_order taker
       ((if mo_sell_remain taker \<noteq> 0
         then add_order_to_book (pair_key (ms_sell_token_id c) (ms_buy_token_id c))
                (ms_sell_token_quantity c, ms_buy_token_quantity c) (sell_id s)
         else remove_account_order (ms_owner_address c) (sell_id s)) sM)))"
    by (rule market_sell_state [OF v e])
  obtain c: "valid_token (ms_sell_token_id c)" "0 < ms_sell_token_quantity c" by (rule market_sell_validate_Inr [OF v])
  have f0: "0 \<le> f" using f(1) by (simp add: sell_fee_def)
  note sa = sell_account_wf [OF w o(2) f0 f(2) c(2) q]
  note so = sell_order_wf [OF v sa(3)]
  note mt = sell_matching [OF w v rd o f0 f(2) q m]
  let ?s1 = "put_account a acc' sM" and ?h = "order_holding u taker" and ?fee = "\<lambda>u. if u = TRX_SYMBOL_BYTES then f else 0"
  have tm: "tokens_moved (sell_start c s) sM" "get_account sM a = Some acc" "same_rest acc acc'" "wf_account acc'"
    and tk: "wf_order taker" "get_order sM (mo_id taker) = None"
    using mt(1) so sa o(2) same_rest_trans [OF sa(2)] by (auto simp: matching_def wf_order_def same_terms_def)
  have ws: "wf_state (sell_start c s)" using w by simp
  have u1: "unit_total u ?s1 + order_holding u taker = unit_total u s - ?fee u" if "valid_token u" for u
  proof -
    have "unit_total u sM + token_balance acc' u + order_holding u taker
        = unit_total u s + token_balance (sell_account c f acc) u + order_holding u (sell_order c s)"
      using mt(1) that by (simp add: matching_def)
    moreover have "token_balance (sell_account c f acc) u + order_holding u (sell_order c s) = token_balance acc u - ?fee u"
      using that c(1) token_balance_charged [OF that, of f acc]
      by (auto simp: sell_account_def sell_order_def new_order_def order_holding_def)
    ultimately show ?thesis
      using tm(2) by (simp add: unit_total_accounts [OF tokens_moved_finite(1) [OF ws tm(1)]])
  qed
  have t1: "tokens_moved (sell_start c s) ?s1" by (rule tokens_moved_account [OF tm])
  have p1: "ws_props ?s1 = ws_props (sell_start c s)" using mt(2) by (simp add: put_account_def)
  have tt: "total_trx ?s1 + order_trx taker = total_trx s - f"
    using tokens_moved_total [OF ws t1 p1] u1 [OF valid_token_trx] by (simp add: order_trx_holding)
  have h0: "0 \<le> order_trx taker" and mx: "total_trx s \<le> i64_max"
    using tk(1) w by (auto simp: order_trx_def wf_order_def)
  have w1: "wf_state ?s1" using tokens_moved_wf [OF ws t1 p1] tt h0 f0 mx by simp
  have n1: "get_order ?s1 (mo_id taker) = None" using tk(2) by (simp add: put_account_def get_order_def)
  note w2 = put_order_new [OF w1 tk(1) n1]
  obtain A B C D where idx: "s' = burn_fee f ((put_order taker ?s1)\<lparr>ws_order_ids := A, ws_prices := B, ws_pairs := C, ws_account_orders := D\<rparr>)"
  proof (cases "mo_sell_remain taker = 0")
    case True
    then show ?thesis
      by (intro that [where A = "ws_order_ids sM" and B = "ws_prices sM" and C = "ws_pairs sM" and
            D = "(ws_account_orders sM)(ms_owner_address c := filter (\<lambda>x. x \<noteq> sell_id s) (ws_account_orders sM (ms_owner_address c)))"])
        (simp add: s' remove_account_order_def put_account_orders_def get_account_orders_def put_order_def put_account_def,
          rule arg_cong [of _ _ "burn_fee f"], rule world_state.equality, simp_all)
  next
    case False
    obtain A B C where "add_order_to_book (pair_key (ms_sell_token_id c) (ms_buy_token_id c))
        (ms_sell_token_quantity c, ms_buy_token_quantity c) (sell_id s) sM = sM\<lparr>ws_order_ids := A, ws_prices := B, ws_pairs := C\<rparr>"
      using add_order_to_book_index by blast
    with False show ?thesis
      by (intro that [where A = A and B = B and C = C and D = "ws_account_orders sM"]) (simp add: s' put_order_def put_account_def,
          rule arg_cong [of _ _ "burn_fee f"], rule world_state.equality, simp_all)
  qed
  have w3: "wf_state (put_order taker ?s1)" "total_trx (put_order taker ?s1) = total_trx s - f"
    using w2 tt f0 mx by simp_all
  show "wf_state s'" "total_trx s' = total_trx s"
    unfolding idx using move_burn_fee [of _ f] w3 f0 mx by simp_all
  have "finite (dom (ws_orders ?s1))" using w1 by (simp add: wf_state_def)
  then show "unit_total u s' = unit_total u s - ?fee u" if "valid_token u"
    unfolding idx unit_total_burn_fee wf_state_index(3) using u1 [OF that] n1 by (simp add: unit_total_orders)
qed


section \<open>Cancel\<close>

definition cancelled :: "market_order \<Rightarrow> market_order" where
  "cancelled m = m\<lparr>mo_sell_return := i64_wrap (mo_sell_return m + mo_sell_remain m), mo_sell_remain := 0,
     mo_state := order_canceled\<rparr>"

definition refunded :: "market_order \<Rightarrow> i64 \<Rightarrow> account \<Rightarrow> account" where
  "refunded m f acc =
     upd_token (mo_sell_id m) (token_balance (charged f acc) (mo_sell_id m) + mo_sell_remain m) (charged f acc)"

definition unbook :: "bytes \<Rightarrow> market_order \<Rightarrow> world_state \<Rightarrow> world_state" where
  "unbook i m s =
     (let pair = pair_key (mo_sell_id m) (mo_buy_id m); price = (mo_sell m, mo_buy m);
          ids = filter (\<lambda>x. x \<noteq> i) (get_order_ids s pair price) in
      remove_account_order (mo_owner m) i ((if ids = [] then remove_price pair price else id) (put_order_ids pair price ids s)))"

lemma unbook_index:
  "unbook i m s = s\<lparr>ws_order_ids := ws_order_ids (unbook i m s), ws_prices := ws_prices (unbook i m s),
     ws_pairs := ws_pairs (unbook i m s), ws_account_orders := ws_account_orders (unbook i m s)\<rparr>"
  by (rule world_state.equality)
    (simp_all add: unbook_def Let_def remove_account_order_def put_account_orders_def remove_price_def put_order_ids_def
      put_prices_def remove_pair_def put_pairs_def)

lemma unbook_frame [simp]:
  "wf_state (unbook i m s) = wf_state s" "total_trx (unbook i m s) = total_trx s" "unit_total u (unbook i m s) = unit_total u s"
  "get_account (unbook i m s) a = get_account s a" "get_order (unbook i m s) j = get_order s j"
proof -
  show "wf_state (unbook i m s) = wf_state s" "total_trx (unbook i m s) = total_trx s" "unit_total u (unbook i m s) = unit_total u s"
    by (subst unbook_index, rule wf_state_index)+
  show "get_account (unbook i m s) a = get_account s a" "get_order (unbook i m s) j = get_order s j"
    by (subst unbook_index, simp add: get_account_def get_order_def)+
qed

lemma market_cancel_validate_Inr:
  assumes "market_cancel_validate c s = Inr f"
  obtains owner acc ord where "wf_address owner" "mc_owner_address c = as_bytes owner" "get_account s owner = Some acc"
    "f = cancel_fee s" "f \<le> acc_balance acc" "length (mc_order_id c) = 32" "get_order s (mc_order_id c) = Some ord"
    "mo_state ord = order_active" "mo_owner ord = as_bytes owner"
  using assms by (auto simp: market_cancel_validate_def order_id_def Let_def result_simps)

lemma holding_fits:
  assumes w: "wf_state s" and u: "units_fit s" and a: "get_account s a = Some acc" and m: "get_order s i = Some m"
  shows "token_balance acc (mo_sell_id m) + mo_sell_remain m \<le> i64_max"
proof -
  let ?u = "mo_sell_id m"
  have fin: "finite (dom (ws_accounts s))" "finite (dom (ws_exchanges s))" "finite (dom (ws_orders s))"
    using w by (simp_all add: wf_state_def)
  have "opt_val (\<lambda>acc. token_balance acc ?u) (ws_accounts s a) \<le> msum (\<lambda>acc. token_balance acc ?u) (ws_accounts s)"
    using token_balance_bounds(1) [OF w] by (intro msum_member [OF fin(1)]) (simp add: get_account_def)
  moreover have "opt_val (order_holding ?u) (ws_orders s i) \<le> msum (order_holding ?u) (ws_orders s)"
    using w by (intro msum_member [OF fin(3)]) (auto simp: wf_state_def wf_order_def order_holding_def)
  moreover have "0 \<le> pool_holding ?u x" if "ws_exchanges s b = Some x" for b x
    using w that by (auto simp: wf_state_def wf_exchange_def pool_holding_def)
  then have "0 \<le> msum (pool_holding ?u) (ws_exchanges s)"
    by (auto simp: msum_def dom_def intro!: sum_nonneg)
  moreover have "unit_total ?u s \<le> i64_max"
    using u m w by (auto simp: units_fit_def wf_state_def wf_order_def get_order_def)
  ultimately show ?thesis using a m by (simp add: unit_total_def get_account_def get_order_def order_holding_def)
qed

lemma market_cancel_result:
  assumes w: "wf_state s" and u: "units_fit s" and v: "market_cancel_validate c s = Inr f"
  obtains owner acc ord s' where "mc_owner_address c = as_bytes owner" "get_account s owner = Some acc"
    "get_order s (mc_order_id c) = Some ord" "mo_owner ord = as_bytes owner" "mo_state ord = order_active"
    "market_cancel_execute c s = (Inr (ExecutionResult f), s')" "wf_state s'" "total_trx s' = total_trx s"
    "get_account s' owner = Some (refunded ord f acc)" "get_order s' (mc_order_id c) = Some (cancelled ord)"
    "\<And>u. valid_token u \<Longrightarrow> unit_total u s' = unit_total u s - (if u = TRX_SYMBOL_BYTES then f else 0)"
proof -
  obtain a acc ord where c: "wf_address a" "mc_owner_address c = as_bytes a" "get_account s a = Some acc"
    and f: "f = cancel_fee s" "f \<le> acc_balance acc"
    and i: "length (mc_order_id c) = 32" "get_order s (mc_order_id c) = Some ord" "mo_state ord = order_active" "mo_owner ord = as_bytes a"
    by (rule market_cancel_validate_Inr [OF v])
  let ?i = "mc_order_id c" and ?t = "mo_sell_id ord" and ?x = "mo_sell_remain ord"
  let ?a2 = "refunded ord f acc" and ?m = "cancelled ord"
  let ?s1 = "put_account a ?a2 s" and ?s2 = "put_order ?m (put_account a ?a2 s)"
  have f0: "0 \<le> f" using f(1) by (simp add: cancel_fee_def)
  have om: "wf_order ord" "mo_id ord = ?i" using w i(2) by (auto simp: wf_state_def get_order_def)
  have vt: "valid_token ?t" "0 \<le> ?x" using om(1) by (simp_all add: wf_order_def)
  note d = move_debit [OF w c(3) f0 f(2)]
  have g: "get_account (put_account a (charged f acc) s) a = Some (charged f acc)" by (simp add: state_simps)
  note bd = token_balance_bounds [OF d(1) [folded charged_def] g]
  have le: "token_balance (charged f acc) ?t + ?x \<le> i64_max"
    using holding_fits [OF w u c(3) i(2)] f0 token_balance_charged [OF vt(1), of f acc] by (auto split: if_splits)
  have cr: "credit_token ?t ?x (charged f acc) = Inr ?a2"
    unfolding refunded_def using vt bd le by (intro credit_token_ok)
  have wa: "wf_account ?a2"
    unfolding refunded_def using wf_state_account(1) [OF d(1) [folded charged_def] g] bd(1) [of ?t] vt le
    by (intro upd_token_value(2)) simp_all
  have rest: "same_rest acc ?a2"
    unfolding refunded_def charged_def by (rule same_rest_trans [OF same_rest_simps(3) same_rest_simps(2)])
  have t1: "tokens_moved s ?s1" by (rule tokens_moved_account [OF tokens_moved_refl [OF w] c(3) rest wa])
  have idm: "mo_id ?m = ?i" using om(2) by (simp add: cancelled_def)
  have go: "get_order ?s1 (mo_id ?m) = Some ord" using i(2) idm by (simp add: get_order_def put_account_def)
  have t2: "tokens_moved s ?s2"
    using om(1) by (intro tokens_moved_order [OF t1 go]) (auto simp: cancelled_def same_terms_def wf_order_def i64_bounds_defs)
  have tu: "unit_total u ?s2 = unit_total u s - (if u = TRX_SYMBOL_BYTES then f else 0)" if "valid_token u" for u
  proof -
    have "unit_total u ?s2 = unit_total u s - token_balance acc u + token_balance ?a2 u - order_holding u ord + order_holding u ?m"
      using go c(3) by (simp add: unit_total_orders [OF tokens_moved_finite(2) [OF w t1]]
          unit_total_accounts [OF tokens_moved_finite(1) [OF w tokens_moved_refl [OF w]]])
    with that vt(1) token_balance_charged [OF that, of f acc] show ?thesis
      by (auto simp: order_holding_def refunded_def cancelled_def)
  qed
  have p2: "ws_props ?s2 = ws_props s" by (simp add: put_order_def put_account_def)
  have tt: "total_trx ?s2 = total_trx s - f" using tokens_moved_total [OF w t2 p2] tu [OF valid_token_trx] by simp
  have mx: "total_trx s \<le> i64_max" using w by simp
  have w2: "wf_state ?s2" using tokens_moved_wf [OF w t2 p2] tt f0 mx by simp
  have w3: "wf_state (burn_fee f ?s2)" "total_trx (burn_fee f ?s2) = total_trx s"
    using move_burn_fee [OF w2 f0] tt mx by simp_all
  have "in_i64 (acc_balance acc - f)" using f f0 wf_state_account [OF w c(3)] by (auto simp: i64_bounds_defs wf_account_def)
  then have ex: "market_cancel_execute c s = (Inr (ExecutionResult f), unbook ?i ord (burn_fee f ?s2))"
    using c i f(2) cr [unfolded charged_def]
    by (simp add: market_cancel_execute_def st_bind_def st_prim_simps ok_or_def Let_def order_id_def ensure_def checked_debit_ok
        f(1) [symmetric] cancelled_def unbook_def)
  have fin: "get_account ?s2 a = Some ?a2" "get_order (burn_fee f ?s2) ?i = Some ?m"
    using idm by (simp_all add: get_account_def put_account_def put_order_def get_order_def burn_fee_def burn_trx_def put_prop_i64_def)
  show ?thesis
    by (rule that [OF c(2,3) i(2,4,3) ex]) (simp_all only: w3 unbook_frame state_simps fin unit_total_burn_fee tu)
qed

interpretation market_cancel: actuator market_cancel_validate market_cancel_execute "\<lambda>c. units_fit"
  by unfold_locales (metis market_cancel_result)


section \<open>Properties\<close>


definition sample_maker :: market_order where
  "sample_maker = \<lparr>mo_id = replicate 32 9, mo_owner = as_bytes (addr_of 2), mo_create_time = 0, mo_sell_id = [0x31],
     mo_sell = 100, mo_buy_id = TRX_SYMBOL_BYTES, mo_buy = 50, mo_sell_remain = 100, mo_sell_return = 0, mo_state = order_active\<rparr>"

definition market_ledger :: "market_order \<Rightarrow> i64 \<Rightarrow> world_state" where
  "market_ledger m x = (let p = pair_key (mo_sell_id m) (mo_buy_id m); q = (mo_sell m, mo_buy m) in
     put_prop_i64 ALLOW_MARKET_TRANSACTION 1
       (add_account_order (mo_owner m) (mo_id m)
       (add_order_to_book p q (mo_id m) (put_order m (ledger_of [(1, wallet 1 x), (2, wallet 2 7)])))))"

definition sample_sell :: market_sell_contract where
  "sample_sell = \<lparr>ms_owner_address = as_bytes (addr_of 1), ms_sell_token_id = TRX_SYMBOL_BYTES, ms_sell_token_quantity = 30,
     ms_buy_token_id = [0x31], ms_buy_token_quantity = 60\<rparr>"

lemmas market_ledger_simps = market_ledger_def sample_maker_def wallet_def account_default_def
  add_account_order_def add_order_to_book_def insert_price_def add_pair_def put_order_def put_order_ids_def put_prices_def
  put_pairs_def put_account_orders_def get_account_orders_def get_order_ids_def get_prices_def get_pairs_def ws_empty_def
  put_account_def put_prop_i64_def get_prop_i64_def get_account_def get_order_def search_price_def

lemma sample_valid: "market_sell_validate sample_sell (market_ledger sample_maker 5000) = Inr 0"
  by (simp add: market_sell_validate_def sample_sell_def market_ledger_simps Let_def ok_or_def ensure_def
     valid_token_def is_trx_def is_number_def TRX_SYMBOL_BYTES_def quantity_limit_def sell_fee_def DEFAULT_MARKET_QUANTITY_LIMIT_def
     require_feature_def feature_enabled_def ALLOW_MARKET_TRANSACTION_def MARKET_QUANTITY_LIMIT_def MARKET_SELL_FEE_def i64_wrap_def)


lemma market_ledger_wf:
  assumes "wf_order m" and "0 \<le> x" and "x + 7 + order_trx m \<le> i64_max"
  shows "wf_state (market_ledger m x)"
proof -
  let ?l = "ledger_of [(1, wallet 1 x), (2, wallet 2 7)]"
  have o0: "0 \<le> order_trx m" using assms(1) by (auto simp: order_trx_def wf_order_def)
  have w2: "wf_state (ledger_of [(2, wallet 2 7)])" "total_trx (ledger_of [(2, wallet 2 7)]) = 7"
    using ledger_one [of "wallet 2 7" 2] by (simp_all add: i64_max_def)
  have w1: "wf_state ?l" "total_trx ?l = x + 7"
    using ledger_cons [of "[(2, wallet 2 7)]" 1 "wallet 1 x"] w2 assms o0 by (simp_all add: state_simps)
  have "get_order ?l (mo_id m) = None" by (simp add: get_order_def put_account_def ws_empty_def)
  from put_order_new(2) [OF w1(1) assms(1) this] have w3: "wf_state (put_order m ?l)" using w1(2) assms(3) by simp
  obtain A B C where "add_order_to_book (pair_key (mo_sell_id m) (mo_buy_id m)) (mo_sell m, mo_buy m) (mo_id m) (put_order m ?l)
      = (put_order m ?l)\<lparr>ws_order_ids := A, ws_prices := B, ws_pairs := C\<rparr>" using add_order_to_book_index by blast
  with w3 show ?thesis
    by (simp add: market_ledger_def Let_def ALLOW_MARKET_TRANSACTION_def prop_keys)
qed

lemma market_ledger_get [simp]:
  "get_order (market_ledger m x) i = (if i = mo_id m then Some m else None)"
  "get_order_ids (market_ledger m x) p q = (if p = pair_key (mo_sell_id m) (mo_buy_id m) \<and> q = (mo_sell m, mo_buy m) then [mo_id m] else [])"
  by (auto simp: market_ledger_simps Let_def)

lemma sample_maker_wf: "wf_order sample_maker" "order_trx sample_maker = 0"
  by (simp_all add: sample_maker_def wf_order_def i64_max_def valid_token_def is_number_def is_trx_def TRX_SYMBOL_BYTES_def order_trx_def)

lemma sell_id_fresh [simp]: "sell_id s \<noteq> replicate 32 9"
proof
  assume "sell_id s = replicate 32 9"
  then have "sell_id s ! 0 = replicate 32 9 ! 0" by simp
  then show False by (simp add: sell_id_def allocate_order_id_def Let_def nth_append)
qed

lemma sample_ready: "sell_ready sample_sell (market_ledger sample_maker 5000)"
proof -
  have i: "mo_id sample_maker = replicate 32 9" by (simp add: sample_maker_def)
  have "maker_ok (sell_order sample_sell s) sample_maker" for s
    by (simp add: sell_order_def new_order_def maker_ok_def sample_sell_def sample_maker_def i64_max_def)
  with i show ?thesis by (simp add: sell_ready_def book_ok_def level_ok_def)
qed

lemmas market_run_simps = market_sell_execute_def st_bind_def st_prim_simps market_ledger_simps Let_def ok_or_def ensure_def
  debit_token_def is_trx_def TRX_SYMBOL_BYTES_def sell_fee_def i64_bounds_defs allocate_order_id_def
  match_order.simps match_level.simps match_single_def settle_def credit_maker_def credit_token_def book_maker_def
  multiply_and_divide_def best_price_def price_match_def compare_price_def cmp_int_def new_order_def sdiv_nonneg i64_wrap_def
  MARKET_ORDER_NUM_def ALLOW_MARKET_TRANSACTION_def MARKET_SELL_FEE_def LATEST_BLOCK_HEADER_TIMESTAMP_def MAX_MATCH_NUM_def
  token_of_def checked_debit_ok checked_credit_ok

lemma sample_executes: "\<exists>r s'. market_sell_execute sample_sell (market_ledger sample_maker 5000) = (Inr r, s')"
  by (simp add: market_run_simps sample_sell_def)


text \<open>
  C20: A market cancel gives back what the order still holds.  On a well-formed ledger whose token totals fit into
  64 bits, a validated cancel always executes: the order of the owner, until then active, is marked cancelled
  with nothing remaining, the owner is credited exactly the rest of the order and charged the fee, which is burnt.
\<close>

theorem market_cancel_refunds:
  assumes "wf_state s" and "units_fit s" and "market_cancel_validate c s = Inr f"
  shows "\<exists>owner acc m s' acc' m'. mc_owner_address c = as_bytes owner \<and> get_account s owner = Some acc
    \<and> get_order s (mc_order_id c) = Some m \<and> mo_owner m = as_bytes owner \<and> mo_state m = order_active
    \<and> market_cancel_execute c s = (Inr (ExecutionResult f), s')
    \<and> get_order s' (mc_order_id c) = Some m' \<and> mo_sell_remain m' = 0 \<and> mo_state m' = order_canceled
    \<and> get_account s' owner = Some acc'
    \<and> (\<forall>u. valid_token u \<longrightarrow> token_balance acc' u = token_balance acc u
          + (if u = mo_sell_id m then mo_sell_remain m else 0) - (if u = TRX_SYMBOL_BYTES then f else 0))
    \<and> wf_state s' \<and> total_trx s' = total_trx s"
proof -
  obtain owner acc m s' where r: "mc_owner_address c = as_bytes owner" "get_account s owner = Some acc"
    "get_order s (mc_order_id c) = Some m" "mo_owner m = as_bytes owner" "mo_state m = order_active"
    "market_cancel_execute c s = (Inr (ExecutionResult f), s')" "wf_state s'" "total_trx s' = total_trx s"
    "get_account s' owner = Some (refunded m f acc)" "get_order s' (mc_order_id c) = Some (cancelled m)"
    by (rule market_cancel_result [OF assms])
  have "valid_token (mo_sell_id m)" using r(3) assms(1) by (auto simp: wf_state_def wf_order_def get_order_def)
  then have "token_balance (refunded m f acc) u = token_balance acc u
          + (if u = mo_sell_id m then mo_sell_remain m else 0) - (if u = TRX_SYMBOL_BYTES then f else 0)"
    if "valid_token u" for u
    using that token_balance_charged [OF that, of f acc] by (auto simp: refunded_def)
  moreover have "mo_sell_remain (cancelled m) = 0" "mo_state (cancelled m) = order_canceled" by (simp_all add: cancelled_def)
  ultimately show ?thesis using r by blast
qed

definition own_maker :: market_order where
  "own_maker = sample_maker\<lparr>mo_owner := as_bytes (addr_of 1)\<rparr>"

lemma own_ledger_units: "units_fit (market_ledger own_maker 5000)"
proof -
  have e: "unit_total u ws_empty = 0" for u by (simp add: unit_total_def ws_empty_def)
  have o: "ws_orders (put_account a acc s) = ws_orders s" "ws_orders ws_empty = Map.empty" "finite (dom (ws_accounts ws_empty))" for a acc s
    by (simp_all add: put_account_def ws_empty_def)
  have "unit_total u (market_ledger own_maker 5000)
      = token_balance (wallet 2 7) u + token_balance (wallet 1 5000) u + order_holding u own_maker" for u
    by (simp add: market_ledger_def Let_def unit_total_orders unit_total_accounts get_order_def o e state_simps)
  then have "unit_total u (market_ledger own_maker 5000) \<le> 6000" for u
    by (simp add: token_balance_def token_of_def wallet_def account_default_def order_holding_def own_maker_def sample_maker_def)
  moreover have "6000 \<le> i64_max" by (simp add: i64_max_def)
  ultimately show ?thesis unfolding units_fit_def by (blast intro: order_trans)
qed

theorem market_cancel_refunds_witness:
  "\<exists>s' acc'. market_cancel_execute \<lparr>mc_owner_address = as_bytes (addr_of 1), mc_order_id = replicate 32 9\<rparr>
      (market_ledger own_maker 5000) = (Inr (ExecutionResult 0), s')
    \<and> get_account s' (addr_of 1) = Some acc' \<and> token_balance acc' [0x31] = 100"
proof -
  let ?c = "\<lparr>mc_owner_address = as_bytes (addr_of 1), mc_order_id = replicate 32 9\<rparr>"
  have t: "valid_token [0x31]" by (simp add: valid_token_def is_number_def is_trx_def TRX_SYMBOL_BYTES_def)
  have o: "wf_order own_maker" "order_trx own_maker = 0"
    using sample_maker_wf by (auto simp: own_maker_def wf_order_def order_trx_def)
  have w: "wf_state (market_ledger own_maker 5000)" using o by (intro market_ledger_wf) (simp_all add: i64_max_def)
  have v: "market_cancel_validate ?c (market_ledger own_maker 5000) = Inr 0"
    by (simp add: market_cancel_validate_def own_maker_def market_ledger_simps Let_def ok_or_def ensure_def order_id_def
      cancel_fee_def require_feature_def feature_enabled_def ALLOW_MARKET_TRANSACTION_def MARKET_CANCEL_FEE_def)
  have a: "get_account (market_ledger own_maker 5000) (addr_of 1) = Some (wallet 1 5000)"
    by (simp add: market_ledger_simps own_maker_def Let_def)
  from market_cancel_refunds [OF w own_ledger_units v] a t show ?thesis
    by (auto simp: own_maker_def sample_maker_def TRX_SYMBOL_BYTES_def token_balance_def is_trx_def token_of_def wallet_def account_default_def)
qed


end
