(* ===== verification/Chain.thy ===== *)
theory Chain
  imports State
begin

text \<open>
  Block and transaction ids, the transaction merkle root and signature recovery
  (\<open>src/crates/chain/src/lib.rs\<close> and \<open>src/crates/crypto/src/lib.rs\<close>), and the block columns of the
  world state (\<open>src/crates/state/src/blocks.rs\<close>).  The hash functions, the elliptic curve and the protobuf
  encoding are the external crates \<open>sha2\<close>, \<open>sha3\<close>, \<open>hex\<close>, \<open>secp256k1\<close> and \<open>prost\<close>: they are the fields of the
  record \<open>externals\<close>, an argument of the functions that call them, and \<open>good_externals\<close> states the
  documented behaviour that the theorems rely on.
\<close>

section \<open>External code\<close>

record ('k, 'p) externals =
  ext_sha256 :: "bytes \<Rightarrow> bytes"
  ext_keccak256 :: "bytes \<Rightarrow> bytes"
  ext_hex_encode :: "bytes \<Rightarrow> string"
  ext_public_key :: "'k \<Rightarrow> 'p"
  ext_serialize_uncompressed :: "'p \<Rightarrow> bytes"
  ext_sign_recoverable :: "'k \<Rightarrow> bytes \<Rightarrow> bytes \<times> byte"
  ext_recovery_id :: "int \<Rightarrow> int option"
  ext_recover_ecdsa :: "bytes \<Rightarrow> bytes \<Rightarrow> int \<Rightarrow> string + 'p"
  ext_encode_tx_raw :: "tx_raw \<Rightarrow> bytes"
  ext_encode_tx :: "transaction \<Rightarrow> bytes"
  ext_encode_header_raw :: "header_raw \<Rightarrow> bytes"
  ext_encode_block :: "block \<Rightarrow> bytes"
  ext_decode_block :: "bytes \<Rightarrow> string + block"
  ext_decode_tx :: "bytes \<Rightarrow> string + transaction"

text \<open>
  The digests have 32 bytes, an uncompressed public key 65 and a compact signature 64; recovery ids are 0 to 3;
  and a signature recovers to the key that made it.
\<close>

definition good_externals :: "('k, 'p) externals \<Rightarrow> bool" where
  "good_externals x \<longleftrightarrow>
     (\<forall>bs. length (ext_sha256 x bs) = 32) \<and> (\<forall>bs. length (ext_keccak256 x bs) = 32)
     \<and> (\<forall>p. length (ext_serialize_uncompressed x p) = 65)
     \<and> (\<forall>i. ext_recovery_id x i = (if 0 \<le> i \<and> i \<le> 3 then Some i else None))
     \<and> (\<forall>k d. length d = 32 \<longrightarrow>
          length (fst (ext_sign_recoverable x k d)) = 64 \<and> unat (snd (ext_sign_recoverable x k d)) \<le> 3
          \<and> ext_recover_ecdsa x d (fst (ext_sign_recoverable x k d)) (uint (snd (ext_sign_recoverable x k d)))
            = Inr (ext_public_key x k))"

section \<open>Keys and signatures\<close>

datatype crypto_error = Secp string | RecoveryId int

definition sha256 :: "('k, 'p) externals \<Rightarrow> bytes \<Rightarrow> bytes" where
  "sha256 x data = ext_sha256 x data"

definition sha256d :: "('k, 'p) externals \<Rightarrow> bytes \<Rightarrow> bytes" where
  "sha256d x data = sha256 x (sha256 x data)"

definition keccak256 :: "('k, 'p) externals \<Rightarrow> bytes \<Rightarrow> bytes" where
  "keccak256 x data = ext_keccak256 x data"

definition address_from_public_key :: "('k, 'p) externals \<Rightarrow> 'p \<Rightarrow> address" where
  "address_from_public_key x pk =
     (let uncompressed = ext_serialize_uncompressed x pk;
          hash = keccak256 x (drop 1 uncompressed)
      in from_body (drop 12 hash))"

definition public_key :: "('k, 'p) externals \<Rightarrow> 'k \<Rightarrow> 'p" where
  "public_key x sk = ext_public_key x sk"

record recoverable_signature =
  rs_rs :: bytes
  rs_recovery_id :: byte

text \<open>Signing cannot fail once the digest has its 32 bytes, which its type guarantees.\<close>

definition sign_digest :: "('k, 'p) externals \<Rightarrow> 'k \<Rightarrow> bytes \<Rightarrow> crypto_error + recoverable_signature" where
  "sign_digest x sk digest =
     (let (rs, i) = ext_sign_recoverable x sk digest in Inr \<lparr>rs_rs = rs, rs_recovery_id = i\<rparr>)"

definition recover :: "('k, 'p) externals \<Rightarrow> bytes \<Rightarrow> recoverable_signature \<Rightarrow> crypto_error + 'p" where
  "recover x digest sig =
     rbind (ok_or (ext_recovery_id x (uint (rs_recovery_id sig))) (RecoveryId (uint (rs_recovery_id sig)))) (\<lambda>i.
     case ext_recover_ecdsa x digest (rs_rs sig) i of Inl e \<Rightarrow> Inl (Secp e) | Inr pk \<Rightarrow> Inr pk)"

section \<open>Ids and the merkle root\<close>

definition tx_id :: "('k, 'p) externals \<Rightarrow> transaction \<Rightarrow> h256" where
  "tx_id x tx =
     (case tx_raw_data tx of Some raw \<Rightarrow> H256 (sha256 x (ext_encode_tx_raw x raw)) | None \<Rightarrow> h256_zero)"

definition tx_merkle_leaf :: "('k, 'p) externals \<Rightarrow> transaction \<Rightarrow> h256" where
  "tx_merkle_leaf x tx = H256 (sha256 x (ext_encode_tx x tx))"

text \<open>One round of the loop: pairs are hashed, an odd last node is carried up unchanged.\<close>

fun merkle_level :: "('k, 'p) externals \<Rightarrow> h256 list \<Rightarrow> h256 list" where
  "merkle_level x (l # r # hs) = H256 (sha256 x (h256_bytes l @ h256_bytes r)) # merkle_level x hs"
| "merkle_level x [h] = [h]"
| "merkle_level x [] = []"

lemma length_merkle_level: "length (merkle_level x hs) = (length hs + 1) div 2"
  by (induction x hs rule: merkle_level.induct) auto

function merkle_loop :: "('k, 'p) externals \<Rightarrow> h256 list \<Rightarrow> h256 list" where
  "merkle_loop x level = (if 1 < length level then merkle_loop x (merkle_level x level) else level)"
  by auto
termination by (relation "measure (\<lambda>(x, level). length level)") (auto simp: length_merkle_level)

declare merkle_loop.simps [simp del]

definition merkle_root :: "('k, 'p) externals \<Rightarrow> h256 list \<Rightarrow> h256" where
  "merkle_root x hashes = (if hashes = [] then h256_zero else merkle_loop x hashes ! 0)"

definition tx_trie_root :: "('k, 'p) externals \<Rightarrow> block \<Rightarrow> h256" where
  "tx_trie_root x block = merkle_root x (map (tx_merkle_leaf x) (bk_transactions block))"

definition raw_header :: "block \<Rightarrow> header_raw option" where
  "raw_header block = Option.bind (bk_header block) bh_raw_data"

definition block_hash :: "('k, 'p) externals \<Rightarrow> block \<Rightarrow> h256 option" where
  "block_hash x block =
     Option.bind (raw_header block) (\<lambda>raw. Some (H256 (sha256 x (ext_encode_header_raw x raw))))"

definition block_id :: "i64 \<Rightarrow> h256 \<Rightarrow> h256" where
  "block_id num hash = H256 (i64_to_be_bytes num @ drop 8 (h256_bytes hash))"

definition block_id_of :: "('k, 'p) externals \<Rightarrow> block \<Rightarrow> h256 option" where
  "block_id_of x block =
     Option.bind (raw_header block) (\<lambda>raw.
     Option.bind (block_hash x block) (\<lambda>hash. Some (block_id (hr_number raw) hash)))"

section \<open>Signature recovery\<close>

text \<open>The last byte of a 65-byte signature is the recovery id, possibly with 27 added.\<close>

definition recover_65 :: "('k, 'p) externals \<Rightarrow> bytes \<Rightarrow> bytes \<Rightarrow> address option" where
  "recover_65 x digest sig =
     (let v = sig ! 64; recovery_id = (if 27 \<le> v then v - 27 else v) in
      case recover x digest \<lparr>rs_rs = take 64 sig, rs_recovery_id = recovery_id\<rparr> of
        Inl e \<Rightarrow> None
      | Inr pubkey \<Rightarrow> Some (address_from_public_key x pubkey))"

definition recover_witness :: "('k, 'p) externals \<Rightarrow> block \<Rightarrow> address option" where
  "recover_witness x block =
     Option.bind (bk_header block) (\<lambda>header.
     let sig = bh_witness_signature header in
     if length sig \<noteq> 65 then None
     else Option.bind (block_hash x block) (\<lambda>digest. recover_65 x (h256_bytes digest) sig))"

definition recover_tx_signer :: "('k, 'p) externals \<Rightarrow> transaction \<Rightarrow> address option" where
  "recover_tx_signer x tx =
     (case tx_signature tx of
        [] \<Rightarrow> None
      | sig # _ \<Rightarrow> if length sig \<noteq> 65 then None else recover_65 x (h256_bytes (tx_id x tx)) sig)"

text \<open>
  The varint loop of \<open>tx_owner_address\<close>, on the bytes that are left.  A shift counts modulo the 64 bits of
  \<open>usize\<close>; \<open>b.get(i..i + len)\<close> has a value exactly when at least \<open>len\<close> bytes are left.
\<close>

fun read_len :: "bytes \<Rightarrow> nat \<Rightarrow> nat \<Rightarrow> (nat \<times> bytes) option" where
  "read_len [] shift len = None"
| "read_len (b # rest) shift len =
     (let len' = or len (push_bit (shift mod 64) (and (unat b) 0x7f) mod 2 ^ 64) in
      if and (unat b) 0x80 = 0 then Some (len', rest) else read_len rest (shift + 7) len')"

definition tx_owner_address :: "transaction \<Rightarrow> bytes option" where
  "tx_owner_address tx =
     Option.bind (tx_raw_data tx) (\<lambda>raw.
     case tr_contract raw of
       [] \<Rightarrow> None
     | contract # _ \<Rightarrow>
         Option.bind (tc_parameter contract) (\<lambda>b.
         if length b < 2 \<or> b ! 0 \<noteq> 0x0a then None
         else Option.bind (read_len (drop 1 b) 0 0) (\<lambda>(len, rest).
           if len \<le> length rest then Some (take len rest) else None)))"

section \<open>The block columns\<close>

definition LATEST_BLOCK_NUMBER :: string where
  "LATEST_BLOCK_NUMBER = ''LATEST_BLOCK_HEADER_NUMBER''"

definition put_block :: "('k, 'p) externals \<Rightarrow> block \<Rightarrow> world_state \<Rightarrow> world_state" where
  "put_block x block s =
     (let number = (case raw_header block of Some r \<Rightarrow> hr_number r | None \<Rightarrow> 0);
          s = s\<lparr>ws_blocks := (ws_blocks s)(number \<mapsto> block)\<rparr>;
          s = (case block_id_of x block of
                 Some i \<Rightarrow> s\<lparr>ws_block_index := (ws_block_index s)(h256_bytes i \<mapsto> number)\<rparr> | None \<Rightarrow> s) in
      if get_prop_i64 s LATEST_BLOCK_NUMBER \<le> number
      then let s = put_prop_i64 LATEST_BLOCK_NUMBER number s in
           (case raw_header block of
              Some r \<Rightarrow> put_prop_i64 LATEST_BLOCK_HEADER_TIMESTAMP (hr_timestamp r) s | None \<Rightarrow> s)
      else s)"

definition get_block_by_num :: "world_state \<Rightarrow> i64 \<Rightarrow> block option" where
  "get_block_by_num s number = ws_blocks s number"

definition put_transaction :: "bytes \<Rightarrow> transaction \<Rightarrow> world_state \<Rightarrow> world_state" where
  "put_transaction txid tx s = s\<lparr>ws_transactions := (ws_transactions s)(txid \<mapsto> tx)\<rparr>"

definition get_transaction :: "world_state \<Rightarrow> bytes \<Rightarrow> transaction option" where
  "get_transaction s txid = ws_transactions s txid"

definition index_block_transactions :: "('k, 'p) externals \<Rightarrow> block \<Rightarrow> world_state \<Rightarrow> world_state" where
  "index_block_transactions x block s =
     fold (\<lambda>tx. put_transaction (h256_bytes (tx_id x tx)) tx) (bk_transactions block) s"

definition get_block_by_id :: "world_state \<Rightarrow> bytes \<Rightarrow> block option" where
  "get_block_by_id s i = Option.bind (ws_block_index s i) (get_block_by_num s)"

definition get_now_block :: "world_state \<Rightarrow> block option" where
  "get_now_block s = get_block_by_num s (get_prop_i64 s LATEST_BLOCK_NUMBER)"


section \<open>What the externals give\<close>

lemma good_externals_length [simp]:
  assumes "good_externals x"
  shows "length (sha256 x bs) = 32" and "length (keccak256 x bs) = 32"
  using assms by (simp_all add: good_externals_def sha256_def keccak256_def)

lemma wf_address_from_public_key: "good_externals x \<Longrightarrow> wf_address (address_from_public_key x pk)"
  by (simp add: address_from_public_key_def Let_def wf_from_body)

text \<open>Signing a digest and packing the signature the way the node does: the recovery gives the address back.\<close>

definition pack_signature :: "recoverable_signature \<Rightarrow> bytes" where
  "pack_signature sig = rs_rs sig @ [27 + rs_recovery_id sig]"

lemma small_byte_27:
  fixes v :: byte
  assumes "unat v \<le> 3"
  shows "27 \<le> 27 + v" and "27 + v - 27 = v"
proof -
  have "unat (27 + v) = 27 + unat v" using assms by (simp add: unat_word_ariths)
  then show "27 \<le> 27 + v" by (simp add: word_le_nat_alt)
qed simp

lemma sign_recover:
  assumes g: "good_externals x" and d: "length d = 32" and s: "sign_digest x k d = Inr sig"
  shows "length (pack_signature sig) = 65"
    and "recover_65 x d (pack_signature sig) = Some (address_from_public_key x (public_key x k))"
proof -
  obtain rs i where e: "ext_sign_recoverable x k d = (rs, i)" by fastforce
  have sig: "sig = \<lparr>rs_rs = rs, rs_recovery_id = i\<rparr>" using s by (simp add: sign_digest_def e)
  have r: "length rs = 64" "unat i \<le> 3" "ext_recover_ecdsa x d rs (uint i) = Inr (ext_public_key x k)"
    using g d e unfolding good_externals_def by (metis fst_conv snd_conv)+
  have "uint i \<le> 3" using r(2) by (metis of_nat_numeral of_nat_le_iff uint_nat)
  then have i: "ext_recovery_id x (uint i) = Some (uint i)" using g by (simp add: good_externals_def)
  show "length (pack_signature sig) = 65" by (simp add: pack_signature_def sig r)
  show "recover_65 x d (pack_signature sig) = Some (address_from_public_key x (public_key x k))"
    using r i small_byte_27 [OF r(2)]
    by (simp add: recover_65_def pack_signature_def sig nth_append recover_def ok_or_def public_key_def Let_def)
qed

lemma sign_digest_total: "\<exists>sig. sign_digest x k d = Inr sig"
  by (simp add: sign_digest_def split: prod.split)

section \<open>The merkle root binds the transactions\<close>

definition wf_h256 :: "h256 \<Rightarrow> bool" where
  "wf_h256 h \<longleftrightarrow> length (h256_bytes h) = 32"

definition collision :: "('k, 'p) externals \<Rightarrow> bytes \<Rightarrow> bytes \<Rightarrow> bool" where
  "collision x u v \<longleftrightarrow> u \<noteq> v \<and> sha256 x u = sha256 x v"

lemma merkle_level_wf: "good_externals x \<Longrightarrow> \<forall>h\<in>set hs. wf_h256 h \<Longrightarrow> \<forall>h\<in>set (merkle_level x hs). wf_h256 h"
  by (induction x hs rule: merkle_level.induct) (auto simp: wf_h256_def)

lemma merkle_level_binding:
  assumes "length hs = length hs'" and "\<forall>h\<in>set hs. wf_h256 h" and "\<forall>h\<in>set hs'. wf_h256 h"
    and "merkle_level x hs = merkle_level x hs'"
  shows "hs = hs' \<or> (\<exists>u v. collision x u v)"
  using assms
proof (induction x hs arbitrary: hs' rule: merkle_level.induct)
  case (1 x l r hs)
  from 1(2) obtain l' r' hs'' where hs': "hs' = l' # r' # hs''" by (cases hs'; cases "tl hs'") auto
  have len: "length (h256_bytes l) = 32" "length (h256_bytes l') = 32" using 1 hs' by (auto simp: wf_h256_def)
  from 1 hs' have "hs = hs'' \<or> (\<exists>u v. collision x u v)" by simp
  moreover have "sha256 x (h256_bytes l @ h256_bytes r) = sha256 x (h256_bytes l' @ h256_bytes r')" using 1 hs' by simp
  then have "(h256_bytes l = h256_bytes l' \<and> h256_bytes r = h256_bytes r')
      \<or> collision x (h256_bytes l @ h256_bytes r) (h256_bytes l' @ h256_bytes r')"
    using len by (auto simp: collision_def)
  ultimately show ?case unfolding hs' by (auto dest: h256.expand)
next
  case (2 x h)
  then show ?case by (cases hs'; cases "tl hs'") auto
qed simp

lemma merkle_loop_binding:
  assumes "good_externals x" and "length hs = length hs'" and "\<forall>h\<in>set hs. wf_h256 h" and "\<forall>h\<in>set hs'. wf_h256 h"
    and "merkle_loop x hs = merkle_loop x hs'"
  shows "hs = hs' \<or> (\<exists>u v. collision x u v)"
  using assms
proof (induction x hs arbitrary: hs' rule: merkle_loop.induct)
  case (1 x level)
  show ?case
  proof (cases "1 < length level")
    case True
    then have "merkle_loop x (merkle_level x level) = merkle_loop x (merkle_level x hs')"
      using 1 by (simp add: merkle_loop.simps [of x level] merkle_loop.simps [of x hs'])
    then have "merkle_level x level = merkle_level x hs' \<or> (\<exists>u v. collision x u v)"
      using 1(1) [OF True 1(2)] 1 merkle_level_wf [OF 1(2)] by (simp add: length_merkle_level)
    then show ?thesis using merkle_level_binding 1 by blast
  next
    case False
    then show ?thesis using 1 by (simp add: merkle_loop.simps [of x level] merkle_loop.simps [of x hs'])
  qed
qed

lemma merkle_loop_single: "hs \<noteq> [] \<Longrightarrow> \<exists>h. merkle_loop x hs = [h]"
proof (induction x hs rule: merkle_loop.induct)
  case (1 x level)
  show ?case
  proof (cases "1 < length level")
    case True
    then have "merkle_level x level \<noteq> []" by (auto simp: length_merkle_level simp flip: length_0_conv)
    with 1 True show ?thesis by (simp add: merkle_loop.simps [of x level])
  next
    case False
    with 1(2) obtain h where "level = [h]" by (cases level) auto
    then show ?thesis by (simp add: merkle_loop.simps [of x "[h]"])
  qed
qed

lemma merkle_root_binding:
  assumes "good_externals x" and "length hs = length hs'" and "\<forall>h\<in>set hs. wf_h256 h" and "\<forall>h\<in>set hs'. wf_h256 h"
    and "merkle_root x hs = merkle_root x hs'"
  shows "hs = hs' \<or> (\<exists>u v. collision x u v)"
proof (cases "hs = []")
  case False
  then have "hs' \<noteq> []" using assms(2) by auto
  with False merkle_loop_single [of hs x] merkle_loop_single [of hs' x] assms(5)
  have "merkle_loop x hs = merkle_loop x hs'" by (auto simp: merkle_root_def)
  with assms show ?thesis by (intro merkle_loop_binding)
qed (use assms in auto)

section \<open>Stored blocks\<close>

lemma LATEST_BLOCK_NUMBER_keys [simp]:
  "LATEST_BLOCK_NUMBER \<noteq> LATEST_BLOCK_HEADER_TIMESTAMP" "LATEST_BLOCK_HEADER_TIMESTAMP \<noteq> LATEST_BLOCK_NUMBER"
  "LATEST_BLOCK_NUMBER \<noteq> BURN_TRX_AMOUNT" "LATEST_BLOCK_NUMBER \<noteq> LATEST_SOLIDIFIED_BLOCK"
  "LATEST_BLOCK_NUMBER \<noteq> ALLOW_PBFT" "LATEST_BLOCK_NUMBER \<noteq> CREATE_NEW_ACCOUNT_FEE_IN_SYSTEM_CONTRACT"
  by (simp_all add: LATEST_BLOCK_NUMBER_def prop_keys)

text \<open>Storing the next block: it is the head, it can be looked up by number and by id, and the others stay.\<close>

lemma put_block_next:
  assumes "raw_header b = Some r" and "get_prop_i64 s LATEST_BLOCK_NUMBER \<le> hr_number r"
  shows "get_prop_i64 (put_block x b s) LATEST_BLOCK_NUMBER = hr_number r"
    and "get_now_block (put_block x b s) = Some b"
    and "get_prop_i64 (put_block x b s) LATEST_BLOCK_HEADER_TIMESTAMP = hr_timestamp r"
    and "get_block_by_num (put_block x b s) n = (if n = hr_number r then Some b else get_block_by_num s n)"
    and "block_id_of x b = Some i \<Longrightarrow> get_block_by_id (put_block x b s) (h256_bytes i) = Some b"
    and "get_active_witnesses (put_block x b s) = get_active_witnesses s"
    and "k \<noteq> LATEST_BLOCK_NUMBER \<Longrightarrow> k \<noteq> LATEST_BLOCK_HEADER_TIMESTAMP \<Longrightarrow> get_prop_i64 (put_block x b s) k = get_prop_i64 s k"
  using assms
  by (auto simp: put_block_def Let_def get_now_block_def get_block_by_num_def get_block_by_id_def get_prop_i64_def
      put_prop_i64_def get_active_witnesses_def split: option.splits)


section \<open>An instance of the externals\<close>

text \<open>
  A concrete instance that behaves as documented, for evaluation: a key is a byte, a signature repeats it, and a
  digest is the input cut or padded to 32 bytes.  The decoders know one message each.
\<close>

definition sample_externals :: "block \<Rightarrow> transaction \<Rightarrow> (byte, byte) externals" where
  "sample_externals b tx =
     \<lparr>ext_sha256 = resize 32 0, ext_keccak256 = resize 32 0, ext_hex_encode = (\<lambda>_. []), ext_public_key = id,
      ext_serialize_uncompressed = (\<lambda>p. 4 # replicate 64 p), ext_sign_recoverable = (\<lambda>k d. (replicate 64 k, 0)),
      ext_recovery_id = (\<lambda>i. if 0 \<le> i \<and> i \<le> 3 then Some i else None),
      ext_recover_ecdsa = (\<lambda>d rs i. Inr (rs ! 0)), ext_encode_tx_raw = (\<lambda>raw. tr_ref_block_bytes raw),
      ext_encode_tx = (\<lambda>_. []), ext_encode_header_raw = (\<lambda>raw. i64_to_be_bytes (hr_number raw)),
      ext_encode_block = (\<lambda>_. [0]), ext_decode_block = (\<lambda>_. Inr b), ext_decode_tx = (\<lambda>_. Inr tx)\<rparr>"

lemma sample_externals_good: "good_externals (sample_externals b tx)"
  by (simp add: good_externals_def sample_externals_def)

end
