(* ===== verification/Executor.thy ===== *)
theory Executor
  imports Smart_Contract Market_Sell Chain
begin

text \<open>
  The executor of \<open>actuators/src/executor.rs\<close>: the contract type of a transaction selects the actuator, its packed
  parameter is decoded to the message of that type, and the actuator validates and executes it; a block is its
  transactions in order, stopped at the first failure.  The decoders are those of the protobuf library and fields
  of the parameter \<open>codecs\<close>, as are the hex text, the \<open>f64\<close> operations and the hashes that some actuators use.
\<close>

section \<open>Contract types\<close>

text \<open>The enumeration of \<open>Tron.proto\<close>; the accessor of the generated type falls back to the variant zero.\<close>

datatype contract_type =
    AccountCreateContract | TransferContract | TransferAssetContract | VoteAssetContract | VoteWitnessContract |
    WitnessCreateContract | AssetIssueContract | WitnessUpdateContract | ParticipateAssetIssueContract |
    AccountUpdateContract | FreezeBalanceContract | UnfreezeBalanceContract | WithdrawBalanceContract |
    UnfreezeAssetContract | UpdateAssetContract | ProposalCreateContract | ProposalApproveContract |
    ProposalDeleteContract | SetAccountIdContract | CustomContract | CreateSmartContract | TriggerSmartContract |
    GetContract | UpdateSettingContract | ExchangeCreateContract | ExchangeInjectContract |
    ExchangeWithdrawContract | ExchangeTransactionContract | UpdateEnergyLimitContract |
    AccountPermissionUpdateContract | ClearAbiContract | UpdateBrokerageContract | ShieldedTransferContract |
    MarketSellAssetContract | MarketCancelOrderContract | FreezeBalanceV2Contract | UnfreezeBalanceV2Contract |
    WithdrawExpireUnfreezeContract | DelegateResourceContract | UnDelegateResourceContract |
    CancelAllUnfreezeV2Contract

definition contract_types :: "(int \<times> contract_type) list" where
  "contract_types =
     [(0, AccountCreateContract), (1, TransferContract), (2, TransferAssetContract), (3, VoteAssetContract),
      (4, VoteWitnessContract), (5, WitnessCreateContract), (6, AssetIssueContract), (8, WitnessUpdateContract),
      (9, ParticipateAssetIssueContract), (10, AccountUpdateContract), (11, FreezeBalanceContract),
      (12, UnfreezeBalanceContract), (13, WithdrawBalanceContract), (14, UnfreezeAssetContract),
      (15, UpdateAssetContract), (16, ProposalCreateContract), (17, ProposalApproveContract),
      (18, ProposalDeleteContract), (19, SetAccountIdContract), (20, CustomContract), (30, CreateSmartContract),
      (31, TriggerSmartContract), (32, GetContract), (33, UpdateSettingContract), (41, ExchangeCreateContract),
      (42, ExchangeInjectContract), (43, ExchangeWithdrawContract), (44, ExchangeTransactionContract),
      (45, UpdateEnergyLimitContract), (46, AccountPermissionUpdateContract), (48, ClearAbiContract),
      (49, UpdateBrokerageContract), (51, ShieldedTransferContract), (52, MarketSellAssetContract),
      (53, MarketCancelOrderContract), (54, FreezeBalanceV2Contract), (55, UnfreezeBalanceV2Contract),
      (56, WithdrawExpireUnfreezeContract), (57, DelegateResourceContract), (58, UnDelegateResourceContract),
      (59, CancelAllUnfreezeV2Contract)]"

definition contract_type_of :: "int \<Rightarrow> contract_type" where
  "contract_type_of n = (case map_of contract_types n of Some t \<Rightarrow> t | None \<Rightarrow> AccountCreateContract)"

section \<open>Decoding and dispatch\<close>

record 'f codecs =
  dec_account_create :: "bytes \<Rightarrow> string + account_create_contract"
  dec_transfer :: "bytes \<Rightarrow> string + transfer_contract"
  dec_transfer_asset :: "bytes \<Rightarrow> string + asset_transfer_contract"
  dec_vote_witness :: "bytes \<Rightarrow> string + vote_contract"
  dec_witness_create :: "bytes \<Rightarrow> string + witness_create_contract"
  dec_asset_issue :: "bytes \<Rightarrow> string + asset_issue"
  dec_witness_update :: "bytes \<Rightarrow> string + witness_update_contract"
  dec_participate :: "bytes \<Rightarrow> string + participate_contract"
  dec_account_update :: "bytes \<Rightarrow> string + account_update_contract"
  dec_freeze :: "bytes \<Rightarrow> string + freeze_v1_contract"
  dec_unfreeze :: "bytes \<Rightarrow> string + unfreeze_v1_contract"
  dec_withdraw :: "bytes \<Rightarrow> string + withdraw_contract"
  dec_unfreeze_asset :: "bytes \<Rightarrow> string + unfreeze_asset_contract"
  dec_update_asset :: "bytes \<Rightarrow> string + update_asset_contract"
  dec_proposal_create :: "bytes \<Rightarrow> string + proposal_create_contract"
  dec_proposal_approve :: "bytes \<Rightarrow> string + proposal_approve_contract"
  dec_proposal_delete :: "bytes \<Rightarrow> string + proposal_delete_contract"
  dec_set_account_id :: "bytes \<Rightarrow> string + set_account_id_contract"
  dec_create :: "bytes \<Rightarrow> string + create_contract"
  dec_trigger :: "bytes \<Rightarrow> string + trigger_contract"
  dec_update_setting :: "bytes \<Rightarrow> string + update_setting_contract"
  dec_exchange_create :: "bytes \<Rightarrow> string + exchange_create_contract"
  dec_exchange_inject :: "bytes \<Rightarrow> string + exchange_inject_contract"
  dec_exchange_withdraw :: "bytes \<Rightarrow> string + exchange_withdraw_contract"
  dec_exchange_transaction :: "bytes \<Rightarrow> string + exchange_transaction_contract"
  dec_update_energy_limit :: "bytes \<Rightarrow> string + update_energy_limit_contract"
  dec_permission :: "bytes \<Rightarrow> string + permission_update_contract"
  dec_clear_abi :: "bytes \<Rightarrow> string + clear_abi_contract"
  dec_brokerage :: "bytes \<Rightarrow> string + brokerage_contract"
  dec_market_sell :: "bytes \<Rightarrow> string + market_sell_contract"
  dec_market_cancel :: "bytes \<Rightarrow> string + market_cancel_contract"
  dec_freeze_v2 :: "bytes \<Rightarrow> string + freeze_v2_contract"
  dec_unfreeze_v2 :: "bytes \<Rightarrow> string + unfreeze_v2_contract"
  dec_withdraw_expire :: "bytes \<Rightarrow> string + withdraw_expire_contract"
  dec_delegate :: "bytes \<Rightarrow> string + delegate_contract"
  dec_undelegate :: "bytes \<Rightarrow> string + undelegate_contract"
  dec_cancel_unfreeze :: "bytes \<Rightarrow> string + cancel_unfreeze_contract"
  cx_hex :: "bytes \<Rightarrow> string"
  cx_debug :: "actuator_error \<Rightarrow> string"
  cx_f64 :: "'f f64_ops"
  cx_crypto :: crypto

definition unpack :: "(bytes \<Rightarrow> string + 'm) \<Rightarrow> tx_contract \<Rightarrow> actuator_error + 'm" where
  "unpack decode c =
     (case tc_parameter c of
        None \<Rightarrow> Inl (Validate ''contract parameter missing'')
      | Some bs \<Rightarrow> (case decode bs of Inl e \<Rightarrow> Inl (Validate (''cannot unpack contract: '' @ e)) | Inr m \<Rightarrow> Inr m))"

text \<open>Decode, validate, execute: an arm of the dispatch.\<close>

definition run_actuator ::
  "(bytes \<Rightarrow> string + 'm) \<Rightarrow> ('m \<Rightarrow> world_state \<Rightarrow> actuator_error + i64) \<Rightarrow> ('m \<Rightarrow> execution_result act) \<Rightarrow> tx_contract
    \<Rightarrow> (world_state, contract_error, execution_result) st" where
  "run_actuator decode vld exe c = lift_act (st_bind (st_lift (unpack decode c)) (actuate vld exe))"

definition run_vm_actuator ::
  "(bytes \<Rightarrow> string + 'm) \<Rightarrow> ('m \<Rightarrow> world_state \<Rightarrow> actuator_error + i64)
    \<Rightarrow> ('m \<Rightarrow> (world_state, contract_error, execution_result) st) \<Rightarrow> tx_contract \<Rightarrow> (world_state, contract_error, execution_result) st" where
  "run_vm_actuator decode vld exe c =
     st_bind (lift_act (st_lift (unpack decode c))) (\<lambda>m.
     st_bind (lift_act (\<lambda>s. (vld m s, s))) (\<lambda>_. exe m))"

definition unsupported :: "string \<Rightarrow> (world_state, contract_error, execution_result) st" where
  "unsupported ty = st_fail (ContractError (Validate (''unsupported contract type: '' @ ty)))"

definition TRIGGER_ENERGY_LIMIT :: u64 where "TRIGGER_ENERGY_LIMIT = 10000000"

primrec apply_contract :: "'f codecs \<Rightarrow> contract_type \<Rightarrow> tx_contract \<Rightarrow> (world_state, contract_error, execution_result) st" where
  "apply_contract x AccountCreateContract c =
     run_actuator (dec_account_create x) create_account_validate create_account_execute c"
| "apply_contract x TransferContract c = run_actuator (dec_transfer x) transfer_validate transfer_execute c"
| "apply_contract x TransferAssetContract c =
     run_actuator (dec_transfer_asset x) asset_transfer_validate asset_transfer_execute c"
| "apply_contract x VoteAssetContract c = unsupported ''VoteAssetContract''"
| "apply_contract x VoteWitnessContract c = run_actuator (dec_vote_witness x) vote_validate vote_execute c"
| "apply_contract x WitnessCreateContract c =
     run_actuator (dec_witness_create x) witness_create_validate witness_create_execute c"
| "apply_contract x AssetIssueContract c = run_actuator (dec_asset_issue x) asset_issue_validate asset_issue_execute c"
| "apply_contract x WitnessUpdateContract c =
     run_actuator (dec_witness_update x) witness_update_validate witness_update_execute c"
| "apply_contract x ParticipateAssetIssueContract c =
     run_actuator (dec_participate x) participate_validate (participate_execute (cx_debug x)) c"
| "apply_contract x AccountUpdateContract c =
     run_actuator (dec_account_update x) update_account_validate update_account_execute c"
| "apply_contract x FreezeBalanceContract c = run_actuator (dec_freeze x) freeze_v1_validate freeze_v1_execute c"
| "apply_contract x UnfreezeBalanceContract c =
     run_actuator (dec_unfreeze x) unfreeze_v1_validate unfreeze_v1_execute c"
| "apply_contract x WithdrawBalanceContract c = run_actuator (dec_withdraw x) withdraw_validate withdraw_execute c"
| "apply_contract x UnfreezeAssetContract c =
     run_actuator (dec_unfreeze_asset x) unfreeze_asset_validate unfreeze_asset_execute c"
| "apply_contract x UpdateAssetContract c =
     run_actuator (dec_update_asset x) update_asset_validate update_asset_execute c"
| "apply_contract x ProposalCreateContract c =
     run_actuator (dec_proposal_create x) proposal_create_validate proposal_create_execute c"
| "apply_contract x ProposalApproveContract c =
     run_actuator (dec_proposal_approve x) proposal_approve_validate proposal_approve_execute c"
| "apply_contract x ProposalDeleteContract c =
     run_actuator (dec_proposal_delete x) proposal_delete_validate proposal_delete_execute c"
| "apply_contract x SetAccountIdContract c =
     run_actuator (dec_set_account_id x) set_account_id_validate set_account_id_execute c"
| "apply_contract x CustomContract c = unsupported ''CustomContract''"
| "apply_contract x CreateSmartContract c =
     run_vm_actuator (dec_create x) create_validate (create_execute (cx_crypto x)) c"
| "apply_contract x TriggerSmartContract c =
     run_vm_actuator (dec_trigger x) trigger_validate (trigger_execute (cx_crypto x) TRIGGER_ENERGY_LIMIT) c"
| "apply_contract x GetContract c = unsupported ''GetContract''"
| "apply_contract x UpdateSettingContract c =
     run_actuator (dec_update_setting x) (update_setting_validate (cx_hex x)) update_setting_execute c"
| "apply_contract x ExchangeCreateContract c =
     run_actuator (dec_exchange_create x) exchange_create_validate exchange_create_execute c"
| "apply_contract x ExchangeInjectContract c =
     run_actuator (dec_exchange_inject x) exchange_inject_validate exchange_inject_execute c"
| "apply_contract x ExchangeWithdrawContract c =
     run_actuator (dec_exchange_withdraw x) (exchange_withdraw_validate (cx_f64 x)) exchange_withdraw_execute c"
| "apply_contract x ExchangeTransactionContract c =
     run_actuator (dec_exchange_transaction x) (exchange_transaction_validate (cx_f64 x)) (exchange_transaction_execute (cx_f64 x)) c"
| "apply_contract x UpdateEnergyLimitContract c =
     run_actuator (dec_update_energy_limit x) (update_energy_limit_validate (cx_hex x)) update_energy_limit_execute c"
| "apply_contract x AccountPermissionUpdateContract c =
     run_actuator (dec_permission x) permission_validate permission_execute c"
| "apply_contract x ClearAbiContract c =
     run_actuator (dec_clear_abi x) (clear_abi_validate (cx_hex x)) clear_abi_execute c"
| "apply_contract x UpdateBrokerageContract c =
     run_actuator (dec_brokerage x) (brokerage_validate (cx_hex x)) brokerage_execute c"
| "apply_contract x ShieldedTransferContract c = unsupported ''ShieldedTransferContract''"
| "apply_contract x MarketSellAssetContract c =
     run_actuator (dec_market_sell x) market_sell_validate market_sell_execute c"
| "apply_contract x MarketCancelOrderContract c =
     run_actuator (dec_market_cancel x) market_cancel_validate market_cancel_execute c"
| "apply_contract x FreezeBalanceV2Contract c = run_actuator (dec_freeze_v2 x) freeze_v2_validate freeze_v2_execute c"
| "apply_contract x UnfreezeBalanceV2Contract c =
     run_actuator (dec_unfreeze_v2 x) unfreeze_v2_validate unfreeze_v2_execute c"
| "apply_contract x WithdrawExpireUnfreezeContract c =
     run_actuator (dec_withdraw_expire x) withdraw_expire_validate withdraw_expire_execute c"
| "apply_contract x DelegateResourceContract c = run_actuator (dec_delegate x) delegate_validate delegate_execute c"
| "apply_contract x UnDelegateResourceContract c =
     run_actuator (dec_undelegate x) undelegate_validate undelegate_execute c"
| "apply_contract x CancelAllUnfreezeV2Contract c =
     run_actuator (dec_cancel_unfreeze x) cancel_unfreeze_validate cancel_unfreeze_execute c"

definition apply_transaction :: "'f codecs \<Rightarrow> transaction \<Rightarrow> (world_state, contract_error, execution_result) st" where
  "apply_transaction x tx =
     st_bind (lift_act (st_lift (ok_or (tx_raw_data tx) (Validate ''transaction has no raw_data'')))) (\<lambda>raw.
     case tr_contract raw of
       [] \<Rightarrow> st_fail (ContractError (Validate ''transaction has no contract''))
     | c # _ \<Rightarrow> apply_contract x (contract_type_of (tc_type c)) c)"

fun apply_all :: "'f codecs \<Rightarrow> transaction list \<Rightarrow> (world_state, contract_error, execution_result list) st" where
  "apply_all x [] = st_return []"
| "apply_all x (tx # txs) =
     st_bind (apply_transaction x tx) (\<lambda>r. st_bind (apply_all x txs) (\<lambda>rs. st_return (r # rs)))"

definition apply_block :: "'f codecs \<Rightarrow> block \<Rightarrow> (world_state, contract_error, execution_result list) st" where
  "apply_block x b = apply_all x (bk_transactions b)"

definition process_block :: "('k, 'p) externals \<Rightarrow> 'f codecs \<Rightarrow> block \<Rightarrow> (world_state, contract_error, execution_result list) st" where
  "process_block e x b =
     st_bind (apply_block x b) (\<lambda>results.
     st_bind (st_modify (put_block e b)) (\<lambda>_.
     st_bind (st_modify (index_block_transactions e b)) (\<lambda>_. st_return results)))"

section \<open>What a transaction keeps\<close>

definition decoded :: "(bytes \<Rightarrow> string + 'm) \<Rightarrow> ('m \<Rightarrow> bool) \<Rightarrow> tx_contract \<Rightarrow> bool" where
  "decoded decode P c \<longleftrightarrow> (\<forall>m. unpack decode c = Inr m \<longrightarrow> P m)"

context actuator
begin

lemma run_preserves:
  assumes "run_actuator decode validate execute c s = (r, s')" and "wf_state s" and "decoded decode (\<lambda>m. input_ok m s) c"
  shows "wf_state s' \<and> total_trx s' = total_trx s"
proof (cases "unpack decode c")
  case (Inl e)
  with assms show ?thesis by (simp add: run_actuator_def lift_act_def st_bind_def st_prim_simps)
next
  case (Inr m)
  obtain r' where "actuate validate execute m s = (r', s')"
    using assms(1) Inr by (cases "actuate validate execute m s") (auto simp: run_actuator_def lift_act_def st_bind_def st_prim_simps)
  with preserves [OF assms(2)] assms(3) Inr show ?thesis by (auto simp: decoded_def)
qed

end

lemma market_sell_run_preserves:
  assumes "run_actuator decode market_sell_validate market_sell_execute c s = (r, s')" and "wf_state s"
    and "decoded decode (\<lambda>m. sell_ready m s \<and> (\<forall>f. market_sell_validate m s = Inr f \<longrightarrow> (\<exists>r s'. market_sell_execute m s = (Inr r, s')))) c"
  shows "wf_state s' \<and> total_trx s' = total_trx s"
proof (cases "unpack decode c")
  case (Inl e)
  with assms show ?thesis by (simp add: run_actuator_def lift_act_def st_bind_def st_prim_simps)
next
  case (Inr m)
  show ?thesis
  proof (cases "market_sell_validate m s")
    case (Inl e)
    with assms(1,2) Inr show ?thesis by (simp add: run_actuator_def lift_act_def st_bind_def st_prim_simps actuate_def)
  next
    case (Inr f)
    from \<open>unpack decode c = Inr m\<close> Inr assms(3) obtain r1 s1 where e: "sell_ready m s" "market_sell_execute m s = (Inr r1, s1)"
      by (auto simp: decoded_def)
    with assms(1) Inr \<open>unpack decode c = Inr m\<close> have "s' = s1"
      by (simp add: run_actuator_def lift_act_def st_bind_def st_prim_simps actuate_def)
    with market_sell_result(1,2) [OF assms(2) e(1) Inr e(2)] show ?thesis by simp
  qed
qed

text \<open>
  What each type needs besides a well-formed ledger: that sums fit their width, that the clock is not at the end of
  its range, that pools and orders are consistent.  Transactions of the virtual machine are left out: they keep the
  accounts well-formed and never add value, but self-destruction removes value and delegations.
\<close>

definition contract_ok :: "'f codecs \<Rightarrow> contract_type \<Rightarrow> tx_contract \<Rightarrow> world_state \<Rightarrow> bool" where
  "contract_ok x ty c s =
     (case ty of
        AccountCreateContract \<Rightarrow> 0 \<le> get_prop_i64 s CREATE_ACCOUNT_FEE_KEY
      | AssetIssueContract \<Rightarrow> decoded (dec_asset_issue x) (\<lambda>m. issue_ok m s) c
      | ParticipateAssetIssueContract \<Rightarrow> decoded (dec_participate x) (\<lambda>m. purchase_fits m s) c
      | UnfreezeAssetContract \<Rightarrow>
          decoded (dec_unfreeze_asset x) (\<lambda>m. \<forall>owner acc. ua_owner_address m = as_bytes owner \<and> get_account s owner = Some acc \<longrightarrow> issuer_ok acc) c
      | FreezeBalanceContract \<Rightarrow> decoded (dec_freeze x) (\<lambda>m. in_i64 (v1_expiry m s)) c
      | UnfreezeBalanceV2Contract \<Rightarrow> clock_ok s
      | DelegateResourceContract \<Rightarrow> decoded (dec_delegate x) (\<lambda>m. lock_clock_ok m s) c
      | ProposalCreateContract \<Rightarrow> in_i64 (get_prop_i64 s LATEST_BLOCK_HEADER_TIMESTAMP + MAINTENANCE_TIME_INTERVAL_MS)
      | ExchangeCreateContract \<Rightarrow> decoded (dec_exchange_create x) (\<lambda>m. create_ok m s) c
      | ExchangeInjectContract \<Rightarrow> units_fit s
      | ExchangeWithdrawContract \<Rightarrow> units_fit s
      | ExchangeTransactionContract \<Rightarrow> decoded (dec_exchange_transaction x) (\<lambda>m. units_fit s \<and> swap_covered (cx_f64 x) m s) c
      | MarketCancelOrderContract \<Rightarrow> units_fit s
      | MarketSellAssetContract \<Rightarrow>
          decoded (dec_market_sell x) (\<lambda>m. sell_ready m s \<and> (\<forall>f. market_sell_validate m s = Inr f \<longrightarrow> (\<exists>r s'. market_sell_execute m s = (Inr r, s')))) c
      | CreateSmartContract \<Rightarrow> False
      | TriggerSmartContract \<Rightarrow> False
      | _ \<Rightarrow> True)"

lemmas runs_preserve =
  create_account.run_preserves transfer.run_preserves asset_transfer.run_preserves vote.run_preserves witness_create.run_preserves
  asset_issue.run_preserves witness_update.run_preserves participate.run_preserves update_account.run_preserves freeze_v1.run_preserves
  unfreeze_v1.run_preserves withdraw.run_preserves unfreeze_asset.run_preserves update_asset.run_preserves proposal_create.run_preserves
  proposal_approve.run_preserves proposal_delete.run_preserves set_account_id.run_preserves update_setting.run_preserves
  exchange_create.run_preserves exchange_inject.run_preserves exchange_withdraw.run_preserves exchange_transaction.run_preserves
  update_energy_limit.run_preserves permission.run_preserves clear_abi.run_preserves brokerage.run_preserves market_cancel.run_preserves
  market_sell_run_preserves freeze_v2.run_preserves unfreeze_v2.run_preserves withdraw_expire.run_preserves delegate.run_preserves
  undelegate.run_preserves cancel_unfreeze.run_preserves

lemma apply_contract_preserves:
  assumes "apply_contract x ty c s = (r, s')" and "wf_state s" and "contract_ok x ty c s"
  shows "wf_state s' \<and> total_trx s' = total_trx s"
  by (insert assms)
    (cases ty; simp only: apply_contract.simps contract_ok_def contract_type.case unsupported_def st_prim_simps prod.inject;
      (erule runs_preserve, assumption, simp add: decoded_def)?; simp?)


section \<open>What a block keeps\<close>

definition tx_ok :: "'f codecs \<Rightarrow> transaction \<Rightarrow> world_state \<Rightarrow> bool" where
  "tx_ok x tx s \<longleftrightarrow>
     (\<forall>raw c cs. tx_raw_data tx = Some raw \<and> tr_contract raw = c # cs \<longrightarrow> contract_ok x (contract_type_of (tc_type c)) c s)"

fun txs_ok :: "'f codecs \<Rightarrow> transaction list \<Rightarrow> world_state \<Rightarrow> bool" where
  "txs_ok x [] s = True"
| "txs_ok x (tx # txs) s =
     (tx_ok x tx s \<and> (case apply_transaction x tx s of (Inl _, _) \<Rightarrow> True | (Inr _, s') \<Rightarrow> txs_ok x txs s'))"

lemma apply_transaction_preserves:
  assumes "apply_transaction x tx s = (r, s')" and "wf_state s" and "tx_ok x tx s"
  shows "wf_state s' \<and> total_trx s' = total_trx s"
proof (cases "tx_raw_data tx")
  case None
  with assms show ?thesis by (simp add: apply_transaction_def lift_act_simps st_bind_def ok_or_def)
next
  case (Some raw)
  show ?thesis
  proof (cases "tr_contract raw")
    case Nil
    with assms Some show ?thesis by (simp add: apply_transaction_def lift_act_simps st_bind_def st_prim_simps ok_or_def)
  next
    case (Cons c cs)
    with assms Some have "apply_contract x (contract_type_of (tc_type c)) c s = (r, s')" "contract_ok x (contract_type_of (tc_type c)) c s"
      by (simp_all add: apply_transaction_def lift_act_simps st_bind_def ok_or_def tx_ok_def)
    then show ?thesis using apply_contract_preserves assms(2) by blast
  qed
qed

lemma apply_all_preserves:
  assumes "apply_all x txs s = (r, s')" and "wf_state s" and "txs_ok x txs s"
  shows "wf_state s' \<and> total_trx s' = total_trx s \<and> (\<forall>rs. r = Inr rs \<longrightarrow> length rs = length txs)"
  using assms
proof (induction txs arbitrary: s r s')
  case Nil
  then show ?case by (auto simp: st_prim_simps)
next
  case (Cons tx txs)
  obtain r1 s1 where a: "apply_transaction x tx s = (r1, s1)" by fastforce
  have k: "wf_state s1 \<and> total_trx s1 = total_trx s"
    using apply_transaction_preserves [OF a Cons.prems(2)] Cons.prems(3) by simp
  show ?case
  proof (cases r1)
    case (Inl e)
    with Cons.prems(1) a k show ?thesis by (auto simp: st_bind_def)
  next
    case (Inr y)
    obtain r2 s2 where b: "apply_all x txs s1 = (r2, s2)" by fastforce
    from Cons.IH [OF b] k Cons.prems(3) a Inr have "wf_state s2 \<and> total_trx s2 = total_trx s1 \<and> (\<forall>rs. r2 = Inr rs \<longrightarrow> length rs = length txs)"
      by simp
    with Cons.prems(1) a Inr b k show ?thesis by (auto simp: st_bind_def st_prim_simps split: sum.splits)
  qed
qed

lemma put_block_preserves:
  "wf_state (put_block e b s) = wf_state s" "total_trx (put_block e b s) = total_trx s"
  "get_block_by_num (put_block e b s) (case raw_header b of Some r \<Rightarrow> hr_number r | None \<Rightarrow> 0) = Some b"
proof -
  have k: "LATEST_BLOCK_NUMBER \<noteq> BURN_TRX_AMOUNT" "LATEST_BLOCK_NUMBER \<noteq> CREATE_NEW_ACCOUNT_FEE_IN_SYSTEM_CONTRACT"
    "LATEST_BLOCK_HEADER_TIMESTAMP \<noteq> BURN_TRX_AMOUNT" "LATEST_BLOCK_HEADER_TIMESTAMP \<noteq> CREATE_NEW_ACCOUNT_FEE_IN_SYSTEM_CONTRACT"
    by (simp_all add: prop_keys LATEST_BLOCK_NUMBER_def)
  have w: "wf_state (s\<lparr>ws_blocks := u\<rparr>) = wf_state s" "wf_state (s\<lparr>ws_block_index := i\<rparr>) = wf_state s"
    "total_trx (s\<lparr>ws_blocks := u\<rparr>) = total_trx s" "total_trx (s\<lparr>ws_block_index := i\<rparr>) = total_trx s" for s u i
    by (simp_all add: wf_state_def total_trx_def get_prop_i64_def wf_delegation_def records_of_def)
  show "wf_state (put_block e b s) = wf_state s" "total_trx (put_block e b s) = total_trx s"
    using k by (simp_all add: put_block_def Let_def w split: option.split)
  show "get_block_by_num (put_block e b s) (case raw_header b of Some r \<Rightarrow> hr_number r | None \<Rightarrow> 0) = Some b"
    by (simp add: put_block_def Let_def get_block_by_num_def put_prop_i64_def split: option.split)
qed

lemma put_transaction_preserves:
  "wf_state (put_transaction i tx s) = wf_state s" "total_trx (put_transaction i tx s) = total_trx s" "ws_blocks (put_transaction i tx s) = ws_blocks s"
  by (simp_all add: put_transaction_def wf_state_def total_trx_def get_prop_i64_def wf_delegation_def records_of_def)

lemma index_transactions_preserves:
  "wf_state (index_block_transactions e b s) = wf_state s" "total_trx (index_block_transactions e b s) = total_trx s"
  "get_block_by_num (index_block_transactions e b s) n = get_block_by_num s n"
proof -
  have "wf_state (fold (\<lambda>tx. put_transaction (h256_bytes (tx_id e tx)) tx) txs s) = wf_state s
      \<and> total_trx (fold (\<lambda>tx. put_transaction (h256_bytes (tx_id e tx)) tx) txs s) = total_trx s
      \<and> ws_blocks (fold (\<lambda>tx. put_transaction (h256_bytes (tx_id e tx)) tx) txs s) = ws_blocks s" for txs
    by (induction txs arbitrary: s) (simp_all add: put_transaction_preserves)
  then show "wf_state (index_block_transactions e b s) = wf_state s" "total_trx (index_block_transactions e b s) = total_trx s"
    "get_block_by_num (index_block_transactions e b s) n = get_block_by_num s n"
    by (simp_all add: index_block_transactions_def get_block_by_num_def)
qed

section \<open>Properties\<close>


definition sample_codecs :: "real codecs" where
  "sample_codecs =
     \<lparr>dec_account_create = (\<lambda>_. Inl []),
      dec_transfer = (\<lambda>bs. Inr \<lparr>tf_owner_address = as_bytes (addr_of 1), tf_to_address = as_bytes (addr_of 2), tf_amount = int (length bs)\<rparr>),
      dec_transfer_asset = (\<lambda>_. Inl []), dec_vote_witness = (\<lambda>_. Inl []),
      dec_witness_create = (\<lambda>_. Inl []), dec_asset_issue = (\<lambda>_. Inl []),
      dec_witness_update = (\<lambda>_. Inl []), dec_participate = (\<lambda>_. Inl []),
      dec_account_update = (\<lambda>_. Inl []), dec_freeze = (\<lambda>_. Inl []), dec_unfreeze = (\<lambda>_. Inl []),
      dec_withdraw = (\<lambda>_. Inl []), dec_unfreeze_asset = (\<lambda>_. Inl []),
      dec_update_asset = (\<lambda>_. Inl []), dec_proposal_create = (\<lambda>_. Inl []),
      dec_proposal_approve = (\<lambda>_. Inl []), dec_proposal_delete = (\<lambda>_. Inl []),
      dec_set_account_id = (\<lambda>_. Inl []), dec_create = (\<lambda>_. Inl []), dec_trigger = (\<lambda>_. Inl []),
      dec_update_setting = (\<lambda>_. Inl []), dec_exchange_create = (\<lambda>_. Inl []),
      dec_exchange_inject = (\<lambda>_. Inl []), dec_exchange_withdraw = (\<lambda>_. Inl []),
      dec_exchange_transaction = (\<lambda>_. Inl []), dec_update_energy_limit = (\<lambda>_. Inl []),
      dec_permission = (\<lambda>_. Inl []), dec_clear_abi = (\<lambda>_. Inl []), dec_brokerage = (\<lambda>_. Inl []),
      dec_market_sell = (\<lambda>_. Inl []), dec_market_cancel = (\<lambda>_. Inl []),
      dec_freeze_v2 = (\<lambda>_. Inl []), dec_unfreeze_v2 = (\<lambda>_. Inl []),
      dec_withdraw_expire = (\<lambda>_. Inl []), dec_delegate = (\<lambda>_. Inl []),
      dec_undelegate = (\<lambda>_. Inl []), dec_cancel_unfreeze = (\<lambda>_. Inl []), cx_hex = (\<lambda>_. []),
      cx_debug = (\<lambda>_. []), cx_f64 = exact_f64, cx_crypto = no_crypto\<rparr>"

definition pay :: "nat \<Rightarrow> transaction" where
  "pay n = \<lparr>tx_raw_data = Some \<lparr>tr_ref_block_bytes = [], tr_ref_block_num = 0, tr_ref_block_hash = [], tr_expiration = 0,
     tr_contract = [\<lparr>tc_type = 1, tc_parameter = Some (replicate n 0)\<rparr>], tr_timestamp = 0\<rparr>, tx_signature = []\<rparr>"

lemma pay_applies:
  "apply_transaction sample_codecs (pay n) = lift_act (actuate transfer_validate transfer_execute
     \<lparr>tf_owner_address = as_bytes (addr_of 1), tf_to_address = as_bytes (addr_of 2), tf_amount = int n\<rparr>)"
  by (simp add: fun_eq_iff apply_transaction_def pay_def lift_act_simps st_bind_def ok_or_def contract_type_of_def contract_types_def
      run_actuator_def unpack_def sample_codecs_def lift_act_def st_prim_simps)

lemma pay_ok: "txs_ok sample_codecs [pay n, pay m] s"
  by (auto simp: tx_ok_def pay_def contract_type_of_def contract_types_def contract_ok_def split: prod.split sum.split)


end
