(* ===== verification/Consensus.thy ===== *)
theory Consensus
  imports Chain Rust_Order
begin

text \<open>
  Delegated proof of stake (\<open>src/crates/consensus/src\<close>): slots, maintenance rounds and the schedule of the
  witnesses (\<open>lib.rs\<close>), the order of the election (\<open>election.rs\<close>), fork choice and reorganisation
  (\<open>fork.rs\<close>), the split of the block reward (\<open>reward.rs\<close>) and block validation (\<open>lib.rs\<close>, module
  \<open>validation\<close>); and the maintenance cycle of \<open>src/crates/actuators/src/maintenance.rs\<close>.
\<close>

section \<open>Slots and the schedule\<close>

definition MAX_ACTIVE_WITNESSES :: nat where "MAX_ACTIVE_WITNESSES = 27"
definition WITNESS_STANDBY_LENGTH :: nat where "WITNESS_STANDBY_LENGTH = 127"
definition BLOCK_INTERVAL_MS :: nat where "BLOCK_INTERVAL_MS = 3000"
definition MAINTENANCE_PERIOD_MS :: nat where "MAINTENANCE_PERIOD_MS = 21600000"
definition WITNESS_PAY_PER_BLOCK_SUN :: i64 where "WITNESS_PAY_PER_BLOCK_SUN = 32000000"
definition SINGLE_REPEAT :: nat where "SINGLE_REPEAT = 1"

definition slot_of :: "u64 \<Rightarrow> u64 \<Rightarrow> u64" where
  "slot_of block_time_ms genesis_time_ms =
     (if block_time_ms \<le> genesis_time_ms then 0
      else (block_time_ms - genesis_time_ms) div BLOCK_INTERVAL_MS)"

definition next_maintenance_time :: "i64 \<Rightarrow> i64 \<Rightarrow> i64" where
  "next_maintenance_time current_maintenance_time block_time =
     (let interval = int MAINTENANCE_PERIOD_MS;
          round = i64_wrap (block_time - current_maintenance_time) sdiv interval
      in i64_wrap (current_maintenance_time + i64_wrap (i64_wrap (round + 1) * interval)))"

definition need_maintenance :: "i64 \<Rightarrow> i64 \<Rightarrow> bool" where
  "need_maintenance next_time block_time \<longleftrightarrow> next_time \<le> block_time"

definition scheduled_witness :: "bytes list \<Rightarrow> u64 \<Rightarrow> u64 \<Rightarrow> bytes option" where
  "scheduled_witness active head_abs_slot slot =
     (if active = [] then None
      else let current = u64_wrap (head_abs_slot + slot); n = length active;
               idx = (current mod (n * SINGLE_REPEAT)) div SINGLE_REPEAT
           in if idx < length active then Some (active ! idx) else None)"

lemma next_maintenance_after:
  assumes "0 \<le> cur" and "cur \<le> t" and "t + int MAINTENANCE_PERIOD_MS \<le> i64_max"
  shows "t < next_maintenance_time cur t" and "next_maintenance_time cur t \<le> t + int MAINTENANCE_PERIOD_MS"
    and "int MAINTENANCE_PERIOD_MS dvd next_maintenance_time cur t - cur"
proof -
  let ?p = "int MAINTENANCE_PERIOD_MS" and ?r = "(t - cur) div int MAINTENANCE_PERIOD_MS"
  have p: "0 < ?p" by (simp add: MAINTENANCE_PERIOD_MS_def)
  have r0: "0 \<le> ?r" using assms p by (simp add: pos_imp_zdiv_nonneg_iff)
  have dm: "t - cur = ?r * ?p + (t - cur) mod ?p" by simp
  have "(?r + 1) * ?p = ?r * ?p + ?p" by (simp add: algebra_simps)
  then have le: "?r * ?p \<le> t - cur" "t - cur < (?r + 1) * ?p"
    using dm pos_mod_bound [OF p, of "t - cur"] pos_mod_sign [OF p, of "t - cur"] by linarith+
  have up: "(?r + 1) * ?p \<le> t - cur + ?p" using le by (simp add: algebra_simps)
  have "?r \<le> ?r * ?p" using r0 p by (simp add: MAINTENANCE_PERIOD_MS_def)
  then have "in_i64 (t - cur)" "in_i64 (?r + 1)" "in_i64 ((?r + 1) * ?p)" "in_i64 (cur + (?r + 1) * ?p)"
    using assms r0 le up by (simp_all add: i64_bounds_defs MAINTENANCE_PERIOD_MS_def)
  then have e: "next_maintenance_time cur t = cur + (?r + 1) * ?p"
    using assms p by (simp add: next_maintenance_time_def Let_def sdiv_nonneg)
  show "t < next_maintenance_time cur t" "next_maintenance_time cur t \<le> t + ?p" using e le up by simp_all
  show "?p dvd next_maintenance_time cur t - cur" by (simp add: e)
qed

text \<open>Round robin: the witness of a slot is determined by the slot, and \<open>n\<close> consecutive slots reach all of them.\<close>

lemma scheduled_witness_nth:
  assumes "active \<noteq> []" and "head + slot < 2 ^ 64"
  shows "scheduled_witness active head slot = Some (active ! ((head + slot) mod length active))"
  using assms by (simp add: scheduled_witness_def Let_def SINGLE_REPEAT_def u64_wrap_id)

lemma scheduled_member:
  assumes "scheduled_witness active head slot = Some w"
  shows "w \<in> set active"
proof -
  let ?i = "u64_wrap (head + slot) mod (length active * SINGLE_REPEAT) div SINGLE_REPEAT"
  have "?i < length active" "w = active ! ?i" using assms by (auto simp: scheduled_witness_def Let_def split: if_splits)
  then show ?thesis by simp
qed

lemma scheduled_within_round:
  assumes w: "w \<in> set active" and b: "head + d + length active < 2 ^ 64"
  shows "\<exists>slot. d < slot \<and> slot \<le> d + length active \<and> scheduled_witness active head slot = Some w"
proof -
  let ?n = "length active"
  obtain i where i: "i < ?n" "active ! i = w" using w by (auto simp: in_set_conv_nth)
  define a where "a = head + d + 1"
  define j where "j = (i + ?n - a mod ?n) mod ?n"
  have n: "0 < ?n" using i by linarith
  have j: "j < ?n" unfolding j_def by (rule mod_less_divisor [OF n])
  have "(a + j) mod ?n = (a mod ?n + (i + ?n - a mod ?n)) mod ?n"
    unfolding j_def by (metis mod_add_left_eq mod_add_right_eq)
  moreover have "a mod ?n \<le> i + ?n" using mod_less_divisor [OF n, of a] by linarith
  ultimately have "(a + j) mod ?n = i" using i by simp
  then have "(head + (d + 1 + j)) mod ?n = i" by (simp add: a_def add.assoc)
  moreover have "active \<noteq> []" using i by auto
  ultimately have "scheduled_witness active head (d + 1 + j) = Some w"
    using b j i by (subst scheduled_witness_nth) simp_all
  with j show ?thesis by (intro exI [of _ "d + 1 + j"]) simp
qed

section \<open>Election\<close>

definition cmp_witness :: "bytes \<times> i64 \<Rightarrow> bytes \<times> i64 \<Rightarrow> ordering" where
  "cmp_witness a b = then_with (cmp_int (snd b) (snd a)) (cmp_bytes (fst b) (fst a))"

definition cmp_ranked :: "address \<times> i64 \<Rightarrow> address \<times> i64 \<Rightarrow> ordering" where
  "cmp_ranked a b = cmp_witness (as_bytes (fst a), snd a) (as_bytes (fst b), snd b)"

definition rank_witnesses :: "(address \<times> i64) list \<Rightarrow> address list" where
  "rank_witnesses votes = map fst (sort_by cmp_ranked votes)"

interpretation witness_order: total_cmp cmp_witness
proof unfold_locales
  fix a b c :: "bytes \<times> i64"
  show "cmp_witness a b = Greater \<longleftrightarrow> cmp_witness b a = Less"
    using cmp_bytes_flip [of "fst b" "fst a"] by (auto simp: cmp_witness_def then_with_def)
  show "cmp_witness a b = Equal \<longleftrightarrow> a = b" by (auto simp: cmp_witness_def then_with_def prod_eq_iff)
  show "cmp_witness a c \<noteq> Greater" if "cmp_witness a b \<noteq> Greater" "cmp_witness b c \<noteq> Greater"
    using that cmp_bytes_trans [of "fst c" "fst b" "fst a"] by (auto simp: cmp_witness_def then_with_def split: if_splits)
qed

interpretation ranked_order: total_cmp cmp_ranked
proof unfold_locales
  fix a b c :: "address \<times> i64"
  show "cmp_ranked a b = Greater \<longleftrightarrow> cmp_ranked b a = Less" unfolding cmp_ranked_def by (rule witness_order.flip)
  show "cmp_ranked a c \<noteq> Greater" if "cmp_ranked a b \<noteq> Greater" "cmp_ranked b c \<noteq> Greater"
    using that unfolding cmp_ranked_def by (rule witness_order.trans)
  show "cmp_ranked a b = Equal \<longleftrightarrow> a = b" unfolding cmp_ranked_def witness_order.equal by (auto simp: prod_eq_iff)
qed

lemma rank_witnesses_permutation: "mset votes = mset votes' \<Longrightarrow> rank_witnesses votes = rank_witnesses votes'"
  unfolding rank_witnesses_def by (rule arg_cong [of _ _ "map fst"]) (rule ranked_order.sort_by_permutation)

section \<open>Fork choice\<close>

record head =
  hd_number :: i64
  hd_weight :: u64

definition should_switch :: "head \<Rightarrow> head \<Rightarrow> bool" where
  "should_switch current candidate =
     (case cmp_int (hd_number candidate) (hd_number current) of
        Greater \<Rightarrow> True | Less \<Rightarrow> False | Equal \<Rightarrow> hd_weight current < hd_weight candidate)"

record reorg =
  ro_common_ancestor :: bytes
  ro_revert :: "bytes list"
  ro_apply :: "bytes list"

text \<open>The loop that advances while both chains have the same id.\<close>

fun fork_point :: "bytes list \<Rightarrow> bytes list \<Rightarrow> nat" where
  "fork_point (a # as) (b # bs) = (if a = b then Suc (fork_point as bs) else 0)"
| "fork_point as bs = 0"

definition compute_reorg :: "bytes list \<Rightarrow> bytes list \<Rightarrow> reorg" where
  "compute_reorg ours theirs =
     (let fork = fork_point ours theirs in
      \<lparr>ro_common_ancestor = (if fork = 0 then [] else ours ! (fork - 1)),
       ro_revert = rev (drop fork ours), ro_apply = drop fork theirs\<rparr>)"

lemma fork_point_prefix: "take (fork_point as bs) as = take (fork_point as bs) bs"
  by (induction as bs rule: fork_point.induct) auto

lemma fork_point_le: "fork_point as bs \<le> length as" "fork_point as bs \<le> length bs"
  by (induction as bs rule: fork_point.induct) auto

lemma fork_point_diverges:
  "fork_point as bs < length as \<Longrightarrow> fork_point as bs < length bs \<Longrightarrow> as ! fork_point as bs \<noteq> bs ! fork_point as bs"
  by (induction as bs rule: fork_point.induct) auto

text \<open>Rolling back \<open>revert\<close> and applying \<open>apply\<close> turns our chain into theirs, and nothing shared is rolled back.\<close>

lemma compute_reorg_correct:
  assumes r: "compute_reorg ours theirs = r"
  obtains shared where "ours = shared @ rev (ro_revert r)" "theirs = shared @ ro_apply r"
    "shared \<noteq> [] \<Longrightarrow> ro_common_ancestor r = last shared"
    "ro_revert r \<noteq> [] \<Longrightarrow> ro_apply r \<noteq> [] \<Longrightarrow> last (ro_revert r) \<noteq> hd (ro_apply r)"
proof -
  let ?f = "fork_point ours theirs"
  have f: "?f \<le> length ours" "?f \<le> length theirs" by (rule fork_point_le)+
  show ?thesis
  proof (rule that [of "take ?f ours"])
    show "ours = take ?f ours @ rev (ro_revert r)" using r by (auto simp: compute_reorg_def Let_def)
    show "theirs = take ?f ours @ ro_apply r"
      using r fork_point_prefix [of ours theirs] by (auto simp: compute_reorg_def Let_def)
    show "ro_common_ancestor r = last (take ?f ours)" if "take ?f ours \<noteq> []"
      using r f that by (auto simp: compute_reorg_def Let_def last_conv_nth min_def)
    show "last (ro_revert r) \<noteq> hd (ro_apply r)" if "ro_revert r \<noteq> []" "ro_apply r \<noteq> []"
      using r that fork_point_diverges [of ours theirs]
      by (auto simp: compute_reorg_def Let_def last_rev hd_drop_conv_nth)
  qed
qed

text \<open>Fork choice is a strict order: no two heads replace each other in turn.\<close>

lemma should_switch_asym: "should_switch a b \<Longrightarrow> \<not> should_switch b a"
  by (auto simp: should_switch_def cmp_int_def split: if_splits)

lemma should_switch_trans: "should_switch a b \<Longrightarrow> should_switch b c \<Longrightarrow> should_switch a c"
  by (auto simp: should_switch_def cmp_int_def split: if_splits)

section \<open>Rewards\<close>

definition DEFAULT_BROKERAGE :: i64 where "DEFAULT_BROKERAGE = 20"

definition split_reward :: "i64 \<Rightarrow> i64 \<Rightarrow> i64 \<times> i64" where
  "split_reward value brokerage =
     (let brokerage = max 0 (min 100 brokerage); witness_cut = i64_sat (value * brokerage) sdiv 100
      in (witness_cut, i64_wrap (value - witness_cut)))"

definition distribute_to_voters :: "i64 \<Rightarrow> (bytes \<times> i64) list \<Rightarrow> (bytes \<times> i64) list" where
  "distribute_to_voters pool votes =
     (let total = sum_list (map snd votes) in
      if total \<le> 0 \<or> pool \<le> 0 then map (\<lambda>(a, _). (a, 0)) votes
      else map (\<lambda>(addr, weight). (addr, i64_wrap ((pool * weight) sdiv total))) votes)"

lemma split_reward_conserves:
  assumes "0 \<le> v" and "v \<le> i64_max"
  shows "fst (split_reward v b) + snd (split_reward v b) = v" and "0 \<le> fst (split_reward v b)" and "0 \<le> snd (split_reward v b)"
proof -
  define c where "c = max 0 (min 100 b)"
  have c: "0 \<le> c" "c \<le> 100" by (auto simp: c_def)
  define m where "m = i64_sat (v * c)"
  have m: "0 \<le> m" "m \<le> v * c"
    using mult_nonneg_nonneg [OF assms(1) c(1)] by (auto simp: m_def i64_sat_def i64_bounds_defs max_def min_def)
  have "m div 100 \<le> (v * 100) div 100" using m mult_left_mono [OF c(2) assms(1)] by (intro zdiv_mono1) linarith+
  then have "m div 100 \<le> v" by simp
  moreover have "0 \<le> m div 100" using m by simp
  moreover have "split_reward v b = (m div 100, i64_wrap (v - m div 100))"
    using m by (simp add: split_reward_def Let_def sdiv_nonneg flip: c_def m_def)
  ultimately show "fst (split_reward v b) + snd (split_reward v b) = v" "0 \<le> fst (split_reward v b)" "0 \<le> snd (split_reward v b)"
    using assms by (simp_all add: i64_bounds_defs)
qed


text \<open>The voters never receive more than the pool.\<close>

lemma shares_bounded: "0 < t \<Longrightarrow> sum_list (map (\<lambda>w. p * w div t) ws) * t \<le> p * sum_list ws" for t p :: int
proof (induction ws)
  case (Cons w ws)
  then show ?case using div_le_times [of t "p * w"] by (simp add: distrib_left distrib_right)
qed simp

lemma member_le_total: "\<forall>x\<in>set xs. 0 \<le> x \<Longrightarrow> w \<in> set xs \<Longrightarrow> w \<le> sum_list xs" for xs :: "int list"
  by (induction xs) (auto intro: add_increasing2 add_increasing simp: sum_list_nonneg)

lemma distribute_within_pool:
  assumes p: "0 \<le> pool" "pool \<le> i64_max" and w: "\<forall>(a, w)\<in>set votes. 0 \<le> w"
  shows "map fst (distribute_to_voters pool votes) = map fst votes"
    and "sum_list (map snd (distribute_to_voters pool votes)) \<le> pool"
    and "\<forall>(a, x)\<in>set (distribute_to_voters pool votes). 0 \<le> x"
proof -
  let ?t = "sum_list (map snd votes)"
  show "map fst (distribute_to_voters pool votes) = map fst votes"
    by (auto simp: distribute_to_voters_def Let_def)
  have nn: "0 \<le> x" if "x \<in> set (map snd votes)" for x using w that by auto
  show "sum_list (map snd (distribute_to_voters pool votes)) \<le> pool"
    "\<forall>(a, x)\<in>set (distribute_to_voters pool votes). 0 \<le> x"
  proof (atomize (full), cases "?t \<le> 0 \<or> pool \<le> 0")
    case True
    have "sum_list (map (snd \<circ> (\<lambda>(a, _). (a, 0 :: int))) vs) = 0" for vs :: "(bytes \<times> i64) list" by (induction vs) auto
    with True p show "sum_list (map snd (distribute_to_voters pool votes)) \<le> pool
        \<and> (\<forall>(a, x)\<in>set (distribute_to_voters pool votes). 0 \<le> x)"
      by (auto simp: distribute_to_voters_def Let_def)
  next
    case False
    have share: "i64_wrap (pool * w sdiv ?t) = pool * w div ?t \<and> 0 \<le> pool * w div ?t" if "w \<in> set (map snd votes)" for w
    proof -
      have w: "0 \<le> w" "w \<le> ?t" using nn that member_le_total [of "map snd votes" w] by auto
      have "pool * w div ?t \<le> pool * ?t div ?t" using False w p by (intro zdiv_mono1 mult_left_mono) simp_all
      then have "pool * w div ?t \<le> pool" using False by simp
      moreover have "0 \<le> pool * w div ?t" using False w p by (simp add: pos_imp_zdiv_nonneg_iff)
      ultimately show ?thesis using False w p by (simp add: sdiv_nonneg i64_bounds_defs)
    qed
    have share': "i64_wrap (pool * b sdiv ?t) = pool * b div ?t" if "(a, b) \<in> set votes" for a b
      using share [of b] image_eqI [of b snd "(a, b)" "set votes"] that by simp
    have e: "map snd (distribute_to_voters pool votes) = map (\<lambda>w. pool * w div ?t) (map snd votes)"
      using False share' by (auto simp: distribute_to_voters_def Let_def)
    have "sum_list (map (\<lambda>w. pool * w div ?t) (map snd votes)) * ?t \<le> pool * ?t" using False by (intro shares_bounded) simp
    then have "sum_list (map (\<lambda>w. pool * w div ?t) (map snd votes)) \<le> pool" using False by simp
    moreover have "0 \<le> x" if "(a, x) \<in> set (distribute_to_voters pool votes)" for a x
    proof -
      have "x \<in> set (map snd (distribute_to_voters pool votes))" using that image_eqI [of x snd "(a, x)"] by simp
      then show ?thesis using share unfolding e by auto
    qed
    ultimately show "sum_list (map snd (distribute_to_voters pool votes)) \<le> pool
        \<and> (\<forall>(a, x)\<in>set (distribute_to_voters pool votes). 0 \<le> x)" unfolding e by blast
  qed
qed


section \<open>The maintenance cycle\<close>

definition add_votes :: "vote \<Rightarrow> (bytes \<rightharpoonup> i64) \<Rightarrow> (bytes \<rightharpoonup> i64)" where
  "add_votes v tally =
     (let old = (case tally (vote_address v) of Some n \<Rightarrow> n | None \<Rightarrow> 0)
      in tally(vote_address v \<mapsto> i64_wrap (old + vote_count v)))"

definition count_votes :: "account list \<Rightarrow> (bytes \<rightharpoonup> i64)" where
  "count_votes voters = fold (\<lambda>voter tally. fold add_votes (acc_votes voter) tally) voters Map.empty"

definition sort_witnesses :: "(bytes \<times> i64) list \<Rightarrow> bytes list" where
  "sort_witnesses witnesses = map fst (sort_by cmp_witness witnesses)"

definition active_set :: "(bytes \<times> i64) list \<Rightarrow> bytes list" where
  "active_set witnesses = take MAX_ACTIVE_WITNESSES (sort_witnesses witnesses)"

definition all_witnesses :: "world_state \<Rightarrow> address list \<Rightarrow> witness list" where
  "all_witnesses s addrs = List.map_filter (\<lambda>a. ws_witnesses s (as_bytes a)) addrs"

text \<open>Step 2: the stored count of every candidate grows by its tally.\<close>

fun score_witnesses ::
  "(bytes \<rightharpoonup> i64) \<Rightarrow> address list \<Rightarrow> (bytes \<times> i64) list \<Rightarrow> world_state \<Rightarrow> (bytes \<times> i64) list \<times> world_state" where
  "score_witnesses tally [] scored s = (scored, s)"
| "score_witnesses tally (a # addrs) scored s =
     (case ws_witnesses s (as_bytes a) of
        None \<Rightarrow> score_witnesses tally addrs scored s
      | Some w \<Rightarrow>
          let added = (case tally (as_bytes a) of Some n \<Rightarrow> n | None \<Rightarrow> 0);
              w = w\<lparr>wit_vote_count := i64_wrap (wit_vote_count w + added)\<rparr>
          in score_witnesses tally addrs (scored @ [(as_bytes a, wit_vote_count w)])
               (s\<lparr>ws_witnesses := (ws_witnesses s)(as_bytes a \<mapsto> w)\<rparr>))"

definition parse_21 :: "bytes \<Rightarrow> address option" where
  "parse_21 b =
     (case to_array ADDRESS_LEN b of
        None \<Rightarrow> None
      | Some arr \<Rightarrow> (case from_bytes arr of Inl e \<Rightarrow> None | Inr a \<Rightarrow> Some a))"

definition run_maintenance :: "address list \<Rightarrow> address list \<Rightarrow> world_state \<Rightarrow> bytes list \<times> world_state" where
  "run_maintenance witness_addrs voter_addrs s =
     (let voters = List.map_filter (get_account s) voter_addrs;
          tally = count_votes voters;
          (scored, s) = score_witnesses tally witness_addrs [] s;
          elected = active_set scored;
          addrs = List.map_filter parse_21 elected
      in (elected, put_active_witnesses addrs s))"

lemma parse_21_as_bytes: "wf_address a \<Longrightarrow> parse_21 (as_bytes a) = Some a"
  by (simp add: parse_21_def to_array_def from_bytes_def wf_address_def)

lemma score_witnesses_scored:
  "score_witnesses tally addrs scored s = (scored', s') \<Longrightarrow>
   \<exists>more. scored' = scored @ more \<and> fst ` set more \<subseteq> as_bytes ` set addrs"
proof (induction tally addrs scored s rule: score_witnesses.induct)
  case (2 tally a addrs scored s)
  show ?case
  proof (cases "ws_witnesses s (as_bytes a)")
    case None
    with 2(3) have "score_witnesses tally addrs scored s = (scored', s')" by simp
    from 2(1) [OF None this] obtain more where "scored' = scored @ more" "fst ` set more \<subseteq> as_bytes ` set addrs" by blast
    then show ?thesis by (intro exI [of _ more]) auto
  next
    case (Some w)
    let ?added = "case tally (as_bytes a) of Some n \<Rightarrow> n | None \<Rightarrow> 0"
    let ?w = "w\<lparr>wit_vote_count := i64_wrap (wit_vote_count w + ?added)\<rparr>"
    from 2(3) Some have "score_witnesses tally addrs (scored @ [(as_bytes a, wit_vote_count ?w)])
        (s\<lparr>ws_witnesses := (ws_witnesses s)(as_bytes a \<mapsto> ?w)\<rparr>) = (scored', s')" by (simp add: Let_def)
    from 2(2) [OF Some refl refl this] obtain more where
      "scored' = (scored @ [(as_bytes a, wit_vote_count ?w)]) @ more" "fst ` set more \<subseteq> as_bytes ` set addrs"
      by blast
    then show ?thesis by (intro exI [of _ "(as_bytes a, wit_vote_count ?w) # more"]) auto
  qed
qed simp

lemma score_witnesses_frame:
  "score_witnesses tally addrs scored s = (scored', s') \<Longrightarrow> \<exists>W. s' = s\<lparr>ws_witnesses := W\<rparr>"
proof (induction tally addrs scored s rule: score_witnesses.induct)
  case (1 tally scored s)
  then show ?case by (auto intro: exI [of _ "ws_witnesses s"])
next
  case (2 tally a addrs scored s)
  show ?case
  proof (cases "ws_witnesses s (as_bytes a)")
    case None
    with 2(1,3) show ?thesis by simp
  next
    case (Some w)
    let ?added = "case tally (as_bytes a) of Some n \<Rightarrow> n | None \<Rightarrow> 0"
    let ?w = "w\<lparr>wit_vote_count := i64_wrap (wit_vote_count w + ?added)\<rparr>"
    from 2(3) Some have "score_witnesses tally addrs (scored @ [(as_bytes a, wit_vote_count ?w)])
        (s\<lparr>ws_witnesses := (ws_witnesses s)(as_bytes a \<mapsto> ?w)\<rparr>) = (scored', s')" by (simp add: Let_def)
    from 2(2) [OF Some refl refl this] show ?thesis by auto
  qed
qed

text \<open>The stored active set is the elected one, at most 27 long and in election order.\<close>

lemma active_set_top:
  assumes "(a, v) \<in> set ws" and "(b, u) \<in> set ws" and "distinct (map fst ws)"
    and "a \<in> set (active_set ws)" and "b \<notin> set (active_set ws)"
  shows "u < v \<or> (u = v \<and> cmp_bytes b a = Less)"
proof -
  let ?n = MAX_ACTIVE_WITNESSES and ?ws = "sort_by cmp_witness ws"
  have d: "distinct (map fst ?ws)" using assms(3) by (metis distinct_sort_by mset_map mset_sort_by mset_eq_imp_distinct_iff)
  have ia: "(a, v) \<in> set (take ?n ?ws)"
  proof -
    from assms(4) obtain v' where v': "(a, v') \<in> set (take ?n ?ws)"
      by (auto simp: active_set_def sort_witnesses_def take_map)
    then have "(a, v') \<in> set ws" by (metis in_set_takeD set_sort_by)
    then have "v' = v" using assms(1,3) by (metis eq_key_imp_eq_value)
    with v' show ?thesis by simp
  qed
  have "(b, u) \<notin> set (take ?n ?ws)" using assms(5) by (force simp: active_set_def sort_witnesses_def take_map)
  moreover have "(b, u) \<in> set (take ?n ?ws @ drop ?n ?ws)" using assms(2) by simp
  ultimately have ib: "(b, u) \<in> set (drop ?n ?ws)" unfolding set_append by blast
  have "sorted_wrt (\<lambda>a b. cmp_witness a b \<noteq> Greater) (take ?n ?ws @ drop ?n ?ws)"
    using witness_order.sorted_sort_by [of ws] by (simp add: sorted_by_def)
  then have "cmp_witness (a, v) (b, u) \<noteq> Greater" using ia ib unfolding sorted_wrt_append by blast
  moreover have "a \<noteq> b" using assms(4,5) by auto
  ultimately show ?thesis using cmp_bytes_Equal [of b a]
    by (cases "cmp_bytes b a") (auto simp: cmp_witness_def then_with_def cmp_int_def split: if_splits)
qed

lemma run_maintenance_active:
  assumes w: "\<forall>a\<in>set witness_addrs. wf_address a" and r: "run_maintenance witness_addrs voter_addrs s = (elected, s')"
  shows "get_active_witnesses s' = elected" and "length elected \<le> MAX_ACTIVE_WITNESSES"
    and "set elected \<subseteq> as_bytes ` set witness_addrs"
proof -
  obtain scored s1 where sc: "score_witnesses (count_votes (List.map_filter (get_account s) voter_addrs)) witness_addrs [] s = (scored, s1)"
    by fastforce
  have e: "elected = active_set scored" "s' = put_active_witnesses (List.map_filter parse_21 elected) s1"
    using r sc by (auto simp: run_maintenance_def Let_def)
  have "fst ` set scored \<subseteq> as_bytes ` set witness_addrs" using score_witnesses_scored [OF sc] by auto
  then show sub: "set elected \<subseteq> as_bytes ` set witness_addrs"
    using set_take_subset by (force simp: e active_set_def sort_witnesses_def)
  show "length elected \<le> MAX_ACTIVE_WITNESSES" by (simp add: e active_set_def)
  have "map as_bytes (List.map_filter parse_21 es) = es" if "set es \<subseteq> as_bytes ` set witness_addrs" for es
    using that w by (induction es) (auto simp: map_filter_simps parse_21_as_bytes)
  then show "get_active_witnesses s' = elected" using sub e by (simp add: get_active_witnesses_def put_active_witnesses_def)
qed

end
