(* ===== verification/Mempool.thy ===== *)
theory Mempool
  imports Consensus
begin

text \<open>
  The pool of pending transactions (\<open>src/crates/consensus/src/mempool.rs\<close>): insertion-ordered, without
  duplicates and bounded, with the admission pipeline in front of it.  The check of the contract is a closure
  of the caller and stays an argument here.
\<close>

section \<open>The pool\<close>

definition DEFAULT_CAPACITY :: nat where "DEFAULT_CAPACITY = 10000"
definition MAX_TX_SIZE :: nat where "MAX_TX_SIZE = 512 * 1024"
definition MAX_FUTURE_EXPIRATION_MS :: i64 where "MAX_FUTURE_EXPIRATION_MS = 24 * 60 * 60 * 1000"

datatype admit_error =
    TooLarge nat
  | NoRawData
  | NoContract
  | BadSignature
  | Expired i64 i64
  | TooFarInFuture i64 i64
  | RefBlockMismatch
  | Duplicate
  | AlreadyIncluded
  | Invalid string
  | PoolFull

record mempool =
  mp_order :: "(h256 \<times> transaction) list"
  mp_seen :: "h256 set"
  mp_capacity :: nat

definition mempool_new :: "nat \<Rightarrow> mempool" where
  "mempool_new capacity = \<lparr>mp_order = [], mp_seen = {}, mp_capacity = capacity\<rparr>"

definition mempool_default :: mempool where
  "mempool_default = mempool_new DEFAULT_CAPACITY"

definition pool_len :: "mempool \<Rightarrow> nat" where
  "pool_len p = length (mp_order p)"

definition pool_is_empty :: "mempool \<Rightarrow> bool" where
  "pool_is_empty p \<longleftrightarrow> mp_order p = []"

definition pool_contains :: "mempool \<Rightarrow> h256 \<Rightarrow> bool" where
  "pool_contains p i \<longleftrightarrow> i \<in> mp_seen p"

definition pool_add :: "('k, 'p) externals \<Rightarrow> transaction \<Rightarrow> mempool \<Rightarrow> bool \<times> mempool" where
  "pool_add x tx p =
     (if mp_capacity p \<le> length (mp_order p) then (False, p)
      else let i = tx_id x tx in
        if i \<in> mp_seen p then (False, p)
        else (True, p\<lparr>mp_seen := insert i (mp_seen p), mp_order := mp_order p @ [(i, tx)]\<rparr>))"

text \<open>The first entry with the id goes (\<open>position\<close> and \<open>Vec::remove\<close>).\<close>

fun remove_first :: "h256 \<Rightarrow> (h256 \<times> transaction) list \<Rightarrow> (h256 \<times> transaction) list" where
  "remove_first i [] = []"
| "remove_first i ((j, tx) # rest) = (if j = i then rest else (j, tx) # remove_first i rest)"

definition pool_remove :: "h256 \<Rightarrow> mempool \<Rightarrow> bool \<times> mempool" where
  "pool_remove i p =
     (if i \<notin> mp_seen p then (False, p)
      else (True, p\<lparr>mp_seen := mp_seen p - {i}, mp_order := remove_first i (mp_order p)\<rparr>))"

definition pool_peek :: "mempool \<Rightarrow> nat \<Rightarrow> transaction list" where
  "pool_peek p n = map snd (take n (mp_order p))"

definition evict_included :: "('k, 'p) externals \<Rightarrow> block \<Rightarrow> mempool \<Rightarrow> mempool" where
  "evict_included x block p = fold (\<lambda>tx p. snd (pool_remove (tx_id x tx) p)) (bk_transactions block) p"

definition expiration_of :: "transaction \<Rightarrow> i64" where
  "expiration_of tx = (case tx_raw_data tx of Some r \<Rightarrow> tr_expiration r | None \<Rightarrow> 0)"

definition keep_at :: "i64 \<Rightarrow> transaction \<Rightarrow> bool" where
  "keep_at now_ms tx \<longleftrightarrow> expiration_of tx = 0 \<or> now_ms < expiration_of tx"

definition evict_expired :: "i64 \<Rightarrow> mempool \<Rightarrow> nat \<times> mempool" where
  "evict_expired now_ms p =
     (let kept = filter (\<lambda>(i, tx). keep_at now_ms tx) (mp_order p);
          gone = filter (\<lambda>(i, tx). \<not> keep_at now_ms tx) (mp_order p)
      in (length (mp_order p) - length kept, p\<lparr>mp_order := kept, mp_seen := mp_seen p - fst ` set gone\<rparr>))"

section \<open>Admission\<close>

definition verify_ref_block :: "('k, 'p) externals \<Rightarrow> world_state \<Rightarrow> tx_raw \<Rightarrow> admit_error + unit" where
  "verify_ref_block x s raw =
     (if tr_ref_block_hash raw = [] then Inr ()
      else let head = get_prop_i64 s LATEST_BLOCK_NUMBER in
        if head \<le> 0 \<or> length (tr_ref_block_bytes raw) \<noteq> 2 then Inr ()
        else let ref16 = int (be_val (tr_ref_block_bytes raw));
                 diff = (head - ref16) mod 0x10000;
                 candidate = head - diff
          in case get_block_by_num s candidate of
               None \<Rightarrow> Inl RefBlockMismatch
             | Some b \<Rightarrow>
                 rbind (ok_or (block_id_of x b) RefBlockMismatch) (\<lambda>i.
                 ensure (take 8 (drop 8 (h256_bytes i)) = tr_ref_block_hash raw) RefBlockMismatch))"

definition check_expiration :: "i64 \<Rightarrow> tx_raw \<Rightarrow> admit_error + unit" where
  "check_expiration now_ms raw =
     (if tr_expiration raw = 0 then Inr ()
      else rbind (ensure (now_ms < tr_expiration raw) (Expired (tr_expiration raw) now_ms)) (\<lambda>_.
           ensure (tr_expiration raw \<le> i64_wrap (now_ms + MAX_FUTURE_EXPIRATION_MS))
             (TooFarInFuture (tr_expiration raw) now_ms)))"

definition check_signer :: "('k, 'p) externals \<Rightarrow> transaction \<Rightarrow> admit_error + unit" where
  "check_signer x tx =
     rbind (ok_or (recover_tx_signer x tx) BadSignature) (\<lambda>signer.
     case tx_owner_address tx of
       Some owner \<Rightarrow> ensure (as_bytes signer = owner) BadSignature
     | None \<Rightarrow> Inr ())"

definition admit_transaction ::
  "('k, 'p) externals \<Rightarrow> (world_state \<Rightarrow> transaction \<Rightarrow> string + unit) \<Rightarrow> world_state \<Rightarrow> i64 \<Rightarrow> transaction
    \<Rightarrow> mempool \<Rightarrow> (admit_error + h256) \<times> mempool" where
  "admit_transaction x validate s now_ms tx p =
     (let size = length (ext_encode_tx x tx) in
      case
        rbind (ensure (size \<le> MAX_TX_SIZE) (TooLarge size)) (\<lambda>_.
        rbind (ok_or (tx_raw_data tx) NoRawData) (\<lambda>raw.
        rbind (ensure (tr_contract raw \<noteq> []) NoContract) (\<lambda>_.
        rbind (check_signer x tx) (\<lambda>_.
        rbind (check_expiration now_ms raw) (\<lambda>_.
        rbind (verify_ref_block x s raw) (\<lambda>_.
        let i = tx_id x tx in
        rbind (ensure (\<not> pool_contains p i) Duplicate) (\<lambda>_.
        rbind (ensure (get_transaction s (h256_bytes i) = None) AlreadyIncluded) (\<lambda>_.
        case validate s tx of Inl e \<Rightarrow> Inl (Invalid e) | Inr _ \<Rightarrow> Inr i))))))))
      of
        Inl e \<Rightarrow> (Inl e, p)
      | Inr i \<Rightarrow>
          (case pool_add x tx p of
             (False, p') \<Rightarrow> (Inl PoolFull, p')
           | (True, p') \<Rightarrow> (Inr i, p')))"

section \<open>The invariant of the pool\<close>

text \<open>
  The two views of the pool agree: the entries are listed once each under the id of their transaction, the set
  holds exactly these ids, and the capacity bounds their number.
\<close>

definition wf_pool :: "('k, 'p) externals \<Rightarrow> mempool \<Rightarrow> bool" where
  "wf_pool x p \<longleftrightarrow>
     distinct (map fst (mp_order p)) \<and> mp_seen p = fst ` set (mp_order p)
     \<and> (\<forall>(i, tx)\<in>set (mp_order p). i = tx_id x tx) \<and> length (mp_order p) \<le> mp_capacity p"

lemma wf_pool_new: "wf_pool x (mempool_new c)"
  by (simp add: wf_pool_def mempool_new_def)

lemma wf_pool_add: "wf_pool x p \<Longrightarrow> wf_pool x (snd (pool_add x tx p))"
  by (auto simp: wf_pool_def pool_add_def Let_def)

lemma set_remove_first: "distinct (map fst xs) \<Longrightarrow> set (remove_first i xs) = {e \<in> set xs. fst e \<noteq> i}"
  by (induction i xs rule: remove_first.induct) (auto simp: image_iff)

lemma distinct_remove_first: "distinct (map fst xs) \<Longrightarrow> distinct (map fst (remove_first i xs))"
  by (induction i xs rule: remove_first.induct) (auto simp: set_remove_first)

lemma length_remove_first: "length (remove_first i xs) \<le> length xs"
  by (induction i xs rule: remove_first.induct) auto

lemma wf_pool_remove: "wf_pool x p \<Longrightarrow> wf_pool x (snd (pool_remove i p))"
  using length_remove_first [of i "mp_order p"]
  by (auto simp: wf_pool_def pool_remove_def set_remove_first distinct_remove_first image_iff)

lemma wf_pool_evict_included: "wf_pool x p \<Longrightarrow> wf_pool x (evict_included x b p)"
proof -
  have "wf_pool x p \<Longrightarrow> wf_pool x (fold (\<lambda>tx p. snd (pool_remove (tx_id x tx) p)) txs p)" for txs
    by (induction txs arbitrary: p) (auto simp: wf_pool_remove)
  then show "wf_pool x p \<Longrightarrow> wf_pool x (evict_included x b p)" by (simp add: evict_included_def)
qed

lemma distinct_map_fst_filter: "distinct (map fst xs) \<Longrightarrow> distinct (map fst (filter P xs))"
  by (induction xs) auto

lemma wf_pool_evict_expired: "wf_pool x p \<Longrightarrow> wf_pool x (snd (evict_expired now p))"
proof -
  assume w: "wf_pool x p"
  let ?keep = "\<lambda>(i, tx). keep_at now tx"
  have "fst ` {e \<in> set (mp_order p). \<not> ?keep e} \<inter> fst ` {e \<in> set (mp_order p). ?keep e} = {}"
  proof -
    have "e = e'" if "e \<in> set (mp_order p)" "e' \<in> set (mp_order p)" "fst e = fst e'" for e e'
      using w that by (cases e; cases e') (auto simp: wf_pool_def intro: eq_key_imp_eq_value)
    then show ?thesis by (auto simp: image_iff)
  qed
  then have "mp_seen p - fst ` {e \<in> set (mp_order p). \<not> ?keep e} = fst ` {e \<in> set (mp_order p). ?keep e}"
    using w by (auto simp: wf_pool_def)
  with w show ?thesis
    using order_trans [OF length_filter_le [of ?keep "mp_order p"]] distinct_map_fst_filter [of "mp_order p" ?keep]
    by (auto simp: wf_pool_def evict_expired_def Let_def case_prod_unfold)
qed

lemma wf_pool_admit: "wf_pool x p \<Longrightarrow> wf_pool x (snd (admit_transaction x validate s now tx p))"
  using wf_pool_add [of x p tx]
  by (auto simp: admit_transaction_def Let_def split: sum.splits prod.splits bool.splits)


section \<open>Pools of a running node\<close>

text \<open>
  A node fills its pool by admission only and removes what a block includes or what expires.  What it is then
  holding, at any time, are transactions that passed the checks.
\<close>

inductive node_pool :: "('k, 'p) externals \<Rightarrow> nat \<Rightarrow> mempool \<Rightarrow> bool" for x capacity where
  pool_start: "node_pool x capacity (mempool_new capacity)"
| pool_admit: "node_pool x capacity p \<Longrightarrow> node_pool x capacity (snd (admit_transaction x validate s now tx p))"
| pool_removed: "node_pool x capacity p \<Longrightarrow> node_pool x capacity (snd (pool_remove i p))"
| pool_included: "node_pool x capacity p \<Longrightarrow> node_pool x capacity (evict_included x b p)"
| pool_expired: "node_pool x capacity p \<Longrightarrow> node_pool x capacity (snd (evict_expired now p))"

text \<open>The part of the pipeline that does not depend on the chain or the clock.\<close>

definition well_signed :: "('k, 'p) externals \<Rightarrow> transaction \<Rightarrow> bool" where
  "well_signed x tx \<longleftrightarrow>
     length (ext_encode_tx x tx) \<le> MAX_TX_SIZE \<and> (\<exists>raw. tx_raw_data tx = Some raw \<and> tr_contract raw \<noteq> [])
     \<and> (\<exists>signer. recover_tx_signer x tx = Some signer
          \<and> (\<forall>owner. tx_owner_address tx = Some owner \<longrightarrow> as_bytes signer = owner))"

lemma check_signer_Inr:
  "check_signer x tx = Inr u \<longleftrightarrow> (\<exists>signer. recover_tx_signer x tx = Some signer
     \<and> (\<forall>owner. tx_owner_address tx = Some owner \<longrightarrow> as_bytes signer = owner))"
  by (auto simp: check_signer_def result_simps split: option.splits)

text \<open>Admission either leaves the pool alone or appends the transaction, which then passed every check.\<close>

lemma admit_transaction_cases:
  obtains e where "admit_transaction x validate s now tx p = (Inl e, p)"
  | "admit_transaction x validate s now tx p
       = (Inr (tx_id x tx), p\<lparr>mp_seen := insert (tx_id x tx) (mp_seen p), mp_order := mp_order p @ [(tx_id x tx, tx)]\<rparr>)"
    "well_signed x tx" "length (mp_order p) < mp_capacity p" "tx_id x tx \<notin> mp_seen p"
    "get_transaction s (h256_bytes (tx_id x tx)) = None" "validate s tx = Inr ()"
proof -
  define r where "r = fst (admit_transaction x validate s now tx p)"
  obtain p' where e: "admit_transaction x validate s now tx p = (r, p')" unfolding r_def by (metis prod.collapse)
  show ?thesis
  proof (cases r)
    case (Inl er)
    with e have "p' = p"
      by (auto simp: admit_transaction_def pool_add_def Let_def split: sum.splits if_splits)
    with e Inl that(1) show ?thesis by blast
  next
    case (Inr i)
    with e have *: "well_signed x tx" "length (mp_order p) < mp_capacity p" "tx_id x tx \<notin> mp_seen p"
      "get_transaction s (h256_bytes (tx_id x tx)) = None" "validate s tx = Inr ()" "i = tx_id x tx"
      "p' = p\<lparr>mp_seen := insert (tx_id x tx) (mp_seen p), mp_order := mp_order p @ [(tx_id x tx, tx)]\<rparr>"
      by (auto simp: admit_transaction_def pool_add_def Let_def result_simps well_signed_def check_signer_Inr pool_contains_def
          split: sum.splits if_splits)
    with e Inr that(2) show ?thesis by simp
  qed
qed

lemma mp_capacity_ops [simp]:
  "mp_capacity (mempool_new c) = c" "mp_capacity (snd (pool_remove i p)) = mp_capacity p"
  "mp_capacity (snd (evict_expired now p)) = mp_capacity p"
  by (simp_all add: mempool_new_def pool_remove_def evict_expired_def Let_def)

lemma node_pool_wf: "node_pool x c p \<Longrightarrow> wf_pool x p \<and> mp_capacity p = c"
proof (induction rule: node_pool.induct)
  case (pool_admit p validate s now tx)
  then show ?case using wf_pool_admit [of x p]
    by (cases rule: admit_transaction_cases [of x validate s now tx p]) (auto simp: wf_pool_def)
next
  case (pool_included p b)
  have "mp_capacity (fold (\<lambda>tx p. snd (pool_remove (tx_id x tx) p)) txs p) = mp_capacity p" for txs
    by (induction txs arbitrary: p) simp_all
  with pool_included show ?case by (simp add: wf_pool_evict_included) (simp add: evict_included_def)
qed (simp_all add: wf_pool_new wf_pool_remove wf_pool_evict_expired)

lemma evict_included_subset: "set (mp_order (evict_included x b p)) \<subseteq> set (mp_order p)"
proof -
  have r: "set (remove_first i xs) \<subseteq> set xs" for i xs by (induction i xs rule: remove_first.induct) auto
  have "set (mp_order (fold (\<lambda>tx p. snd (pool_remove (tx_id x tx) p)) txs p)) \<subseteq> set (mp_order p)" for txs
  proof (induction txs arbitrary: p)
    case (Cons tx txs)
    have "set (mp_order (snd (pool_remove (tx_id x tx) p))) \<subseteq> set (mp_order p)" using r by (simp add: pool_remove_def)
    with Cons [of "snd (pool_remove (tx_id x tx) p)"] show ?case by auto
  qed simp
  then show ?thesis by (simp add: evict_included_def)
qed

lemma node_pool_signed: "node_pool x c p \<Longrightarrow> \<forall>(i, tx)\<in>set (mp_order p). well_signed x tx"
proof (induction rule: node_pool.induct)
  case pool_start
  then show ?case by (simp add: mempool_new_def)
next
  case (pool_admit p validate s now tx)
  then show ?case by (cases rule: admit_transaction_cases [of x validate s now tx p]) auto
next
  case (pool_removed p i)
  have "set (remove_first i xs) \<subseteq> set xs" for xs by (induction i xs rule: remove_first.induct) auto
  with pool_removed show ?case by (auto simp: pool_remove_def)
next
  case (pool_included p b)
  then show ?case using evict_included_subset [of x b p] by blast
next
  case (pool_expired p now)
  then show ?case by (auto simp: evict_expired_def Let_def)
qed

lemma evict_included_gone:
  assumes "wf_pool x p" and "t \<in> set (bk_transactions b)"
  shows "tx_id x t \<notin> mp_seen (evict_included x b p)"
proof -
  let ?f = "\<lambda>tx p. snd (pool_remove (tx_id x tx) p)"
  have sub: "mp_seen (fold ?f txs q) \<subseteq> mp_seen q" for txs q
  proof (induction txs arbitrary: q)
    case (Cons tx txs)
    have "mp_seen (?f tx q) \<subseteq> mp_seen q" by (auto simp: pool_remove_def)
    with Cons [of "?f tx q"] show ?case by auto
  qed simp
  obtain us vs where b: "bk_transactions b = us @ t # vs" using assms(2) by (meson split_list)
  have "tx_id x t \<notin> mp_seen (?f t (fold ?f us p))" by (simp add: pool_remove_def)
  with sub [of vs "?f t (fold ?f us p)"] show ?thesis by (auto simp: evict_included_def b)
qed

lemma pool_peek_entries: "pool_peek p n = map snd (take n (mp_order p))"
  by (simp add: pool_peek_def)

text \<open>
  C26: The type of a node's pool.  Whatever sequence of admissions, removals and evictions a node performs, its
  pool never exceeds its capacity, lists every transaction once and under its own id, answers membership by
  exactly the listed ids, and holds only transactions within the size limit, with a contract and with a
  recoverable signature, by the contract's owner when the contract names one.  What a producer takes from it
  therefore has no duplicates, and a transaction of an applied block is no longer in it.
\<close>

theorem mempool_invariant:
  assumes "node_pool x capacity p"
  shows "pool_len p \<le> capacity \<and> distinct (map fst (mp_order p))
    \<and> (\<forall>i. pool_contains p i \<longleftrightarrow> (\<exists>tx. (i, tx) \<in> set (mp_order p) \<and> tx_id x tx = i \<and> well_signed x tx))
    \<and> distinct (map (tx_id x) (pool_peek p n))
    \<and> (\<forall>t\<in>set (bk_transactions b). \<not> pool_contains (evict_included x b p) (tx_id x t))"
proof (intro conjI)
  have w: "wf_pool x p" "mp_capacity p = capacity" using node_pool_wf [OF assms] by simp_all
  note sg = node_pool_signed [OF assms]
  show "pool_len p \<le> capacity" "distinct (map fst (mp_order p))" using w by (simp_all add: wf_pool_def pool_len_def)
  show "\<forall>i. pool_contains p i \<longleftrightarrow> (\<exists>tx. (i, tx) \<in> set (mp_order p) \<and> tx_id x tx = i \<and> well_signed x tx)"
    using w(1) sg by (force simp: wf_pool_def pool_contains_def)
  have "map (tx_id x) (pool_peek p n) = take n (map fst (mp_order p))"
    using w(1) by (auto simp: pool_peek_entries take_map wf_pool_def dest!: in_set_takeD)
  then show "distinct (map (tx_id x) (pool_peek p n))" using w(1) by (simp add: wf_pool_def)
  show "\<forall>t\<in>set (bk_transactions b). \<not> pool_contains (evict_included x b p) (tx_id x t)"
    using evict_included_gone [OF w(1)] by (simp add: pool_contains_def)
qed

definition sample_tx :: transaction where
  "sample_tx = \<lparr>tx_raw_data = Some \<lparr>tr_ref_block_bytes = [1, 2], tr_ref_block_num = 0, tr_ref_block_hash = [], tr_expiration = 0,
     tr_contract = [\<lparr>tc_type = 1, tc_parameter = None\<rparr>], tr_timestamp = 0\<rparr>, tx_signature = [replicate 64 7 @ [27]]\<rparr>"

definition sample_pool :: mempool where
  "sample_pool = snd (admit_transaction (sample_externals \<lparr>bk_transactions = [], bk_header = None\<rparr> sample_tx) (\<lambda>s tx. Inr ()) ws_empty 0 sample_tx (mempool_new 1))"

theorem mempool_invariant_witness:
  "pool_len sample_pool = 1 \<and> pool_peek sample_pool 5 = [sample_tx]
   \<and> distinct (map (tx_id (sample_externals \<lparr>bk_transactions = [], bk_header = None\<rparr> sample_tx)) (pool_peek sample_pool 5))
   \<and> pool_contains sample_pool (tx_id (sample_externals \<lparr>bk_transactions = [], bk_header = None\<rparr> sample_tx) sample_tx)"
proof -
  let ?x = "sample_externals \<lparr>bk_transactions = [], bk_header = None\<rparr> sample_tx"
  have np: "node_pool ?x 1 sample_pool" unfolding sample_pool_def by (intro node_pool.intros)
  from mempool_invariant [OF np, of 5] have m: "distinct (map (tx_id ?x) (pool_peek sample_pool 5))"
    "\<And>i. pool_contains sample_pool i \<longleftrightarrow> (\<exists>tx. (i, tx) \<in> set (mp_order sample_pool) \<and> tx_id ?x tx = i \<and> well_signed ?x tx)"
    by blast+
  have s: "mp_order sample_pool = [(tx_id ?x sample_tx, sample_tx)]"
  proof -
    have raw: "tx_raw_data sample_tx = Some \<lparr>tr_ref_block_bytes = [1, 2], tr_ref_block_num = 0, tr_ref_block_hash = [], tr_expiration = 0,
      tr_contract = [\<lparr>tc_type = 1, tc_parameter = None\<rparr>], tr_timestamp = 0\<rparr>" and "tx_owner_address sample_tx = None"
      by (simp_all add: sample_tx_def tx_owner_address_def)
    moreover have "recover_tx_signer ?x sample_tx \<noteq> None"
      by (simp add: recover_tx_signer_def sample_tx_def recover_65_def nth_append sample_externals_def recover_def ok_or_def Let_def)
    ultimately have "check_signer ?x sample_tx = Inr ()" by (auto simp: check_signer_def ok_or_def)
    moreover have "ext_encode_tx ?x sample_tx = []" by (simp add: sample_externals_def)
    ultimately show ?thesis
      by (simp add: sample_pool_def admit_transaction_def raw ok_or_def check_expiration_def verify_ref_block_def Let_def
          ensure_def pool_contains_def mempool_new_def get_transaction_def ws_empty_def pool_add_def)
  qed
  show ?thesis using m s node_pool_signed [OF np] by (auto simp: pool_len_def pool_peek_entries)
qed

end
