(* ===== verification/Production.thy ===== *)
theory Production
  imports Mempool
begin

text \<open>
  Blocks from production to acceptance: validation and the intake gate (\<open>validation\<close> in
  \<open>src/crates/consensus/src/lib.rs\<close>), assembling and signing (\<open>producer.rs\<close>), the decision to produce in a
  slot and the local application (\<open>src/crates/node/src/production.rs\<close>) and the application of blocks received
  from peers (\<open>src/crates/node/src/sync.rs\<close>).
\<close>

section \<open>Validation\<close>

datatype block_validation_error =
    MissingHeader
  | TxTrieRootMismatch string string
  | BadWitnessSignature nat
  | WitnessMismatch string string
  | BadParentLink i64 i64
  | SignerNotActiveWitness string

record validation_options =
  require_witness_signature :: bool

definition validation_options_default :: validation_options where
  "validation_options_default = \<lparr>require_witness_signature = True\<rparr>"

definition validate_block :: "('k, 'p) externals \<Rightarrow> block \<Rightarrow> validation_options \<Rightarrow> block_validation_error + unit" where
  "validate_block x block opts =
     rbind (ok_or (bk_header block) MissingHeader) (\<lambda>header.
     rbind (ok_or (bh_raw_data header) MissingHeader) (\<lambda>raw.
     let computed = h256_bytes (tx_trie_root x block) in
     rbind (ensure (computed = hr_tx_trie_root raw)
       (TxTrieRootMismatch (ext_hex_encode x (hr_tx_trie_root raw)) (ext_hex_encode x computed))) (\<lambda>_.
     rbind (if 0 < hr_number raw \<and> length (hr_parent_hash raw) = 32
            then let got = i64_from_be_bytes (take 8 (hr_parent_hash raw)) in
                 ensure (got = hr_number raw - 1) (BadParentLink got (hr_number raw - 1))
            else Inr ()) (\<lambda>_.
     if bh_witness_signature header = [] \<and> \<not> require_witness_signature opts then Inr ()
     else
       rbind (ensure (length (bh_witness_signature header) = 65)
         (BadWitnessSignature (length (bh_witness_signature header)))) (\<lambda>_.
       rbind (ok_or (recover_witness x block) (BadWitnessSignature (length (bh_witness_signature header)))) (\<lambda>recovered.
       ensure (as_bytes recovered = hr_witness_address raw)
         (WitnessMismatch (ext_hex_encode x (as_bytes recovered)) (ext_hex_encode x (hr_witness_address raw)))))))))"

definition validate_block_intake :: "('k, 'p) externals \<Rightarrow> block \<Rightarrow> bytes list \<Rightarrow> block_validation_error + unit" where
  "validate_block_intake x block active_witnesses =
     rbind (validate_block x block \<lparr>require_witness_signature = True\<rparr>) (\<lambda>_.
     rbind (ok_or (recover_witness x block) (BadWitnessSignature 0)) (\<lambda>recovered.
     let producer = as_bytes recovered in
     ensure (producer \<in> set active_witnesses) (SignerNotActiveWitness (ext_hex_encode x producer))))"

section \<open>Assembling and signing a block\<close>

text \<open>\<open>expect("sign header")\<close> cannot fail: \<open>sign_digest\<close> always returns a signature.\<close>

definition sign_header :: "('k, 'p) externals \<Rightarrow> 'k \<Rightarrow> header_raw \<Rightarrow> bytes" where
  "sign_header x witness_key raw =
     (case sign_digest x witness_key (sha256 x (ext_encode_header_raw x raw)) of
        Inr sig \<Rightarrow> pack_signature sig
      | Inl e \<Rightarrow> [])"

definition produce_block ::
  "('k, 'p) externals \<Rightarrow> block \<Rightarrow> 'k \<Rightarrow> i64 \<Rightarrow> transaction list \<Rightarrow> int \<Rightarrow> block" where
  "produce_block x parent witness_key timestamp txs version =
     (let parent_number = (case raw_header parent of Some r \<Rightarrow> hr_number r | None \<Rightarrow> 0);
          parent_id = (case block_id_of x parent of Some h \<Rightarrow> h256_bytes h | None \<Rightarrow> replicate 32 0);
          witness_address = as_bytes (address_from_public_key x (public_key x witness_key));
          tx_root = h256_bytes (tx_trie_root x \<lparr>bk_transactions = txs, bk_header = None\<rparr>);
          raw = \<lparr>hr_timestamp = timestamp, hr_tx_trie_root = tx_root, hr_parent_hash = parent_id,
                 hr_number = i64_wrap (parent_number + 1), hr_witness_address = witness_address, hr_version = version\<rparr>
      in \<lparr>bk_transactions = txs,
          bk_header = Some \<lparr>bh_raw_data = Some raw, bh_witness_signature = sign_header x witness_key raw\<rparr>\<rparr>)"

definition produce_from_pool ::
  "('k, 'p) externals \<Rightarrow> block \<Rightarrow> 'k \<Rightarrow> i64 \<Rightarrow> mempool \<Rightarrow> nat \<Rightarrow> int \<Rightarrow> block" where
  "produce_from_pool x parent witness_key timestamp pool max_txs version =
     produce_block x parent witness_key timestamp (pool_peek pool max_txs) version"

section \<open>The decision to produce\<close>

definition MAX_BLOCK_TXS :: nat where "MAX_BLOCK_TXS = 1000"
definition BLOCK_VERSION :: int where "BLOCK_VERSION = 30"

definition header_ts_num :: "block \<Rightarrow> (i64 \<times> i64) option" where
  "header_ts_num block = Option.bind (raw_header block) (\<lambda>raw. Some (hr_timestamp raw, hr_number raw))"

text \<open>The cast \<open>as u64\<close> of a 64-bit integer.\<close>

definition as_u64 :: "i64 \<Rightarrow> u64" where
  "as_u64 v = nat (v mod 2 ^ 64)"

definition as_i64 :: "u64 \<Rightarrow> i64" where
  "as_i64 v = i64_wrap (int v)"

definition try_produce :: "('k, 'p) externals \<Rightarrow> world_state \<Rightarrow> mempool \<Rightarrow> 'k \<Rightarrow> i64 \<Rightarrow> block option" where
  "try_produce x s pool witness_key now_ms =
     Option.bind (get_now_block s) (\<lambda>head.
     Option.bind (get_block_by_num s 0) (\<lambda>genesis.
     Option.bind (header_ts_num genesis) (\<lambda>(genesis_ts, _).
     Option.bind (header_ts_num head) (\<lambda>(head_ts, _).
     if now_ms \<le> genesis_ts then None
     else let now_slot = slot_of (as_u64 now_ms) (as_u64 genesis_ts);
              head_slot = slot_of (as_u64 head_ts) (as_u64 genesis_ts) in
       if now_slot \<le> head_slot then None
       else Option.bind (scheduled_witness (get_active_witnesses s) head_slot (now_slot - head_slot)) (\<lambda>scheduled.
         let our = as_bytes (address_from_public_key x (public_key x witness_key)) in
         if scheduled \<noteq> our then None
         else let block_ts = i64_wrap (genesis_ts + i64_wrap (as_i64 now_slot * int BLOCK_INTERVAL_MS)) in
           Some (produce_from_pool x head witness_key block_ts pool MAX_BLOCK_TXS BLOCK_VERSION))))))"

definition apply_produced :: "('k, 'p) externals \<Rightarrow> block \<Rightarrow> world_state \<times> mempool \<Rightarrow> i64 option \<times> world_state \<times> mempool" where
  "apply_produced x block sp =
     (let s = index_block_transactions x block (put_block x block (fst sp));
          pool = evict_included x block (snd sp)
      in (map_option snd (header_ts_num block), s, pool))"

section \<open>Blocks from peers\<close>

datatype sync_error =
    SyncDecode string
  | SyncInvalid block_validation_error
  | SyncOutOfOrder i64 i64
  | SyncState string

fun apply_synced_blocks_gated ::
  "('k, 'p) externals \<Rightarrow> bool \<Rightarrow> bytes list option \<Rightarrow> nat \<Rightarrow> bytes list \<Rightarrow> world_state \<Rightarrow> (sync_error + nat) \<times> world_state" where
  "apply_synced_blocks_gated x require_sig active applied [] s = (Inr applied, s)"
| "apply_synced_blocks_gated x require_sig active applied (bs # blocks) s =
     (case ext_decode_block x bs of
        Inl e \<Rightarrow> (Inl (SyncDecode e), s)
      | Inr block \<Rightarrow>
          (case (case active of
                   Some ws \<Rightarrow> validate_block_intake x block ws
                 | None \<Rightarrow> validate_block x block \<lparr>require_witness_signature = require_sig\<rparr>) of
             Inl e \<Rightarrow> (Inl (SyncInvalid e), s)
           | Inr _ \<Rightarrow>
               let head = get_prop_i64 s LATEST_BLOCK_NUMBER;
                   num = (case raw_header block of Some r \<Rightarrow> hr_number r | None \<Rightarrow> -1) in
               if num \<noteq> i64_wrap (head + 1) then (Inl (SyncOutOfOrder (i64_wrap (head + 1)) num), s)
               else apply_synced_blocks_gated x require_sig active (applied + 1) blocks (put_block x block s)))"

definition apply_synced_blocks ::
  "('k, 'p) externals \<Rightarrow> bytes list \<Rightarrow> bool \<Rightarrow> world_state \<Rightarrow> (sync_error + nat) \<times> world_state" where
  "apply_synced_blocks x blocks require_sig s = apply_synced_blocks_gated x require_sig None 0 blocks s"


section \<open>Produced blocks are valid\<close>

lemma sign_header_recovers:
  assumes "good_externals x"
  shows "length (sign_header x k raw) = 65"
    and "recover_65 x (sha256 x (ext_encode_header_raw x raw)) (sign_header x k raw)
      = Some (address_from_public_key x (public_key x k))"
proof -
  obtain sig where s: "sign_digest x k (sha256 x (ext_encode_header_raw x raw)) = Inr sig"
    using sign_digest_total [of x k "sha256 x (ext_encode_header_raw x raw)"] by blast
  note r = sign_recover [OF assms good_externals_length(1) [OF assms] s]
  show "length (sign_header x k raw) = 65" using r(1) by (simp add: sign_header_def s)
  show "recover_65 x (sha256 x (ext_encode_header_raw x raw)) (sign_header x k raw)
      = Some (address_from_public_key x (public_key x k))" using r(2) by (simp add: sign_header_def s)
qed

definition parent_number :: "block \<Rightarrow> i64" where
  "parent_number parent = (case raw_header parent of Some r \<Rightarrow> hr_number r | None \<Rightarrow> 0)"

lemma produce_block_header:
  "\<exists>raw. raw_header (produce_block x parent k ts txs v) = Some raw \<and> hr_number raw = i64_wrap (parent_number parent + 1)
     \<and> hr_timestamp raw = ts"
  by (simp add: produce_block_def Let_def raw_header_def parent_number_def)

lemma be_bytes_zero: "be_bytes n 0 = replicate n 0"
  by (induction n) (simp_all add: replicate_append_same)

lemma parent_id_link:
  assumes g: "good_externals x" and n: "0 \<le> parent_number parent" "parent_number parent \<le> i64_max"
  shows "length (case block_id_of x parent of Some h \<Rightarrow> h256_bytes h | None \<Rightarrow> replicate 32 0) = 32"
    and "i64_from_be_bytes (take 8 (case block_id_of x parent of Some h \<Rightarrow> h256_bytes h | None \<Rightarrow> replicate 32 0))
      = parent_number parent"
proof -
  let ?i = "case block_id_of x parent of Some h \<Rightarrow> h256_bytes h | None \<Rightarrow> replicate 32 0"
  have "length ?i = 32 \<and> i64_from_be_bytes (take 8 ?i) = parent_number parent"
  proof (cases "raw_header parent")
    case None
    have z: "replicate 8 0 = i64_to_be_bytes 0"
      by (simp add: i64_to_be_bytes_def be_bytes_zero)
    have "i64_from_be_bytes (replicate 8 0) = 0" unfolding z by (simp add: i64_from_to_be_bytes i64_bounds_defs)
    with None show ?thesis by (simp add: block_id_of_def parent_number_def)
  next
    case (Some r)
    have "in_i64 (hr_number r)" using n Some by (simp add: parent_number_def i64_bounds_defs)
    with Some show ?thesis
      using g by (simp add: block_id_of_def block_hash_def block_id_def parent_number_def i64_from_to_be_bytes)
  qed
  then show "length ?i = 32" "i64_from_be_bytes (take 8 ?i) = parent_number parent" by simp_all
qed

lemma recover_produced:
  "good_externals x \<Longrightarrow> recover_witness x (produce_block x parent k ts txs v) = Some (address_from_public_key x (public_key x k))"
  using sign_header_recovers [where x = x and k = k]
  by (simp add: recover_witness_def produce_block_def Let_def block_hash_def raw_header_def)

lemma produced_valid:
  assumes g: "good_externals x" and n: "0 \<le> parent_number parent" "parent_number parent < i64_max"
  shows "validate_block x (produce_block x parent k ts txs v) opts = Inr ()"
proof -
  let ?b = "produce_block x parent k ts txs v"
  have "in_i64 (parent_number parent + 1)" using n by (simp add: i64_bounds_defs)
  then have num: "i64_wrap (parent_number parent + 1) = parent_number parent + 1" by simp
  have root: "tx_trie_root x ?b = tx_trie_root x \<lparr>bk_transactions = txs, bk_header = None\<rparr>"
    by (simp add: tx_trie_root_def produce_block_def Let_def)
  show ?thesis
    using parent_id_link [OF g n(1) less_imp_le [OF n(2)]] num root recover_produced [OF g, of parent k ts txs v]
      sign_header_recovers(1) [OF g, of k] n(1)
    unfolding validate_block_def
    by (simp add: produce_block_def Let_def result_simps parent_number_def [symmetric] ok_or_def ensure_def)
qed

lemma produced_admitted:
  assumes "good_externals x" and "0 \<le> parent_number parent" "parent_number parent < i64_max"
    and "as_bytes (address_from_public_key x (public_key x k)) \<in> set active"
  shows "validate_block_intake x (produce_block x parent k ts txs v) active = Inr ()"
  using assms produced_valid [OF assms(1-3)] recover_produced [OF assms(1)]
  by (simp add: validate_block_intake_def ok_or_def ensure_def Let_def)


section \<open>Producing in turn\<close>

text \<open>A chain the node can build on: a genesis block at number 0 and a head that carries its own number.\<close>

definition chain_ready :: "world_state \<Rightarrow> i64 \<Rightarrow> i64 \<Rightarrow> bool" where
  "chain_ready s g h \<longleftrightarrow>
     (\<exists>genesis n0 head. get_block_by_num s 0 = Some genesis \<and> header_ts_num genesis = Some (g, n0)
        \<and> get_now_block s = Some head \<and> header_ts_num head = Some (h, get_prop_i64 s LATEST_BLOCK_NUMBER))
     \<and> 0 \<le> g \<and> g \<le> h \<and> h \<le> i64_max
     \<and> 0 \<le> get_prop_i64 s LATEST_BLOCK_NUMBER \<and> get_prop_i64 s LATEST_BLOCK_NUMBER < i64_max"

definition slot_at :: "i64 \<Rightarrow> i64 \<Rightarrow> nat" where
  "slot_at g t = slot_of (as_u64 t) (as_u64 g)"

lemma as_u64_id: "0 \<le> v \<Longrightarrow> v \<le> i64_max \<Longrightarrow> as_u64 v = nat v"
  by (simp add: as_u64_def i64_max_def)

lemma slot_at_nat: "0 \<le> g \<Longrightarrow> g \<le> t \<Longrightarrow> t \<le> i64_max \<Longrightarrow> slot_at g t = nat (t - g) div BLOCK_INTERVAL_MS"
  by (auto simp: slot_at_def slot_of_def as_u64_id nat_diff_distrib)

lemma slot_at_boundary:
  assumes "0 \<le> g" and "g + int n * 3000 \<le> i64_max"
  shows "slot_at g (g + int n * 3000) = n"
    and "i64_wrap (g + i64_wrap (as_i64 n * int BLOCK_INTERVAL_MS)) = g + int n * 3000"
proof -
  show "slot_at g (g + int n * 3000) = n"
    using assms by (simp add: slot_at_nat BLOCK_INTERVAL_MS_def nat_mult_distrib)
  have "in_i64 (int n)" "in_i64 (int n * 3000)" "in_i64 (g + int n * 3000)" using assms by (auto simp: i64_bounds_defs)
  then show "i64_wrap (g + i64_wrap (as_i64 n * int BLOCK_INTERVAL_MS)) = g + int n * 3000"
    by (simp add: as_i64_def BLOCK_INTERVAL_MS_def)
qed

definition our_address :: "('k, 'p) externals \<Rightarrow> 'k \<Rightarrow> bytes" where
  "our_address x k = as_bytes (address_from_public_key x (public_key x k))"

text \<open>On a ready chain the decision is: a later slot, and it is ours.\<close>

lemma try_produce_ready:
  assumes "chain_ready s g h"
  shows "try_produce x s pool k now =
    (if g < now \<and> slot_at g h < slot_at g now
        \<and> scheduled_witness (get_active_witnesses s) (slot_at g h) (slot_at g now - slot_at g h) = Some (our_address x k)
     then Some (produce_from_pool x (the (get_now_block s)) k
            (i64_wrap (g + i64_wrap (as_i64 (slot_at g now) * int BLOCK_INTERVAL_MS))) pool MAX_BLOCK_TXS BLOCK_VERSION)
     else None)"
proof -
  obtain genesis n0 head where c: "get_block_by_num s 0 = Some genesis" "header_ts_num genesis = Some (g, n0)"
    "get_now_block s = Some head" "header_ts_num head = Some (h, get_prop_i64 s LATEST_BLOCK_NUMBER)"
    using assms by (auto simp: chain_ready_def)
  show ?thesis
    by (cases "scheduled_witness (get_active_witnesses s) (slot_at g h) (slot_at g now - slot_at g h)")
      (simp_all add: try_produce_def c Let_def our_address_def not_le not_less slot_at_def)
qed

lemma witness_turn_comes:
  assumes r: "chain_ready s g h" and w: "our_address x k \<in> set (get_active_witnesses s)" and t: "h \<le> t"
    and b: "t + 3000 * int (length (get_active_witnesses s)) \<le> i64_max"
  shows "\<exists>now. t < now \<and> now \<le> t + 3000 * int (length (get_active_witnesses s)) \<and> try_produce x s pool k now \<noteq> None"
proof -
  let ?n = "length (get_active_witnesses s)" and ?hs = "slot_at g h" and ?ts = "slot_at g t"
  have g: "0 \<le> g" "g \<le> h" "h \<le> i64_max" using r by (simp_all add: chain_ready_def)
  have tm: "t \<le> i64_max" using b by linarith
  have ts: "?ts = nat (t - g) div 3000" "?hs = nat (h - g) div 3000"
    using g t tm by (simp_all add: slot_at_nat BLOCK_INTERVAL_MS_def)
  have le: "?hs \<le> ?ts" unfolding ts using t by (intro div_le_mono) simp
  have low: "int ?ts * 3000 \<le> t - g" "t - g < (int ?ts + 1) * 3000"
    unfolding ts using g t by (simp_all add: zdiv_int)
  have "int ?ts + int ?n \<le> i64_max" using low(1) b g by linarith
  then have "?ts + ?n < 2 ^ 64" by (simp add: i64_max_def)
  then have "?hs + (?ts - ?hs) + ?n < 2 ^ 64" using le by simp
  from scheduled_within_round [OF w this] obtain slot where
    s: "?ts - ?hs < slot" "slot \<le> ?ts - ?hs + ?n"
      "scheduled_witness (get_active_witnesses s) ?hs slot = Some (our_address x k)" by blast
  define m where "m = ?hs + slot"
  let ?now = "g + int m * 3000"
  have m: "?ts + 1 \<le> m" "m \<le> ?ts + ?n" using s le by (simp_all add: m_def)
  have up: "?now \<le> t + 3000 * int ?n" using low(1) m(2) by linarith
  have "(int ?ts + 1) * 3000 = int ?ts * 3000 + 3000" "int ?ts + 1 \<le> int m" using m(1) by simp_all
  then have gt: "t < ?now" using low(2) by linarith
  have sl: "slot_at g ?now = m" using g up b by (intro slot_at_boundary(1)) linarith+
  have "m - ?hs = slot" "?hs < m" using s(1) by (simp_all add: m_def)
  then have "try_produce x s pool k ?now \<noteq> None"
    unfolding try_produce_ready [OF r] sl using s(3) gt g t by simp
  with gt up show ?thesis by blast
qed

lemma index_block_frame:
  "\<exists>T. index_block_transactions x b s = s\<lparr>ws_transactions := T\<rparr>"
proof -
  have "\<exists>T. fold (\<lambda>tx. put_transaction (h256_bytes (tx_id x tx)) tx) txs s = s\<lparr>ws_transactions := T\<rparr>" for txs
  proof (induction txs arbitrary: s)
    case Nil
    show ?case by (auto intro: exI [of _ "ws_transactions s"])
  next
    case (Cons tx txs)
    from Cons [of "put_transaction (h256_bytes (tx_id x tx)) tx s"] show ?case by (auto simp: put_transaction_def)
  qed
  then show ?thesis by (simp add: index_block_transactions_def)
qed

text \<open>After a block is produced and applied, nobody produces again in its slot or an earlier one.\<close>

lemma slot_start_le:
  assumes "0 \<le> g" and "g < t" and "t \<le> i64_max"
  shows "g + int (slot_at g t) * 3000 \<le> t"
proof -
  have "int (slot_at g t) = (t - g) div 3000"
    using assms by (simp add: slot_at_nat BLOCK_INTERVAL_MS_def zdiv_int)
  then show ?thesis using div_le_times [of 3000 "t - g"] by simp
qed

lemma applied_block_ready:
  assumes r: "chain_ready s g h" and p: "try_produce x s pool k now = Some b" and n: "now \<le> i64_max"
    and a: "apply_produced x b (s, pool) = (num, s', pool')"
  shows "num = Some (get_prop_i64 s LATEST_BLOCK_NUMBER + 1)"
    and "get_prop_i64 s' LATEST_BLOCK_NUMBER = get_prop_i64 s LATEST_BLOCK_NUMBER + 1"
    and "get_now_block s' = Some b"
    and "chain_ready s' g (g + int (slot_at g now) * 3000) \<or> get_prop_i64 s LATEST_BLOCK_NUMBER + 1 = i64_max"
    and "get_block_by_num s' 0 = get_block_by_num s 0"
    and "header_ts_num b = Some (g + int (slot_at g now) * 3000, get_prop_i64 s LATEST_BLOCK_NUMBER + 1)"
proof -
  let ?N = "get_prop_i64 s LATEST_BLOCK_NUMBER" and ?ts = "g + int (slot_at g now) * 3000"
  obtain genesis n0 head where c: "get_block_by_num s 0 = Some genesis" "header_ts_num genesis = Some (g, n0)"
    "get_now_block s = Some head" "header_ts_num head = Some (h, ?N)"
    and bd: "0 \<le> g" "g \<le> h" "h \<le> i64_max" "0 \<le> ?N" "?N < i64_max"
    using r by (auto simp: chain_ready_def)
  from p have q: "g < now" "slot_at g h < slot_at g now"
    and b: "b = produce_from_pool x head k (i64_wrap (g + i64_wrap (as_i64 (slot_at g now) * int BLOCK_INTERVAL_MS))) pool
      MAX_BLOCK_TXS BLOCK_VERSION"
    using try_produce_ready [OF r, of x pool k now] c(3) by (auto split: if_splits)
  have le: "?ts \<le> now" by (rule slot_start_le [OF bd(1) q(1) n])
  have ts: "i64_wrap (g + i64_wrap (as_i64 (slot_at g now) * int BLOCK_INTERVAL_MS)) = ?ts"
    using slot_at_boundary(2) [OF bd(1), of "slot_at g now"] le n by linarith
  have "parent_number head = ?N" using c(4) by (auto simp: header_ts_num_def parent_number_def split: option.splits)
  moreover have "in_i64 (?N + 1)" using bd by (simp add: i64_bounds_defs)
  ultimately obtain raw where raw: "raw_header b = Some raw" "hr_number raw = ?N + 1" "hr_timestamp raw = ?ts"
    using produce_block_header [of x head k ?ts "pool_peek pool MAX_BLOCK_TXS" BLOCK_VERSION]
    by (auto simp: b produce_from_pool_def ts)
  then show h: "header_ts_num b = Some (?ts, ?N + 1)" by (simp add: header_ts_num_def)
  have s1: "num = Some (?N + 1)" "s' = index_block_transactions x b (put_block x b s)"
    using a h by (auto simp: apply_produced_def Let_def)
  then show "num = Some (?N + 1)" by simp
  obtain T where T: "s' = (put_block x b s)\<lparr>ws_transactions := T\<rparr>" using index_block_frame s1(2) by blast
  have fr: "get_prop_i64 s' k = get_prop_i64 (put_block x b s) k" "get_now_block s' = get_now_block (put_block x b s)"
    "get_block_by_num s' i = get_block_by_num (put_block x b s) i" for k i
    by (simp_all add: T get_prop_i64_def get_now_block_def get_block_by_num_def)
  have nx: "?N \<le> hr_number raw" using raw(2) by simp
  note pb = put_block_next [OF raw(1) nx, where x = x]
  show n': "get_prop_i64 s' LATEST_BLOCK_NUMBER = ?N + 1" "get_now_block s' = Some b" using fr pb(1,2) raw(2) by simp_all
  show z: "get_block_by_num s' 0 = get_block_by_num s 0" using fr(3) pb(4) [of 0] raw(2) bd by simp
  show "chain_ready s' g ?ts \<or> ?N + 1 = i64_max"
    using n' z c h bd le n by (auto simp: chain_ready_def)
qed

lemma no_second_block:
  assumes r: "chain_ready s g h" and p: "try_produce x s pool k now = Some b" and n: "now \<le> i64_max"
    and a: "apply_produced x b (s, pool) = (num, s', pool')" and t: "slot_at g now' \<le> slot_at g now"
  shows "try_produce x s' pool'' k' now' = None"
proof -
  let ?ts = "g + int (slot_at g now) * 3000"
  obtain genesis n0 where c: "get_block_by_num s' 0 = Some genesis" "header_ts_num genesis = Some (g, n0)" and g: "0 \<le> g"
    using r applied_block_ready(5) [OF r p n a] by (auto simp: chain_ready_def)
  have "g < now" using p by (auto simp: try_produce_ready [OF r] split: if_splits)
  from slot_start_le [OF g this n] have "slot_at g ?ts = slot_at g now"
    using slot_at_boundary(1) [OF g, of "slot_at g now"] n by linarith
  with t show ?thesis
    using applied_block_ready(3,6) [OF r p n a] c by (simp add: try_produce_def Let_def slot_at_def)
qed


section \<open>Synced blocks\<close>

text \<open>A run of accepted blocks that extends a head: consecutive numbers, and each passes the intake gate.\<close>

inductive extends :: "('k, 'p) externals \<Rightarrow> bytes list \<Rightarrow> world_state \<Rightarrow> block list \<Rightarrow> world_state \<Rightarrow> bool" for x active where
  extends_none: "extends x active s [] s"
| extends_block: "validate_block_intake x b active = Inr () \<Longrightarrow> raw_header b = Some raw
    \<Longrightarrow> hr_number raw = get_prop_i64 s LATEST_BLOCK_NUMBER + 1 \<Longrightarrow> extends x active (put_block x b s) bs s'
    \<Longrightarrow> extends x active s (b # bs) s'"

lemma validate_header:
  assumes "validate_block_intake x b active = Inr u"
  shows "\<exists>raw. raw_header b = Some raw"
  using assms by (auto simp: validate_block_intake_def validate_block_def result_simps raw_header_def)

lemma extends_head:
  "extends x active s bs s' \<Longrightarrow> get_prop_i64 s' LATEST_BLOCK_NUMBER = get_prop_i64 s LATEST_BLOCK_NUMBER + int (length bs)
     \<and> get_active_witnesses s' = get_active_witnesses s
     \<and> (\<forall>n \<le> get_prop_i64 s LATEST_BLOCK_NUMBER. get_block_by_num s' n = get_block_by_num s n)
     \<and> (\<forall>i < length bs. get_block_by_num s' (get_prop_i64 s LATEST_BLOCK_NUMBER + 1 + int i) = Some (bs ! i))"
proof (induction rule: extends.induct)
  case (extends_block b raw s bs s')
  have nx: "get_prop_i64 s LATEST_BLOCK_NUMBER \<le> hr_number raw" using extends_block(3) by simp
  note pb = put_block_next [OF extends_block(2) nx, where x = x]
  show ?case
  proof (intro conjI allI impI)
    fix i
    assume "i < length (b # bs)"
    then show "get_block_by_num s' (get_prop_i64 s LATEST_BLOCK_NUMBER + 1 + int i) = Some ((b # bs) ! i)"
      using extends_block pb by (cases i) (auto simp: add.assoc)
  qed (use extends_block pb in auto)
qed simp

text \<open>
  What an accepted block must be, apart from how the gate checks it: it carries the given number, the merkle root of its
  own transactions, and a signature of an active witness, the one its header names.
\<close>

definition witnessed :: "('k, 'p) externals \<Rightarrow> bytes list \<Rightarrow> i64 \<Rightarrow> block \<Rightarrow> bool" where
  "witnessed x active n b \<longleftrightarrow>
     (\<exists>raw a. raw_header b = Some raw \<and> hr_number raw = n \<and> hr_tx_trie_root raw = h256_bytes (tx_trie_root x b)
        \<and> recover_witness x b = Some a \<and> as_bytes a = hr_witness_address raw \<and> as_bytes a \<in> set active)"

lemma intake_witnessed:
  assumes "validate_block_intake x b active = Inr ()" and "raw_header b = Some raw"
  shows "witnessed x active (hr_number raw) b"
  using assms
  by (auto simp: witnessed_def validate_block_intake_def validate_block_def raw_header_def result_simps ok_or_def ensure_def Let_def
      split: option.splits if_splits)

lemma extends_witnessed:
  "extends x active s bs s' \<Longrightarrow> i < length bs \<Longrightarrow> witnessed x active (get_prop_i64 s LATEST_BLOCK_NUMBER + 1 + int i) (bs ! i)"
proof (induction arbitrary: i rule: extends.induct)
  case (extends_block b raw s bs s')
  have nx: "get_prop_i64 s LATEST_BLOCK_NUMBER \<le> hr_number raw" using extends_block(3) by simp
  show ?case
  proof (cases i)
    case 0
    then show ?thesis using intake_witnessed [OF extends_block(1,2)] extends_block(3) by simp
  next
    case (Suc j)
    then show ?thesis using extends_block.IH [of j] extends_block.prems extends_block(3) put_block_next [OF extends_block(2) nx, where x = x]
      by (simp add: add.assoc)
  qed
qed simp

lemma synced_extends:
  assumes "apply_synced_blocks_gated x sig (Some active) applied blocks s = (r, s')"
    and "0 \<le> get_prop_i64 s LATEST_BLOCK_NUMBER" and "get_prop_i64 s LATEST_BLOCK_NUMBER + int (length blocks) \<le> i64_max"
  shows "\<exists>bs. extends x active s bs s' \<and> length bs \<le> length blocks
    \<and> (\<forall>i < length bs. ext_decode_block x (blocks ! i) = Inr (bs ! i))
    \<and> (length bs = length blocks \<longrightarrow> r = Inr (applied + length bs))
    \<and> (length bs < length blocks \<longrightarrow> (\<exists>e. r = Inl e))"
  using assms
proof (induction blocks arbitrary: applied s)
  case Nil
  then show ?case by (intro exI [of _ "[]"]) (auto intro: extends_none)
next
  case (Cons bs blocks)
  let ?h = "get_prop_i64 s LATEST_BLOCK_NUMBER"
  have w: "i64_wrap (?h + 1) = ?h + 1" using Cons(3,4) by (simp add: i64_bounds_defs)
  have stop: ?case if "r = Inl e" "s' = s" for e using that by (intro exI [of _ "[]"]) (auto intro: extends_none)
  show ?case
  proof (cases "ext_decode_block x bs")
    case (Inl e)
    with Cons(2) have "r = Inl (SyncDecode e)" "s' = s" by auto
    then show ?thesis by (rule stop)
  next
    case (Inr b)
    show ?thesis
    proof (cases "validate_block_intake x b active")
      case (Inl e)
      with Cons(2) Inr have "r = Inl (SyncInvalid e)" "s' = s" by auto
      then show ?thesis by (rule stop)
    next
      case v: (Inr u)
      obtain raw where raw: "raw_header b = Some raw" using validate_header [OF v] by blast
      show ?thesis
      proof (cases "hr_number raw = ?h + 1")
        case False
        with Cons(2) Inr v raw w have "r = Inl (SyncOutOfOrder (?h + 1) (hr_number raw))" "s' = s" by (auto simp: Let_def)
        then show ?thesis by (rule stop)
      next
        case True
        with Cons(2) Inr v raw w
        have "apply_synced_blocks_gated x sig (Some active) (applied + 1) blocks (put_block x b s) = (r, s')" by (simp add: Let_def)
        from Cons(1) [OF this] True put_block_next(1) [OF raw, of s x] Cons(3,4) obtain bs' where
          "extends x active (put_block x b s) bs' s'" "length bs' \<le> length blocks"
          "\<forall>i < length bs'. ext_decode_block x (blocks ! i) = Inr (bs' ! i)"
          "length bs' = length blocks \<longrightarrow> r = Inr (applied + 1 + length bs')"
          "length bs' < length blocks \<longrightarrow> (\<exists>e. r = Inl e)" by auto
        with extends_block [OF _ raw True] v Inr show ?thesis
          by (intro exI [of _ "b # bs'"]) (auto simp: nth_Cons split: nat.split)
      qed
    qed
  qed
qed


section \<open>Properties\<close>

text \<open>A chain with a genesis block at time 0 and one active witness, whose key is 7.\<close>

definition sample_genesis :: block where
  "sample_genesis = \<lparr>bk_transactions = [],
     bk_header = Some \<lparr>bh_raw_data = Some \<lparr>hr_timestamp = 0, hr_tx_trie_root = [], hr_parent_hash = [], hr_number = 0,
       hr_witness_address = [], hr_version = 0\<rparr>, bh_witness_signature = []\<rparr>\<rparr>"

definition sample_chain :: world_state where
  "sample_chain = ws_empty\<lparr>ws_blocks := [0 \<mapsto> sample_genesis], ws_active := [0x41 # replicate 20 7]\<rparr>"

definition sample_block :: block where
  "sample_block = \<lparr>bk_transactions = [],
     bk_header = Some \<lparr>bh_raw_data = Some \<lparr>hr_timestamp = 3000, hr_tx_trie_root = replicate 32 0,
       hr_parent_hash = i64_to_be_bytes 0 @ drop 8 (resize 32 0 (i64_to_be_bytes 0)), hr_number = 1,
       hr_witness_address = 0x41 # replicate 20 7, hr_version = 30\<rparr>, bh_witness_signature = replicate 64 7 @ [27]\<rparr>\<rparr>"

lemma sample_chain_ready: "chain_ready sample_chain 0 0"
  by (simp add: chain_ready_def sample_chain_def sample_genesis_def get_block_by_num_def get_now_block_def header_ts_num_def
      raw_header_def get_prop_i64_def ws_empty_def i64_max_def)

lemma sample_address: "our_address (sample_externals b tx) 7 = 0x41 # replicate 20 7"
  by (simp add: our_address_def address_from_public_key_def Let_def keccak256_def sample_externals_def resize_def
      public_key_def from_body_def ADDRESS_PREFIX_def min_def)

lemma sample_block_produced:
  "produce_from_pool (sample_externals b tx) sample_genesis 7 3000 (mempool_new 1) MAX_BLOCK_TXS BLOCK_VERSION = sample_block"
  using sample_address [of b tx]
  by (simp add: produce_from_pool_def pool_peek_def mempool_new_def produce_block_def Let_def sample_genesis_def raw_header_def
      block_id_of_def block_hash_def block_id_def tx_trie_root_def merkle_root_def h256_zero_def sign_header_def sign_digest_def
      pack_signature_def sample_block_def BLOCK_VERSION_def our_address_def sha256_def i64_wrap_def)
    (simp add: sample_externals_def pack_signature_def)

lemma sample_block_admitted: "validate_block_intake (sample_externals b tx) sample_block [0x41 # replicate 20 7] = Inr ()"
proof -
  have "parent_number sample_genesis = 0" by (simp add: parent_number_def sample_genesis_def raw_header_def)
  then show ?thesis unfolding sample_block_produced [of b tx, symmetric] produce_from_pool_def
    using sample_address [of b tx] by (intro produced_admitted sample_externals_good) (simp_all add: our_address_def i64_max_def)
qed

lemma sample_produces: "try_produce (sample_externals b tx) sample_chain (mempool_new 1) 7 3500 = Some sample_block"
proof -
  have s: "slot_at 0 0 = 0" "slot_at 0 3500 = 1" by (simp_all add: slot_at_nat i64_max_def BLOCK_INTERVAL_MS_def)
  have a: "get_active_witnesses sample_chain = [0x41 # replicate 20 7]" by (simp add: get_active_witnesses_def sample_chain_def)
  have w: "scheduled_witness [0x41 # replicate 20 7] 0 1 = Some (0x41 # replicate 20 7)"
    by (simp add: scheduled_witness_def SINGLE_REPEAT_def Let_def)
  have h: "get_now_block sample_chain = Some sample_genesis"
    by (simp add: get_now_block_def sample_chain_def get_block_by_num_def get_prop_i64_def ws_empty_def)
  have ts: "i64_wrap (0 + i64_wrap (as_i64 1 * int BLOCK_INTERVAL_MS)) = 3000"
    using slot_at_boundary(2) [of 0 1] by (simp add: i64_max_def i64_wrap_def)
  show ?thesis
    unfolding try_produce_ready [OF sample_chain_ready] s a sample_address ts h using w sample_block_produced [of b tx] by simp
qed

text \<open>
  C22: Production meets acceptance.  When a node decides to produce in a slot, the block it signs passes the
  intake gate of every peer that has the same head number and the same active witnesses: the peer that receives
  its bytes accepts it, stores it as its new head, and after the producer has applied the block itself both
  have the same head block.
\<close>

theorem produced_block_syncs:
  assumes g: "good_externals x" and r: "chain_ready s g h" and p: "try_produce x s pool k now = Some b" and n: "now \<le> i64_max"
    and d: "ext_decode_block x bs = Inr b" and t: "get_prop_i64 t LATEST_BLOCK_NUMBER = get_prop_i64 s LATEST_BLOCK_NUMBER"
    and a: "get_active_witnesses t = get_active_witnesses s"
  shows "\<exists>t'. apply_synced_blocks_gated x sig (Some (get_active_witnesses t)) 0 [bs] t = (Inr 1, t')
    \<and> get_now_block t' = Some b \<and> get_now_block (fst (snd (apply_produced x b (s, pool)))) = Some b"
proof -
  let ?N = "get_prop_i64 s LATEST_BLOCK_NUMBER"
  obtain num s' pool' where ap: "apply_produced x b (s, pool) = (num, s', pool')" by (metis prod_cases3)
  note ar = applied_block_ready [OF r p n ap]
  obtain raw where raw: "raw_header b = Some raw" "hr_number raw = ?N + 1"
    using ar(6) by (auto simp: header_ts_num_def Option.bind_eq_Some_conv)
  obtain head where head: "get_now_block s = Some head" "header_ts_num head = Some (h, ?N)" and bd: "0 \<le> ?N" "?N < i64_max"
    using r by (auto simp: chain_ready_def)
  have pn: "parent_number head = ?N" using head(2) by (auto simp: header_ts_num_def parent_number_def split: option.splits)
  from p have sch: "scheduled_witness (get_active_witnesses s) (slot_at g h) (slot_at g now - slot_at g h) = Some (our_address x k)"
    and b: "b = produce_from_pool x head k (i64_wrap (g + i64_wrap (as_i64 (slot_at g now) * int BLOCK_INTERVAL_MS))) pool
      MAX_BLOCK_TXS BLOCK_VERSION"
    using try_produce_ready [OF r, of x pool k now] head(1) by (auto split: if_splits)
  have "our_address x k \<in> set (get_active_witnesses s)"
    using sch by (rule scheduled_member)
  then have v: "validate_block_intake x b (get_active_witnesses t) = Inr ()"
    unfolding b produce_from_pool_def a our_address_def using pn bd by (intro produced_admitted [OF g]) simp_all
  have "i64_wrap (?N + 1) = ?N + 1" using bd by (simp add: i64_bounds_defs)
  then have "apply_synced_blocks_gated x sig (Some (get_active_witnesses t)) 0 [bs] t = (Inr 1, put_block x b t)"
    using d v raw t by (simp add: Let_def)
  moreover have "get_now_block (put_block x b t) = Some b" using put_block_next(2) [OF raw(1), of t x] raw(2) t by simp
  ultimately show ?thesis using ap ar(3) by simp
qed

theorem produced_block_syncs_witness:
  "\<exists>t'. apply_synced_blocks_gated (sample_externals sample_block sample_tx) True (Some (get_active_witnesses sample_chain)) 0 [[]] sample_chain
      = (Inr 1, t') \<and> get_now_block t' = Some sample_block"
proof -
  have "ext_decode_block (sample_externals sample_block sample_tx) [] = Inr sample_block" by (simp add: sample_externals_def)
  from produced_block_syncs [OF sample_externals_good sample_chain_ready sample_produces _ this refl refl, of True]
  show ?thesis by (auto simp: i64_max_def)
qed

text \<open>
  C23: Every active witness gets its turn.  On a chain with a genesis block and a head, as long as no other
  block arrives, a node whose address is in the active set finds a moment to produce within as many block
  intervals as there are active witnesses, counted from any time after the head.
\<close>

theorem witness_gets_slot:
  assumes "chain_ready s g h" and "our_address x k \<in> set (get_active_witnesses s)" and "h \<le> t"
    and "t + 3000 * int (length (get_active_witnesses s)) \<le> i64_max"
  shows "\<exists>now b. t < now \<and> now \<le> t + 3000 * int (length (get_active_witnesses s)) \<and> try_produce x s pool k now = Some b"
  using witness_turn_comes [OF assms, of pool] by blast

theorem witness_gets_slot_witness:
  "\<exists>now b. 0 < now \<and> now \<le> 3000
     \<and> try_produce (sample_externals sample_block sample_tx) sample_chain (mempool_new 1) 7 now = Some b"
  using witness_gets_slot [OF sample_chain_ready, of "sample_externals sample_block sample_tx" 7 0 "mempool_new 1"]
    sample_address by (simp add: get_active_witnesses_def sample_chain_def i64_max_def)

text \<open>
  C24: One block per slot.  Once a node has produced a block and applied it, the chain has advanced by one
  block whose time is the start of the slot, and neither this node nor any other with that chain, whatever
  its key and its pool, produces again in the same slot or in an earlier one.
\<close>

theorem one_block_per_slot:
  assumes "chain_ready s g h" and "try_produce x s pool k now = Some b" and "now \<le> i64_max"
    and "apply_produced x b (s, pool) = (num, s', pool')" and "slot_at g now' \<le> slot_at g now"
  shows "num = Some (get_prop_i64 s LATEST_BLOCK_NUMBER + 1) \<and> get_now_block s' = Some b
    \<and> header_ts_num b = Some (g + int (slot_at g now) * 3000, get_prop_i64 s LATEST_BLOCK_NUMBER + 1)
    \<and> try_produce x s' pool'' k' now' = None"
  using applied_block_ready(1,3,6) [OF assms(1-4)] no_second_block [OF assms] by simp

theorem one_block_per_slot_witness:
  "try_produce (sample_externals sample_block sample_tx)
     (fst (snd (apply_produced (sample_externals sample_block sample_tx) sample_block
        (sample_chain, mempool_new 1)))) (mempool_new 1) 7 5999 = None"
proof -
  let ?x = "sample_externals sample_block sample_tx"
  obtain num s' pool' where a: "apply_produced ?x sample_block (sample_chain, mempool_new 1) = (num, s', pool')" by (metis prod_cases3)
  have "slot_at 0 5999 \<le> slot_at 0 3500" by (simp add: slot_at_nat i64_max_def BLOCK_INTERVAL_MS_def)
  from one_block_per_slot [OF sample_chain_ready sample_produces _ a this] a show ?thesis by (simp add: i64_max_def)
qed

text \<open>
  C25: What peers can make the node store.  Whatever bytes a peer sends, the blocks that the gated sync stores
  are a prefix of the decoded batch with consecutive numbers from the head on, each with the merkle root of its own
  transactions and signed by the active witness that its header names; the head rises by exactly their number, earlier blocks stay as they are, and only a complete
  batch is reported as a success.
\<close>

theorem synced_blocks_gated:
  assumes "apply_synced_blocks_gated x sig (Some active) 0 blocks s = (r, s')"
    and "0 \<le> get_prop_i64 s LATEST_BLOCK_NUMBER" and "get_prop_i64 s LATEST_BLOCK_NUMBER + int (length blocks) \<le> i64_max"
  shows "\<exists>bs. extends x active s bs s'
    \<and> (\<forall>i < length bs. witnessed x active (get_prop_i64 s LATEST_BLOCK_NUMBER + 1 + int i) (bs ! i))
    \<and> (\<forall>i < length bs. i < length blocks \<and> ext_decode_block x (blocks ! i) = Inr (bs ! i))
    \<and> get_prop_i64 s' LATEST_BLOCK_NUMBER = get_prop_i64 s LATEST_BLOCK_NUMBER + int (length bs)
    \<and> (\<forall>n \<le> get_prop_i64 s LATEST_BLOCK_NUMBER. get_block_by_num s' n = get_block_by_num s n)
    \<and> (\<forall>i < length bs. get_block_by_num s' (get_prop_i64 s LATEST_BLOCK_NUMBER + 1 + int i) = Some (bs ! i))
    \<and> (r = Inr (length bs) \<longleftrightarrow> length bs = length blocks)"
proof -
  obtain bs where b: "extends x active s bs s'" "length bs \<le> length blocks"
    "\<forall>i < length bs. ext_decode_block x (blocks ! i) = Inr (bs ! i)"
    "length bs = length blocks \<longrightarrow> r = Inr (0 + length bs)" "length bs < length blocks \<longrightarrow> (\<exists>e. r = Inl e)"
    using synced_extends [OF assms] by blast
  moreover have "r = Inr (length bs) \<longleftrightarrow> length bs = length blocks"
    using b(2,4,5) by (cases "length bs < length blocks") auto
  ultimately show ?thesis using extends_head [OF b(1)] extends_witnessed [OF b(1)] by (intro exI [of _ bs]) auto
qed


theorem synced_blocks_gated_witness:
  "\<exists>r s' bs. apply_synced_blocks_gated (sample_externals sample_block sample_tx) True
      (Some (get_active_witnesses sample_chain)) 0 [[], []] sample_chain = (r, s')
    \<and> extends (sample_externals sample_block sample_tx) (get_active_witnesses sample_chain) sample_chain bs s'
    \<and> get_block_by_num s' 0 = Some sample_genesis"
proof -
  let ?x = "sample_externals sample_block sample_tx"
  obtain r s' where a: "apply_synced_blocks_gated ?x True (Some (get_active_witnesses sample_chain)) 0 [[], []] sample_chain = (r, s')"
    by fastforce
  have n: "get_prop_i64 sample_chain LATEST_BLOCK_NUMBER = 0" by (simp add: get_prop_i64_def sample_chain_def ws_empty_def)
  have "get_block_by_num sample_chain 0 = Some sample_genesis" by (simp add: get_block_by_num_def sample_chain_def)
  with synced_blocks_gated [OF a] n a show ?thesis by (auto simp: i64_max_def)
qed

end
