(* ===== verification/Pbft.thy ===== *)
theory Pbft
  imports Production
begin

text \<open>
  Finality: the commit messages of \<open>consensus/src/pbft.rs\<close> and the node's message handler
  \<open>node/src/net.rs\<close>, which admits blocks and transactions from peers, signs commits of its own and
  advances the solidified block.  A \<open>HashMap\<close> of \<open>HashSet\<close>s is a map of sets.
\<close>

section \<open>Commit messages\<close>

record pbft_commit =
  pc_block_num :: i64
  pc_block_id :: bytes
  pc_signature :: bytes

definition ENCODED_LEN :: nat where "ENCODED_LEN = 8 + 32 + 65"

definition commit_digest :: "('k, 'p) externals \<Rightarrow> i64 \<Rightarrow> bytes \<Rightarrow> bytes" where
  "commit_digest x block_num bid = sha256 x (i64_to_be_bytes block_num @ bid)"

definition commit_encode :: "pbft_commit \<Rightarrow> bytes" where
  "commit_encode c = i64_to_be_bytes (pc_block_num c) @ pc_block_id c @ pc_signature c"

definition commit_decode :: "bytes \<Rightarrow> pbft_commit option" where
  "commit_decode bs =
     (if length bs \<noteq> ENCODED_LEN then None
      else Some \<lparr>pc_block_num = i64_from_be_bytes (take 8 bs), pc_block_id = take 32 (drop 8 bs), pc_signature = take 65 (drop 40 bs)\<rparr>)"

definition recover_signer :: "('k, 'p) externals \<Rightarrow> pbft_commit \<Rightarrow> address option" where
  "recover_signer x c = recover_65 x (commit_digest x (pc_block_num c) (pc_block_id c)) (pc_signature c)"

section \<open>Quorum and window\<close>

definition finality_threshold :: "nat \<Rightarrow> nat" where
  "finality_threshold srs = (2 * srs) div 3 + 1"

definition default_threshold :: nat where
  "default_threshold = finality_threshold MAX_ACTIVE_WITNESSES"

definition is_finalized :: "nat \<Rightarrow> nat \<Rightarrow> bool" where
  "is_finalized confirmations total_srs \<longleftrightarrow> finality_threshold total_srs \<le> confirmations"

text \<open>The loop of \<open>solidified_block\<close>, from block \<open>n\<close> with the last finalized block found so far.\<close>

function solid_from :: "(i64 \<rightharpoonup> nat) \<Rightarrow> i64 \<Rightarrow> nat \<Rightarrow> i64 option \<Rightarrow> i64 \<Rightarrow> i64 option" where
  "solid_from confirmations tip srs solid n =
     (if n \<le> tip
      then (case confirmations n of
              Some c \<Rightarrow> if is_finalized c srs then solid_from confirmations tip srs (Some n) (n + 1) else solid
            | None \<Rightarrow> solid)
      else solid)"
  by pat_completeness auto
termination by (relation "measure (\<lambda>(c, h, t, s, n). nat (h + 1 - n))") auto

declare solid_from.simps [simp del]

definition solidified_block :: "(i64 \<rightharpoonup> nat) \<Rightarrow> i64 \<Rightarrow> nat \<Rightarrow> i64 option" where
  "solidified_block confirmations tip srs = solid_from confirmations tip srs None 1"

definition MAX_PBFT_FUTURE_BLOCKS :: i64 where "MAX_PBFT_FUTURE_BLOCKS = 1024"

definition accept_pbft_message :: "bool \<Rightarrow> i64 \<Rightarrow> i64 \<Rightarrow> i64 \<Rightarrow> bool" where
  "accept_pbft_message allow_pbft block_num tip solidified \<longleftrightarrow>
     allow_pbft \<and> solidified < block_num \<and> block_num \<le> i64_sat (tip + MAX_PBFT_FUTURE_BLOCKS)"

definition prune_below_solidified :: "(i64 \<rightharpoonup> 'v) \<Rightarrow> i64 \<Rightarrow> (i64 \<rightharpoonup> 'v)" where
  "prune_below_solidified confirmations solidified = (\<lambda>b. if solidified \<le> b then confirmations b else None)"

definition record_confirmation ::
  "bool \<Rightarrow> i64 \<Rightarrow> i64 \<Rightarrow> i64 \<Rightarrow> (i64 \<rightharpoonup> nat) \<Rightarrow> bool \<times> (i64 \<rightharpoonup> nat)" where
  "record_confirmation allow_pbft block_num tip solidified confirmations =
     (if \<not> accept_pbft_message allow_pbft block_num tip solidified then (False, confirmations)
      else (True, confirmations(block_num \<mapsto> (case confirmations block_num of Some c \<Rightarrow> c | None \<Rightarrow> 0) + 1)))"

section \<open>The node's message handler\<close>

text \<open>
  \<open>nd_commit_out\<close> stands for the broadcast handle: \<open>None\<close> until it is set, then what was handed to it.
\<close>

datatype outgoing = AdvertiseBlock i64 | AdvertiseTx bytes | AdvertiseCommit bytes

record 'k node =
  nd_world :: world_state
  nd_mempool :: mempool
  nd_require_sig :: bool
  nd_confirmations :: "i64 \<rightharpoonup> bytes set"
  nd_witness :: "('k \<times> bytes) option"
  nd_commit_out :: "outgoing list option"

definition node_new :: "world_state \<Rightarrow> mempool \<Rightarrow> bool \<Rightarrow> 'k node" where
  "node_new s pool require_sig =
     \<lparr>nd_world = s, nd_mempool = pool, nd_require_sig = require_sig, nd_confirmations = Map.empty,
      nd_witness = None, nd_commit_out = None\<rparr>"

definition with_witness :: "('k, 'p) externals \<Rightarrow> 'k option \<Rightarrow> 'k node \<Rightarrow> 'k node" where
  "with_witness x key n =
     n\<lparr>nd_witness := map_option (\<lambda>k. (k, as_bytes (address_from_public_key x (public_key x k)))) key\<rparr>"

definition set_commit_handle :: "'k node \<Rightarrow> 'k node" where
  "set_commit_handle n = (case nd_commit_out n of None \<Rightarrow> n\<lparr>nd_commit_out := Some []\<rparr> | Some _ \<Rightarrow> n)"

definition advertise :: "outgoing \<Rightarrow> 'k node \<Rightarrow> 'k node" where
  "advertise m n = (case nd_commit_out n of Some sent \<Rightarrow> n\<lparr>nd_commit_out := Some (sent @ [m])\<rparr> | None \<Rightarrow> n)"

definition handler_head :: "'k node \<Rightarrow> i64" where
  "handler_head n = get_prop_i64 (nd_world n) LATEST_BLOCK_NUMBER"

definition on_pbft_commit :: "('k, 'p) externals \<Rightarrow> bytes \<Rightarrow> 'k node \<Rightarrow> bool \<times> 'k node" where
  "on_pbft_commit x commit_bytes n =
     (let s = nd_world n; allow_pbft = get_prop_i64 s ALLOW_PBFT = 1 in
      if \<not> allow_pbft then (False, n)
      else case commit_decode commit_bytes of
        None \<Rightarrow> (False, n)
      | Some commit \<Rightarrow>
          (case recover_signer x commit of
             None \<Rightarrow> (False, n)
           | Some a \<Rightarrow>
               let signer = as_bytes a; active = get_active_witnesses s in
               if signer \<notin> set active then (False, n)
               else let tip = handler_head n; solidified = get_solidified_block s; b = pc_block_num commit in
                 if \<not> accept_pbft_message allow_pbft b tip solidified then (False, n)
                 else let signers = (case nd_confirmations n b of Some S \<Rightarrow> S | None \<Rightarrow> {}) in
                   if signer \<in> signers then (False, n)
                   else let conf = (nd_confirmations n)(b \<mapsto> insert signer signers); n = n\<lparr>nd_confirmations := conf\<rparr> in
                     if \<not> is_finalized (card (insert signer signers)) (length active) then (True, n)
                     else (case solidified_block (\<lambda>k. map_option card (conf k)) tip (length active) of
                             None \<Rightarrow> (True, n)
                           | Some solid \<Rightarrow>
                               if solidified < solid
                               then (True, n\<lparr>nd_world := put_solidified_block solid s,
                                       nd_confirmations := prune_below_solidified conf solid\<rparr>)
                               else (True, n))))"

definition own_commit :: "('k, 'p) externals \<Rightarrow> 'k \<Rightarrow> i64 \<Rightarrow> bytes \<Rightarrow> bytes option" where
  "own_commit x k block_num bid =
     (case sign_digest x k (commit_digest x block_num bid) of
        Inl _ \<Rightarrow> None
      | Inr sig \<Rightarrow> Some (commit_encode \<lparr>pc_block_num = block_num, pc_block_id = bid, pc_signature = pack_signature sig\<rparr>))"

definition emit_commit :: "('k, 'p) externals \<Rightarrow> i64 \<Rightarrow> bytes \<Rightarrow> 'k node \<Rightarrow> 'k node" where
  "emit_commit x block_num bid n =
     (case nd_witness n of
        None \<Rightarrow> n
      | Some (k, address) \<Rightarrow>
          if get_prop_i64 (nd_world n) ALLOW_PBFT \<noteq> 1 then n
          else if address \<notin> set (get_active_witnesses (nd_world n)) then n
          else case own_commit x k block_num bid of
            None \<Rightarrow> n
          | Some bs \<Rightarrow>
              advertise (AdvertiseCommit bs) (snd (on_pbft_commit x bs n)))"

definition on_block :: "('k, 'p) externals \<Rightarrow> bytes \<Rightarrow> 'k node \<Rightarrow> i64 option \<times> 'k node" where
  "on_block x block_bytes n =
     (let witnesses = get_active_witnesses (nd_world n);
          gate = (if witnesses = [] then None else Some witnesses) in
      case apply_synced_blocks_gated x (nd_require_sig n) gate 0 [block_bytes] (nd_world n) of
        (Inr applied, s) \<Rightarrow>
          let n = n\<lparr>nd_world := s\<rparr> in
          if 1 \<le> applied
          then let n = (case ext_decode_block x block_bytes of
                          Inl _ \<Rightarrow> n
                        | Inr block \<Rightarrow>
                            (case (raw_header block, block_id_of x block) of
                               (Some raw, Some i) \<Rightarrow> emit_commit x (hr_number raw) (h256_bytes i) n
                             | _ \<Rightarrow> n))
               in (Some (handler_head n), n)
          else (None, n)
      | (Inl _, s) \<Rightarrow> (None, n\<lparr>nd_world := s\<rparr>))"

definition on_transaction :: "('k, 'p) externals \<Rightarrow> i64 \<Rightarrow> bytes \<Rightarrow> 'k node \<Rightarrow> 'k node" where
  "on_transaction x now_ms tx_bytes n =
     (case ext_decode_tx x tx_bytes of
        Inl _ \<Rightarrow> n
      | Inr tx \<Rightarrow> n\<lparr>nd_mempool := snd (admit_transaction x (\<lambda>_ _. Inr ()) (nd_world n) now_ms tx (nd_mempool n))\<rparr>)"

definition handler_block_bytes :: "('k, 'p) externals \<Rightarrow> i64 \<Rightarrow> 'k node \<Rightarrow> bytes option" where
  "handler_block_bytes x number n = map_option (ext_encode_block x) (get_block_by_num (nd_world n) number)"

section \<open>The services that drive the handler\<close>

text \<open>
  One tick of the block-production service of \<open>node/src/lib.rs\<close>: produce when it is our slot, apply, gossip the
  block and sign a commit for it.
\<close>

definition produce_tick :: "('k, 'p) externals \<Rightarrow> i64 \<Rightarrow> 'k node \<Rightarrow> 'k node" where
  "produce_tick x now n =
     (case nd_witness n of
        None \<Rightarrow> n
      | Some (k, address) \<Rightarrow>
          (case try_produce x (nd_world n) (nd_mempool n) k now of
             None \<Rightarrow> n
           | Some block \<Rightarrow>
               (case apply_produced x block (nd_world n, nd_mempool n) of
                  (num, s, pool) \<Rightarrow>
                    let n = n\<lparr>nd_world := s, nd_mempool := pool\<rparr> in
                    (case num of
                       None \<Rightarrow> n
                     | Some num \<Rightarrow>
                         let n = advertise (AdvertiseBlock num) n in
                         (case block_id_of x block of Some i \<Rightarrow> emit_commit x num (h256_bytes i) n | None \<Rightarrow> n)))))"

text \<open>The end of a round of the sync service: the fetched blocks go through the gate; it asks for no signature itself.\<close>

definition apply_fetched :: "('k, 'p) externals \<Rightarrow> bool \<Rightarrow> bytes list \<Rightarrow> world_state \<Rightarrow> (sync_error + nat) \<times> world_state" where
  "apply_fetched x require_sig blocks s =
     (let witnesses = get_active_witnesses s; gate = (if witnesses = [] then None else Some witnesses) in
      apply_synced_blocks_gated x require_sig gate 0 blocks s)"

datatype node_event = ReceiveBlock bytes | ReceiveTx i64 bytes | ReceiveCommit bytes | ProduceTick i64 | SyncRound "bytes list"

primrec handle_event :: "('k, 'p) externals \<Rightarrow> node_event \<Rightarrow> 'k node \<Rightarrow> 'k node" where
  "handle_event x (ReceiveBlock bs) n = snd (on_block x bs n)"
| "handle_event x (ReceiveTx now bs) n = on_transaction x now bs n"
| "handle_event x (ReceiveCommit bs) n = snd (on_pbft_commit x bs n)"
| "handle_event x (ProduceTick now) n = produce_tick x now n"
| "handle_event x (SyncRound blocks) n = n\<lparr>nd_world := snd (apply_fetched x False blocks (nd_world n))\<rparr>"

section \<open>Commits round-trip\<close>

lemma commit_decode_encode:
  assumes "in_i64 (pc_block_num c)" "length (pc_block_id c) = 32" "length (pc_signature c) = 65"
  shows "commit_decode (commit_encode c) = Some c"
  using assms by (simp add: commit_decode_def commit_encode_def ENCODED_LEN_def)

lemma own_commit_attests:
  assumes "good_externals x" "in_i64 b" "length bid = 32" "own_commit x k b bid = Some m"
  shows "\<exists>c. commit_decode m = Some c \<and> pc_block_num c = b \<and> pc_block_id c = bid
    \<and> recover_signer x c = Some (address_from_public_key x (public_key x k))"
proof -
  obtain sig where s: "sign_digest x k (commit_digest x b bid) = Inr sig"
    and m: "m = commit_encode \<lparr>pc_block_num = b, pc_block_id = bid, pc_signature = pack_signature sig\<rparr>"
    using assms(4) by (auto simp: own_commit_def split: sum.splits)
  have "length (commit_digest x b bid) = 32" using assms(1) by (simp add: commit_digest_def)
  note r = sign_recover [OF assms(1) this s]
  then have "commit_decode m = Some \<lparr>pc_block_num = b, pc_block_id = bid, pc_signature = pack_signature sig\<rparr>"
    unfolding m using assms(2,3) by (intro commit_decode_encode) simp_all
  with r(2) show ?thesis by (simp add: recover_signer_def)
qed

section \<open>The solidified block\<close>

lemma solid_from_Some:
  assumes "solid_from c tip srs s n = Some m"
  shows "s = Some m \<or> (n \<le> m \<and> m \<le> tip \<and> (\<forall>k\<in>{n..m}. \<exists>cnt. c k = Some cnt \<and> is_finalized cnt srs))"
  using assms
proof (induction c tip srs s n rule: solid_from.induct)
  case (1 c tip srs s n)
  show ?case
  proof (cases "n \<le> tip \<and> (\<exists>cnt. c n = Some cnt \<and> is_finalized cnt srs)")
    case True
    then obtain cnt where k: "n \<le> tip" "c n = Some cnt" "is_finalized cnt srs" by blast
    with 1(2) have "solid_from c tip srs (Some n) (n + 1) = Some m" by (subst (asm) solid_from.simps) simp
    from 1(1) [OF k this] have "n = m \<or> (n + 1 \<le> m \<and> m \<le> tip \<and> (\<forall>k\<in>{n + 1..m}. \<exists>cnt. c k = Some cnt \<and> is_finalized cnt srs))"
      by simp
    moreover have "{n..m} = insert n {n + 1..m}" if "n \<le> m" using that by auto
    ultimately show ?thesis using k by auto
  next
    case False
    with 1(2) have "s = Some m" by (subst (asm) solid_from.simps) (auto split: if_splits option.splits)
    then show ?thesis ..
  qed
qed

lemma solidified_block_Some:
  assumes "solidified_block c tip srs = Some m"
  shows "1 \<le> m" "m \<le> tip" "k \<in> {1..m} \<Longrightarrow> \<exists>cnt. c k = Some cnt \<and> is_finalized cnt srs"
  using solid_from_Some [OF assms [unfolded solidified_block_def]] by auto

lemma solidified_block_gap: "c 1 = None \<Longrightarrow> solidified_block c tip srs = None"
  unfolding solidified_block_def by (subst solid_from.simps) simp

lemma finality_threshold_quorum: "is_finalized c srs \<longleftrightarrow> 2 * srs < 3 * c"
  unfolding is_finalized_def finality_threshold_def by linarith

section \<open>What one event does to finality\<close>

abbreviation solid :: "'k node \<Rightarrow> i64" where
  "solid n \<equiv> get_solidified_block (nd_world n)"

abbreviation actives :: "'k node \<Rightarrow> bytes list" where
  "actives n \<equiv> get_active_witnesses (nd_world n)"

lemma on_pbft_commit_cases:
  obtains (dropped) "on_pbft_commit x m n = (False, n)"
  | (recorded) c a S where "commit_decode m = Some c" "recover_signer x c = Some a" "as_bytes a \<in> set (actives n)"
      "solid n < pc_block_num c" "S = (case nd_confirmations n (pc_block_num c) of Some S \<Rightarrow> S | None \<Rightarrow> {})"
      "on_pbft_commit x m n = (True, n\<lparr>nd_confirmations := (nd_confirmations n)(pc_block_num c \<mapsto> insert (as_bytes a) S)\<rparr>)"
  | (advanced) c a S conf b where "commit_decode m = Some c" "recover_signer x c = Some a" "as_bytes a \<in> set (actives n)"
      "solid n < pc_block_num c" "S = (case nd_confirmations n (pc_block_num c) of Some S \<Rightarrow> S | None \<Rightarrow> {})"
      "conf = (nd_confirmations n)(pc_block_num c \<mapsto> insert (as_bytes a) S)"
      "solidified_block (\<lambda>k. map_option card (conf k)) (handler_head n) (length (actives n)) = Some b" "solid n < b"
      "on_pbft_commit x m n = (True, n\<lparr>nd_world := put_solidified_block b (nd_world n), nd_confirmations := prune_below_solidified conf b\<rparr>)"
proof -
  show ?thesis
  proof (cases "on_pbft_commit x m n = (False, n)")
    case False
    let ?sg = "\<lambda>c. case nd_confirmations n (pc_block_num c) of Some S \<Rightarrow> S | None \<Rightarrow> {}"
    from False obtain c a where ca: "get_prop_i64 (nd_world n) ALLOW_PBFT = 1" "commit_decode m = Some c" "recover_signer x c = Some a"
      "as_bytes a \<in> set (actives n)" "accept_pbft_message True (pc_block_num c) (handler_head n) (solid n)" "as_bytes a \<notin> ?sg c"
      by (auto simp: on_pbft_commit_def Let_def split: option.splits if_splits)
    then have gt: "solid n < pc_block_num c" by (simp add: accept_pbft_message_def)
    define conf where "conf = (nd_confirmations n)(pc_block_num c \<mapsto> insert (as_bytes a) (?sg c))"
    define r where "r = solidified_block (\<lambda>k. map_option card (conf k)) (handler_head n) (length (actives n))"
    have e: "on_pbft_commit x m n =
      (if \<not> is_finalized (card (insert (as_bytes a) (?sg c))) (length (actives n)) then (True, n\<lparr>nd_confirmations := conf\<rparr>)
       else case r of None \<Rightarrow> (True, n\<lparr>nd_confirmations := conf\<rparr>)
         | Some b \<Rightarrow> if solid n < b then (True, n\<lparr>nd_world := put_solidified_block b (nd_world n), nd_confirmations := prune_below_solidified conf b\<rparr>)
             else (True, n\<lparr>nd_confirmations := conf\<rparr>))"
      unfolding conf_def r_def using ca by (simp add: on_pbft_commit_def Let_def handler_head_def split: option.split)
    show ?thesis
    proof (cases "on_pbft_commit x m n = (True, n\<lparr>nd_confirmations := conf\<rparr>)")
      case True
      with recorded [OF ca(2,3,4) gt refl] show ?thesis by (simp add: conf_def)
    next
      case False
      with e obtain b where b: "r = Some b" "solid n < b"
        "on_pbft_commit x m n = (True, n\<lparr>nd_world := put_solidified_block b (nd_world n), nd_confirmations := prune_below_solidified conf b\<rparr>)"
        by (auto split: if_splits option.splits)
      show ?thesis by (rule advanced [OF ca(2,3,4) gt refl conf_def b(1) [unfolded r_def] b(2,3)])
    qed
  qed (rule dropped)
qed

text \<open>
  Every event is a sequence of two kinds of steps: one that leaves finality alone and never lowers the head, and the
  accounting of one commit.
\<close>

inductive finality_step :: "('k, 'p) externals \<Rightarrow> bytes set \<Rightarrow> 'k node \<Rightarrow> 'k node \<Rightarrow> bool" for x M where
  quiet: "solid n' = solid n \<Longrightarrow> actives n' = actives n \<Longrightarrow> nd_confirmations n' = nd_confirmations n
    \<Longrightarrow> nd_witness n' = nd_witness n \<Longrightarrow> handler_head n \<le> handler_head n' \<Longrightarrow> finality_step x M n n'"
| commit: "m \<in> M \<Longrightarrow> finality_step x M n (snd (on_pbft_commit x m n))"

lemmas finality_steps_trans = rtranclp_trans [of "finality_step x M" for x M]

lemma on_pbft_commit_frame [simp]: "nd_witness (snd (on_pbft_commit x m n)) = nd_witness n"
  "nd_commit_out (snd (on_pbft_commit x m n)) = nd_commit_out n" "nd_mempool (snd (on_pbft_commit x m n)) = nd_mempool n"
  by (cases rule: on_pbft_commit_cases [of x m n]; simp)+

lemma put_block_quiet:
  "get_solidified_block (put_block x b s) = get_solidified_block s" "get_active_witnesses (put_block x b s) = get_active_witnesses s"
  "get_prop_i64 s LATEST_BLOCK_NUMBER \<le> get_prop_i64 (put_block x b s) LATEST_BLOCK_NUMBER"
  using LATEST_BLOCK_NUMBER_keys
  by (auto simp: put_block_def Let_def get_solidified_block_def get_prop_i64_def put_prop_i64_def get_active_witnesses_def prop_keys
      split: option.splits)

lemma synced_quiet:
  fixes x :: "('k, 'p) externals"
  assumes "apply_synced_blocks_gated x rs active k blocks s = (r, s')"
  shows "get_solidified_block s' = get_solidified_block s \<and> get_active_witnesses s' = get_active_witnesses s
    \<and> get_prop_i64 s LATEST_BLOCK_NUMBER \<le> get_prop_i64 s' LATEST_BLOCK_NUMBER"
  using assms
proof (induction x rs active k blocks s rule: apply_synced_blocks_gated.induct)
  case (2 x rs active k bs blocks s)
  from 2(2) show ?case
  proof (cases "\<exists>b. apply_synced_blocks_gated x rs active (k + 1) blocks (put_block x b s) = (r, s')
      \<and> ext_decode_block x bs = Inr b")
    case True
    then obtain b where b: "ext_decode_block x bs = Inr b" "apply_synced_blocks_gated x rs active (k + 1) blocks (put_block x b s) = (r, s')"
      by blast
    show ?thesis
    proof (cases "s' = s")
      case False
      with 2(2) b(1) have v: "\<exists>u. (case active of Some ws \<Rightarrow> validate_block_intake x b ws
          | None \<Rightarrow> validate_block x b \<lparr>require_witness_signature = rs\<rparr>) = Inr u"
        and n: "(case raw_header b of Some r \<Rightarrow> hr_number r | None \<Rightarrow> -1) = i64_wrap (get_prop_i64 s LATEST_BLOCK_NUMBER + 1)"
        by (auto simp: Let_def split: sum.splits if_splits)
      from v obtain u where u: "(case active of Some ws \<Rightarrow> validate_block_intake x b ws
          | None \<Rightarrow> validate_block x b \<lparr>require_witness_signature = rs\<rparr>) = Inr u" ..
      from 2(1) [OF b(1) u refl refl _ b(2)] n put_block_quiet [where x = x and b = b and s = s] show ?thesis by auto
    qed simp
  next
    case False
    with 2(2) have "s' = s" by (auto simp: Let_def split: sum.splits if_splits)
    then show ?thesis by simp
  qed
qed simp

lemma emit_commit_steps:
  assumes "\<And>k a b bid m. nd_witness n = Some (k, a) \<Longrightarrow> own_commit x k b bid = Some m \<Longrightarrow> m \<in> M"
  shows "(finality_step x M)\<^sup>*\<^sup>* n (emit_commit x b bid n)"
proof (cases "emit_commit x b bid n = n")
  case False
  then obtain k a m where m: "nd_witness n = Some (k, a)" "own_commit x k b bid = Some m"
    "emit_commit x b bid n = advertise (AdvertiseCommit m) (snd (on_pbft_commit x m n))"
    by (auto simp: emit_commit_def split: option.splits if_splits)
  have "finality_step x M n (snd (on_pbft_commit x m n))" using assms m by (intro commit) blast
  moreover have "finality_step x M n' (advertise o' n')" for o' and n' :: "'a node"
    by (rule quiet) (auto simp: advertise_def handler_head_def split: option.splits)
  ultimately show ?thesis unfolding m(3) by (intro converse_rtranclp_into_rtranclp [OF _ r_into_rtranclp])
qed simp

lemma handle_event_steps:
  fixes n :: "'k node"
  assumes own: "\<And>k a b bid m. nd_witness n = Some (k, a) \<Longrightarrow> own_commit x k b bid = Some m \<Longrightarrow> m \<in> M"
    and rcv: "\<And>m. ev = ReceiveCommit m \<Longrightarrow> m \<in> M"
  shows "(finality_step x M)\<^sup>*\<^sup>* n (handle_event x ev n)"
proof -
  have emit: "(finality_step x M)\<^sup>*\<^sup>* n (emit_commit x b bid n')" if "finality_step x M n n'" "nd_witness n' = nd_witness n" for b bid n'
    using emit_commit_steps [of n' x M b bid] own that by (simp add: converse_rtranclp_into_rtranclp)
  have world: "finality_step x M n (n\<lparr>nd_world := s\<rparr>)"
    if "apply_synced_blocks_gated x rs active k blocks (nd_world n) = (r, s)" for rs active k blocks r s
    using synced_quiet [OF that] by (intro quiet) (simp_all add: handler_head_def)
  show ?thesis
  proof (cases ev)
    case (ReceiveBlock bs)
    show ?thesis
    proof -
      obtain r s where a: "apply_synced_blocks_gated x (nd_require_sig n) (if actives n = [] then None else Some (actives n)) 0 [bs] (nd_world n) = (r, s)"
        by fastforce
      note w = world [OF a]
      show ?thesis using emit [OF w] w a ReceiveBlock
        by (auto simp: on_block_def Let_def split: sum.splits option.splits)
    qed
  next
    case (ReceiveTx now bs)
    then show ?thesis by (intro r_into_rtranclp quiet) (auto simp: on_transaction_def handler_head_def split: sum.splits)
  next
    case (ReceiveCommit m)
    then show ?thesis using rcv by (auto intro: commit)
  next
    case (ProduceTick now)
    show ?thesis
    proof (cases "produce_tick x now n = n")
      case False
      then obtain b num s pool where b: "apply_produced x b (nd_world n, nd_mempool n) = (num, s, pool)"
        and e: "produce_tick x now n = (let n = n\<lparr>nd_world := s, nd_mempool := pool\<rparr> in case num of None \<Rightarrow> n
          | Some num \<Rightarrow> let n = advertise (AdvertiseBlock num) n in case block_id_of x b of Some i \<Rightarrow> emit_commit x num (h256_bytes i) n | None \<Rightarrow> n)"
        by (auto simp: produce_tick_def split: option.splits prod.splits)
      obtain T where s: "s = (put_block x b (nd_world n))\<lparr>ws_transactions := T\<rparr>"
        using b index_block_frame [of x b "put_block x b (nd_world n)"] by (auto simp: apply_produced_def Let_def)
      have q: "get_solidified_block (t\<lparr>ws_transactions := T\<rparr>) = get_solidified_block t"
        "get_active_witnesses (t\<lparr>ws_transactions := T\<rparr>) = get_active_witnesses t"
        "get_prop_i64 (t\<lparr>ws_transactions := T\<rparr>) k = get_prop_i64 t k" for t k
        by (simp_all add: get_solidified_block_def get_prop_i64_def get_active_witnesses_def)
      have w: "finality_step x M n (n\<lparr>nd_world := s, nd_mempool := pool\<rparr>)"
        "finality_step x M n (advertise ms (n\<lparr>nd_world := s, nd_mempool := pool\<rparr>))" for ms
        unfolding s advertise_def using put_block_quiet [where x = x and b = b and s = "nd_world n"]
        by (auto intro!: quiet simp: handler_head_def q split: option.split)
      have [simp]: "nd_witness (advertise ms n') = nd_witness n'" for ms and n' :: "'k node"
        by (simp add: advertise_def split: option.split)
      show ?thesis using w emit [OF w(2)] by (auto simp: ProduceTick e Let_def split: option.splits)
    qed (simp add: ProduceTick)
  next
    case (SyncRound blocks)
    show ?thesis using world [OF surjective_pairing] unfolding SyncRound handle_event.simps apply_fetched_def Let_def by blast
  qed
qed

section \<open>Finality needs a quorum\<close>

text \<open>The witnesses whose commit for block \<open>b\<close> is among the messages \<open>M\<close>.\<close>

definition signers_of :: "('k, 'p) externals \<Rightarrow> bytes set \<Rightarrow> i64 \<Rightarrow> bytes set" where
  "signers_of x M b = {as_bytes a |a c m. m \<in> M \<and> commit_decode m = Some c \<and> pc_block_num c = b \<and> recover_signer x c = Some a}"

definition finality_inv :: "('k, 'p) externals \<Rightarrow> bytes set \<Rightarrow> 'k node \<Rightarrow> bool" where
  "finality_inv x M n \<longleftrightarrow>
     (\<forall>b S. nd_confirmations n b = Some S \<longrightarrow> finite S \<and> S \<subseteq> signers_of x M b \<inter> set (actives n))
     \<and> 0 \<le> solid n \<and> solid n \<le> handler_head n
     \<and> (\<forall>b\<in>{1..solid n}. \<exists>S \<subseteq> signers_of x M b \<inter> set (actives n). is_finalized (card S) (length (actives n)))"

lemma put_solidified_frame [simp]:
  "get_solidified_block (put_solidified_block b s) = b" "get_active_witnesses (put_solidified_block b s) = get_active_witnesses s"
  "get_prop_i64 (put_solidified_block b s) LATEST_BLOCK_NUMBER = get_prop_i64 s LATEST_BLOCK_NUMBER"
  by (simp_all add: get_solidified_block_def put_solidified_block_def get_prop_i64_def put_prop_i64_def get_active_witnesses_def
      LATEST_BLOCK_NUMBER_keys)

lemma confirmation_inv:
  assumes inv: "\<forall>b S. conf b = Some S \<longrightarrow> finite S \<and> S \<subseteq> signers_of x M b \<inter> A"
    and m: "m \<in> M" "commit_decode m = Some c" "recover_signer x c = Some a" "as_bytes a \<in> A"
    and S: "S = (case conf (pc_block_num c) of Some S \<Rightarrow> S | None \<Rightarrow> {})"
  shows "\<forall>b T. (conf(pc_block_num c \<mapsto> insert (as_bytes a) S)) b = Some T \<longrightarrow> finite T \<and> T \<subseteq> signers_of x M b \<inter> A"
proof -
  have "as_bytes a \<in> signers_of x M (pc_block_num c)" using m by (auto simp: signers_of_def)
  moreover have "finite S \<and> S \<subseteq> signers_of x M (pc_block_num c) \<inter> A" using inv by (auto simp: S split: option.split)
  ultimately show ?thesis using inv m(4) by auto
qed

lemma finality_inv_step: "finality_step x M n n' \<Longrightarrow> finality_inv x M n \<Longrightarrow> finality_inv x M n'"
proof (induction rule: finality_step.induct)
  case (quiet n' n)
  then show ?case by (auto simp: finality_inv_def)
next
  case (commit m n)
  note inv = commit(2) [unfolded finality_inv_def]
  show ?case
  proof (cases rule: on_pbft_commit_cases [of x m n])
    case dropped
    with commit show ?thesis by simp
  next
    case (recorded c a S)
    have "\<forall>b T. ((nd_confirmations n)(pc_block_num c \<mapsto> insert (as_bytes a) S)) b = Some T
        \<longrightarrow> finite T \<and> T \<subseteq> signers_of x M b \<inter> set (actives n)"
      using inv commit(1) recorded by (intro confirmation_inv) auto
    then show ?thesis unfolding recorded(6) finality_inv_def using inv by (simp add: handler_head_def)
  next
    case (advanced c a S conf b)
    have c: "\<forall>b T. conf b = Some T \<longrightarrow> finite T \<and> T \<subseteq> signers_of x M b \<inter> set (actives n)"
      unfolding advanced(6) using inv commit(1) advanced by (intro confirmation_inv) auto
    note sb = solidified_block_Some [OF advanced(7)]
    have "\<exists>S \<subseteq> signers_of x M k \<inter> set (actives n). is_finalized (card S) (length (actives n))" if "k \<in> {1..b}" for k
    proof -
      obtain T where "conf k = Some T" "is_finalized (card T) (length (actives n))" using sb(3) [OF \<open>k \<in> {1..b}\<close>] by auto
      then show ?thesis using c by blast
    qed
    with sb(1,2) c show ?thesis unfolding advanced(9) finality_inv_def
      by (auto simp: handler_head_def prune_below_solidified_def)
  qed
qed

lemma finality_inv_steps: "(finality_step x M)\<^sup>*\<^sup>* n n' \<Longrightarrow> finality_inv x M n \<Longrightarrow> finality_inv x M n'"
  by (induction rule: rtranclp_induct) (auto intro: finality_inv_step)

lemma finality_step_keeps:
  "finality_step x M n n' \<Longrightarrow> solid n \<le> solid n' \<and> actives n' = actives n \<and> nd_witness n' = nd_witness n"
proof (induction rule: finality_step.induct)
  case (commit m n)
  then show ?case by (cases rule: on_pbft_commit_cases [of x m n]) simp_all
qed simp

lemma finality_steps_keep:
  "(finality_step x M)\<^sup>*\<^sup>* n n' \<Longrightarrow> solid n \<le> solid n' \<and> actives n' = actives n \<and> nd_witness n' = nd_witness n"
  by (induction rule: rtranclp_induct) (auto dest: finality_step_keeps)

text \<open>The commits a node can have seen: the ones received, and the ones its own key makes.\<close>

definition commits_seen :: "('k, 'p) externals \<Rightarrow> 'k node \<Rightarrow> node_event list \<Rightarrow> bytes set" where
  "commits_seen x n evs =
     {m. ReceiveCommit m \<in> set evs} \<union> {m. \<exists>k a b bid. nd_witness n = Some (k, a) \<and> own_commit x k b bid = Some m}"

lemma run_steps:
  assumes "commits_seen x n evs \<subseteq> M"
  shows "(finality_step x M)\<^sup>*\<^sup>* n (fold (handle_event x) evs n)"
  using assms
proof (induction evs arbitrary: n)
  case (Cons ev evs)
  have s: "(finality_step x M)\<^sup>*\<^sup>* n (handle_event x ev n)"
    using Cons.prems by (intro handle_event_steps) (auto simp: commits_seen_def)
  moreover have "commits_seen x (handle_event x ev n) evs \<subseteq> M"
    using Cons.prems finality_steps_keep [OF s] by (auto simp: commits_seen_def)
  ultimately show ?case using Cons.IH by (simp add: rtranclp_trans)
qed simp

section \<open>Finality gets stuck\<close>

definition stuck :: "'k node \<Rightarrow> bool" where
  "stuck n \<longleftrightarrow> 1 \<le> solid n \<and> nd_confirmations n 1 = None"

lemma stuck_step: "finality_step x M n n' \<Longrightarrow> stuck n \<Longrightarrow> stuck n' \<and> solid n' = solid n"
proof (induction rule: finality_step.induct)
  case (commit m n)
  note st = commit(2) [unfolded stuck_def]
  show ?case
  proof (cases rule: on_pbft_commit_cases [of x m n])
    case (advanced c a S conf b)
    have "conf 1 = None" unfolding advanced(6) using st advanced(4) by simp
    with solidified_block_gap have "solidified_block (\<lambda>k. map_option card (conf k)) (handler_head n) (length (actives n)) = None" by simp
    with advanced(7) show ?thesis by simp
  qed (use st in \<open>auto simp: stuck_def\<close>)
qed (simp add: stuck_def)

lemma stuck_steps: "(finality_step x M)\<^sup>*\<^sup>* n n' \<Longrightarrow> stuck n \<Longrightarrow> stuck n' \<and> solid n' = solid n"
  by (induction rule: rtranclp_induct) (auto dest: stuck_step)

lemma pruned_step: "finality_step x M n n' \<Longrightarrow> 2 \<le> solid n \<longrightarrow> stuck n \<Longrightarrow> 2 \<le> solid n' \<longrightarrow> stuck n'"
proof (induction rule: finality_step.induct)
  case (commit m n)
  then show ?case
    by (cases rule: on_pbft_commit_cases [of x m n]) (auto simp: stuck_def prune_below_solidified_def)
qed (simp add: stuck_def)

lemma pruned_steps: "(finality_step x M)\<^sup>*\<^sup>* n n' \<Longrightarrow> 2 \<le> solid n \<longrightarrow> stuck n \<Longrightarrow> 2 \<le> solid n' \<longrightarrow> stuck n'"
  by (induction rule: rtranclp_induct) (auto dest: pruned_step)

section \<open>Finality of a node\<close>

text \<open>
  Commits of witness keys under the sample externals, and a node with the given witnesses active and blocks up to
  the given head.
\<close>

definition sample_commit :: "byte \<Rightarrow> i64 \<Rightarrow> bytes \<Rightarrow> bytes" where
  "sample_commit k b bid = commit_encode \<lparr>pc_block_num = b, pc_block_id = bid, pc_signature = replicate 64 k @ [27]\<rparr>"

definition sample_node :: "byte list \<Rightarrow> i64 \<Rightarrow> byte node" where
  "sample_node ks tip = node_new (ws_empty\<lparr>ws_props := [LATEST_BLOCK_NUMBER \<mapsto> tip, ALLOW_PBFT \<mapsto> 1],
     ws_active := map (\<lambda>k. 0x41 # replicate 20 k) ks\<rparr>) (mempool_new 1) True"

abbreviation sx :: "(byte, byte) externals" where
  "sx \<equiv> sample_externals sample_block sample_tx"

lemma sample_commit_decode:
  assumes "in_i64 b" "length bid = 32"
  shows "\<exists>c. commit_decode (sample_commit k b bid) = Some c \<and> pc_block_num c = b
    \<and> (\<exists>a. recover_signer sx c = Some a \<and> as_bytes a = 0x41 # replicate 20 k)"
proof -
  have "commit_decode (sample_commit k b bid) = Some \<lparr>pc_block_num = b, pc_block_id = bid, pc_signature = replicate 64 k @ [27]\<rparr>"
    unfolding sample_commit_def using assms by (intro commit_decode_encode) simp_all
  moreover have "\<exists>a. recover_signer sx \<lparr>pc_block_num = b, pc_block_id = bid, pc_signature = replicate 64 k @ [27]\<rparr> = Some a
      \<and> as_bytes a = 0x41 # replicate 20 k"
    by (simp add: recover_signer_def recover_65_def nth_append sample_externals_def recover_def ok_or_def Let_def
        address_from_public_key_def keccak256_def resize_def from_body_def ADDRESS_PREFIX_def min_def)
  ultimately show ?thesis by simp
qed

text \<open>Accounting of one such commit, as a function of the confirmations and the solidified block alone.\<close>

lemma on_sample_commit:
  assumes "in_i64 b" "length bid = 32" "get_prop_i64 (nd_world n) ALLOW_PBFT = 1" "0x41 # replicate 20 k \<in> set (actives n)"
  shows "on_pbft_commit sx (sample_commit k b bid) n =
    (let w = 0x41 # replicate 20 k; signers = (case nd_confirmations n b of Some S \<Rightarrow> S | None \<Rightarrow> {});
         conf = (nd_confirmations n)(b \<mapsto> insert w signers); n' = n\<lparr>nd_confirmations := conf\<rparr> in
     if \<not> accept_pbft_message True b (handler_head n) (solid n) \<or> w \<in> signers then (False, n)
     else if \<not> is_finalized (card (insert w signers)) (length (actives n)) then (True, n')
     else case solidified_block (\<lambda>k. map_option card (conf k)) (handler_head n) (length (actives n)) of
       None \<Rightarrow> (True, n')
     | Some b \<Rightarrow> if solid n < b then (True, n\<lparr>nd_world := put_solidified_block b (nd_world n), nd_confirmations := prune_below_solidified conf b\<rparr>)
         else (True, n'))"
proof -
  obtain c a where c: "commit_decode (sample_commit k b bid) = Some c" "recover_signer sx c = Some a"
    and e: "pc_block_num c = b" "as_bytes a = 0x41 # replicate 20 k"
    using sample_commit_decode [OF assms(1,2), of k] by blast
  have a: "as_bytes a \<in> set (actives n)" using assms(4) e by simp
  show ?thesis unfolding e(1) [symmetric] e(2) [symmetric]
    using a by (simp add: on_pbft_commit_def Let_def c e(1) assms(3) split: option.split)
qed

text \<open>
  C27: Finality needs a quorum.  Start a node without confirmations and with nothing solidified, and let it handle
  any sequence of blocks, transactions, commits, production ticks and sync rounds.  Every block number it then
  calls solidified is at or below its head and carries commits of more than two thirds of the active witnesses,
  each signed by the witness itself and either received or made with the node's own key.  Finality never goes back.
\<close>

theorem pbft_quorum:
  assumes "nd_confirmations n = Map.empty" and "get_solidified_block (nd_world n) = 0" and "0 \<le> handler_head n"
    and n': "n' = fold (handle_event x) evs n" and b: "1 \<le> b" "b \<le> get_solidified_block (nd_world n')"
  shows "b \<le> handler_head n'
    \<and> (\<exists>Q \<subseteq> set (get_active_witnesses (nd_world n)).
         2 * length (get_active_witnesses (nd_world n)) < 3 * card Q
         \<and> (\<forall>w\<in>Q. \<exists>m c a. (ReceiveCommit m \<in> set evs \<or> (\<exists>k addr i bid. nd_witness n = Some (k, addr) \<and> own_commit x k i bid = Some m))
              \<and> commit_decode m = Some c \<and> pc_block_num c = b \<and> recover_signer x c = Some a \<and> as_bytes a = w))
    \<and> get_solidified_block (nd_world n') \<le> get_solidified_block (nd_world (handle_event x ev n'))"
proof (intro conjI)
  let ?M = "commits_seen x n evs"
  have st: "(finality_step x ?M)\<^sup>*\<^sup>* n n'" unfolding n' by (rule run_steps) simp
  have "finality_inv x ?M n" using assms(1-3) by (simp add: finality_inv_def)
  note inv = finality_inv_steps [OF st this, unfolded finality_inv_def] and act = finality_steps_keep [OF st]
  show "b \<le> handler_head n'" using inv b by linarith
  from inv have "\<forall>b\<in>{1..solid n'}. \<exists>S \<subseteq> signers_of x ?M b \<inter> set (actives n'). is_finalized (card S) (length (actives n'))"
    by blast
  moreover have "b \<in> {1..solid n'}" using b by simp
  ultimately have "\<exists>S \<subseteq> signers_of x ?M b \<inter> set (actives n). is_finalized (card S) (length (actives n))"
    using act by (metis (no_types, lifting))
  then obtain Q where Q: "Q \<subseteq> signers_of x ?M b \<inter> set (actives n)" "is_finalized (card Q) (length (actives n))"
    by blast
  have "\<forall>w\<in>Q. \<exists>m c a. (ReceiveCommit m \<in> set evs \<or> (\<exists>k addr i bid. nd_witness n = Some (k, addr) \<and> own_commit x k i bid = Some m))
      \<and> commit_decode m = Some c \<and> pc_block_num c = b \<and> recover_signer x c = Some a \<and> as_bytes a = w"
  proof
    fix w
    assume "w \<in> Q"
    with Q(1) obtain a c m where "w = as_bytes a" "m \<in> ?M" "commit_decode m = Some c" "pc_block_num c = b" "recover_signer x c = Some a"
      unfolding signers_of_def by blast
    then show "\<exists>m c a. (ReceiveCommit m \<in> set evs \<or> (\<exists>k addr i bid. nd_witness n = Some (k, addr) \<and> own_commit x k i bid = Some m))
      \<and> commit_decode m = Some c \<and> pc_block_num c = b \<and> recover_signer x c = Some a \<and> as_bytes a = w"
      unfolding commits_seen_def by blast
  qed
  with Q show "\<exists>Q \<subseteq> set (actives n). 2 * length (actives n) < 3 * card Q
      \<and> (\<forall>w\<in>Q. \<exists>m c a. (ReceiveCommit m \<in> set evs \<or> (\<exists>k addr i bid. nd_witness n = Some (k, addr) \<and> own_commit x k i bid = Some m))
           \<and> commit_decode m = Some c \<and> pc_block_num c = b \<and> recover_signer x c = Some a \<and> as_bytes a = w)"
    unfolding finality_threshold_quorum by blast
  show "solid n' \<le> solid (handle_event x ev n')"
    using finality_steps_keep [OF run_steps [OF subset_refl, of x n' "[ev]"]] by simp
qed

lemma sample_node_simps [simp]:
  "nd_confirmations (sample_node ks tip) = Map.empty" "solid (sample_node ks tip) = 0" "handler_head (sample_node ks tip) = tip"
  "actives (sample_node ks tip) = map (\<lambda>k. 0x41 # replicate 20 k) ks" "get_prop_i64 (nd_world (sample_node ks tip)) ALLOW_PBFT = 1"
  using LATEST_BLOCK_NUMBER_keys
  by (simp_all add: sample_node_def node_new_def get_solidified_block_def handler_head_def get_prop_i64_def get_active_witnesses_def
      prop_keys ws_empty_def)

text \<open>The same for every node the sample commits lead to.\<close>

lemma on_sample_commit_frame:
  assumes "get_prop_i64 (nd_world n) ALLOW_PBFT = 1"
  shows "handler_head (snd (on_pbft_commit x m n)) = handler_head n" "actives (snd (on_pbft_commit x m n)) = actives n"
    "get_prop_i64 (nd_world (snd (on_pbft_commit x m n))) ALLOW_PBFT = 1"
proof -
  have [simp]: "get_prop_i64 (put_solidified_block b s) ALLOW_PBFT = get_prop_i64 s ALLOW_PBFT" for b s
    by (simp add: put_solidified_block_def get_prop_i64_def put_prop_i64_def prop_keys)
  show "handler_head (snd (on_pbft_commit x m n)) = handler_head n" "actives (snd (on_pbft_commit x m n)) = actives n"
    "get_prop_i64 (nd_world (snd (on_pbft_commit x m n))) ALLOW_PBFT = 1"
    using assms by (cases rule: on_pbft_commit_cases [of x m n]; simp add: handler_head_def)+
qed

lemma sample_one_witness:
  fixes bid :: bytes
  assumes "length bid = 32"
  defines "n1 \<equiv> snd (on_pbft_commit sx (sample_commit 1 1 bid) (sample_node [1] 3))"
  defines "n2 \<equiv> snd (on_pbft_commit sx (sample_commit 1 2 bid) n1)"
  defines "n3 \<equiv> snd (on_pbft_commit sx (sample_commit 1 3 bid) n2)"
  shows "solid n2 = 2" "fst (on_pbft_commit sx (sample_commit 1 3 bid) n2)" "solid n3 = 2"
    "nd_confirmations n3 3 = Some {0x41 # replicate 20 1}"
proof -
  have i: "in_i64 1" "in_i64 2" "in_i64 3" by (simp_all add: i64_bounds_defs)
  note e = accept_pbft_message_def MAX_PBFT_FUTURE_BLOCKS_def i64_sat_def i64_bounds_defs is_finalized_def finality_threshold_def
    solidified_block_def solid_from.simps prune_below_solidified_def Let_def
  have f1: "handler_head n1 = 3" "actives n1 = [0x41 # replicate 20 1]" "get_prop_i64 (nd_world n1) ALLOW_PBFT = 1"
    by (simp_all add: n1_def on_sample_commit_frame)
  then have f2: "handler_head n2 = 3" "actives n2 = [0x41 # replicate 20 1]" "get_prop_i64 (nd_world n2) ALLOW_PBFT = 1"
    by (simp_all add: n2_def on_sample_commit_frame)
  have "solid n1 = 1" "nd_confirmations n1 = (\<lambda>b. if b = 1 then Some {0x41 # replicate 20 1} else None)"
    unfolding n1_def by (simp_all add: on_sample_commit [OF i(1) assms(1)] e fun_eq_iff)
  with f1 have 2: "solid n2 = 2" "nd_confirmations n2 = (\<lambda>b. if b = 2 then Some {0x41 # replicate 20 1} else None)"
    unfolding n2_def by (simp_all add: on_sample_commit [OF i(2) assms(1)] e fun_eq_iff)
  show "solid n2 = 2" by (rule 2)
  show "fst (on_pbft_commit sx (sample_commit 1 3 bid) n2)" "solid n3 = 2" "nd_confirmations n3 3 = Some {0x41 # replicate 20 1}"
    unfolding n3_def using f2 2 by (simp_all add: on_sample_commit [OF i(3) assms(1)] e)
qed

theorem pbft_quorum_witness:
  "2 \<le> handler_head (fold (handle_event sx) [ReceiveCommit (sample_commit 1 1 (replicate 32 9)), ReceiveCommit (sample_commit 1 2 (replicate 32 9))]
     (sample_node [1] 3))"
proof -
  let ?evs = "[ReceiveCommit (sample_commit 1 1 (replicate 32 9)), ReceiveCommit (sample_commit 1 2 (replicate 32 9))]"
  have "solid (fold (handle_event sx) ?evs (sample_node [1] 3)) = 2"
    using sample_one_witness(1) [of "replicate 32 9"] by simp
  then show ?thesis using pbft_quorum [of "sample_node [1] 3" _ sx ?evs 2, OF _ _ _ refl] by simp
qed

text \<open>
  C28: Finality stops after two blocks.  As soon as a node calls two blocks solidified, or restarts with at least one
  (its confirmations are not persisted), the solidified block never changes again, whatever it receives: the scan
  for the highest solidified block starts at block 1, whose confirmations have been pruned and are refused from then on.
\<close>

theorem pbft_stuck:
  assumes "nd_confirmations n = Map.empty"
    and "2 \<le> get_solidified_block (nd_world (fold (handle_event x) evs n)) \<or> 1 \<le> get_solidified_block (nd_world n)"
  shows "get_solidified_block (nd_world (fold (handle_event x) (evs @ later) n))
    = get_solidified_block (nd_world (fold (handle_event x) evs n))"
proof -
  let ?n = "fold (handle_event x) evs n"
  have st: "(finality_step x (commits_seen x n evs))\<^sup>*\<^sup>* n ?n" by (rule run_steps) simp
  have "stuck ?n"
  proof (cases "1 \<le> solid n")
    case True
    then show ?thesis using stuck_steps [OF st] assms(1) by (simp add: stuck_def)
  next
    case False
    then show ?thesis using pruned_steps [OF st] assms(2) by simp
  qed
  then show ?thesis using stuck_steps [OF run_steps [OF subset_refl, of x ?n later]] by simp
qed

theorem pbft_stuck_witness:
  "solid (fold (handle_event sx) [ReceiveCommit (sample_commit 1 1 (replicate 32 9)), ReceiveCommit (sample_commit 1 2 (replicate 32 9)),
     ReceiveCommit (sample_commit 1 3 (replicate 32 9))] (sample_node [1] 3)) = 2
   \<and> fst (on_pbft_commit sx (sample_commit 1 3 (replicate 32 9)) (fold (handle_event sx)
       [ReceiveCommit (sample_commit 1 1 (replicate 32 9)), ReceiveCommit (sample_commit 1 2 (replicate 32 9))] (sample_node [1] 3)))
   \<and> is_finalized (card {0x41 # replicate 20 (1 :: byte)}) 1"
proof -
  let ?m = "\<lambda>b. ReceiveCommit (sample_commit 1 b (replicate 32 9))"
  have s: "solid (fold (handle_event sx) [?m 1, ?m 2] (sample_node [1] 3)) = 2"
    using sample_one_witness(1) [of "replicate 32 9"] by simp
  then have "solid (fold (handle_event sx) ([?m 1, ?m 2] @ [?m 3]) (sample_node [1] 3)) = 2"
    using pbft_stuck [of "sample_node [1] 3" sx "[?m 1, ?m 2]" "[?m 3]"] by simp
  then show ?thesis using sample_one_witness(2) [of "replicate 32 9"] by (simp add: is_finalized_def finality_threshold_def)
qed


end
