(* ===== verification/Wire.thy ===== *)
theory Wire
  imports Rust_Text
begin

text \<open>
  What travels between nodes: the message frames of \<open>p2p/src/message.rs\<close>, the length-prefixed stream and the
  block-sync exchange of \<open>p2p/src/channel.rs\<close>, the fetch rule of \<open>p2p/src/sync.rs\<close> and the discovery datagrams
  of \<open>p2p/src/discovery_codec.rs\<close>.  A stream is the list of its bytes; a reader returns what is left of it, and a
  writer returns the bytes it appends.  The only read error of a finished stream is the end of file.
\<close>

section \<open>Frames\<close>

datatype message_type =
    Trx | Block | Trxs | Blocks | BlockHeaders | Inventory | FetchInvData | SyncBlockChain | BlockChainInventory
  | FetchBlockHeaders | BlockInventory | TrxInventory | PbftCommit | P2pHello | P2pDisconnect | P2pPing | P2pPong

primrec message_u8 :: "message_type \<Rightarrow> byte" where
  "message_u8 Trx = 0x01"
| "message_u8 Block = 0x02"
| "message_u8 Trxs = 0x03"
| "message_u8 Blocks = 0x04"
| "message_u8 BlockHeaders = 0x05"
| "message_u8 Inventory = 0x06"
| "message_u8 FetchInvData = 0x07"
| "message_u8 SyncBlockChain = 0x08"
| "message_u8 BlockChainInventory = 0x09"
| "message_u8 FetchBlockHeaders = 0x11"
| "message_u8 BlockInventory = 0x12"
| "message_u8 TrxInventory = 0x13"
| "message_u8 PbftCommit = 0x14"
| "message_u8 P2pHello = 0x20"
| "message_u8 P2pDisconnect = 0x21"
| "message_u8 P2pPing = 0x22"
| "message_u8 P2pPong = 0x23"

definition message_from_u8 :: "byte \<Rightarrow> message_type option" where
  "message_from_u8 b =
     (if b = 0x01 then Some Trx
      else if b = 0x02 then Some Block
      else if b = 0x03 then Some Trxs
      else if b = 0x04 then Some Blocks
      else if b = 0x05 then Some BlockHeaders
      else if b = 0x06 then Some Inventory
      else if b = 0x07 then Some FetchInvData
      else if b = 0x08 then Some SyncBlockChain
      else if b = 0x09 then Some BlockChainInventory
      else if b = 0x11 then Some FetchBlockHeaders
      else if b = 0x12 then Some BlockInventory
      else if b = 0x13 then Some TrxInventory
      else if b = 0x14 then Some PbftCommit
      else if b = 0x20 then Some P2pHello
      else if b = 0x21 then Some P2pDisconnect
      else if b = 0x22 then Some P2pPing
      else if b = 0x23 then Some P2pPong
      else None)"

record p2p_frame =
  fr_kind :: message_type
  fr_payload :: bytes

definition MAX_MESSAGE_SIZE :: nat where "MAX_MESSAGE_SIZE = 5 * 1024 * 1024"

datatype frame_error = FrameEmpty | UnknownType byte | FrameTooLarge nat

definition mk_frame :: "message_type \<Rightarrow> bytes \<Rightarrow> p2p_frame" where
  "mk_frame kind payload = \<lparr>fr_kind = kind, fr_payload = payload\<rparr>"

definition frame_encode :: "p2p_frame \<Rightarrow> bytes" where
  "frame_encode f = message_u8 (fr_kind f) # fr_payload f"

definition frame_decode :: "bytes \<Rightarrow> frame_error + p2p_frame" where
  "frame_decode bs =
     (case bs of
        [] \<Rightarrow> Inl FrameEmpty
      | first # rest \<Rightarrow>
          if MAX_MESSAGE_SIZE < length rest then Inl (FrameTooLarge (length rest))
          else case message_from_u8 first of
            None \<Rightarrow> Inl (UnknownType first)
          | Some kind \<Rightarrow> Inr (mk_frame kind rest))"

section \<open>The stream\<close>

datatype channel_error = UnexpectedEof | ChannelFrame frame_error | ChannelTooLarge nat

definition read_exact :: "nat \<Rightarrow> bytes \<Rightarrow> channel_error + bytes \<times> bytes" where
  "read_exact n stream = (if length stream < n then Inl UnexpectedEof else Inr (take n stream, drop n stream))"

definition write_frame :: "p2p_frame \<Rightarrow> bytes" where
  "write_frame f = (let body = frame_encode f in be_bytes 4 (length body) @ body)"

definition read_frame :: "bytes \<Rightarrow> channel_error + p2p_frame \<times> bytes" where
  "read_frame stream =
     rbind (read_exact 4 stream) (\<lambda>(len_buf, rest).
     let len = be_val len_buf in
     rbind (ensure (len \<le> MAX_MESSAGE_SIZE + 1) (ChannelTooLarge len)) (\<lambda>_.
     rbind (read_exact len rest) (\<lambda>(body, rest).
     case frame_decode body of Inl e \<Rightarrow> Inl (ChannelFrame e) | Inr f \<Rightarrow> Inr (f, rest))))"

text \<open>The inbound handshake: the peer's payload and what is left to read, and the reply written.\<close>

definition accept_handshake :: "bytes \<Rightarrow> bytes \<Rightarrow> (channel_error + bytes \<times> bytes) \<times> bytes" where
  "accept_handshake our_hello stream =
     (case read_frame stream of
        Inl e \<Rightarrow> (Inl e, [])
      | Inr (peer, rest) \<Rightarrow>
          if fr_kind peer \<noteq> P2pHello then (Inl (ChannelFrame (UnknownType (message_u8 (fr_kind peer)))), [])
          else (Inr (fr_payload peer, rest), write_frame (mk_frame P2pHello our_hello)))"

section \<open>Block sync\<close>

definition encode_numbers :: "i64 list \<Rightarrow> bytes" where
  "encode_numbers nums = concat (map i64_to_be_bytes nums)"

fun decode_numbers :: "bytes \<Rightarrow> i64 list" where
  "decode_numbers bs = (if length bs < 8 then [] else i64_from_be_bytes (take 8 bs) # decode_numbers (drop 8 bs))"

declare decode_numbers.simps [simp del]

definition first_number :: "bytes \<Rightarrow> i64" where
  "first_number bs = (case decode_numbers bs of n # _ \<Rightarrow> n | [] \<Rightarrow> -1)"

lemma read_frame_shorter: "read_frame stream = Inr (f, rest) \<Longrightarrow> length rest < length stream"
  by (auto simp: read_frame_def read_exact_def result_simps Let_def split: if_splits sum.splits)

text \<open>The loop that answers fetch requests, with what it writes and the number of blocks served.\<close>

function serve_loop :: "(i64 \<Rightarrow> bytes option) \<Rightarrow> nat \<Rightarrow> bytes \<Rightarrow> bytes \<times> (channel_error + nat)" where
  "serve_loop block_bytes served stream =
     (case read_frame stream of
        Inr (f, rest) \<Rightarrow>
          if fr_kind f = FetchInvData
          then let n = first_number (fr_payload f);
                   payload = (case block_bytes n of Some bs \<Rightarrow> bs | None \<Rightarrow> []);
                   (out, r) = serve_loop block_bytes (served + 1) rest
               in (write_frame (mk_frame Block payload) @ out, r)
          else ([], Inr served)
      | Inl UnexpectedEof \<Rightarrow> ([], Inr served)
      | Inl e \<Rightarrow> ([], Inl e))"
  by pat_completeness auto
termination by (relation "measure (\<lambda>(b, k, s). length s)") (auto dest: read_frame_shorter)

declare serve_loop.simps [simp del]

definition serve_sync :: "i64 list \<Rightarrow> (i64 \<Rightarrow> bytes option) \<Rightarrow> bytes \<Rightarrow> bytes \<times> (channel_error + nat)" where
  "serve_sync have_nums block_bytes stream =
     (case read_frame stream of
        Inl e \<Rightarrow> ([], Inl e)
      | Inr (req, rest) \<Rightarrow>
          if fr_kind req \<noteq> SyncBlockChain then ([], Inl (ChannelFrame (UnknownType (message_u8 (fr_kind req)))))
          else let peer_head = first_number (fr_payload req);
                   offer = filter (\<lambda>n. peer_head < n) have_nums;
                   (out, r) = serve_loop block_bytes 0 rest
               in (write_frame (mk_frame BlockInventory (encode_numbers offer)) @ out, r))"

fun fetch_loop :: "i64 list \<Rightarrow> bytes \<Rightarrow> bytes \<times> (channel_error + (i64 \<times> bytes) list)" where
  "fetch_loop [] stream = ([], Inr [])"
| "fetch_loop (n # ns) stream =
     (let req = write_frame (mk_frame FetchInvData (encode_numbers [n])) in
      case read_frame stream of
        Inl e \<Rightarrow> (req, Inl e)
      | Inr (block, rest) \<Rightarrow>
          (case fetch_loop ns rest of
             (out, Inl e) \<Rightarrow> (req @ out, Inl e)
           | (out, Inr fetched) \<Rightarrow> (req @ out, Inr ((n, fr_payload block) # fetched))))"

definition sync_from :: "i64 \<Rightarrow> bytes \<Rightarrow> bytes \<times> (channel_error + (i64 \<times> bytes) list)" where
  "sync_from our_head stream =
     (let hello = write_frame (mk_frame SyncBlockChain (encode_numbers [our_head])) in
      case read_frame stream of
        Inl e \<Rightarrow> (hello, Inl e)
      | Inr (inventory, rest) \<Rightarrow>
          if fr_kind inventory \<noteq> BlockInventory then (hello, Inl (ChannelFrame (UnknownType (message_u8 (fr_kind inventory)))))
          else case fetch_loop (decode_numbers (fr_payload inventory)) rest of (out, r) \<Rightarrow> (hello @ out, r))"

definition MAX_FETCH_PER_ROUND :: nat where "MAX_FETCH_PER_ROUND = 2000"

definition blocks_to_fetch :: "i64 \<Rightarrow> i64 list \<Rightarrow> i64 list" where
  "blocks_to_fetch our_head peer_inventory = take MAX_FETCH_PER_ROUND (filter (\<lambda>n. our_head < n) peer_inventory)"

definition peer_is_ahead :: "i64 \<Rightarrow> i64 \<Rightarrow> bool" where
  "peer_is_ahead our_head peer_head \<longleftrightarrow> our_head < peer_head"

section \<open>Discovery datagrams\<close>

record endpoint =
  ep_ip :: "byte \<times> byte \<times> byte \<times> byte"
  ep_udp_port :: nat
  ep_tcp_port :: nat

record disc_node =
  dn_id :: bytes
  dn_endpoint :: endpoint

definition NODE_ID_LEN :: nat where "NODE_ID_LEN = 32"
definition NODE_WIRE_LEN :: nat where "NODE_WIRE_LEN = NODE_ID_LEN + 4 + 2 + 2"
definition MAX_NEIGHBORS :: nat where "MAX_NEIGHBORS = 16"
definition T_PING :: byte where "T_PING = 0x01"
definition T_PONG :: byte where "T_PONG = 0x02"
definition T_FIND_NODE :: byte where "T_FIND_NODE = 0x03"
definition T_NEIGHBORS :: byte where "T_NEIGHBORS = 0x04"

datatype discovery_message =
    Ping disc_node
  | Pong disc_node
  | FindNode disc_node bytes
  | Neighbors disc_node "disc_node list"

datatype codec_error = CodecEmpty | CodecUnknownType byte | Truncated | TooManyNodes nat | TrailingBytes

definition octets :: "byte \<times> byte \<times> byte \<times> byte \<Rightarrow> bytes" where
  "octets ip = (case ip of (a, b, c, d) \<Rightarrow> [a, b, c, d])"

definition put_node :: "disc_node \<Rightarrow> bytes" where
  "put_node node = dn_id node @ octets (ep_ip (dn_endpoint node)) @ be_bytes 2 (ep_udp_port (dn_endpoint node))
     @ be_bytes 2 (ep_tcp_port (dn_endpoint node))"

definition take_node :: "bytes \<Rightarrow> codec_error + disc_node \<times> bytes" where
  "take_node bs =
     (if length bs < NODE_WIRE_LEN then Inl Truncated
      else let nb = take NODE_WIRE_LEN bs; byte_at = (\<lambda>i. nb ! (NODE_ID_LEN + i)) in
        Inr (\<lparr>dn_id = take NODE_ID_LEN nb,
              dn_endpoint = \<lparr>ep_ip = (byte_at 0, byte_at 1, byte_at 2, byte_at 3), ep_udp_port = be_val [byte_at 4, byte_at 5], ep_tcp_port = be_val [byte_at 6, byte_at 7]\<rparr>\<rparr>,
             drop NODE_WIRE_LEN bs))"

primrec disc_encode :: "discovery_message \<Rightarrow> bytes" where
  "disc_encode (Ping from_node) = T_PING # put_node from_node"
| "disc_encode (Pong from_node) = T_PONG # put_node from_node"
| "disc_encode (FindNode from_node target) = T_FIND_NODE # put_node from_node @ target"
| "disc_encode (Neighbors from_node nodes) =
     (let cnt = min (length nodes) MAX_NEIGHBORS in
      T_NEIGHBORS # put_node from_node @ be_bytes 2 cnt @ concat (map put_node (take cnt nodes)))"

fun take_nodes :: "nat \<Rightarrow> bytes \<Rightarrow> codec_error + disc_node list \<times> bytes" where
  "take_nodes 0 bs = Inr ([], bs)"
| "take_nodes (Suc k) bs =
     rbind (take_node bs) (\<lambda>(node, tail).
     rbind (take_nodes k tail) (\<lambda>(nodes, rest). Inr (node # nodes, rest)))"

definition disc_decode :: "bytes \<Rightarrow> codec_error + discovery_message" where
  "disc_decode bs =
     (case bs of
        [] \<Rightarrow> Inl CodecEmpty
      | kind # rest \<Rightarrow>
          if kind = T_PING \<or> kind = T_PONG then
            rbind (take_node rest) (\<lambda>(from_node, rest).
            rbind (ensure (rest = []) TrailingBytes) (\<lambda>_.
            Inr (if kind = T_PING then Ping from_node else Pong from_node)))
          else if kind = T_FIND_NODE then
            rbind (take_node rest) (\<lambda>(from_node, rest).
            rbind (ensure (NODE_ID_LEN \<le> length rest) Truncated) (\<lambda>_.
            rbind (ensure (drop NODE_ID_LEN rest = []) TrailingBytes) (\<lambda>_.
            Inr (FindNode from_node (take NODE_ID_LEN rest)))))
          else if kind = T_NEIGHBORS then
            rbind (take_node rest) (\<lambda>(from_node, rest).
            rbind (ensure (2 \<le> length rest) Truncated) (\<lambda>_.
            let cnt = be_val (take 2 rest) in
            rbind (ensure (cnt \<le> MAX_NEIGHBORS) (TooManyNodes cnt)) (\<lambda>_.
            rbind (take_nodes cnt (drop 2 rest)) (\<lambda>(nodes, rest).
            rbind (ensure (rest = []) TrailingBytes) (\<lambda>_.
            Inr (Neighbors from_node nodes))))))
          else Inl (CodecUnknownType kind))"

section \<open>Round trips\<close>

lemma message_from_u8_inverse [simp]: "message_from_u8 (message_u8 k) = Some k"
  by (cases k) (simp_all add: message_from_u8_def)

lemma frame_decode_encode [simp]:
  "length (fr_payload f) \<le> MAX_MESSAGE_SIZE \<Longrightarrow> frame_decode (frame_encode f) = Inr f"
  by (simp add: frame_decode_def frame_encode_def mk_frame_def)

lemma mk_frame_simps [simp]: "fr_kind (mk_frame k p) = k" "fr_payload (mk_frame k p) = p"
  by (simp_all add: mk_frame_def)

lemma read_write_frame [simp]:
  assumes "length (fr_payload f) \<le> MAX_MESSAGE_SIZE"
  shows "read_frame (write_frame f @ rest) = Inr (f, rest)"
proof -
  let ?body = "frame_encode f"
  have l: "length ?body \<le> MAX_MESSAGE_SIZE + 1" using assms by (simp add: frame_encode_def)
  then have "be_val (be_bytes 4 (length ?body)) = length ?body" by (simp add: be_val_be_bytes MAX_MESSAGE_SIZE_def)
  with l assms show ?thesis by (simp add: read_frame_def read_exact_def write_frame_def Let_def ensure_def)
qed

text \<open>A reader that keeps reading, with the error that ends it.\<close>

function read_frames :: "bytes \<Rightarrow> p2p_frame list \<times> channel_error" where
  "read_frames stream =
     (case read_frame stream of
        Inl e \<Rightarrow> ([], e)
      | Inr (f, rest) \<Rightarrow> (case read_frames rest of (fs, e) \<Rightarrow> (f # fs, e)))"
  by pat_completeness auto
termination by (relation "measure length") (auto dest: read_frame_shorter)

declare read_frames.simps [simp del]

lemma read_frame_prefix:
  assumes "length (fr_payload f) \<le> MAX_MESSAGE_SIZE" "k < length (write_frame f)"
  shows "read_frame (take k (write_frame f)) = Inl UnexpectedEof"
proof -
  let ?body = "frame_encode f"
  have l: "length ?body \<le> MAX_MESSAGE_SIZE + 1" using assms by (simp add: frame_encode_def)
  then have "be_val (be_bytes 4 (length ?body)) = length ?body" by (simp add: be_val_be_bytes MAX_MESSAGE_SIZE_def)
  with l assms show ?thesis
    by (cases "k < 4") (auto simp: read_frame_def read_exact_def write_frame_def Let_def ensure_def)
qed

lemma read_frames_written:
  assumes "\<forall>f\<in>set fs. length (fr_payload f) \<le> MAX_MESSAGE_SIZE" "read_frame tail = Inl e"
  shows "read_frames (concat (map write_frame fs) @ tail) = (fs, e)"
  using assms
proof (induction fs)
  case Nil
  then show ?case by (subst read_frames.simps) simp
next
  case (Cons f fs)
  then show ?case by (subst read_frames.simps) simp
qed

lemma decode_encode_numbers [simp]:
  "\<forall>n\<in>set ns. in_i64 n \<Longrightarrow> decode_numbers (encode_numbers ns) = ns"
proof (induction ns)
  case Nil
  then show ?case by (subst decode_numbers.simps) (simp add: encode_numbers_def)
next
  case (Cons n ns)
  have "encode_numbers (n # ns) = i64_to_be_bytes n @ encode_numbers ns" by (simp add: encode_numbers_def)
  with Cons show ?case by (subst decode_numbers.simps) simp
qed

lemma length_encode_numbers [simp]: "length (encode_numbers ns) = 8 * length ns"
  by (induction ns) (simp_all add: encode_numbers_def)

lemma first_number_encode [simp]: "in_i64 n \<Longrightarrow> first_number (encode_numbers [n]) = n"
  by (simp add: first_number_def)

section \<open>A sync session\<close>

lemma serve_loop_requests:
  assumes "\<forall>n\<in>set ns. in_i64 n"
  shows "serve_loop bb k (concat (map (\<lambda>n. write_frame (mk_frame FetchInvData (encode_numbers [n]))) ns))
    = (concat (map (\<lambda>n. write_frame (mk_frame Block (case bb n of Some bs \<Rightarrow> bs | None \<Rightarrow> []))) ns), Inr (k + length ns))"
  using assms
proof (induction ns arbitrary: k)
  case Nil
  have "read_frame [] = Inl UnexpectedEof" by (simp add: read_frame_def read_exact_def)
  then show ?case by (subst serve_loop.simps) simp
next
  case (Cons n ns)
  then show ?case by (subst serve_loop.simps) (simp add: MAX_MESSAGE_SIZE_def)
qed

lemma fetch_loop_replies:
  assumes "\<forall>n\<in>set ns. length (g n) \<le> MAX_MESSAGE_SIZE"
  shows "fetch_loop ns (concat (map (\<lambda>n. write_frame (mk_frame Block (g n))) ns))
    = (concat (map (\<lambda>n. write_frame (mk_frame FetchInvData (encode_numbers [n]))) ns), Inr (map (\<lambda>n. (n, g n)) ns))"
  using assms by (induction ns) simp_all

text \<open>
  The two ends of a connection, each reading what the other writes: with the bytes \<open>up\<close> the client sends and the
  bytes \<open>down\<close> it receives, both sides finish and the client has every block the server offers above its head.
\<close>

definition sync_up :: "i64 \<Rightarrow> i64 list \<Rightarrow> bytes" where
  "sync_up our_head ns = write_frame (mk_frame SyncBlockChain (encode_numbers [our_head]))
     @ concat (map (\<lambda>n. write_frame (mk_frame FetchInvData (encode_numbers [n]))) ns)"

definition sync_down :: "(i64 \<Rightarrow> bytes option) \<Rightarrow> i64 list \<Rightarrow> bytes" where
  "sync_down block_bytes ns = write_frame (mk_frame BlockInventory (encode_numbers ns))
     @ concat (map (\<lambda>n. write_frame (mk_frame Block (case block_bytes n of Some bs \<Rightarrow> bs | None \<Rightarrow> []))) ns)"

lemma sync_session:
  assumes "in_i64 our_head" "\<forall>n\<in>set have_nums. in_i64 n"
    and ns: "ns = filter (\<lambda>n. our_head < n) have_nums" and "8 * length ns \<le> MAX_MESSAGE_SIZE"
    and "\<forall>n\<in>set ns. length (case block_bytes n of Some bs \<Rightarrow> bs | None \<Rightarrow> []) \<le> MAX_MESSAGE_SIZE"
  shows "sync_from our_head (sync_down block_bytes ns)
      = (sync_up our_head ns, Inr (map (\<lambda>n. (n, case block_bytes n of Some bs \<Rightarrow> bs | None \<Rightarrow> [])) ns))"
    and "serve_sync have_nums block_bytes (sync_up our_head ns) = (sync_down block_bytes ns, Inr (length ns))"
proof -
  have i: "\<forall>n\<in>set ns. in_i64 n" using assms(2) ns by simp
  show "sync_from our_head (sync_down block_bytes ns)
      = (sync_up our_head ns, Inr (map (\<lambda>n. (n, case block_bytes n of Some bs \<Rightarrow> bs | None \<Rightarrow> [])) ns))"
    using assms(4,5) i fetch_loop_replies [of ns "\<lambda>n. case block_bytes n of Some bs \<Rightarrow> bs | None \<Rightarrow> []"]
    by (simp add: sync_from_def sync_down_def sync_up_def)
  show "serve_sync have_nums block_bytes (sync_up our_head ns) = (sync_down block_bytes ns, Inr (length ns))"
    using assms(1) serve_loop_requests [OF i, of block_bytes 0]
    by (simp add: serve_sync_def sync_down_def sync_up_def MAX_MESSAGE_SIZE_def flip: ns)
qed

section \<open>Discovery messages\<close>

definition wf_endpoint :: "endpoint \<Rightarrow> bool" where
  "wf_endpoint e \<longleftrightarrow> ep_udp_port e < 2 ^ 16 \<and> ep_tcp_port e < 2 ^ 16"

definition wf_disc_node :: "disc_node \<Rightarrow> bool" where
  "wf_disc_node n \<longleftrightarrow> length (dn_id n) = NODE_ID_LEN \<and> wf_endpoint (dn_endpoint n)"

primrec wf_message :: "discovery_message \<Rightarrow> bool" where
  "wf_message (Ping n) \<longleftrightarrow> wf_disc_node n"
| "wf_message (Pong n) \<longleftrightarrow> wf_disc_node n"
| "wf_message (FindNode n t) \<longleftrightarrow> wf_disc_node n \<and> length t = NODE_ID_LEN"
| "wf_message (Neighbors n ns) \<longleftrightarrow> wf_disc_node n \<and> list_all wf_disc_node ns \<and> length ns \<le> MAX_NEIGHBORS"

lemma length_put_node: "wf_disc_node n \<Longrightarrow> length (put_node n) = NODE_WIRE_LEN"
  by (simp add: put_node_def wf_disc_node_def octets_def NODE_WIRE_LEN_def split: prod.split)

lemma be_bytes_2: "be_bytes 2 v = [of_nat (v div 256 mod 256), of_nat (v mod 256)]"
  by (simp add: numeral_2_eq_2)

lemma be_val_be_bytes_2: "v < 2 ^ 16 \<Longrightarrow> be_val [of_nat (v div 256 mod 256), of_nat (v mod 256)] = v"
  using be_val_be_bytes [of 2 v] by (simp add: be_bytes_2)

lemma take_put_node [simp]:
  assumes "wf_disc_node n"
  shows "take_node (put_node n @ rest) = Inr (n, rest)"
proof -
  obtain a b c d where ip: "ep_ip (dn_endpoint n) = (a, b, c, d)" by (metis prod_cases4)
  have l: "length (dn_id n) = 32" using assms by (simp add: wf_disc_node_def NODE_ID_LEN_def)
  have e: "put_node n = dn_id n @ [a, b, c, d] @ be_bytes 2 (ep_udp_port (dn_endpoint n)) @ be_bytes 2 (ep_tcp_port (dn_endpoint n))"
    by (simp add: put_node_def octets_def ip)
  have p: "ep_udp_port (dn_endpoint n) < 2 ^ 16" "ep_tcp_port (dn_endpoint n) < 2 ^ 16"
    using assms by (simp_all add: wf_disc_node_def wf_endpoint_def)
  have "take_node (put_node n @ rest) = Inr (\<lparr>dn_id = dn_id n, dn_endpoint = \<lparr>ep_ip = (a, b, c, d),
      ep_udp_port = ep_udp_port (dn_endpoint n), ep_tcp_port = ep_tcp_port (dn_endpoint n)\<rparr>\<rparr>, rest)"
    unfolding e be_bytes_2 using l be_val_be_bytes_2 [OF p(1)] be_val_be_bytes_2 [OF p(2)]
    by (simp add: take_node_def NODE_WIRE_LEN_def NODE_ID_LEN_def Let_def nth_append)
  also have "\<lparr>dn_id = dn_id n, dn_endpoint = \<lparr>ep_ip = (a, b, c, d),
      ep_udp_port = ep_udp_port (dn_endpoint n), ep_tcp_port = ep_tcp_port (dn_endpoint n)\<rparr>\<rparr> = n"
    using ip by (cases n; cases "dn_endpoint n") simp
  finally show ?thesis .
qed

lemma take_nodes_put: "list_all wf_disc_node ns \<Longrightarrow> take_nodes (length ns) (concat (map put_node ns) @ rest) = Inr (ns, rest)"
  by (induction ns) simp_all

lemma disc_roundtrip:
  assumes "wf_message m"
  shows "disc_decode (disc_encode m) = Inr m"
proof (cases m)
  case (Neighbors n ns)
  have c: "be_val (be_bytes 2 (length ns)) = length ns"
    using assms Neighbors by (simp add: be_val_be_bytes MAX_NEIGHBORS_def)
  show ?thesis using assms take_nodes_put [of ns "[]"] c unfolding Neighbors
    by (simp add: disc_decode_def T_PING_def T_PONG_def T_FIND_NODE_def T_NEIGHBORS_def ensure_def Let_def min_absorb1)
next
  case (Ping n)
  then show ?thesis using assms take_put_node [of n "[]"] by (simp add: disc_decode_def T_PING_def ensure_def)
next
  case (Pong n)
  then show ?thesis using assms take_put_node [of n "[]"] by (simp add: disc_decode_def T_PING_def T_PONG_def ensure_def)
next
  case (FindNode n t)
  then show ?thesis using assms by (simp add: disc_decode_def T_PING_def T_PONG_def T_FIND_NODE_def ensure_def)
qed

end
