(* ===== verification/Discovery.thy ===== *)
theory Discovery
  imports Wire Rust_Order "HOL-Library.AList"
begin

text \<open>
  Finding peers: the peer table of \<open>p2p/src/peer.rs\<close>, the Kademlia routing table of \<open>p2p/src/discovery.rs\<close> and the
  message handlers of \<open>p2p/src/discovery_service.rs\<close>.  The peer table is an association list in the iteration
  order of the \<open>HashMap\<close>, which the code leaves open; the datagrams a handler sends are the list it returns, and the
  clock is an argument.
\<close>

unbundle bit_operations_syntax

section \<open>The peer table\<close>

record peer_addr =
  pa_host :: string
  pa_port :: nat

record peer_info =
  pi_addr :: peer_addr
  pi_head :: i64
  pi_last_seen :: nat

type_synonym peer_manager = "(string \<times> peer_info) list"

definition peer_manager_new :: peer_manager where
  "peer_manager_new = []"

definition peer_key :: "peer_addr \<Rightarrow> string" where
  "peer_key a = pa_host a @ '':'' @ nat_to_string (pa_port a)"

definition peers_len :: "peer_manager \<Rightarrow> nat" where
  "peers_len pm = length pm"

definition peers_is_empty :: "peer_manager \<Rightarrow> bool" where
  "peers_is_empty pm \<longleftrightarrow> pm = []"

definition upsert :: "peer_addr \<Rightarrow> i64 \<Rightarrow> nat \<Rightarrow> peer_manager \<Rightarrow> peer_manager" where
  "upsert a tip now pm = AList.update (peer_key a) \<lparr>pi_addr = a, pi_head = tip, pi_last_seen = now\<rparr> pm"

definition update_head :: "peer_addr \<Rightarrow> i64 \<Rightarrow> nat \<Rightarrow> peer_manager \<Rightarrow> peer_manager" where
  "update_head a tip now pm =
     (case map_of pm (peer_key a) of
        Some p \<Rightarrow> AList.update (peer_key a) (p\<lparr>pi_head := tip, pi_last_seen := now\<rparr>) pm
      | None \<Rightarrow> pm)"

definition peers_remove :: "peer_addr \<Rightarrow> peer_manager \<Rightarrow> bool \<times> peer_manager" where
  "peers_remove a pm = (map_of pm (peer_key a) \<noteq> None, AList.delete (peer_key a) pm)"

text \<open>\<open>max_by_key\<close> keeps the last of several maxima.\<close>

definition max_by_head :: "peer_info list \<Rightarrow> peer_info option" where
  "max_by_head ps =
     (case ps of [] \<Rightarrow> None | p # ps \<Rightarrow> Some (fold (\<lambda>q best. if pi_head best \<le> pi_head q then q else best) ps p))"

definition best_sync_target :: "i64 \<Rightarrow> peer_manager \<Rightarrow> peer_info option" where
  "best_sync_target our_head pm = max_by_head (filter (\<lambda>p. our_head < pi_head p) (map snd pm))"

definition addr_list :: "peer_manager \<Rightarrow> peer_addr list" where
  "addr_list pm = map (\<lambda>p. pi_addr (snd p)) pm"

definition prune_older_than :: "nat \<Rightarrow> peer_manager \<Rightarrow> nat \<times> peer_manager" where
  "prune_older_than cutoff pm =
     (let kept = filter (\<lambda>p. cutoff \<le> pi_last_seen (snd p)) pm in (length pm - length kept, kept))"

section \<open>Distance\<close>

definition ID_BITS :: nat where "ID_BITS = NODE_ID_LEN * 8"
definition K_BUCKET_SIZE :: nat where "K_BUCKET_SIZE = 16"

definition leading_zeros :: "byte \<Rightarrow> nat" where
  "leading_zeros b = length (takeWhile (\<lambda>i. \<not> bit b i) [7, 6, 5, 4, 3, 2, 1, 0])"

fun common_prefix_bits :: "bytes \<Rightarrow> bytes \<Rightarrow> nat" where
  "common_prefix_bits (x # xs) (y # ys) = (if x = y then 8 + common_prefix_bits xs ys else leading_zeros (x XOR y))"
| "common_prefix_bits _ _ = 0"

definition is_closer :: "bytes \<Rightarrow> bytes \<Rightarrow> bytes \<Rightarrow> bool" where
  "is_closer target a b \<longleftrightarrow> common_prefix_bits target b < common_prefix_bits target a"

definition cmp_distance :: "bytes \<Rightarrow> bytes \<Rightarrow> bytes \<Rightarrow> ordering" where
  "cmp_distance target a b = cmp_int (int (common_prefix_bits target b)) (int (common_prefix_bits target a))"

definition sort_by_distance :: "bytes \<Rightarrow> bytes list \<Rightarrow> bytes list" where
  "sort_by_distance target candidates = sort_by (cmp_distance target) candidates"

definition dotted :: "byte \<times> byte \<times> byte \<times> byte \<Rightarrow> string" where
  "dotted ip = (case ip of (a, b, c, d) \<Rightarrow>
     nat_to_string (unat a) @ ''.'' @ nat_to_string (unat b) @ ''.'' @ nat_to_string (unat c) @ ''.'' @ nat_to_string (unat d))"

definition endpoint_peer_addr :: "endpoint \<Rightarrow> peer_addr" where
  "endpoint_peer_addr e = \<lparr>pa_host = dotted (ep_ip e), pa_port = ep_tcp_port e\<rparr>"

section \<open>The routing table\<close>

datatype insert_outcome = Added | Refreshed | EvictedOldest bytes | Ignored

record routing_table =
  rt_local :: bytes
  rt_buckets :: "disc_node list list"
  rt_k :: nat

definition table_with_k :: "bytes \<Rightarrow> nat \<Rightarrow> routing_table" where
  "table_with_k loc k = \<lparr>rt_local = loc, rt_buckets = replicate ID_BITS [], rt_k = k\<rparr>"

definition table_new :: "bytes \<Rightarrow> routing_table" where
  "table_new loc = table_with_k loc K_BUCKET_SIZE"

definition bucket_index :: "routing_table \<Rightarrow> bytes \<Rightarrow> nat option" where
  "bucket_index t i =
     (let cpb = common_prefix_bits (rt_local t) i in if ID_BITS \<le> cpb then None else Some (ID_BITS - 1 - cpb))"

text \<open>Insertion into one bucket; an empty bucket of capacity 0 has no front to remove and the code panics.\<close>

definition bucket_insert :: "nat \<Rightarrow> disc_node \<Rightarrow> disc_node list \<Rightarrow> (insert_outcome \<times> disc_node list) option" where
  "bucket_insert k node bucket =
     (case find (\<lambda>n. dn_id n = dn_id node) bucket of
        Some existing \<Rightarrow> Some (Refreshed, remove1 existing bucket @ [existing\<lparr>dn_endpoint := dn_endpoint node\<rparr>])
      | None \<Rightarrow>
          if length bucket < k then Some (Added, bucket @ [node])
          else case bucket of
            [] \<Rightarrow> None
          | oldest # rest \<Rightarrow> Some (EvictedOldest (dn_id oldest), rest @ [node]))"

definition table_insert :: "disc_node \<Rightarrow> routing_table \<Rightarrow> (insert_outcome \<times> routing_table) option" where
  "table_insert node t =
     (case bucket_index t (dn_id node) of
        None \<Rightarrow> Some (Ignored, t)
      | Some idx \<Rightarrow>
          map_option (\<lambda>(outcome, bucket). (outcome, t\<lparr>rt_buckets := (rt_buckets t)[idx := bucket]\<rparr>))
            (bucket_insert (rt_k t) node (rt_buckets t ! idx)))"

definition all_nodes :: "routing_table \<Rightarrow> disc_node list" where
  "all_nodes t = concat (rt_buckets t)"

definition closest :: "bytes \<Rightarrow> nat \<Rightarrow> routing_table \<Rightarrow> disc_node list" where
  "closest target cnt t = take cnt (sort_by (\<lambda>a b. cmp_distance target (dn_id a) (dn_id b)) (all_nodes t))"

definition table_len :: "routing_table \<Rightarrow> nat" where
  "table_len t = sum_list (map length (rt_buckets t))"

definition table_is_empty :: "routing_table \<Rightarrow> bool" where
  "table_is_empty t \<longleftrightarrow> table_len t = 0"

definition table_contains :: "routing_table \<Rightarrow> bytes \<Rightarrow> bool" where
  "table_contains t i =
     (case bucket_index t i of Some idx \<Rightarrow> list_ex (\<lambda>n. dn_id n = i) (rt_buckets t ! idx) | None \<Rightarrow> False)"

section \<open>The discovery service\<close>

record discovery =
  dv_local :: disc_node
  dv_table :: routing_table
  dv_peers :: peer_manager

type_synonym datagram = "endpoint \<times> bytes"

definition RECV_BUF :: nat where "RECV_BUF = 2048"

definition discovery_bind :: "endpoint \<Rightarrow> bytes \<Rightarrow> peer_manager \<Rightarrow> discovery" where
  "discovery_bind e i peers = \<lparr>dv_local = \<lparr>dn_id = i, dn_endpoint = e\<rparr>, dv_table = table_new i, dv_peers = peers\<rparr>"

definition send_to :: "discovery_message \<Rightarrow> endpoint \<Rightarrow> datagram" where
  "send_to msg e = (e, disc_encode msg)"

definition disc_add :: "nat \<Rightarrow> disc_node \<Rightarrow> discovery \<Rightarrow> (bool \<times> discovery) option" where
  "disc_add now node d =
     (if dn_id node = dn_id (dv_local d) then Some (False, d)
      else map_option (\<lambda>(outcome, t).
        (outcome = Added, d\<lparr>dv_table := t, dv_peers := upsert (endpoint_peer_addr (dn_endpoint node)) (-1) now (dv_peers d)\<rparr>))
        (table_insert node (dv_table d)))"

fun disc_neighbors :: "nat \<Rightarrow> disc_node list \<Rightarrow> discovery \<Rightarrow> (datagram list \<times> discovery) option" where
  "disc_neighbors now [] d = Some ([], d)"
| "disc_neighbors now (node # nodes) d =
     (if dn_id node = dn_id (dv_local d) then disc_neighbors now nodes d
      else Option.bind (disc_add now node d) (\<lambda>(added, d).
        map_option (\<lambda>(out, d'). ((if added then [send_to (Ping (dv_local d)) (dn_endpoint node)] else []) @ out, d'))
          (disc_neighbors now nodes d)))"

primrec disc_handle :: "nat \<Rightarrow> discovery_message \<Rightarrow> discovery \<Rightarrow> (datagram list \<times> discovery) option" where
  "disc_handle now (Ping from_node) d =
     map_option (\<lambda>(_, d). ([send_to (Pong (dv_local d)) (dn_endpoint from_node)], d)) (disc_add now from_node d)"
| "disc_handle now (Pong from_node) d =
     map_option (\<lambda>(_, d). ([send_to (FindNode (dv_local d) (dn_id (dv_local d))) (dn_endpoint from_node)], d)) (disc_add now from_node d)"
| "disc_handle now (FindNode from_node target) d =
     map_option (\<lambda>(_, d). ([send_to (Neighbors (dv_local d) (closest target K_BUCKET_SIZE (dv_table d))) (dn_endpoint from_node)], d))
       (disc_add now from_node d)"
| "disc_handle now (Neighbors from_node nodes) d =
     Option.bind (disc_add now from_node d) (\<lambda>(_, d). disc_neighbors now nodes d)"

definition disc_receive :: "nat \<Rightarrow> bytes \<Rightarrow> discovery \<Rightarrow> (datagram list \<times> discovery) option" where
  "disc_receive now bs d =
     (case disc_decode (take RECV_BUF bs) of Inr msg \<Rightarrow> disc_handle now msg d | Inl _ \<Rightarrow> Some ([], d))"

definition disc_refresh :: "discovery \<Rightarrow> datagram list" where
  "disc_refresh d =
     map (\<lambda>n. send_to (FindNode (dv_local d) (dn_id (dv_local d))) (dn_endpoint n)) (closest (dn_id (dv_local d)) 3 (dv_table d))"

definition disc_bootstrap :: "endpoint list \<Rightarrow> discovery \<Rightarrow> datagram list" where
  "disc_bootstrap seeds d = map (send_to (Ping (dv_local d))) seeds"

section \<open>Distances\<close>

interpretation by_distance: weak_cmp "cmp_distance target" for target
  by unfold_locales (auto simp: cmp_distance_def cmp_int_def split: if_splits)

lemma takeWhile_stops: "a \<in> set xs \<Longrightarrow> \<not> P a \<Longrightarrow> length (takeWhile P xs) < length xs"
  by (induction xs) auto

lemma leading_zeros_less: "b \<noteq> 0 \<Longrightarrow> leading_zeros b < 8"
proof -
  assume "b \<noteq> 0"
  then obtain i where i: "bit b i" by (metis bit_eq_iff bit_0_eq bot_apply bot_bool_def)
  then have "i < 8" using bit_imp_le_length [of b i] by simp
  then have "i \<in> set [7, 6, 5, 4, 3, 2, 1, 0 :: nat]" by auto
  with i show ?thesis
    using takeWhile_stops [of i "[7, 6, 5, 4, 3, 2, 1, 0]" "\<lambda>i. \<not> bit b i"] by (simp add: leading_zeros_def)
qed

lemma common_prefix_bits_full:
  "length a = length b \<Longrightarrow> common_prefix_bits a b \<le> 8 * length a \<and> (common_prefix_bits a b = 8 * length a \<longleftrightarrow> a = b)"
proof (induction a b rule: list_induct2)
  case (Cons x xs y ys)
  show ?case
  proof (cases "x = y")
    case False
    then have "x XOR y \<noteq> 0" by (metis xor.assoc xor.left_neutral xor.right_neutral xor_self_eq)
    then have "leading_zeros (x XOR y) < 8" by (rule leading_zeros_less)
    with False show ?thesis by simp
  qed (use Cons in simp)
qed simp

lemma bucket_index_own: "length (rt_local t) = NODE_ID_LEN \<Longrightarrow> length i = NODE_ID_LEN \<Longrightarrow> bucket_index t i = None \<longleftrightarrow> i = rt_local t"
  using common_prefix_bits_full [of "rt_local t" i] by (auto simp: bucket_index_def Let_def ID_BITS_def)

lemma bucket_index_bound: "bucket_index t i = Some j \<Longrightarrow> j < ID_BITS"
  by (auto simp: bucket_index_def Let_def ID_BITS_def NODE_ID_LEN_def split: if_splits)

section \<open>The invariant of the routing table\<close>

definition wf_table :: "routing_table \<Rightarrow> bool" where
  "wf_table t \<longleftrightarrow>
     length (rt_local t) = NODE_ID_LEN \<and> 0 < rt_k t \<and> length (rt_buckets t) = ID_BITS
     \<and> (\<forall>i<ID_BITS. length (rt_buckets t ! i) \<le> rt_k t \<and> distinct (map dn_id (rt_buckets t ! i))
          \<and> (\<forall>n\<in>set (rt_buckets t ! i). wf_disc_node n \<and> bucket_index t (dn_id n) = Some i))"

lemma wf_table_new: "length loc = NODE_ID_LEN \<Longrightarrow> wf_table (table_new loc)"
  by (simp add: wf_table_def table_new_def table_with_k_def K_BUCKET_SIZE_def)

lemma find_split: "find P xs = Some e \<Longrightarrow> \<exists>us vs. xs = us @ e # vs \<and> P e \<and> (\<forall>n\<in>set us. \<not> P n)"
proof (induction xs)
  case (Cons a xs)
  show ?case
  proof (cases "P a")
    case True
    with Cons(2) show ?thesis by (auto intro: exI [of _ "[]"])
  next
    case False
    with Cons obtain us vs where "xs = us @ e # vs" "P e" "\<forall>n\<in>set us. \<not> P n" by auto
    with False have "a # xs = (a # us) @ e # vs" "\<forall>n\<in>set (a # us). \<not> P n" by simp_all
    with \<open>P e\<close> show ?thesis by blast
  qed
qed simp

lemma distinct_concat_nth:
  assumes "\<And>i. i < length xss \<Longrightarrow> distinct (xss ! i)"
    and "\<And>i j. i < j \<Longrightarrow> j < length xss \<Longrightarrow> set (xss ! i) \<inter> set (xss ! j) = {}"
  shows "distinct (concat xss)"
  using assms
proof (induction xss)
  case (Cons xs xss)
  have "distinct xs" using Cons(2) [of 0] by simp
  moreover have "distinct (concat xss)" using Cons(2) [of "Suc i" for i] Cons(3) [of "Suc i" "Suc j" for i j] by (intro Cons.IH) auto
  moreover have "set xs \<inter> set ys = {}" if "ys \<in> set xss" for ys
    using that Cons(3) [of 0 "Suc j" for j] by (auto simp: in_set_conv_nth)
  ultimately show ?case by auto
qed simp

lemma bucket_insert_Some:
  assumes "0 < k" "length bucket \<le> k" "distinct (map dn_id bucket)"
  obtains outcome bucket' where "bucket_insert k node bucket = Some (outcome, bucket')"
    "length bucket' \<le> k" "distinct (map dn_id bucket')" "node \<in> set bucket'" "set bucket' \<subseteq> insert node (set bucket)"
    "outcome = Added \<Longrightarrow> bucket' = bucket @ [node]"
    "outcome = Refreshed \<longleftrightarrow> dn_id node \<in> dn_id ` set bucket"
proof (cases "find (\<lambda>n. dn_id n = dn_id node) bucket")
  case None
  then have fresh: "dn_id node \<notin> dn_id ` set bucket" by (auto simp: find_None_iff)
  show ?thesis
  proof (cases "length bucket < k")
    case True
    show ?thesis
      by (rule that [of Added "bucket @ [node]"]) (use None True fresh assms in \<open>auto simp: bucket_insert_def\<close>)
  next
    case False
    then obtain oldest rest where b: "bucket = oldest # rest" using assms(1) by (cases bucket) auto
    show ?thesis
      by (rule that [of "EvictedOldest (dn_id oldest)" "rest @ [node]"])
        (use None False fresh assms b in \<open>auto simp: bucket_insert_def\<close>)
  qed
next
  case (Some e)
  then obtain us vs where b: "bucket = us @ e # vs" and e: "dn_id e = dn_id node" and u: "\<forall>n\<in>set us. dn_id n \<noteq> dn_id node"
    using find_split [OF Some] by blast
  have r: "remove1 e bucket = us @ vs" using u e by (auto simp: b remove1_append)
  have n: "e\<lparr>dn_endpoint := dn_endpoint node\<rparr> = node" using e by (cases e; cases node) simp
  show ?thesis
    by (rule that [of Refreshed "us @ vs @ [node]"]) (use Some r n e assms b in \<open>auto simp: bucket_insert_def\<close>)
qed

lemma table_insert_wf:
  assumes t: "wf_table t" and n: "wf_disc_node node" "dn_id node \<noteq> rt_local t"
  obtains outcome t' where "table_insert node t = Some (outcome, t')" "wf_table t'" "rt_local t' = rt_local t" "rt_k t' = rt_k t"
    "node \<in> set (all_nodes t')" "set (all_nodes t') \<subseteq> insert node (set (all_nodes t))"
proof -
  have l: "length (rt_local t) = NODE_ID_LEN" "length (rt_buckets t) = ID_BITS" "0 < rt_k t" using t by (simp_all add: wf_table_def)
  obtain i where i: "bucket_index t (dn_id node) = Some i"
    using bucket_index_own [OF l(1), of "dn_id node"] n by (auto simp: wf_disc_node_def)
  note ib = bucket_index_bound [OF i]
  have b: "length (rt_buckets t ! i) \<le> rt_k t" "distinct (map dn_id (rt_buckets t ! i))" using t ib by (simp_all add: wf_table_def)
  obtain oc bucket where e: "bucket_insert (rt_k t) node (rt_buckets t ! i) = Some (oc, bucket)" and
    f: "length bucket \<le> rt_k t" "distinct (map dn_id bucket)" "node \<in> set bucket" "set bucket \<subseteq> insert node (set (rt_buckets t ! i))"
    by (rule bucket_insert_Some [OF l(3) b, of node])
  let ?t = "t\<lparr>rt_buckets := (rt_buckets t)[i := bucket]\<rparr>"
  have x: "bucket_index ?t = bucket_index t" by (simp add: bucket_index_def fun_eq_iff)
  have "wf_table ?t" using t f n(1) i ib l unfolding wf_table_def x
    by (auto simp: nth_list_update)
  moreover have "node \<in> set (all_nodes ?t)" using f(3) ib l by (auto simp: all_nodes_def set_update_memI intro!: bexI [of _ bucket])
  moreover have "set (all_nodes ?t) \<subseteq> insert node (set (all_nodes t))"
    using set_update_subset_insert [of "rt_buckets t" i bucket] f(4) ib l nth_mem [of i "rt_buckets t"]
    unfolding all_nodes_def by (auto dest!: subsetD)
  ultimately show ?thesis by (intro that [of oc ?t]) (simp_all add: table_insert_def i e)
qed

lemma wf_table_nodes:
  assumes "wf_table t" "n \<in> set (all_nodes t)"
  shows "wf_disc_node n" "dn_id n \<noteq> rt_local t" "table_contains t (dn_id n)"
proof -
  obtain i where i: "i < ID_BITS" "n \<in> set (rt_buckets t ! i)"
  proof -
    obtain b where "b \<in> set (rt_buckets t)" "n \<in> set b" using assms(2) by (auto simp: all_nodes_def)
    moreover have "length (rt_buckets t) = ID_BITS" using assms(1) by (simp add: wf_table_def)
    ultimately show thesis by (metis in_set_conv_nth that)
  qed
  then have w: "wf_disc_node n" "bucket_index t (dn_id n) = Some i" using assms(1) by (auto simp: wf_table_def)
  then show "wf_disc_node n" "table_contains t (dn_id n)" using i by (auto simp: table_contains_def list_ex_iff)
  show "dn_id n \<noteq> rt_local t" using w bucket_index_own [of t "dn_id n"] assms(1) by (auto simp: wf_table_def wf_disc_node_def)
qed

lemma wf_table_distinct:
  assumes "wf_table t"
  shows "distinct (map dn_id (all_nodes t))"
proof -
  have "distinct (concat (map (map dn_id) (rt_buckets t)))"
  proof (rule distinct_concat_nth)
    show "distinct (map (map dn_id) (rt_buckets t) ! i)" if "i < length (map (map dn_id) (rt_buckets t))" for i
      using assms that by (simp add: wf_table_def)
    show "set (map (map dn_id) (rt_buckets t) ! i) \<inter> set (map (map dn_id) (rt_buckets t) ! j) = {}"
      if "i < j" "j < length (map (map dn_id) (rt_buckets t))" for i j
    proof -
      have ij: "i < ID_BITS" "j < ID_BITS" using that assms by (simp_all add: wf_table_def)
      have "False" if m: "m \<in> set (rt_buckets t ! i)" and n: "n \<in> set (rt_buckets t ! j)" and e: "dn_id m = dn_id n" for m n
      proof -
        have "bucket_index t (dn_id m) = Some i" "bucket_index t (dn_id n) = Some j" using m n ij assms by (auto simp: wf_table_def)
        with e \<open>i < j\<close> show False by simp
      qed
      then show ?thesis using ij assms by (auto simp: wf_table_def)
    qed
  qed
  then show ?thesis by (simp add: all_nodes_def map_concat)
qed

section \<open>The service keeps its table\<close>

lemma take_node_wf: "take_node bs = Inr (n, rest) \<Longrightarrow> wf_disc_node n"
proof -
  assume t: "take_node bs = Inr (n, rest)"
  have "be_val [a, b] < 2 ^ 16" for a b :: byte using be_val_less [of "[a, b]"] by simp
  with t show ?thesis
    by (auto simp: take_node_def Let_def wf_disc_node_def wf_endpoint_def NODE_WIRE_LEN_def split: if_splits)
qed

lemma take_nodes_wf: "take_nodes k bs = Inr (ns, rest) \<Longrightarrow> list_all wf_disc_node ns \<and> length ns = k"
  by (induction k bs arbitrary: ns rest rule: take_nodes.induct) (auto simp: result_simps dest: take_node_wf split: prod.splits)

lemma disc_decode_wf: "disc_decode bs = Inr m \<Longrightarrow> wf_message m"
  by (cases bs) (auto simp: disc_decode_def result_simps Let_def dest!: take_node_wf take_nodes_wf split: if_splits prod.splits)

definition disc_inv :: "discovery \<Rightarrow> bool" where
  "disc_inv d \<longleftrightarrow>
     wf_table (dv_table d) \<and> rt_local (dv_table d) = dn_id (dv_local d) \<and> rt_k (dv_table d) = K_BUCKET_SIZE \<and> wf_disc_node (dv_local d)
     \<and> (\<forall>n\<in>set (all_nodes (dv_table d)). peer_key (endpoint_peer_addr (dn_endpoint n)) \<in> dom (map_of (dv_peers d)))"

definition good_datagram :: "datagram \<Rightarrow> bool" where
  "good_datagram dg \<longleftrightarrow> (\<exists>m. wf_message m \<and> snd dg = disc_encode m)"

lemma disc_add_inv:
  assumes "disc_inv d" "wf_disc_node node"
  obtains added d' where "disc_add now node d = Some (added, d')" "disc_inv d'" "dv_local d' = dv_local d"
    "dn_id node \<noteq> dn_id (dv_local d) \<Longrightarrow> node \<in> set (all_nodes (dv_table d'))"
    "set (all_nodes (dv_table d')) \<subseteq> insert node (set (all_nodes (dv_table d)))"
proof (cases "dn_id node = dn_id (dv_local d)")
  case True
  with assms that [of False d] show ?thesis by (auto simp: disc_add_def)
next
  case False
  with assms have "wf_table (dv_table d)" "dn_id node \<noteq> rt_local (dv_table d)" by (simp_all add: disc_inv_def)
  from table_insert_wf [OF this(1) assms(2) this(2)] obtain oc t where t: "table_insert node (dv_table d) = Some (oc, t)" "wf_table t"
    "rt_local t = rt_local (dv_table d)" "rt_k t = rt_k (dv_table d)" "node \<in> set (all_nodes t)"
    "set (all_nodes t) \<subseteq> insert node (set (all_nodes (dv_table d)))" .
  let ?d = "d\<lparr>dv_table := t, dv_peers := upsert (endpoint_peer_addr (dn_endpoint node)) (-1) now (dv_peers d)\<rparr>"
  have "disc_inv ?d" using assms t unfolding disc_inv_def by (auto simp: upsert_def update_conv')
  with t False show ?thesis by (intro that [of "oc = Added" ?d]) (simp_all add: disc_add_def)
qed

lemma disc_neighbors_inv:
  assumes "disc_inv d" "list_all wf_disc_node nodes"
  shows "\<exists>out d'. disc_neighbors now nodes d = Some (out, d') \<and> disc_inv d' \<and> dv_local d' = dv_local d \<and> list_all good_datagram out"
  using assms
proof (induction nodes arbitrary: d)
  case (Cons node nodes)
  show ?case
  proof (cases "dn_id node = dn_id (dv_local d)")
    case False
    have "wf_disc_node node" using Cons.prems by simp
    from disc_add_inv [OF Cons.prems(1) this, of now]
    obtain added d1 where d1: "disc_add now node d = Some (added, d1)" "disc_inv d1" "dv_local d1 = dv_local d" by metis
    from Cons.IH [OF d1(2)] Cons.prems obtain out d' where d': "disc_neighbors now nodes d1 = Some (out, d')" "disc_inv d'"
      "dv_local d' = dv_local d1" "list_all good_datagram out" by auto
    have "good_datagram (send_to (Ping (dv_local d1)) (dn_endpoint node))"
      using d1(2) by (auto simp: good_datagram_def send_to_def disc_inv_def intro!: exI [of _ "Ping (dv_local d1)"])
    with d1 d' False show ?thesis by simp
  qed (use Cons in simp)
qed simp

lemma closest_subset: "set (closest target k t) \<subseteq> set (all_nodes t)" and length_closest: "length (closest target k t) \<le> k"
  by (auto simp: closest_def dest!: in_set_takeD)

lemma disc_handle_inv:
  assumes inv: "disc_inv d" and m: "wf_message m"
  shows "\<exists>out d'. disc_handle now m d = Some (out, d') \<and> disc_inv d' \<and> dv_local d' = dv_local d \<and> list_all good_datagram out"
proof -
  have reply: "good_datagram (send_to r e)" if "wf_message r" for r e using that by (auto simp: good_datagram_def send_to_def)
  have loc: "wf_disc_node (dv_local d')" if "disc_inv d'" for d' using that by (simp add: disc_inv_def)
  have n16: "wf_message (Neighbors (dv_local d') (closest target K_BUCKET_SIZE (dv_table d')))" if i: "disc_inv d'" for d' target
    using i loc [OF i] closest_subset [of target K_BUCKET_SIZE "dv_table d'"] length_closest [of target K_BUCKET_SIZE "dv_table d'"]
      wf_table_nodes(1) [of "dv_table d'"]
    by (auto simp: list_all_iff disc_inv_def K_BUCKET_SIZE_def MAX_NEIGHBORS_def)
  obtain node where node: "wf_disc_node node" "m = Ping node \<or> m = Pong node \<or> (\<exists>t. m = FindNode node t) \<or> (\<exists>ns. m = Neighbors node ns \<and> list_all wf_disc_node ns)"
    using m by (cases m) auto
  from disc_add_inv [OF inv node(1), of now] obtain added d1 where d1: "disc_add now node d = Some (added, d1)" "disc_inv d1" "dv_local d1 = dv_local d"
    by metis
  have "length (dn_id (dv_local d1)) = NODE_ID_LEN" using loc [OF d1(2)] by (simp add: wf_disc_node_def)
  with node(2) d1 reply loc [OF d1(2)] n16 [OF d1(2)] disc_neighbors_inv [OF d1(2)] show ?thesis by auto
qed

lemma disc_receive_inv:
  assumes "disc_inv d"
  shows "\<exists>out d'. disc_receive now bs d = Some (out, d') \<and> disc_inv d' \<and> dv_local d' = dv_local d \<and> list_all good_datagram out"
  using disc_handle_inv [OF assms disc_decode_wf] assms by (auto simp: disc_receive_def split: sum.splits)

text \<open>A run of the service on the datagrams it receives, each with its time of arrival.\<close>

fun disc_run :: "(nat \<times> bytes) list \<Rightarrow> discovery \<Rightarrow> (datagram list \<times> discovery) option" where
  "disc_run [] d = Some ([], d)"
| "disc_run ((now, bs) # evs) d =
     Option.bind (disc_receive now bs d) (\<lambda>(out, d). map_option (\<lambda>(out', d'). (out @ out', d')) (disc_run evs d))"

lemma disc_run_inv:
  assumes "disc_inv d"
  shows "\<exists>out d'. disc_run evs d = Some (out, d') \<and> disc_inv d' \<and> dv_local d' = dv_local d \<and> list_all good_datagram out"
  using assms
proof (induction evs arbitrary: d)
  case (Cons ev evs)
  obtain now bs where ev: "ev = (now, bs)" by fastforce
  obtain out d1 where d1: "disc_receive now bs d = Some (out, d1)" "disc_inv d1" "dv_local d1 = dv_local d" "list_all good_datagram out"
    using disc_receive_inv [OF Cons.prems] by blast
  from Cons.IH [OF d1(2)] d1 show ?case by (auto simp: ev)
qed simp

lemma disc_inv_bind: "length i = NODE_ID_LEN \<Longrightarrow> wf_endpoint e \<Longrightarrow> disc_inv (discovery_bind e i peers)"
  using wf_table_new by (simp add: disc_inv_def discovery_bind_def wf_disc_node_def all_nodes_def table_new_def table_with_k_def)

lemma good_datagram_small: "good_datagram dg \<Longrightarrow> length (snd dg) \<le> RECV_BUF"
proof -
  assume "good_datagram dg"
  then obtain m where m: "wf_message m" "snd dg = disc_encode m" by (auto simp: good_datagram_def)
  have "length (concat (map put_node ns)) = NODE_WIRE_LEN * length ns" if "list_all wf_disc_node ns" for ns
    using that by (induction ns) (simp_all add: length_put_node)
  with m show ?thesis
    by (cases m) (auto simp: length_put_node NODE_WIRE_LEN_def NODE_ID_LEN_def RECV_BUF_def MAX_NEIGHBORS_def min_absorb1)
qed

text \<open>
  C30: Whatever datagrams arrive, in whatever order, a discovery service never panics, never stores its own id, keeps
  at most 16 nodes per bucket and every id once, has every node of its table in the shared peer table, finds exactly
  the stored ids, and answers only with datagrams that fit its peers' receive buffer and that they can decode.
\<close>

theorem discovery_invariant:
  assumes "length i = NODE_ID_LEN" "wf_endpoint e"
  shows "\<exists>out d. disc_run evs (discovery_bind e i peers) = Some (out, d)
    \<and> (\<forall>b\<in>set (rt_buckets (dv_table d)). length b \<le> K_BUCKET_SIZE)
    \<and> distinct (map dn_id (all_nodes (dv_table d))) \<and> i \<notin> dn_id ` set (all_nodes (dv_table d))
    \<and> (\<forall>n\<in>set (all_nodes (dv_table d)). table_contains (dv_table d) (dn_id n)
         \<and> peer_key (endpoint_peer_addr (dn_endpoint n)) \<in> dom (map_of (dv_peers d)))
    \<and> (\<forall>dg\<in>set out. length (snd dg) \<le> RECV_BUF \<and> (\<exists>m. disc_decode (snd dg) = Inr m))"
proof -
  obtain out d where d: "disc_run evs (discovery_bind e i peers) = Some (out, d)" "disc_inv d"
    "dv_local d = \<lparr>dn_id = i, dn_endpoint = e\<rparr>" "list_all good_datagram out"
    using disc_run_inv [OF disc_inv_bind [OF assms, of peers], of evs] by (auto simp: discovery_bind_def)
  then have w: "wf_table (dv_table d)" "rt_local (dv_table d) = i" by (simp_all add: disc_inv_def)
  have b: "\<forall>b\<in>set (rt_buckets (dv_table d)). length b \<le> K_BUCKET_SIZE"
    using d(2) by (auto simp: disc_inv_def wf_table_def in_set_conv_nth)
  have g: "length (snd dg) \<le> RECV_BUF \<and> (\<exists>m. disc_decode (snd dg) = Inr m)" if "dg \<in> set out" for dg
    using d(4) that good_datagram_small [of dg] disc_roundtrip by (auto simp: list_all_iff good_datagram_def)
  have own: "i \<notin> dn_id ` set (all_nodes (dv_table d))"
  proof
    assume "i \<in> dn_id ` set (all_nodes (dv_table d))"
    then obtain n where "n \<in> set (all_nodes (dv_table d))" "dn_id n = i" by blast
    with wf_table_nodes(2) [OF w(1), of n] w(2) show False by simp
  qed
  have m: "\<forall>n\<in>set (all_nodes (dv_table d)). table_contains (dv_table d) (dn_id n)
      \<and> peer_key (endpoint_peer_addr (dn_endpoint n)) \<in> dom (map_of (dv_peers d))"
    using d(2) wf_table_nodes(3) [OF w(1)] by (simp add: disc_inv_def)
  show ?thesis
    by (intro exI [of _ out] exI [of _ d] conjI ballI d(1) wf_table_distinct [OF w(1)] own) (use b m g in blast)+
qed

theorem discovery_invariant_witness:
  "\<exists>out d. disc_run [(0, disc_encode (Ping \<lparr>dn_id = replicate 32 2, dn_endpoint = \<lparr>ep_ip = (127, 0, 0, 1), ep_udp_port = 2, ep_tcp_port = 2\<rparr>\<rparr>))]
     (discovery_bind \<lparr>ep_ip = (127, 0, 0, 1), ep_udp_port = 1, ep_tcp_port = 1\<rparr> (replicate 32 1) peer_manager_new) = Some (out, d)
   \<and> distinct (map dn_id (all_nodes (dv_table d))) \<and> replicate 32 1 \<notin> dn_id ` set (all_nodes (dv_table d))"
  using discovery_invariant [of "replicate 32 1" "\<lparr>ep_ip = (127, 0, 0, 1), ep_udp_port = 1, ep_tcp_port = 1\<rparr>"
      "[(0, disc_encode (Ping \<lparr>dn_id = replicate 32 2, dn_endpoint = \<lparr>ep_ip = (127, 0, 0, 1), ep_udp_port = 2, ep_tcp_port = 2\<rparr>\<rparr>))]"
      peer_manager_new]
  by (auto simp: NODE_ID_LEN_def wf_endpoint_def)

text \<open>Two services that exchange a PING and its PONG know each other.\<close>

lemma discovery_handshake:
  assumes a: "disc_inv a" and b: "disc_inv b" and ne: "dn_id (dv_local a) \<noteq> dn_id (dv_local b)"
  obtains out b' out' a' where
    "disc_receive now (disc_encode (Ping (dv_local a))) b = Some (out, b')" "dv_local a \<in> set (all_nodes (dv_table b'))"
    "out = [(dn_endpoint (dv_local a), disc_encode (Pong (dv_local b)))]"
    "disc_receive now' (disc_encode (Pong (dv_local b))) a = Some (out', a')" "dv_local b \<in> set (all_nodes (dv_table a'))"
proof -
  have l: "wf_disc_node (dv_local a)" "wf_disc_node (dv_local b)" using a b by (simp_all add: disc_inv_def)
  have dec: "disc_decode (take RECV_BUF (disc_encode m)) = Inr m" if "wf_message m" for m
  proof -
    have "good_datagram (dn_endpoint (dv_local a), disc_encode m)" using that by (auto simp: good_datagram_def)
    then have "length (disc_encode m) \<le> RECV_BUF" by (auto dest: good_datagram_small)
    then show ?thesis using disc_roundtrip [OF that] by simp
  qed
  from disc_add_inv [OF b l(1), of now] obtain x b' where b': "disc_add now (dv_local a) b = Some (x, b')"
    "dv_local b' = dv_local b" "dv_local a \<in> set (all_nodes (dv_table b'))" using ne by metis
  from disc_add_inv [OF a l(2), of now'] obtain y a' where a': "disc_add now' (dv_local b) a = Some (y, a')"
    "dv_local b \<in> set (all_nodes (dv_table a'))" using ne by metis
  have "wf_message (Ping (dv_local a))" "wf_message (Pong (dv_local b))" using l by simp_all
  note d = dec [OF this(1)] dec [OF this(2)]
  show ?thesis
    by (rule that [OF _ b'(3) refl _ a'(2)]) (simp_all add: disc_receive_def d a'(1) b'(1,2) send_to_def del: disc_encode.simps)
qed

end
