(* ===== verification/Service.thy ===== *)
theory Service
  imports Pbft Discovery
begin

text \<open>
  The channel service of \<open>p2p/src/service.rs\<close>: what it does with every frame a peer sends and with everything it is
  asked to gossip, over the handler interface \<open>ChannelHandler\<close>.  A handler is a record of the operations of that
  trait on its state; the node's own handler is the instance.  The locale \<open>gossip_handler\<close> states what the
  service relies on, and in it gossip is shown not to circulate.
\<close>

section \<open>The handler interface\<close>

record 's channel_handler =
  ch_head :: "'s \<Rightarrow> i64"
  ch_on_block :: "bytes \<Rightarrow> 's \<Rightarrow> i64 option \<times> 's"
  ch_on_transaction :: "i64 \<Rightarrow> bytes \<Rightarrow> 's \<Rightarrow> 's"
  ch_block_bytes :: "i64 \<Rightarrow> 's \<Rightarrow> bytes option"
  ch_on_pbft_commit :: "bytes \<Rightarrow> 's \<Rightarrow> bool \<times> 's"

text \<open>The defaults of the service's configuration.\<close>

record channel_config =
  cc_keepalive_secs :: nat
  cc_hello :: bytes

definition channel_config_default :: channel_config where
  "channel_config_default = \<lparr>cc_keepalive_secs = 10, cc_hello = bytes_of_string ''tron-rs/p2p''\<rparr>"

section \<open>One frame\<close>

text \<open>
  The frames written back, what is handed to the broadcast handle, and the state of the handler.
\<close>

definition handle_frame :: "'s channel_handler \<Rightarrow> i64 \<Rightarrow> p2p_frame \<Rightarrow> 's \<Rightarrow> p2p_frame list \<times> outgoing list \<times> 's" where
  "handle_frame h now f s =
     (case fr_kind f of
        P2pPing \<Rightarrow> ([mk_frame P2pPong []], [], s)
      | P2pPong \<Rightarrow> ([], [], s)
      | BlockInventory \<Rightarrow>
          (map (\<lambda>n. mk_frame FetchInvData (encode_numbers [n])) (filter (\<lambda>n. ch_head h s < n) (decode_numbers (fr_payload f))), [], s)
      | FetchInvData \<Rightarrow>
          (case decode_numbers (fr_payload f) of
             n # _ \<Rightarrow> ([mk_frame Block (case ch_block_bytes h n s of Some bs \<Rightarrow> bs | None \<Rightarrow> [])], [], s)
           | [] \<Rightarrow> ([], [], s))
      | Block \<Rightarrow>
          if fr_payload f \<noteq> []
          then (case ch_on_block h (fr_payload f) s of
                  (Some new_head, s) \<Rightarrow> ([], [AdvertiseBlock new_head], s)
                | (None, s) \<Rightarrow> ([], [], s))
          else ([], [], s)
      | Trx \<Rightarrow> ([], [], ch_on_transaction h now (fr_payload f) s)
      | PbftCommit \<Rightarrow>
          if fr_payload f \<noteq> []
          then (case ch_on_pbft_commit h (fr_payload f) s of
                  (True, s) \<Rightarrow> ([], [AdvertiseCommit (fr_payload f)], s)
                | (False, s) \<Rightarrow> ([], [], s))
          else ([], [], s)
      | _ \<Rightarrow> ([], [], s))"

section \<open>One peer\<close>

text \<open>The handshake: what is written, and the rest of the stream when the peer's hello was read.\<close>

definition peer_handshake :: "bool \<Rightarrow> bytes \<Rightarrow> bytes \<Rightarrow> bytes \<times> (channel_error + bytes)" where
  "peer_handshake initiator hello stream =
     (if initiator
      then (write_frame (mk_frame P2pHello hello),
            case read_frame stream of
              Inl e \<Rightarrow> Inl e
            | Inr (peer, rest) \<Rightarrow>
                if fr_kind peer \<noteq> P2pHello then Inl (ChannelFrame (UnknownType (message_u8 (fr_kind peer)))) else Inr rest)
      else case accept_handshake hello stream of
        (Inl e, out) \<Rightarrow> (out, Inl e)
      | (Inr (_, rest), out) \<Rightarrow> (out, Inr rest))"

primrec gossip_frame :: "outgoing \<Rightarrow> p2p_frame" where
  "gossip_frame (AdvertiseBlock n) = mk_frame BlockInventory (encode_numbers [n])"
| "gossip_frame (AdvertiseTx bs) = mk_frame Trx bs"
| "gossip_frame (AdvertiseCommit bs) = mk_frame PbftCommit bs"

text \<open>The branches of the select loop; the loop goes on when the last component is true.\<close>

datatype peer_event = KeepaliveTick | Gossip outgoing | GossipLagged | Inbound p2p_frame | ReadEnded | Cancelled

definition peer_step :: "'s channel_handler \<Rightarrow> i64 \<Rightarrow> peer_event \<Rightarrow> 's \<Rightarrow> p2p_frame list \<times> outgoing list \<times> 's \<times> bool" where
  "peer_step h now ev s =
     (case ev of
        KeepaliveTick \<Rightarrow> ([mk_frame P2pPing []], [], s, True)
      | Gossip m \<Rightarrow> ([gossip_frame m], [], s, True)
      | GossipLagged \<Rightarrow> ([], [], s, True)
      | Inbound f \<Rightarrow> (case handle_frame h now f s of (out, adv, s) \<Rightarrow> (out, adv, s, True))
      | ReadEnded \<Rightarrow> ([], [], s, False)
      | Cancelled \<Rightarrow> ([], [], s, False))"

fun peer_loop :: "'s channel_handler \<Rightarrow> (i64 \<times> peer_event) list \<Rightarrow> 's \<Rightarrow> p2p_frame list \<times> outgoing list \<times> 's" where
  "peer_loop h [] s = ([], [], s)"
| "peer_loop h ((now, ev) # evs) s =
     (case peer_step h now ev s of
        (out, adv, s, True) \<Rightarrow> (case peer_loop h evs s of (out', adv', s) \<Rightarrow> (out @ out', adv @ adv', s))
      | (out, adv, s, False) \<Rightarrow> (out, adv, s))"

section \<open>The node's handler\<close>

definition node_handler :: "('k, 'p) externals \<Rightarrow> 'k node channel_handler" where
  "node_handler x = \<lparr>ch_head = handler_head, ch_on_block = on_block x, ch_on_transaction = on_transaction x,
     ch_block_bytes = handler_block_bytes x, ch_on_pbft_commit = on_pbft_commit x\<rparr>"

section \<open>Gossip does not circulate\<close>

definition advertised_blocks :: "outgoing list \<Rightarrow> i64 list" where
  "advertised_blocks adv = concat (map (\<lambda>m. case m of AdvertiseBlock n \<Rightarrow> [n] | _ \<Rightarrow> []) adv)"

definition advertised_commits :: "outgoing list \<Rightarrow> bytes list" where
  "advertised_commits adv = concat (map (\<lambda>m. case m of AdvertiseCommit bs \<Rightarrow> [bs] | _ \<Rightarrow> []) adv)"

lemma advertised_simps [simp]:
  "advertised_blocks [] = []" "advertised_commits [] = []"
  "advertised_blocks (xs @ ys) = advertised_blocks xs @ advertised_blocks ys"
  "advertised_commits (xs @ ys) = advertised_commits xs @ advertised_commits ys"
  "advertised_blocks (AdvertiseBlock n # adv) = n # advertised_blocks adv" "advertised_blocks (AdvertiseCommit bs # adv) = advertised_blocks adv"
  "advertised_commits (AdvertiseBlock n # adv) = advertised_commits adv" "advertised_commits (AdvertiseCommit bs # adv) = bs # advertised_commits adv"
  by (simp_all add: advertised_blocks_def advertised_commits_def)

text \<open>
  What the service relies on.  An accepted block raises the head and its number is the new head; nothing else moves
  the head down; and a commit is accepted as new at most once: the handler remembers it as seen through every operation.
\<close>

locale gossip_handler =
  fixes h :: "'s channel_handler" and seen :: "bytes \<Rightarrow> 's \<Rightarrow> bool"
  assumes block_head: "ch_on_block h bs s = (Some n, s') \<Longrightarrow> n = ch_head h s' \<and> (0 \<le> ch_head h s \<and> ch_head h s < i64_max \<longrightarrow> ch_head h s < n)"
    and block_mono: "ch_head h s \<le> ch_head h (snd (ch_on_block h bs s))"
    and tx_head: "ch_head h (ch_on_transaction h now bs s) = ch_head h s"
    and commit_head: "ch_head h (snd (ch_on_pbft_commit h bs s)) = ch_head h s"
    and commit_new: "ch_on_pbft_commit h bs s = (True, s') \<Longrightarrow> \<not> seen bs s \<and> seen bs s'"
    and block_seen: "seen m s \<Longrightarrow> seen m (snd (ch_on_block h bs s))"
    and tx_seen: "seen m s \<Longrightarrow> seen m (ch_on_transaction h now bs s)"
    and commit_seen: "seen m s \<Longrightarrow> seen m (snd (ch_on_pbft_commit h bs s))"
begin

lemma handle_frame_gossip:
  assumes "handle_frame h now f s = (out, adv, s')"
  shows "ch_head h s \<le> ch_head h s'" and "seen m s \<Longrightarrow> seen m s'"
    and "\<exists>bs n. (adv = [] \<or> (adv = [AdvertiseBlock n] \<and> n = ch_head h s' \<and> (0 \<le> ch_head h s \<and> ch_head h s < i64_max \<longrightarrow> ch_head h s < n))
      \<or> (adv = [AdvertiseCommit bs] \<and> \<not> seen bs s \<and> seen bs s'))"
proof -
  obtain r1 t1 where b: "ch_on_block h (fr_payload f) s = (r1, t1)" by fastforce
  obtain r2 t2 where c: "ch_on_pbft_commit h (fr_payload f) s = (r2, t2)" by fastforce
  have B: "ch_head h s \<le> ch_head h t1" "seen m s \<Longrightarrow> seen m t1"
    using block_mono [of s "fr_payload f"] block_seen [of m s "fr_payload f"] b by simp_all
  have C: "ch_head h t2 = ch_head h s" "seen m s \<Longrightarrow> seen m t2"
    using commit_head [of "fr_payload f" s] commit_seen [of m s "fr_payload f"] c by simp_all
  show "ch_head h s \<le> ch_head h s'" "seen m s \<Longrightarrow> seen m s'"
    using assms B C tx_head tx_seen b c
    by (auto simp: handle_frame_def split: message_type.splits if_splits option.splits bool.splits list.splits)
  show "\<exists>bs n. (adv = [] \<or> (adv = [AdvertiseBlock n] \<and> n = ch_head h s' \<and> (0 \<le> ch_head h s \<and> ch_head h s < i64_max \<longrightarrow> ch_head h s < n))
      \<or> (adv = [AdvertiseCommit bs] \<and> \<not> seen bs s \<and> seen bs s'))"
  proof (cases "\<exists>n. r1 = Some n \<and> fr_kind f = Block \<and> fr_payload f \<noteq> []")
    case True
    then obtain n where n: "r1 = Some n" "fr_kind f = Block" "fr_payload f \<noteq> []" by blast
    with assms b have "adv = [AdvertiseBlock n]" "s' = t1" by (simp_all add: handle_frame_def)
    with block_head [OF b [unfolded n(1)]] show ?thesis by blast
  next
    case False
    show ?thesis
    proof (cases "r2 \<and> fr_kind f = PbftCommit \<and> fr_payload f \<noteq> []")
      case True
      with assms c have "adv = [AdvertiseCommit (fr_payload f)]" "s' = t2" by (simp_all add: handle_frame_def)
      moreover have "\<not> seen (fr_payload f) s \<and> seen (fr_payload f) t2" using c True by (intro commit_new) simp
      ultimately show ?thesis by blast
    next
      case ncommit: False
      with False assms b c have "adv = []"
        by (cases "fr_kind f") (auto simp: handle_frame_def split: option.splits bool.splits list.splits if_splits)
      then show ?thesis by blast
    qed
  qed
qed

lemma peer_loop_gossip:
  assumes "peer_loop h evs s = (out, adv, s')" and "ch_head h s' < i64_max" and "0 \<le> ch_head h s"
  shows "ch_head h s \<le> ch_head h s' \<and> (\<forall>m. seen m s \<longrightarrow> seen m s')
    \<and> (\<forall>n\<in>set (advertised_blocks adv). ch_head h s < n \<and> n \<le> ch_head h s')
    \<and> (\<forall>m\<in>set (advertised_commits adv). \<not> seen m s \<and> seen m s')
    \<and> sorted_wrt (<) (advertised_blocks adv) \<and> distinct (advertised_commits adv)"
  using assms(1,3)
proof (induction evs arbitrary: s out adv)
  case (Cons e evs)
  obtain now ev where e: "e = (now, ev)" by fastforce
  show ?case
  proof (cases "\<exists>f. ev = Inbound f")
    case True
    then obtain f where f: "ev = Inbound f" ..
    obtain out1 adv1 t where t: "handle_frame h now f s = (out1, adv1, t)" by (metis prod_cases3)
    obtain out2 adv2 where r: "peer_loop h evs t = (out2, adv2, s')" "adv = adv1 @ adv2"
      using Cons.prems(1) by (auto simp: e f peer_step_def t split: prod.splits)
    note one = handle_frame_gossip [OF t] and rest = Cons.IH [OF r(1) order.trans [OF Cons.prems(2) handle_frame_gossip(1) [OF t]]]
    have mono: "ch_head h s \<le> ch_head h t" "ch_head h t \<le> ch_head h s'" "ch_head h s < i64_max" using one(1) rest assms(2) by auto
    have sn: "\<forall>m. seen m s \<longrightarrow> seen m s'" using one(2) rest by blast
    have bl: "\<forall>n\<in>set (advertised_blocks adv2). ch_head h s < n \<and> ch_head h t < n \<and> n \<le> ch_head h s'" using rest mono by auto
    have cm: "\<forall>m\<in>set (advertised_commits adv2). \<not> seen m t \<and> \<not> seen m s \<and> seen m s'" using rest one(2) by blast
    from one(3) consider "adv1 = []" | n where "adv1 = [AdvertiseBlock n]" "n = ch_head h t" "ch_head h s < n"
      | bs where "adv1 = [AdvertiseCommit bs]" "\<not> seen bs s" "seen bs t" using mono(3) Cons.prems(2) by blast
    then show ?thesis
    proof cases
      case 1
      then show ?thesis using mono sn bl cm rest by (simp add: r(2))
    next
      case 2
      then show ?thesis using mono sn bl cm rest by (simp add: r(2))
    next
      case 3
      moreover have "bs \<notin> set (advertised_commits adv2)" "seen bs s'" using 3 cm rest by blast+
      ultimately show ?thesis using mono sn bl cm rest by (simp add: r(2))
    qed
  next
    case False
    then consider "s' = s" "adv = []" | out' where "peer_loop h evs s = (out', adv, s')"
      using Cons.prems(1) by (cases ev) (auto simp: e peer_step_def split: prod.splits)
    then show ?thesis using Cons.IH [OF _ Cons.prems(2)] by cases auto
  qed
qed simp

end

section \<open>The node's handler gossips at most once\<close>

definition node_seen :: "('k, 'p) externals \<Rightarrow> bytes \<Rightarrow> 'k node \<Rightarrow> bool" where
  "node_seen x m n \<longleftrightarrow>
     (\<exists>c a. commit_decode m = Some c \<and> recover_signer x c = Some a
        \<and> (pc_block_num c \<le> solid n \<or> (\<exists>S. nd_confirmations n (pc_block_num c) = Some S \<and> as_bytes a \<in> S)))"

lemma node_seen_step: "finality_step x M n n' \<Longrightarrow> node_seen x m n \<Longrightarrow> node_seen x m n'"
proof (induction rule: finality_step.induct)
  case (quiet n' n)
  then show ?case by (simp add: node_seen_def)
next
  case (commit k n)
  then obtain c a where ca: "commit_decode m = Some c" "recover_signer x c = Some a"
    and s: "pc_block_num c \<le> solid n \<or> (\<exists>S. nd_confirmations n (pc_block_num c) = Some S \<and> as_bytes a \<in> S)"
    by (auto simp: node_seen_def)
  show ?case
  proof (cases rule: on_pbft_commit_cases [of x k n])
    case dropped
    with commit show ?thesis by simp
  next
    case (recorded c' a' S)
    with ca s show ?thesis by (auto simp: node_seen_def)
  next
    case (advanced c' a' S conf b)
    then have "pc_block_num c \<le> b \<or> (\<exists>T. conf (pc_block_num c) = Some T \<and> as_bytes a \<in> T)" using s by auto
    with ca advanced(9) show ?thesis by (cases "b \<le> pc_block_num c") (auto simp: node_seen_def prune_below_solidified_def)
  qed
qed

lemma node_seen_steps: "(finality_step x M)\<^sup>*\<^sup>* n n' \<Longrightarrow> node_seen x m n \<Longrightarrow> node_seen x m n'"
  by (induction rule: rtranclp_induct) (auto intro: node_seen_step)

lemma commit_newly_seen: "on_pbft_commit x m n = (True, n') \<Longrightarrow> \<not> node_seen x m n \<and> node_seen x m n'"
proof -
  assume e: "on_pbft_commit x m n = (True, n')"
  have new: "as_bytes a \<notin> (case nd_confirmations n (pc_block_num c) of Some S \<Rightarrow> S | None \<Rightarrow> {})" "solid n < pc_block_num c"
    if "commit_decode m = Some c" "recover_signer x c = Some a" for c a
    using e that by (auto simp: on_pbft_commit_def Let_def accept_pbft_message_def split: if_splits)
  show ?thesis
  proof (cases rule: on_pbft_commit_cases [of x m n])
    case (recorded c a S)
    with e new [OF recorded(1,2)] show ?thesis by (auto simp: node_seen_def split: option.splits)
  next
    case (advanced c a S conf b)
    with e new [OF advanced(1,2)] show ?thesis
      by (cases "b \<le> pc_block_num c") (auto simp: node_seen_def prune_below_solidified_def split: option.splits)
  qed (use e in simp)
qed

lemma emit_commit_head [simp]: "handler_head (emit_commit x b bid n) = handler_head n"
proof -
  have "handler_head (snd (on_pbft_commit x m n)) = handler_head n" for m
    by (cases rule: on_pbft_commit_cases [of x m n]) (simp_all add: handler_head_def)
  then show ?thesis by (simp add: emit_commit_def advertise_def handler_head_def split: option.split prod.split)
qed

lemma apply_one_block:
  assumes "apply_synced_blocks_gated x rs active 0 [bs] s = (r, s')"
  shows "(\<exists>e. r = Inl e \<and> s' = s) \<or> (\<exists>b raw. r = Inr 1 \<and> ext_decode_block x bs = Inr b \<and> s' = put_block x b s
    \<and> (case raw_header b of Some raw \<Rightarrow> hr_number raw | None \<Rightarrow> -1) = i64_wrap (get_prop_i64 s LATEST_BLOCK_NUMBER + 1))"
  using assms by (auto simp: Let_def split: sum.splits if_splits)

lemma on_block_head:
  assumes "on_block x bs n = (Some k, n')"
  shows "k = handler_head n'" "0 \<le> handler_head n \<Longrightarrow> handler_head n < i64_max \<Longrightarrow> k = handler_head n + 1"
proof -
  obtain r s' where a: "apply_synced_blocks_gated x (nd_require_sig n) (if actives n = [] then None else Some (actives n)) 0 [bs] (nd_world n) = (r, s')"
    by fastforce
  show "k = handler_head n'" using assms a by (auto simp: on_block_def Let_def split: sum.splits if_splits)
  show "k = handler_head n + 1" if h: "0 \<le> handler_head n" "handler_head n < i64_max"
  proof -
    from apply_one_block [OF a] assms a obtain b where b: "r = Inr 1" "ext_decode_block x bs = Inr b" "s' = put_block x b (nd_world n)"
      "(case raw_header b of Some raw \<Rightarrow> hr_number raw | None \<Rightarrow> -1) = i64_wrap (handler_head n + 1)"
      by (auto simp: on_block_def Let_def handler_head_def split: sum.splits if_splits)
    have "in_i64 (handler_head n + 1)" using h by (simp add: i64_bounds_defs)
    with b(4) h(1) obtain raw where raw: "raw_header b = Some raw" "hr_number raw = handler_head n + 1"
      by (auto split: option.splits)
    then have "get_prop_i64 (put_block x b (nd_world n)) LATEST_BLOCK_NUMBER = handler_head n + 1"
      using put_block_next(1) [OF raw(1), where x = x and s = "nd_world n"] by (simp add: handler_head_def)
    with assms a b(1-3) show ?thesis
      by (auto simp: on_block_def Let_def handler_head_def [symmetric] split: option.splits) (simp_all add: handler_head_def)
  qed
qed

interpretation node_gossip: gossip_handler "node_handler x" "node_seen x" for x :: "('k, 'p) externals"
proof
  have steps: "\<exists>M. (finality_step x M)\<^sup>*\<^sup>* n (handle_event x ev n)" for n :: "'k node" and ev
    using run_steps [OF subset_refl, of x n "[ev]"] by auto
  show "n = ch_head (node_handler x) s' \<and> (0 \<le> ch_head (node_handler x) s \<and> ch_head (node_handler x) s < i64_max \<longrightarrow> ch_head (node_handler x) s < n)"
    if "ch_on_block (node_handler x) bs s = (Some n, s')" for bs s n s'
    using that on_block_head [of x bs s n s'] by (auto simp: node_handler_def)
  show "ch_head (node_handler x) s \<le> ch_head (node_handler x) (snd (ch_on_block (node_handler x) bs s))" for s bs
  proof -
    have mono: "(finality_step x M)\<^sup>*\<^sup>* a b \<Longrightarrow> handler_head a \<le> handler_head b" for M and a b :: "'k node"
    proof (induction rule: rtranclp_induct)
      case (step b c)
      have "handler_head b \<le> handler_head c" using step(2)
      proof (cases rule: finality_step.cases)
        case (commit m)
        then show ?thesis by (cases rule: on_pbft_commit_cases [of x m b]) (simp_all add: handler_head_def)
      qed
      with step(3) show ?case by simp
    qed simp
    from steps [of s "ReceiveBlock bs"] obtain M where "(finality_step x M)\<^sup>*\<^sup>* s (handle_event x (ReceiveBlock bs) s)" ..
    from mono [OF this] show ?thesis by (simp add: node_handler_def)
  qed
  show "ch_head (node_handler x) (ch_on_transaction (node_handler x) now bs s) = ch_head (node_handler x) s" for now bs s
    by (simp add: node_handler_def on_transaction_def handler_head_def split: sum.split)
  show "ch_head (node_handler x) (snd (ch_on_pbft_commit (node_handler x) bs s)) = ch_head (node_handler x) s" for bs s
    by (cases rule: on_pbft_commit_cases [of x bs s]) (simp_all add: node_handler_def handler_head_def)
  show "\<not> node_seen x bs s \<and> node_seen x bs s'" if "ch_on_pbft_commit (node_handler x) bs s = (True, s')" for bs s s'
    using that commit_newly_seen [of x bs s s'] by (simp add: node_handler_def)
  show "node_seen x m (snd (ch_on_block (node_handler x) bs s))" if "node_seen x m s" for m s bs
    using steps [of s "ReceiveBlock bs"] node_seen_steps that by (fastforce simp: node_handler_def)
  show "node_seen x m (ch_on_transaction (node_handler x) now bs s)" if "node_seen x m s" for m s now bs
    using steps [of s "ReceiveTx now bs"] node_seen_steps that by (fastforce simp: node_handler_def)
  show "node_seen x m (snd (ch_on_pbft_commit (node_handler x) bs s))" if "node_seen x m s" for m s bs
    using steps [of s "ReceiveCommit bs"] node_seen_steps that by (fastforce simp: node_handler_def)
qed

section \<open>Properties of the service\<close>

text \<open>
  C31: Gossip does not circulate.  Over any connection and any sequence of inbound frames, keepalives and gossip
  requests, the blocks a node announces onward have strictly increasing numbers, each above the head it had
  before and none above the head it ends with, and no commit is re-broadcast twice.
\<close>

theorem gossip_no_loop:
  assumes "peer_loop (node_handler x) evs n = (out, adv, n')" and "0 \<le> handler_head n" and "handler_head n' < i64_max"
  shows "sorted_wrt (<) (advertised_blocks adv) \<and> distinct (advertised_commits adv)
    \<and> (\<forall>k\<in>set (advertised_blocks adv). handler_head n < k \<and> k \<le> handler_head n')"
  using node_gossip.peer_loop_gossip [OF assms(1)] assms(2,3) by (simp add: node_handler_def)

theorem gossip_no_loop_witness:
  "\<exists>out n'. peer_loop (node_handler sx) [(0, Inbound (mk_frame PbftCommit (sample_commit 1 1 (replicate 32 9)))),
      (0, Inbound (mk_frame PbftCommit (sample_commit 1 1 (replicate 32 9))))] (sample_node [1] 3)
    = (out, [AdvertiseCommit (sample_commit 1 1 (replicate 32 9))], n')
    \<and> distinct (advertised_commits [AdvertiseCommit (sample_commit 1 1 (replicate 32 9))])"
proof -
  let ?m = "sample_commit 1 1 (replicate 32 9)" and ?n = "sample_node [1] 3"
  let ?f = "mk_frame PbftCommit ?m"
  obtain r n1 where n1: "on_pbft_commit sx ?m ?n = (r, n1)" by fastforce
  obtain r2 n2 where n2: "on_pbft_commit sx ?m n1 = (r2, n2)" by fastforce
  have i: "in_i64 1" by (simp add: i64_bounds_defs)
  have r: r using n1 by (simp add: on_sample_commit [OF i] Let_def accept_pbft_message_def MAX_PBFT_FUTURE_BLOCKS_def i64_sat_def
      i64_bounds_defs split: if_splits option.splits)
  have "\<not> r2" using commit_newly_seen [of sx ?m ?n n1] commit_newly_seen [of sx ?m n1 n2] n1 n2 r by auto
  moreover have "?m \<noteq> []" by (simp add: sample_commit_def commit_encode_def)
  ultimately have "peer_loop (node_handler sx) [(0, Inbound ?f), (0, Inbound ?f)] ?n = ([], [AdvertiseCommit ?m], n2)"
    using n1 n2 r by (simp add: peer_step_def handle_frame_def node_handler_def)
  moreover have "handler_head n2 = 3"
    using on_sample_commit_frame [of ?n sx ?m] on_sample_commit_frame [of n1 sx ?m] n1 n2 by simp
  ultimately show ?thesis using gossip_no_loop [of sx _ ?n _ _ n2] by (auto simp: i64_max_def)
qed

text \<open>
  C32: An announced block arrives.  A node announces a block it stores; a peer whose head is just below asks for it;
  the node sends it; and the peer, whose gate the block passes, stores it, makes it its head and announces it
  onward.  Each of the frames is read from the stream exactly as it was written.
\<close>

theorem gossip_delivers_block:
  assumes "get_block_by_num (nd_world a) num = Some b" and "raw_header b = Some raw" "hr_number raw = num"
    and "num = handler_head n + 1" "0 \<le> handler_head n" "num \<le> i64_max"
    and "actives n \<noteq> []" "validate_block_intake x b (actives n) = Inr ()"
    and "ext_decode_block x (ext_encode_block x b) = Inr b" "ext_encode_block x b \<noteq> []" "length (ext_encode_block x b) \<le> MAX_MESSAGE_SIZE"
  shows "\<exists>announce request reply n'.
    announce = gossip_frame (AdvertiseBlock num)
    \<and> handle_frame (node_handler x) t1 announce n = ([request], [], n)
    \<and> handle_frame (node_handler x) t2 request a = ([reply], [], a)
    \<and> handle_frame (node_handler x) t3 reply n = ([], [AdvertiseBlock num], n')
    \<and> handler_head n' = num \<and> get_block_by_num (nd_world n') num = Some b
    \<and> (\<forall>f\<in>{announce, request, reply}. read_frame (write_frame f @ rest) = Inr (f, rest))"
proof -
  let ?fetch = "mk_frame FetchInvData (encode_numbers [num])" and ?block = "mk_frame Block (ext_encode_block x b)"
  have i: "in_i64 num" "in_i64 (handler_head n + 1)" using assms(4-6) by (simp_all add: i64_bounds_defs)
  have 1: "handle_frame (node_handler x) t1 (gossip_frame (AdvertiseBlock num)) n = ([?fetch], [], n)"
    using i(1) assms(4) by (simp add: handle_frame_def node_handler_def)
  have 2: "handle_frame (node_handler x) t2 ?fetch a = ([?block], [], a)"
    using i(1) assms(1) by (simp add: handle_frame_def node_handler_def handler_block_bytes_def)
  have ap: "apply_synced_blocks_gated x (nd_require_sig n) (Some (actives n)) 0 [ext_encode_block x b] (nd_world n)
      = (Inr 1, put_block x b (nd_world n))"
    using assms i(2) by (simp add: Let_def handler_head_def)
  define n1 where "n1 = n\<lparr>nd_world := put_block x b (nd_world n)\<rparr>"
  have n1: "handler_head n1 = num" "get_block_by_num (nd_world n1) num = Some b"
    using put_block_next(1,4) [OF assms(2), where x = x and s = "nd_world n"] assms(3,4) by (simp_all add: n1_def handler_head_def)
  obtain bid where bid: "block_id_of x b = Some bid" using assms(2) by (auto simp: block_id_of_def block_hash_def)
  let ?n' = "emit_commit x num (h256_bytes bid) n1"
  have "on_block x (ext_encode_block x b) n = (Some num, ?n')"
    using ap assms(2,3,7,9) bid n1 by (simp add: on_block_def Let_def flip: n1_def)
  then have 3: "handle_frame (node_handler x) t3 ?block n = ([], [AdvertiseBlock num], ?n')"
    using assms(10) by (simp add: handle_frame_def node_handler_def)
  have keep: "get_block_by_num (nd_world (emit_commit x b' i' m)) k = get_block_by_num (nd_world m) k" for b' i' m k
  proof -
    have "get_block_by_num (nd_world (snd (on_pbft_commit x c m))) k = get_block_by_num (nd_world m) k" for c
      by (cases rule: on_pbft_commit_cases [of x c m]) (simp_all add: get_block_by_num_def put_solidified_block_def put_prop_i64_def)
    then show ?thesis by (simp add: emit_commit_def advertise_def split: option.split prod.split)
  qed
  have "\<forall>f\<in>{gossip_frame (AdvertiseBlock num), ?fetch, ?block}. read_frame (write_frame f @ rest) = Inr (f, rest)"
    using assms(11) by (simp add: MAX_MESSAGE_SIZE_def)
  with 1 2 3 n1 keep show ?thesis by (intro exI [of _ "gossip_frame (AdvertiseBlock num)"] exI [of _ ?fetch] exI [of _ ?block] exI [of _ ?n']) simp
qed

theorem gossip_delivers_block_witness:
  "\<exists>announce request reply n'.
    handle_frame (node_handler sx) 0 announce (node_new sample_chain (mempool_new 1) True) = ([request], [], node_new sample_chain (mempool_new 1) True)
    \<and> handle_frame (node_handler sx) 0 request (node_new (put_block sx sample_block sample_chain) (mempool_new 1) True)
      = ([reply], [], node_new (put_block sx sample_block sample_chain) (mempool_new 1) True)
    \<and> handle_frame (node_handler sx) 0 reply (node_new sample_chain (mempool_new 1) True) = ([], [AdvertiseBlock 1], n')
    \<and> handler_head n' = 1 \<and> get_block_by_num (nd_world n') 1 = Some sample_block"
proof -
  let ?n = "node_new sample_chain (mempool_new 1) True :: byte node"
  let ?a = "node_new (put_block sx sample_block sample_chain) (mempool_new 1) True :: byte node"
  obtain raw where raw: "raw_header sample_block = Some raw" "hr_number raw = 1" by (simp add: raw_header_def sample_block_def)
  have h: "handler_head ?n = 0" by (simp add: handler_head_def node_new_def sample_chain_def get_prop_i64_def ws_empty_def)
  then have "get_block_by_num (nd_world ?a) 1 = Some sample_block"
    using put_block_next(4) [OF raw(1), where x = sx and s = sample_chain and n = 1] raw(2)
    by (simp add: handler_head_def node_new_def)
  moreover have "actives ?n = [0x41 # replicate 20 7]" by (simp add: node_new_def sample_chain_def get_active_witnesses_def)
  moreover have "ext_encode_block sx sample_block = [0]" "ext_decode_block sx [0] = Inr sample_block"
    by (simp_all add: sample_externals_def)
  moreover note raw h sample_block_admitted [of sample_block sample_tx]
  ultimately have "\<exists>announce request reply n'. announce = gossip_frame (AdvertiseBlock 1)
    \<and> handle_frame (node_handler sx) 0 announce ?n = ([request], [], ?n) \<and> handle_frame (node_handler sx) 0 request ?a = ([reply], [], ?a)
    \<and> handle_frame (node_handler sx) 0 reply ?n = ([], [AdvertiseBlock 1], n') \<and> handler_head n' = 1
    \<and> get_block_by_num (nd_world n') 1 = Some sample_block
    \<and> (\<forall>f\<in>{announce, request, reply}. read_frame (write_frame f @ []) = Inr (f, []))"
    by (intro gossip_delivers_block [of ?a 1 sample_block raw ?n sx 0 0 0]) (simp_all add: i64_max_def MAX_MESSAGE_SIZE_def)
  then show ?thesis by blast
qed

text \<open>A block that is not the next one is dropped: a node that missed one ignores every later announcement.\<close>

lemma gossip_gap_dropped:
  assumes "ext_decode_block x bs = Inr b" and "raw_header b = Some raw" and "hr_number raw \<noteq> i64_wrap (handler_head n + 1)"
  shows "on_block x bs n = (None, n)"
proof -
  obtain r s' where a: "apply_synced_blocks_gated x (nd_require_sig n) (if actives n = [] then None else Some (actives n)) 0 [bs] (nd_world n) = (r, s')"
    by fastforce
  from apply_one_block [OF a] assms have "(\<exists>e. r = Inl e) \<and> s' = nd_world n" by (auto simp: handler_head_def)
  with a show ?thesis by (auto simp: on_block_def Let_def)
qed

end
