(* ===== verification/Node_Sync.thy ===== *)
theory Node_Sync
  imports Service
begin

text \<open>
  The node around its services, \<open>node/src/lib.rs\<close>: the configuration, the peers and seeds read from it and the
  discovery id; and the sync round of \<open>node/src/sync.rs\<close>, which connects to a peer, fetches what it offers and
  applies it.  A connection is the bytes the peer sends; how it is opened is an argument.
\<close>

section \<open>Configuration\<close>

definition DEFAULT_P2P_PORT :: nat where "DEFAULT_P2P_PORT = 18888"
definition DEFAULT_HTTP_PORT :: nat where "DEFAULT_HTTP_PORT = 8090"
definition DEFAULT_GRPC_PORT :: nat where "DEFAULT_GRPC_PORT = 50051"

record config =
  cfg_network :: string
  cfg_data_dir :: string
  cfg_p2p_port :: nat
  cfg_http_port :: nat
  cfg_grpc_port :: nat
  cfg_seed_nodes :: "string list"
  cfg_witness :: bool
  cfg_witness_key :: "string option"

definition config_default :: config where
  "config_default = \<lparr>cfg_network = ''nile'', cfg_data_dir = ''./data'', cfg_p2p_port = DEFAULT_P2P_PORT,
     cfg_http_port = DEFAULT_HTTP_PORT, cfg_grpc_port = DEFAULT_GRPC_PORT, cfg_seed_nodes = [], cfg_witness = False,
     cfg_witness_key = None\<rparr>"

text \<open>\<open>rsplit_once\<close> splits at the last occurrence; \<open>parse::<u16>\<close> takes an optional plus sign and digits.\<close>

fun split_once :: "char \<Rightarrow> string \<Rightarrow> (string \<times> string) option" where
  "split_once c [] = None"
| "split_once c (d # ds) = (if c = d then Some ([], ds) else map_option (\<lambda>(a, b). (d # a, b)) (split_once c ds))"

definition rsplit_once :: "char \<Rightarrow> string \<Rightarrow> (string \<times> string) option" where
  "rsplit_once c s = map_option (\<lambda>(a, b). (rev b, rev a)) (split_once c (rev s))"

definition parse_u16 :: "string \<Rightarrow> nat option" where
  "parse_u16 s =
     Option.bind (parse_digits (case s of c # cs \<Rightarrow> if c = CHR ''+'' then cs else s | [] \<Rightarrow> []))
       (\<lambda>n. if n < 2 ^ 16 then Some n else None)"

definition seed_addr :: "string \<Rightarrow> peer_addr option" where
  "seed_addr node =
     Option.bind (rsplit_once (CHR '':'') node) (\<lambda>(host, port).
     map_option (\<lambda>p. \<lparr>pa_host = host, pa_port = p\<rparr>) (parse_u16 port))"

definition seeded_peers :: "config \<Rightarrow> peer_manager" where
  "seeded_peers c =
     fold (\<lambda>(i, node) pm. case seed_addr node of Some a \<Rightarrow> upsert a (-1) i pm | None \<Rightarrow> pm)
       (enumerate 0 (cfg_seed_nodes c)) peer_manager_new"

text \<open>A dotted IPv4 address: four decimal numbers up to 255 without leading zeros.\<close>

definition parse_octet :: "string \<Rightarrow> byte option" where
  "parse_octet s =
     (if 3 < length s \<or> (1 < length s \<and> hd s = CHR ''0'') then None
      else Option.bind (parse_digits s) (\<lambda>n. if n < 256 then Some (of_nat n) else None))"

definition parse_ipv4 :: "string \<Rightarrow> (byte \<times> byte \<times> byte \<times> byte) option" where
  "parse_ipv4 s =
     Option.bind (split_once (CHR ''.'') s) (\<lambda>(a, s).
     Option.bind (split_once (CHR ''.'') s) (\<lambda>(b, s).
     Option.bind (split_once (CHR ''.'') s) (\<lambda>(c, d).
     Option.bind (parse_octet a) (\<lambda>a.
     Option.bind (parse_octet b) (\<lambda>b.
     Option.bind (parse_octet c) (\<lambda>c.
     map_option (\<lambda>d. (a, b, c, d)) (parse_octet d)))))))"

definition discovery_seeds :: "string list \<Rightarrow> endpoint list" where
  "discovery_seeds seed_nodes =
     List.map_filter (\<lambda>node.
       Option.bind (rsplit_once (CHR '':'') node) (\<lambda>(host, port).
       Option.bind (parse_ipv4 host) (\<lambda>ip.
       map_option (\<lambda>p. \<lparr>ep_ip = ip, ep_udp_port = p, ep_tcp_port = p\<rparr>) (parse_u16 port)))) seed_nodes"

text \<open>The discovery id: four rounds of splitmix64 from the time and the port.\<close>

definition splitmix64 :: "64 word \<Rightarrow> 64 word" where
  "splitmix64 s =
     (let z = (s XOR drop_bit 30 s) * 0xbf58476d1ce4e5b9;
          z = (z XOR drop_bit 27 z) * 0x94d049bb133111eb
      in z XOR drop_bit 31 z)"

definition ephemeral_node_id :: "64 word \<Rightarrow> nat \<Rightarrow> bytes" where
  "ephemeral_node_id nanos port =
     (let s0 = nanos XOR push_bit 48 (of_nat port) XOR 0x9e3779b97f4a7c15;
          step = (\<lambda>k. splitmix64 (s0 + of_nat k * 0x9e3779b97f4a7c15))
      in concat (map (\<lambda>k. be_bytes 8 (unat (step k))) [1, 2, 3, 4]))"

text \<open>The key a witness node signs with: the configured hex string, decoded and read as a secret key.\<close>

definition witness_secret_key :: "(string \<Rightarrow> string + bytes) \<Rightarrow> (bytes \<Rightarrow> 'k option) \<Rightarrow> config \<Rightarrow> 'k option" where
  "witness_secret_key hex_decode key_from_slice c =
     Option.bind (cfg_witness_key c) (\<lambda>h.
     case hex_decode (trim_0x h) of Inl _ \<Rightarrow> None | Inr bs \<Rightarrow> key_from_slice bs)"

definition active_witness_key :: "(string \<Rightarrow> string + bytes) \<Rightarrow> (bytes \<Rightarrow> 'k option) \<Rightarrow> config \<Rightarrow> 'k option" where
  "active_witness_key hex_decode key_from_slice c =
     (if cfg_witness c then witness_secret_key hex_decode key_from_slice c else None)"

definition node_start :: "('k, 'p) externals \<Rightarrow> (string \<Rightarrow> string + bytes) \<Rightarrow> (bytes \<Rightarrow> 'k option) \<Rightarrow> config \<Rightarrow> world_state \<Rightarrow> 'k node" where
  "node_start x hex_decode key_from_slice c s =
     set_commit_handle (with_witness x (active_witness_key hex_decode key_from_slice c) (node_new s mempool_default True))"

section \<open>A sync round\<close>

definition sync_from_best_peer ::
  "('k, 'p) externals \<Rightarrow> (channel_error \<Rightarrow> string) \<Rightarrow> (string \<Rightarrow> string + bytes) \<Rightarrow> peer_manager \<Rightarrow> bool \<Rightarrow> world_state
    \<Rightarrow> (sync_error + nat) \<times> world_state" where
  "sync_from_best_peer x debug connect peers require_sig s =
     (let our_head = get_prop_i64 s LATEST_BLOCK_NUMBER in
      case best_sync_target our_head peers of
        None \<Rightarrow> (Inr 0, s)
      | Some target \<Rightarrow>
          let addr = peer_key (pi_addr target) in
          (case connect addr of
             Inl e \<Rightarrow> (Inl (SyncState (''connect '' @ addr @ '': '' @ e)), s)
           | Inr stream \<Rightarrow>
               (case snd (sync_from our_head stream) of
                  Inl e \<Rightarrow> (Inl (SyncState (''sync '' @ addr @ '': '' @ debug e)), s)
                | Inr fetched \<Rightarrow> apply_fetched x require_sig (map snd fetched) s)))"

text \<open>One tick of the sync service, on the peers of the configuration.\<close>

definition sync_tick ::
  "('k, 'p) externals \<Rightarrow> (channel_error \<Rightarrow> string) \<Rightarrow> (string \<Rightarrow> string + bytes) \<Rightarrow> config \<Rightarrow> world_state \<Rightarrow> world_state" where
  "sync_tick x debug connect c s = snd (sync_from_best_peer x debug connect (seeded_peers c) False s)"

section \<open>A sync round brings the peer's chain\<close>

lemma fold_max:
  fixes key :: "'a \<Rightarrow> int"
  assumes f: "\<And>q b. f q b = q \<or> f q b = b" "\<And>q b. key q \<le> key (f q b)" "\<And>q b. key b \<le> key (f q b)"
  shows "fold f ps p \<in> insert p (set ps)" and "q \<in> insert p (set ps) \<Longrightarrow> key q \<le> key (fold f ps p)"
proof -
  show "fold f ps p \<in> insert p (set ps)"
  proof (induction ps arbitrary: p)
    case (Cons a ps)
    from Cons [of "f a p"] f(1) [of a p] show ?case by auto
  qed simp
  have base: "key p \<le> key (fold f ps p)" for ps p
  proof (induction ps arbitrary: p)
    case (Cons a ps)
    from Cons [of "f a p"] f(3) [of p a] show ?case by simp
  qed simp
  show "key q \<le> key (fold f ps p)" if "q \<in> insert p (set ps)"
    using that
  proof (induction ps arbitrary: p)
    case (Cons a ps)
    then consider "q = p" | "q = a" | "q \<in> set ps" by auto
    then show ?case
    proof cases
      case 1
      then show ?thesis by (simp add: base del: fold.simps)
    next
      case 2
      then show ?thesis using f(2) [of a p] base [of "f a p" ps] by simp
    next
      case 3
      then show ?thesis using Cons.IH [of "f a p"] by simp
    qed
  qed simp
qed

text \<open>A sync target is ahead of us and no known peer is further ahead.\<close>

lemma best_sync_target_max:
  "best_sync_target h pm = Some p \<Longrightarrow> p \<in> snd ` set pm \<and> h < pi_head p \<and> (\<forall>q\<in>snd ` set pm. pi_head q \<le> pi_head p)"
proof -
  assume "best_sync_target h pm = Some p"
  then obtain q qs where q: "filter (\<lambda>p. h < pi_head p) (map snd pm) = q # qs"
    and p: "p = fold (\<lambda>q best. if pi_head best \<le> pi_head q then q else best) qs q"
    by (auto simp: best_sync_target_def max_by_head_def split: list.splits)
  have s: "insert q (set qs) = {p \<in> snd ` set pm. h < pi_head p}" using arg_cong [OF q, of set] by auto
  have "p \<in> insert q (set qs)" unfolding p by (rule fold_max(1) [where key = pi_head]) auto
  moreover have "\<forall>r\<in>insert q (set qs). pi_head r \<le> pi_head p" unfolding p by (intro ballI fold_max(2)) auto
  ultimately have m: "p \<in> snd ` set pm" "h < pi_head p" and le: "\<And>r. r \<in> snd ` set pm \<Longrightarrow> h < pi_head r \<Longrightarrow> pi_head r \<le> pi_head p"
    unfolding s by auto
  have "pi_head r \<le> pi_head p" if "r \<in> snd ` set pm" for r
    using le [OF that] m(2) by (cases "h < pi_head r") auto
  with m show ?thesis by blast
qed

lemma best_sync_target_None: "best_sync_target h pm = None \<longleftrightarrow> (\<forall>q\<in>snd ` set pm. pi_head q \<le> h)"
proof -
  have "best_sync_target h pm = None \<longleftrightarrow> filter (\<lambda>p. h < pi_head p) (map snd pm) = []"
    by (auto simp: best_sync_target_def max_by_head_def split: list.split)
  then show ?thesis by (auto simp: filter_empty_conv not_less)
qed

lemma extends_applies:
  assumes "extends x active s bs t" and "0 \<le> get_prop_i64 s LATEST_BLOCK_NUMBER" "get_prop_i64 t LATEST_BLOCK_NUMBER \<le> i64_max"
    and "\<forall>b\<in>set bs. ext_decode_block x (enc b) = Inr b"
  shows "apply_synced_blocks_gated x sig (Some active) k (map enc bs) s = (Inr (k + length bs), t)"
  using assms
proof (induction arbitrary: k rule: extends.induct)
  case (extends_block b raw s bs s')
  have nx: "get_prop_i64 (put_block x b s) LATEST_BLOCK_NUMBER = get_prop_i64 s LATEST_BLOCK_NUMBER + 1"
    using put_block_next(1) [OF extends_block(2), where x = x and s = s] extends_block(3) by simp
  have "get_prop_i64 s LATEST_BLOCK_NUMBER + 1 \<le> i64_max"
    using extends_head [OF extends_block(4)] nx extends_block.prems(2) by simp
  then have "i64_wrap (get_prop_i64 s LATEST_BLOCK_NUMBER + 1) = get_prop_i64 s LATEST_BLOCK_NUMBER + 1"
    using extends_block.prems(1) by (simp add: i64_bounds_defs)
  with extends_block nx show ?case by (simp add: Let_def)
qed simp

text \<open>What a server that holds the chain \<open>t\<close> offers.\<close>

definition served_numbers :: "world_state \<Rightarrow> i64 list" where
  "served_numbers t = [1..get_prop_i64 t LATEST_BLOCK_NUMBER]"

definition served_bytes :: "('k, 'p) externals \<Rightarrow> world_state \<Rightarrow> i64 \<Rightarrow> bytes option" where
  "served_bytes x t n = map_option (ext_encode_block x) (get_block_by_num t n)"

lemma served_above:
  assumes e: "extends x active s bs t" and h: "0 \<le> get_prop_i64 s LATEST_BLOCK_NUMBER"
  defines "ns \<equiv> filter (\<lambda>n. get_prop_i64 s LATEST_BLOCK_NUMBER < n) (served_numbers t)"
  shows "length ns = length bs"
    and "map (\<lambda>n. case served_bytes x t n of Some b \<Rightarrow> b | None \<Rightarrow> []) ns = map (ext_encode_block x) bs"
proof -
  let ?h = "get_prop_i64 s LATEST_BLOCK_NUMBER"
  note eh = extends_head [OF e]
  have "filter (\<lambda>n. h < n) [1..h + int k] = [h + 1..h + int k]" if "0 \<le> h" for h :: int and k
  proof -
    have "[1..h + int k] = [1..h] @ [h + 1..h + int k]" using that upto_split2 [of 1 h "h + int k"] by (cases "h = 0") simp_all
    then show ?thesis by (simp add: filter_empty_conv filter_id_conv)
  qed
  then have ns: "ns = [?h + 1..?h + int (length bs)]" using eh h by (simp add: ns_def served_numbers_def)
  then show l: "length ns = length bs" by simp
  show "map (\<lambda>n. case served_bytes x t n of Some b \<Rightarrow> b | None \<Rightarrow> []) ns = map (ext_encode_block x) bs"
  proof (rule nth_equalityI)
    fix i
    assume "i < length (map (\<lambda>n. case served_bytes x t n of Some b \<Rightarrow> b | None \<Rightarrow> []) ns)"
    then have i: "i < length bs" using l by simp
    then have "ns ! i = ?h + 1 + int i" unfolding ns by (subst nth_upto) auto
    with i eh l show "map (\<lambda>n. case served_bytes x t n of Some b \<Rightarrow> b | None \<Rightarrow> []) ns ! i = map (ext_encode_block x) bs ! i"
      by (simp add: served_bytes_def)
  qed (simp add: l)
qed

text \<open>
  C33: A sync round brings the peer's chain.  Let a peer hold a chain that extends ours by blocks which each pass the
  intake gate for our active witnesses, and let it be the best target.  The two ends of the connection then agree
  byte for byte, the round applies all of these blocks, and our state becomes exactly the peer's extension.
\<close>

theorem sync_converges:
  assumes e: "extends x (get_active_witnesses s) s bs t" and act: "get_active_witnesses s \<noteq> []"
    and h: "0 \<le> get_prop_i64 s LATEST_BLOCK_NUMBER" "get_prop_i64 t LATEST_BLOCK_NUMBER \<le> i64_max"
    and codec: "\<forall>b\<in>set bs. ext_decode_block x (ext_encode_block x b) = Inr b \<and> length (ext_encode_block x b) \<le> MAX_MESSAGE_SIZE"
    and size: "8 * length bs \<le> MAX_MESSAGE_SIZE"
    and target: "best_sync_target (get_prop_i64 s LATEST_BLOCK_NUMBER) peers = Some p"
    and ns: "ns = filter (\<lambda>n. get_prop_i64 s LATEST_BLOCK_NUMBER < n) (served_numbers t)"
    and conn: "connect (peer_key (pi_addr p)) = Inr (sync_down (served_bytes x t) ns)"
  shows "sync_from_best_peer x debug connect peers sig s = (Inr (length bs), t)
    \<and> serve_sync (served_numbers t) (served_bytes x t) (fst (sync_from (get_prop_i64 s LATEST_BLOCK_NUMBER) (sync_down (served_bytes x t) ns)))
      = (sync_down (served_bytes x t) ns, Inr (length bs))"
proof -
  let ?h = "get_prop_i64 s LATEST_BLOCK_NUMBER" and ?g = "\<lambda>n. case served_bytes x t n of Some b \<Rightarrow> b | None \<Rightarrow> []"
  note sa = served_above [OF e h(1), folded ns]
  have "?h \<le> get_prop_i64 t LATEST_BLOCK_NUMBER" using extends_head [OF e] by simp
  then have i: "in_i64 ?h" "\<forall>n\<in>set (served_numbers t). in_i64 n" using h by (auto simp: served_numbers_def i64_bounds_defs)
  have "\<forall>n\<in>set ns. length (?g n) \<le> MAX_MESSAGE_SIZE"
  proof
    fix n
    assume "n \<in> set ns"
    then have "?g n \<in> set (map ?g ns)" by simp
    then show "length (?g n) \<le> MAX_MESSAGE_SIZE" unfolding sa(2) using codec by auto
  qed
  note ss = sync_session [OF i ns _ this] and size' = size [folded sa(1)]
  have f: "sync_from ?h (sync_down (served_bytes x t) ns) = (sync_up ?h ns, Inr (map (\<lambda>n. (n, ?g n)) ns))" by (rule ss(1) [OF size'])
  have "map snd (map (\<lambda>n. (n, ?g n)) ns) = map (ext_encode_block x) bs" using sa(2) by (simp add: comp_def)
  then have "apply_fetched x sig (map snd (map (\<lambda>n. (n, ?g n)) ns)) s = (Inr (length bs), t)"
    using act extends_applies [OF e h, of "ext_encode_block x" sig 0] codec by (simp add: apply_fetched_def)
  then have "sync_from_best_peer x debug connect peers sig s = (Inr (length bs), t)"
    by (simp add: sync_from_best_peer_def target conn f)
  with ss(2) [OF size'] f sa(1) show ?thesis by simp
qed

theorem sync_converges_witness:
  "sync_from_best_peer sx (\<lambda>_. []) (\<lambda>_. Inr (sync_down (served_bytes sx (put_block sx sample_block sample_chain)) [1]))
     (upsert \<lparr>pa_host = ''10.0.0.1'', pa_port = 18888\<rparr> 1 0 peer_manager_new) False sample_chain
   = (Inr 1, put_block sx sample_block sample_chain)"
proof -
  let ?t = "put_block sx sample_block sample_chain"
  obtain raw where raw: "raw_header sample_block = Some raw" "hr_number raw = 1" by (simp add: raw_header_def sample_block_def)
  have h: "get_prop_i64 sample_chain LATEST_BLOCK_NUMBER = 0" by (simp add: sample_chain_def get_prop_i64_def ws_empty_def)
  have a: "get_active_witnesses sample_chain = [0x41 # replicate 20 7]" by (simp add: sample_chain_def get_active_witnesses_def)
  have ht: "get_prop_i64 ?t LATEST_BLOCK_NUMBER = 1"
    using put_block_next(1) [OF raw(1), where x = sx and s = sample_chain] raw(2) h by simp
  have "extends sx (get_active_witnesses sample_chain) sample_chain [sample_block] ?t"
    using raw h sample_block_admitted unfolding a by (intro extends.intros) simp_all
  moreover have "ext_encode_block sx sample_block = [0]" "ext_decode_block sx [0] = Inr sample_block"
    by (simp_all add: sample_externals_def)
  moreover have "served_numbers ?t = [1]" using ht by (simp add: served_numbers_def)
  ultimately show ?thesis
    using sync_converges [of sx sample_chain "[sample_block]" ?t
        "upsert \<lparr>pa_host = ''10.0.0.1'', pa_port = 18888\<rparr> 1 0 peer_manager_new"
        "\<lparr>pi_addr = \<lparr>pa_host = ''10.0.0.1'', pa_port = 18888\<rparr>, pi_head = 1, pi_last_seen = 0\<rparr>" "[1]"
        "\<lambda>_. Inr (sync_down (served_bytes sx ?t) [1])" "\<lambda>_. []" False] h ht a
    by (simp add: i64_max_def MAX_MESSAGE_SIZE_def upsert_def peer_manager_new_def best_sync_target_def max_by_head_def)
qed

section \<open>The sync service of a running node\<close>

lemma update_values: "snd ` set (AList.update k v al) \<subseteq> insert v (snd ` set al)"
  by (induction al) auto

lemma seeded_peers_heads: "\<forall>p\<in>snd ` set (seeded_peers c). pi_head p = -1"
proof -
  have "\<forall>p\<in>snd ` set pm. pi_head p = -1 \<Longrightarrow>
    \<forall>p\<in>snd ` set (fold (\<lambda>(i, node) pm. case seed_addr node of Some a \<Rightarrow> upsert a (-1) i pm | None \<Rightarrow> pm) xs pm). pi_head p = -1" for xs pm
  proof (induction xs arbitrary: pm)
    case (Cons e xs)
    obtain i node where e: "e = (i, node)" by fastforce
    show ?case
    proof (cases "seed_addr node")
      case (Some a)
      have "\<forall>p\<in>snd ` set (upsert a (-1) i pm). pi_head p = -1"
        using Cons.prems update_values [of "peer_key a" "\<lparr>pi_addr = a, pi_head = -1, pi_last_seen = i\<rparr>" pm]
        unfolding upsert_def by (auto dest!: subsetD)
      from Cons.IH [OF this] show ?thesis by (simp add: e Some)
    qed (use Cons e in simp)
  qed simp
  from this [of peer_manager_new] show ?thesis unfolding seeded_peers_def by (simp add: peer_manager_new_def)
qed

lemma sync_from_hello: "\<exists>rest. fst (sync_from h stream) = write_frame (mk_frame SyncBlockChain (encode_numbers [h])) @ rest"
  by (auto simp: sync_from_def Let_def split: sum.splits prod.splits)

text \<open>
  C34: The sync service never syncs.  The peers it is given are the seeds, whose head is recorded as unknown and
  never updated, so no seed ever counts as ahead and every tick leaves the state alone.  A node could not answer
  anyway: its channel service expects a hello and refuses the first frame of a sync client without a reply, and the
  client then fails at the end of the stream.
\<close>

theorem sync_service_idle:
  assumes "0 \<le> get_prop_i64 s LATEST_BLOCK_NUMBER"
  shows "sync_from_best_peer x debug connect (seeded_peers c) sig s = (Inr 0, s) \<and> sync_tick x debug connect c s = s
    \<and> accept_handshake hello (fst (sync_from h stream)) = (Inl (ChannelFrame (UnknownType 0x08)), [])
    \<and> snd (sync_from h []) = Inl UnexpectedEof"
proof (intro conjI)
  have "best_sync_target (get_prop_i64 s LATEST_BLOCK_NUMBER) (seeded_peers c) = None"
    unfolding best_sync_target_None using seeded_peers_heads [of c] assms by auto
  then show "sync_from_best_peer x debug connect (seeded_peers c) sig s = (Inr 0, s)" "sync_tick x debug connect c s = s"
    by (simp_all add: sync_tick_def sync_from_best_peer_def)
  obtain rest where "fst (sync_from h stream) = write_frame (mk_frame SyncBlockChain (encode_numbers [h])) @ rest"
    using sync_from_hello by blast
  then show "accept_handshake hello (fst (sync_from h stream)) = (Inl (ChannelFrame (UnknownType 0x08)), [])"
    by (simp add: accept_handshake_def MAX_MESSAGE_SIZE_def)
  have "read_frame [] = Inl UnexpectedEof" by (simp add: read_frame_def read_exact_def)
  then show "snd (sync_from h []) = Inl UnexpectedEof" by (simp add: sync_from_def)
qed

theorem sync_service_idle_witness:
  "sync_tick sx (\<lambda>_. []) (\<lambda>_. Inr []) (config_default\<lparr>cfg_seed_nodes := [''10.0.0.1:18888'']\<rparr>) sample_chain = sample_chain
   \<and> addr_list (seeded_peers (config_default\<lparr>cfg_seed_nodes := [''10.0.0.1:18888'']\<rparr>)) = [\<lparr>pa_host = ''10.0.0.1'', pa_port = 18888\<rparr>]"
proof -
  have "0 \<le> get_prop_i64 sample_chain LATEST_BLOCK_NUMBER" by (simp add: sample_chain_def get_prop_i64_def ws_empty_def)
  moreover have "addr_list (seeded_peers (config_default\<lparr>cfg_seed_nodes := [''10.0.0.1:18888'']\<rparr>)) = [\<lparr>pa_host = ''10.0.0.1'', pa_port = 18888\<rparr>]"
    by (simp add: addr_list_def seeded_peers_def seed_addr_def rsplit_once_def parse_u16_def parse_digits_def char_digit_def
        upsert_def peer_manager_new_def)
  ultimately show ?thesis using sync_service_idle [of sample_chain sx "\<lambda>_. []" "\<lambda>_. Inr []"] by blast
qed

end
