(* ===== verification/Rpc.thy ===== *)
theory Rpc
  imports Market Pbft Discovery
begin

text \<open>
  The HTTP interface: every handler of \<open>rpc/src/http/\<close> (the prefix \<open>http_\<close>) and the routes of \<open>rpc/src/server.rs\<close> that do
  more than call one (the prefix \<open>route_\<close>).  A handler is a function from the state and the JSON of the request to the JSON
  of the response; \<open>broadcasthex\<close> alone also changes something, the pool.  The socket server, which parses the body,
  finds the handler and renders the response, is left out.  The hex and Base58Check codecs and the protobuf decoder
  are parameters.  \<open>http_pages_cover\<close>: the pages of a listing, put together, are the listing.
\<close>

section \<open>JSON\<close>

text \<open>
  The values of \<open>serde_json\<close>: an integer number is \<open>JNum\<close>, any other number is kept as its text.  An object is the list
  of its members.
\<close>

datatype json = JNull | JBool bool | JNum int | JFloat string | JStr string | JArr "json list" | JObj "(string \<times> json) list"

definition json_get :: "json \<Rightarrow> string \<Rightarrow> json option" where
  "json_get j key = (case j of JObj kvs \<Rightarrow> map_of kvs key | _ \<Rightarrow> None)"

definition as_str :: "json \<Rightarrow> string option" where
  "as_str j = (case j of JStr s \<Rightarrow> Some s | _ \<Rightarrow> None)"

definition as_int :: "json \<Rightarrow> i64 option" where
  "as_int j = (case j of JNum n \<Rightarrow> if in_i64 n then Some n else None | _ \<Rightarrow> None)"

definition as_bool :: "json \<Rightarrow> bool option" where
  "as_bool j = (case j of JBool b \<Rightarrow> Some b | _ \<Rightarrow> None)"

definition str_field :: "json \<Rightarrow> string \<Rightarrow> string option" where
  "str_field req key = Option.bind (json_get req key) as_str"

definition int_field :: "json \<Rightarrow> string \<Rightarrow> i64 option" where
  "int_field req key = Option.bind (json_get req key) as_int"

definition int_field_or :: "json \<Rightarrow> string \<Rightarrow> i64 \<Rightarrow> i64" where
  "int_field_or req key d = (case int_field req key of Some n \<Rightarrow> n | None \<Rightarrow> d)"

definition visible_flag :: "json \<Rightarrow> bool" where
  "visible_flag req = (case Option.bind (json_get req ''visible'') as_bool of Some b \<Rightarrow> b | None \<Rightarrow> False)"

definition opt_json :: "string option \<Rightarrow> json" where
  "opt_json s = (case s of Some t \<Rightarrow> JStr t | None \<Rightarrow> JNull)"

section \<open>Shared helpers\<close>

record rpc_text =
  rt_hex_decode :: "string \<Rightarrow> string + bytes"
  rt_b58_encode :: "bytes \<Rightarrow> string"
  rt_b58_decode :: "string \<Rightarrow> string + bytes"
  rt_version :: string

definition error_json :: "string \<Rightarrow> json" where
  "error_json msg = JObj [(''Error'', JStr msg)]"

definition parse_req_address :: "rpc_text \<Rightarrow> string \<Rightarrow> address option" where
  "parse_req_address t s =
     (case from_hex (rt_hex_decode t) s of
        Inr a \<Rightarrow> Some a
      | Inl _ \<Rightarrow> (case from_base58check (rt_b58_decode t) s of Inr a \<Rightarrow> Some a | Inl _ \<Rightarrow> None))"

definition show_address :: "('k, 'p) externals \<Rightarrow> rpc_text \<Rightarrow> bool \<Rightarrow> address \<Rightarrow> string" where
  "show_address x t visible a = (if visible then to_base58check (rt_b58_encode t) a else to_hex (ext_hex_encode x) a)"

definition render_address :: "('k, 'p) externals \<Rightarrow> rpc_text \<Rightarrow> bytes \<Rightarrow> bool \<Rightarrow> string option" where
  "render_address x t addr visible =
     Option.bind (to_array ADDRESS_LEN addr) (\<lambda>arr.
     case from_bytes arr of Inl _ \<Rightarrow> None | Inr a \<Rightarrow> Some (show_address x t visible a))"

definition req_hex :: "rpc_text \<Rightarrow> string \<Rightarrow> bytes option" where
  "req_hex t s = (case rt_hex_decode t (trim_0x s) of Inr bs \<Rightarrow> Some bs | Inl _ \<Rightarrow> None)"

definition block_to_json :: "('k, 'p) externals \<Rightarrow> block \<Rightarrow> json" where
  "block_to_json x b =
     (case raw_header b of
        None \<Rightarrow> JObj []
      | Some raw \<Rightarrow>
          let hex = ext_hex_encode x;
              header = JObj [(''number'', JNum (hr_number raw)), (''timestamp'', JNum (hr_timestamp raw)),
                (''txTrieRoot'', JStr (hex (hr_tx_trie_root raw))), (''parentHash'', JStr (hex (hr_parent_hash raw))),
                (''witness_address'', JStr (hex (hr_witness_address raw))), (''version'', JNum (hr_version raw))];
              block_id = (case block_id_of x b of Some i \<Rightarrow> hex (h256_bytes i) | None \<Rightarrow> [])
          in JObj [(''blockID'', JStr block_id), (''block_header'', JObj [(''raw_data'', header)]),
               (''transactions_count'', JNum (int (length (bk_transactions b))))])"

section \<open>Blocks\<close>

definition block_or_empty :: "('k, 'p) externals \<Rightarrow> block option \<Rightarrow> json" where
  "block_or_empty x b = (case b of Some b \<Rightarrow> block_to_json x b | None \<Rightarrow> JObj [])"

definition http_get_now_block :: "('k, 'p) externals \<Rightarrow> world_state \<Rightarrow> json" where
  "http_get_now_block x s = block_or_empty x (get_now_block s)"

definition http_get_block_by_num :: "('k, 'p) externals \<Rightarrow> world_state \<Rightarrow> json \<Rightarrow> json" where
  "http_get_block_by_num x s req =
     (case int_field req ''num'' of
        None \<Rightarrow> error_json ''invalid num''
      | Some num \<Rightarrow> block_or_empty x (get_block_by_num s num))"

definition blocks_between :: "('k, 'p) externals \<Rightarrow> world_state \<Rightarrow> i64 \<Rightarrow> i64 \<Rightarrow> json" where
  "blocks_between x s lo hi =
     JObj [(''block'', JArr (map (block_to_json x) (List.map_filter (get_block_by_num s) [lo..hi])))]"

definition http_get_block_by_latest_num :: "('k, 'p) externals \<Rightarrow> world_state \<Rightarrow> json \<Rightarrow> json" where
  "http_get_block_by_latest_num x s req =
     (let n = max 0 (min 100 (int_field_or req ''num'' 0));
          head = get_prop_i64 s LATEST_BLOCK_NUMBER;
          start = max (i64_wrap (i64_wrap (head - n) + 1)) 0
      in blocks_between x s start head)"

definition http_get_block_by_id :: "('k, 'p) externals \<Rightarrow> rpc_text \<Rightarrow> world_state \<Rightarrow> json \<Rightarrow> json" where
  "http_get_block_by_id x t s req =
     (case Option.bind (str_field req ''value'') (req_hex t) of
        None \<Rightarrow> error_json ''invalid block id''
      | Some i \<Rightarrow> block_or_empty x (get_block_by_id s i))"

definition http_get_transaction_count_by_block_num :: "world_state \<Rightarrow> json \<Rightarrow> json" where
  "http_get_transaction_count_by_block_num s req =
     JObj [(''count'', JNum (case get_block_by_num s (int_field_or req ''num'' (-1)) of
        Some b \<Rightarrow> int (length (bk_transactions b)) | None \<Rightarrow> 0))]"

definition http_get_block_by_limit_next :: "('k, 'p) externals \<Rightarrow> world_state \<Rightarrow> json \<Rightarrow> json" where
  "http_get_block_by_limit_next x s req =
     (let start = int_field_or req ''startNum'' 0; end = int_field_or req ''endNum'' 0
      in if end \<le> start \<or> 100 < i64_wrap (end - start) then error_json ''request block num error''
         else blocks_between x s start (end - 1))"

section \<open>Chain parameters\<close>

definition http_validate_address :: "rpc_text \<Rightarrow> json \<Rightarrow> json" where
  "http_validate_address t req =
     (let addr_str = (case str_field req ''address'' of Some a \<Rightarrow> a | None \<Rightarrow> []);
          ok = (parse_req_address t addr_str \<noteq> None)
      in JObj [(''result'', JBool ok),
           (''message'', JStr (if ok then ''Base58check or Hex string format error'' else ''Invalid address''))])"

definition CHAIN_PARAM_KEYS :: "string list" where
  "CHAIN_PARAM_KEYS = [''getEnergyFee'', ''getCreateAccountFee'', ''getCreateNewAccountFeeInSystemContract'',
     ''getWitnessPayPerBlock'', ''getMaintenanceTimeInterval'']"

definition prop_for_param :: "string \<Rightarrow> string" where
  "prop_for_param key =
     (if key = ''getEnergyFee'' then ''ENERGY_FEE''
      else if key = ''getCreateAccountFee'' then ''CREATE_ACCOUNT_FEE''
      else if key = ''getCreateNewAccountFeeInSystemContract'' then ''CREATE_NEW_ACCOUNT_FEE_IN_SYSTEM_CONTRACT''
      else if key = ''getWitnessPayPerBlock'' then ''WITNESS_PAY_PER_BLOCK''
      else if key = ''getMaintenanceTimeInterval'' then ''MAINTENANCE_TIME_INTERVAL''
      else key)"

definition http_get_chain_parameters :: "world_state \<Rightarrow> json" where
  "http_get_chain_parameters s =
     JObj [(''chainParameter'', JArr (map (\<lambda>k.
        JObj [(''key'', JStr k), (''value'', JNum (get_prop_i64 s (prop_for_param k)))]) CHAIN_PARAM_KEYS))]"

definition http_get_burn_trx :: "world_state \<Rightarrow> json" where
  "http_get_burn_trx s = JObj [(''amount'', JNum (get_prop_i64 s ''BURN_TRX_AMOUNT''))]"

definition http_get_next_maintenance_time :: "world_state \<Rightarrow> json" where
  "http_get_next_maintenance_time s = JObj [(''num'', JNum (get_prop_i64 s ''NEXT_MAINTENANCE_TIME''))]"

definition http_total_transaction :: "world_state \<Rightarrow> json" where
  "http_total_transaction s = JObj [(''num'', JNum (get_prop_i64 s ''TOTAL_TRANSACTION''))]"

definition price_history :: "i64 \<Rightarrow> json" where
  "price_history p = JObj [(''prices'', JStr (''0:'' @ i64_to_string p))]"

definition http_get_energy_prices :: "world_state \<Rightarrow> json" where
  "http_get_energy_prices s = price_history (let p = get_prop_i64 s ''ENERGY_FEE'' in if 0 < p then p else 100)"

definition http_get_bandwidth_prices :: "world_state \<Rightarrow> json" where
  "http_get_bandwidth_prices s = price_history (let p = get_prop_i64 s ''TRANSACTION_FEE'' in if 0 < p then p else 1000)"

definition http_get_memo_fee :: "world_state \<Rightarrow> json" where
  "http_get_memo_fee s = price_history (get_prop_i64 s ''MEMO_FEE'')"

section \<open>Accounts\<close>

definition req_address :: "rpc_text \<Rightarrow> json \<Rightarrow> string \<Rightarrow> address option" where
  "req_address t req key = Option.bind (str_field req key) (parse_req_address t)"

definition owner_address :: "rpc_text \<Rightarrow> json \<Rightarrow> address option" where
  "owner_address t req =
     Option.bind (case json_get req ''owner_address'' of Some j \<Rightarrow> Some j | None \<Rightarrow> json_get req ''address'') (\<lambda>j.
     Option.bind (as_str j) (parse_req_address t))"

definition account_field :: "world_state \<Rightarrow> address option \<Rightarrow> (account \<Rightarrow> 'a) \<Rightarrow> 'a \<Rightarrow> 'a" where
  "account_field s a f d = (case Option.bind a (get_account s) of Some acc \<Rightarrow> f acc | None \<Rightarrow> d)"

definition http_get_account :: "('k, 'p) externals \<Rightarrow> rpc_text \<Rightarrow> world_state \<Rightarrow> json \<Rightarrow> json" where
  "http_get_account x t s req =
     (case req_address t req ''address'' of
        None \<Rightarrow> error_json ''invalid address''
      | Some a \<Rightarrow>
          (case get_account s a of
             None \<Rightarrow> JObj []
           | Some acc \<Rightarrow>
               JObj ([(''balance'', JNum (acc_balance acc)), (''create_time'', JNum (acc_create_time acc)), (''type'', JNum (acc_type acc))]
                 @ (case render_address x t (acc_address acc) (visible_flag req) of Some r \<Rightarrow> [(''address'', JStr r)] | None \<Rightarrow> [])
                 @ (if acc_name acc \<noteq> [] then [(''account_name'', JStr (ext_hex_encode x (acc_name acc)))] else []))))"

definition http_get_account_resource :: "rpc_text \<Rightarrow> world_state \<Rightarrow> json \<Rightarrow> json" where
  "http_get_account_resource t s req =
     (case req_address t req ''address'' of
        None \<Rightarrow> error_json ''invalid address''
      | Some a \<Rightarrow>
          (case get_account s a of
             None \<Rightarrow> JObj []
           | Some acc \<Rightarrow>
               let energy = i64_wrap (sum_list (map fz_amount (filter (\<lambda>f. fz_type f = 1) (acc_frozen_v2 acc))));
                   bandwidth = i64_wrap (sum_list (map fz_amount (filter (\<lambda>f. fz_type f \<noteq> 1) (acc_frozen_v2 acc))))
               in JObj [(''tronPowerLimit'', JNum (i64_wrap (bandwidth + energy) sdiv 1000000)), (''netLimit'', JNum bandwidth),
                    (''EnergyLimit'', JNum energy)]))"

definition http_get_reward :: "rpc_text \<Rightarrow> world_state \<Rightarrow> json \<Rightarrow> json" where
  "http_get_reward t s req = JObj [(''reward'', JNum (account_field s (req_address t req ''address'') acc_allowance 0))]"

definition http_get_brokerage :: "rpc_text \<Rightarrow> world_state \<Rightarrow> json \<Rightarrow> json" where
  "http_get_brokerage t s req =
     JObj [(''brokerage'', JNum (case req_address t req ''address'' of Some a \<Rightarrow> get_brokerage s a | None \<Rightarrow> DEFAULT_BROKERAGE))]"

definition http_get_available_unfreeze_count :: "rpc_text \<Rightarrow> world_state \<Rightarrow> json \<Rightarrow> json" where
  "http_get_available_unfreeze_count t s req =
     JObj [(''count'', JNum (int (32 - account_field s (owner_address t req) (length \<circ> acc_unfrozen_v2) 0)))]"

definition http_get_delegated_resource_v2 :: json where
  "http_get_delegated_resource_v2 = JObj [(''delegatedResource'', JArr [])]"

definition http_get_account_net :: "rpc_text \<Rightarrow> world_state \<Rightarrow> json \<Rightarrow> json" where
  "http_get_account_net t s req =
     JObj [(''freeNetLimit'', JNum 600),
       (''NetLimit'', JNum (account_field s (req_address t req ''address'')
          (\<lambda>acc. i64_wrap (sum_list (map fz_amount (filter (\<lambda>f. fz_type f = 0) (acc_frozen_v2 acc))))) 0)),
       (''NetUsed'', JNum 0)]"

definition http_get_can_withdraw_unfreeze_amount :: "rpc_text \<Rightarrow> world_state \<Rightarrow> json \<Rightarrow> json" where
  "http_get_can_withdraw_unfreeze_amount t s req =
     (let ts = int_field_or req ''timestamp'' 0
      in JObj [(''amount'', JNum (account_field s (owner_address t req)
           (\<lambda>acc. i64_wrap (sum_list (map uf_amount (filter (\<lambda>u. uf_expire_time u \<le> ts) (acc_unfrozen_v2 acc))))) 0))])"

text \<open>The cast \<open>as i32\<close> of the requested resource keeps its low 32 bits.\<close>

definition as_i32 :: "i64 \<Rightarrow> int" where
  "as_i32 n = (n + 2 ^ 31) mod 2 ^ 32 - 2 ^ 31"

definition http_get_can_delegated_max_size :: "rpc_text \<Rightarrow> world_state \<Rightarrow> json \<Rightarrow> json" where
  "http_get_can_delegated_max_size t s req =
     (let resource = as_i32 (int_field_or req ''type'' 0)
      in JObj [(''max_size'', JNum (account_field s (owner_address t req)
           (\<lambda>acc. i64_wrap (sum_list (map fz_amount (filter (\<lambda>f. fz_type f = resource) (acc_frozen_v2 acc))))) 0))])"

definition http_get_delegated_resource_account_index_v2 :: "('k, 'p) externals \<Rightarrow> rpc_text \<Rightarrow> json \<Rightarrow> json" where
  "http_get_delegated_resource_account_index_v2 x t req =
     JObj [(''account'', JStr (case req_address t req ''value'' of Some a \<Rightarrow> show_address x t (visible_flag req) a | None \<Rightarrow> [])),
       (''fromAccounts'', JArr []), (''toAccounts'', JArr []), (''timestamp'', JNum 0)]"

section \<open>Contracts and transactions\<close>

definition http_get_contract :: "('k, 'p) externals \<Rightarrow> rpc_text \<Rightarrow> world_state \<Rightarrow> json \<Rightarrow> json" where
  "http_get_contract x t s req =
     (case req_address t req ''value'' of
        None \<Rightarrow> error_json ''invalid address''
      | Some a \<Rightarrow>
          (let code = state_get_code s a
           in if code \<noteq> [] then JObj [(''contract_address'', JStr (to_hex (ext_hex_encode x) a)), (''bytecode'', JStr (ext_hex_encode x code))]
              else JObj []))"

definition http_get_transaction_by_id :: "rpc_text \<Rightarrow> world_state \<Rightarrow> json \<Rightarrow> json" where
  "http_get_transaction_by_id t s req =
     (case str_field req ''value'' of
        None \<Rightarrow> error_json ''invalid txid''
      | Some id_hex \<Rightarrow>
          (case req_hex t id_hex of
             None \<Rightarrow> error_json ''invalid txid''
           | Some i \<Rightarrow>
               (case get_transaction s i of
                  None \<Rightarrow> JObj []
                | Some tx \<Rightarrow>
                    let raw = tx_raw_data tx in
                    JObj [(''txID'', JStr id_hex),
                      (''raw_data'', JObj [(''ref_block_num'', JNum (case raw of Some r \<Rightarrow> tr_ref_block_num r | None \<Rightarrow> 0)),
                         (''timestamp'', JNum (case raw of Some r \<Rightarrow> tr_timestamp r | None \<Rightarrow> 0)),
                         (''contract_count'', JNum (case raw of Some r \<Rightarrow> int (length (tr_contract r)) | None \<Rightarrow> 0))]),
                      (''signature_count'', JNum (int (length (tx_signature tx))))])))"

definition broadcast_refused :: "string \<Rightarrow> json" where
  "broadcast_refused msg = JObj [(''result'', JBool False), (''message'', JStr msg)]"

definition http_broadcast_hex :: "('k, 'p) externals \<Rightarrow> rpc_text \<Rightarrow> json \<Rightarrow> json" where
  "http_broadcast_hex x t req =
     (case str_field req ''transaction'' of
        None \<Rightarrow> broadcast_refused ''missing transaction''
      | Some h \<Rightarrow>
          (case req_hex t h of
             None \<Rightarrow> broadcast_refused ''invalid hex''
           | Some bs \<Rightarrow>
               (case ext_decode_tx x bs of
                  Inl e \<Rightarrow> broadcast_refused (''decode error: '' @ e)
                | Inr tx \<Rightarrow>
                    if tx_raw_data tx = None then broadcast_refused ''SIGERROR: no raw_data''
                    else if tx_signature tx = [] then broadcast_refused ''SIGERROR: no signature''
                    else JObj [(''result'', JBool True), (''txid'', JStr (ext_hex_encode x (h256_bytes (tx_id x tx)))), (''message'', JStr [])])))"

section \<open>Governance\<close>

definition read_proposal :: "world_state \<Rightarrow> i64 \<Rightarrow> proposal option" where
  "read_proposal s i = ws_proposals s i"

definition read_exchange :: "world_state \<Rightarrow> i64 \<Rightarrow> exchange option" where
  "read_exchange s i = ws_exchanges s i"

definition proposal_to_json :: "('k, 'p) externals \<Rightarrow> rpc_text \<Rightarrow> bool \<Rightarrow> proposal \<Rightarrow> json" where
  "proposal_to_json x t visible p =
     JObj [(''proposal_id'', JNum (prop_id p)), (''proposer_address'', opt_json (render_address x t (prop_proposer p) visible)),
       (''parameters'', JArr (map (\<lambda>(k, v). JObj [(''key'', JNum k), (''value'', JNum v)]) (sort_key fst (prop_parameters p)))),
       (''expiration_time'', JNum (prop_expiration_time p)), (''create_time'', JNum (prop_create_time p)),
       (''approvals'', JArr (map JStr (List.map_filter (\<lambda>a. render_address x t a visible) (prop_approvals p)))),
       (''state'', JNum (prop_state p))]"

definition exchange_to_json :: "('k, 'p) externals \<Rightarrow> rpc_text \<Rightarrow> bool \<Rightarrow> exchange \<Rightarrow> json" where
  "exchange_to_json x t visible e =
     JObj [(''exchange_id'', JNum (ex_id e)), (''creator_address'', opt_json (render_address x t (ex_creator e) visible)),
       (''create_time'', JNum (ex_create_time e)),
       (''first_token_id'', JStr (from_utf8_lossy (ex_first_id e))), (''first_token_balance'', JNum (ex_first_balance e)),
       (''second_token_id'', JStr (from_utf8_lossy (ex_second_id e))), (''second_token_balance'', JNum (ex_second_balance e))]"

definition page_range :: "i64 \<Rightarrow> i64 \<Rightarrow> i64 \<Rightarrow> i64 list" where
  "page_range offset limit latest =
     [i64_wrap (max 0 offset + 1)..min (i64_wrap (max 0 offset + max 0 limit)) latest]"

definition http_get_proposal_by_id :: "('k, 'p) externals \<Rightarrow> rpc_text \<Rightarrow> world_state \<Rightarrow> json \<Rightarrow> json" where
  "http_get_proposal_by_id x t s req =
     (case int_field req ''id'' of
        None \<Rightarrow> error_json ''invalid id''
      | Some i \<Rightarrow> (case read_proposal s i of
            Some p \<Rightarrow> JObj [(''proposal'', proposal_to_json x t (visible_flag req) p)] | None \<Rightarrow> JObj []))"

definition http_list_proposals :: "('k, 'p) externals \<Rightarrow> rpc_text \<Rightarrow> world_state \<Rightarrow> json" where
  "http_list_proposals x t s =
     JObj [(''proposals'', JArr (map (proposal_to_json x t False)
        (List.map_filter (read_proposal s) [1..get_prop_i64 s LATEST_PROPOSAL_NUM])))]"

definition http_get_paginated_proposal_list :: "('k, 'p) externals \<Rightarrow> rpc_text \<Rightarrow> world_state \<Rightarrow> json \<Rightarrow> json" where
  "http_get_paginated_proposal_list x t s req =
     JObj [(''proposals'', JArr (map (proposal_to_json x t False)
        (List.map_filter (read_proposal s)
          (page_range (int_field_or req ''offset'' 0) (min (int_field_or req ''limit'' 0) 100) (get_prop_i64 s LATEST_PROPOSAL_NUM)))))]"

definition http_get_exchange_by_id :: "('k, 'p) externals \<Rightarrow> rpc_text \<Rightarrow> world_state \<Rightarrow> json \<Rightarrow> json" where
  "http_get_exchange_by_id x t s req =
     (case int_field req ''id'' of
        None \<Rightarrow> error_json ''invalid id''
      | Some i \<Rightarrow> (case read_exchange s i of Some e \<Rightarrow> exchange_to_json x t (visible_flag req) e | None \<Rightarrow> JObj []))"

definition http_list_exchanges :: "('k, 'p) externals \<Rightarrow> rpc_text \<Rightarrow> world_state \<Rightarrow> json" where
  "http_list_exchanges x t s =
     JObj [(''exchanges'', JArr (map (exchange_to_json x t False)
        (List.map_filter (read_exchange s) [1..get_prop_i64 s LATEST_EXCHANGE_NUM])))]"

definition http_get_paginated_exchange_list :: "('k, 'p) externals \<Rightarrow> rpc_text \<Rightarrow> world_state \<Rightarrow> json \<Rightarrow> json" where
  "http_get_paginated_exchange_list x t s req =
     JObj [(''exchanges'', JArr (map (exchange_to_json x t False)
        (List.map_filter (read_exchange s)
          (page_range (int_field_or req ''offset'' 0) (min (int_field_or req ''limit'' 0) 100) (get_prop_i64 s LATEST_EXCHANGE_NUM)))))]"

section \<open>Assets\<close>

definition asset_to_json :: "('k, 'p) externals \<Rightarrow> rpc_text \<Rightarrow> bool \<Rightarrow> asset_issue \<Rightarrow> json" where
  "asset_to_json x t visible a =
     JObj [(''id'', JStr (ai_id a)), (''owner_address'', opt_json (render_address x t (ai_owner_address a) visible)),
       (''name'', JStr (from_utf8_lossy (ai_name a))), (''abbr'', JStr (from_utf8_lossy (ai_abbr a))),
       (''total_supply'', JNum (ai_total_supply a)), (''trx_num'', JNum (ai_trx_num a)), (''num'', JNum (ai_num a)),
       (''precision'', JNum (ai_precision a)), (''start_time'', JNum (ai_start_time a)), (''end_time'', JNum (ai_end_time a)),
       (''description'', JStr (from_utf8_lossy (ai_description a))), (''url'', JStr (from_utf8_lossy (ai_url a)))]"

definition all_assets :: "world_state \<Rightarrow> asset_issue list" where
  "all_assets s = List.map_filter (get_asset_issue s) [TOKEN_ID_BASE + 1..get_token_id_num s]"

definition http_get_asset_issue_by_id :: "('k, 'p) externals \<Rightarrow> rpc_text \<Rightarrow> world_state \<Rightarrow> json \<Rightarrow> json" where
  "http_get_asset_issue_by_id x t s req =
     (case Option.bind (str_field req ''value'') parse_i64 of
        None \<Rightarrow> error_json ''invalid asset id''
      | Some i \<Rightarrow> (case get_asset_issue s i of Some a \<Rightarrow> asset_to_json x t (visible_flag req) a | None \<Rightarrow> JObj []))"

definition http_get_asset_issue_by_name :: "('k, 'p) externals \<Rightarrow> rpc_text \<Rightarrow> world_state \<Rightarrow> json \<Rightarrow> json" where
  "http_get_asset_issue_by_name x t s req =
     (case str_field req ''value'' of
        None \<Rightarrow> error_json ''invalid asset name''
      | Some nm \<Rightarrow>
          (case find (\<lambda>a. ai_name a = bytes_of_string nm) (all_assets s) of
             Some a \<Rightarrow> asset_to_json x t (visible_flag req) a
           | None \<Rightarrow> JObj []))"

definition http_get_asset_issue_list_by_name :: "('k, 'p) externals \<Rightarrow> rpc_text \<Rightarrow> world_state \<Rightarrow> json \<Rightarrow> json" where
  "http_get_asset_issue_list_by_name x t s req =
     (let nm = (case str_field req ''value'' of Some n \<Rightarrow> n | None \<Rightarrow> [])
      in JObj [(''assetIssue'', JArr (map (asset_to_json x t (visible_flag req))
           (filter (\<lambda>a. ai_name a = bytes_of_string nm) (all_assets s))))])"

definition http_get_asset_issue_list :: "('k, 'p) externals \<Rightarrow> rpc_text \<Rightarrow> world_state \<Rightarrow> json" where
  "http_get_asset_issue_list x t s = JObj [(''assetIssue'', JArr (map (asset_to_json x t False) (all_assets s)))]"

text \<open>
  The \<open>while\<close> loop visits the ids from \<open>start\<close> to \<open>stop\<close>.  Its index would wrap around only at a token counter of \<open>i64::MAX\<close>; the
  counter starts at \<open>TOKEN_ID_BASE\<close> and grows by one with every token.
\<close>

definition http_get_paginated_asset_issue_list :: "('k, 'p) externals \<Rightarrow> rpc_text \<Rightarrow> world_state \<Rightarrow> json \<Rightarrow> json" where
  "http_get_paginated_asset_issue_list x t s req =
     (let offset = max 0 (int_field_or req ''offset'' 0);
          limit = max 0 (min 100 (int_field_or req ''limit'' 0));
          start = i64_wrap (TOKEN_ID_BASE + 1 + offset);
          stop = min (i64_wrap (TOKEN_ID_BASE + offset + limit)) (get_token_id_num s)
      in JObj [(''assetIssue'', JArr (map (asset_to_json x t False) (List.map_filter (get_asset_issue s) [start..stop])))])"

section \<open>Market\<close>

definition read_order :: "world_state \<Rightarrow> bytes \<Rightarrow> market_order option" where
  "read_order s i = (if length i \<noteq> 32 then None else get_order s i)"

definition order_to_json :: "('k, 'p) externals \<Rightarrow> rpc_text \<Rightarrow> bool \<Rightarrow> market_order \<Rightarrow> json" where
  "order_to_json x t visible m =
     JObj [(''order_id'', JStr (ext_hex_encode x (mo_id m))), (''owner_address'', opt_json (render_address x t (mo_owner m) visible)),
       (''create_time'', JNum (mo_create_time m)),
       (''sell_token_id'', JStr (from_utf8_lossy (mo_sell_id m))), (''sell_token_quantity'', JNum (mo_sell m)),
       (''buy_token_id'', JStr (from_utf8_lossy (mo_buy_id m))), (''buy_token_quantity'', JNum (mo_buy m)),
       (''sell_token_quantity_remain'', JNum (mo_sell_remain m))]"

definition pair_from_req :: "json \<Rightarrow> bytes \<times> bytes" where
  "pair_from_req req =
     (bytes_of_string (case str_field req ''sell_token_id'' of Some i \<Rightarrow> i | None \<Rightarrow> []),
      bytes_of_string (case str_field req ''buy_token_id'' of Some i \<Rightarrow> i | None \<Rightarrow> []))"

definition http_get_market_order_by_id :: "('k, 'p) externals \<Rightarrow> rpc_text \<Rightarrow> world_state \<Rightarrow> json \<Rightarrow> json" where
  "http_get_market_order_by_id x t s req =
     (case Option.bind (str_field req ''value'') (req_hex t) of
        None \<Rightarrow> JObj []
      | Some i \<Rightarrow> (case read_order s i of Some m \<Rightarrow> order_to_json x t (visible_flag req) m | None \<Rightarrow> JObj []))"

definition http_get_market_price_by_pair :: "world_state \<Rightarrow> json \<Rightarrow> json" where
  "http_get_market_price_by_pair s req =
     (case pair_from_req req of (sell, buy) \<Rightarrow>
        JObj [(''sell_token_id'', JStr (from_utf8_lossy sell)), (''buy_token_id'', JStr (from_utf8_lossy buy)),
          (''prices'', JArr (map (\<lambda>(a, b). JObj [(''sell_token_quantity'', JNum a), (''buy_token_quantity'', JNum b)])
             (get_prices s (pair_key sell buy))))])"

definition book_orders :: "world_state \<Rightarrow> bytes \<Rightarrow> market_order list" where
  "book_orders s pair =
     concat (map (\<lambda>price. List.map_filter (read_order s) (get_order_ids s pair price)) (get_prices s pair))"

definition http_get_market_order_list_by_pair :: "('k, 'p) externals \<Rightarrow> rpc_text \<Rightarrow> world_state \<Rightarrow> json \<Rightarrow> json" where
  "http_get_market_order_list_by_pair x t s req =
     (case pair_from_req req of (sell, buy) \<Rightarrow>
        JObj [(''orders'', JArr (map (order_to_json x t (visible_flag req)) (book_orders s (pair_key sell buy))))])"

definition http_get_market_order_by_account :: "('k, 'p) externals \<Rightarrow> rpc_text \<Rightarrow> world_state \<Rightarrow> json \<Rightarrow> json" where
  "http_get_market_order_by_account x t s req =
     (case Option.bind (case json_get req ''value'' of Some j \<Rightarrow> Some j | None \<Rightarrow> json_get req ''address'') (\<lambda>j.
           Option.bind (as_str j) (parse_req_address t)) of
        None \<Rightarrow> JObj [(''orders'', JArr [])]
      | Some a \<Rightarrow>
          JObj [(''orders'', JArr (map (order_to_json x t (visible_flag req))
             (List.map_filter (read_order s) (get_account_orders s (as_bytes a)))))])"

definition pair_json :: "bytes \<Rightarrow> json option" where
  "pair_json pk =
     (if 0 \<in> set pk then
        let sell = takeWhile (\<lambda>b. b \<noteq> 0) pk; buy = drop (length sell + 1) pk in
        Some (JObj [(''sell_token_id'', JStr (from_utf8_lossy sell)), (''buy_token_id'', JStr (from_utf8_lossy buy))])
      else None)"

definition http_get_market_pair_list :: "world_state \<Rightarrow> json" where
  "http_get_market_pair_list s = JObj [(''orderPair'', JArr (List.map_filter pair_json (get_pairs s)))]"

section \<open>Node\<close>

definition http_get_node_info :: "rpc_text \<Rightarrow> string \<Rightarrow> nat \<Rightarrow> json" where
  "http_get_node_info t network p2p_port =
     JObj [(''configNodeInfo'', JObj [(''codeVersion'', JStr (rt_version t)), (''p2pVersion'', JStr network),
         (''listenPort'', JNum (int p2p_port))]),
       (''solidityBlock'', JStr []), (''activeConnectCount'', JNum 0)]"

definition http_list_nodes :: "(string \<times> nat) list \<Rightarrow> json" where
  "http_list_nodes nodes =
     JObj [(''nodes'', JArr (map (\<lambda>(host, port). JObj [(''address'', JObj [(''host'', JStr host), (''port'', JNum (int port))])]) nodes))]"

definition http_list_witnesses :: json where
  "http_list_witnesses = JObj [(''witnesses'', JArr [])]"

section \<open>The routes with more than a handler\<close>

definition tron_p2p_port :: nat where
  "tron_p2p_port = 18888"

definition route_get_node_info :: "rpc_text \<Rightarrow> json" where
  "route_get_node_info t = http_get_node_info t ''nile'' tron_p2p_port"

definition route_list_nodes :: "peer_manager \<Rightarrow> json" where
  "route_list_nodes pm = http_list_nodes (map (\<lambda>a. (pa_host a, pa_port a)) (addr_list pm))"

text \<open>
  \<open>broadcasthex\<close> pools a transaction the handler accepts through the admission pipeline; what admission answers is
  dropped.  \<open>now\<close> is the clock of the host.
\<close>

definition route_broadcast_hex ::
  "('k, 'p) externals \<Rightarrow> rpc_text \<Rightarrow> world_state \<Rightarrow> i64 \<Rightarrow> json \<Rightarrow> mempool \<Rightarrow> json \<times> mempool" where
  "route_broadcast_hex x t s now req p =
     (let result = http_broadcast_hex x t req in
      (result,
       if Option.bind (json_get result ''result'') as_bool = Some True then
         (case Option.bind (str_field req ''transaction'') (req_hex t) of
            Some bs \<Rightarrow>
              (case ext_decode_tx x bs of
                 Inr tx \<Rightarrow> snd (admit_transaction x (\<lambda>_ _. Inr ()) s now tx p)
               | Inl _ \<Rightarrow> p)
          | None \<Rightarrow> p)
       else p))"

section \<open>Listings and their pages\<close>

definition json_items :: "string \<Rightarrow> json \<Rightarrow> json list" where
  "json_items key j = (case json_get j key of Some (JArr js) \<Rightarrow> js | _ \<Rightarrow> [])"

definition page_req :: "i64 \<Rightarrow> i64 \<Rightarrow> json" where
  "page_req offset limit = JObj [(''offset'', JNum offset), (''limit'', JNum limit)]"

lemma json_items_single [simp]: "json_items key (JObj [(key, JArr js)]) = js"
  by (simp add: json_items_def json_get_def)

lemma page_req_fields:
  assumes "in_i64 offset" "in_i64 limit"
  shows "int_field_or (page_req offset limit) ''offset'' d = offset" "int_field_or (page_req offset limit) ''limit'' d = limit"
  using assms by (simp_all add: int_field_or_def int_field_def page_req_def json_get_def as_int_def)

lemma upto_chunks:
  fixes l b N :: int
  assumes "0 < l"
  shows "concat (map (\<lambda>k. [b + int k * l + 1..min (b + int k * l + l) N]) [0..<n]) = [b + 1..min (b + int n * l) N]"
proof (induction n)
  case (Suc n)
  let ?m = "b + int n * l"
  have nn: "b \<le> ?m" using assms by simp
  have "[b + 1..min ?m N] @ [?m + 1..min (?m + l) N] = [b + 1..min (?m + l) N]"
  proof (cases "?m \<le> N")
    case True
    show ?thesis
    proof (cases "?m = N")
      case False
      then have "[b + 1..min (?m + l) N] = [b + 1..?m] @ [?m + 1..min (?m + l) N]"
        using True nn assms upto_split1 [of "b + 1" "?m + 1" "min (?m + l) N"] by simp
      then show ?thesis using True by simp
    qed (use assms in simp)
  next
    case False
    then show ?thesis using assms by (simp add: min_def)
  qed
  moreover have "b + int (Suc n) * l = ?m + l" by (simp add: algebra_simps)
  ultimately show ?case using Suc.IH by (simp add: add.assoc)
qed simp

lemma concat_map_filter_pages:
  "concat (map (\<lambda>k. map f (List.map_filter g (h k))) ks) = map f (List.map_filter g (concat (map h ks)))"
  by (induction ks) (simp_all add: List.map_filter_def)

lemma in_i64_below: "0 \<le> y \<Longrightarrow> y \<le> z \<Longrightarrow> in_i64 z \<Longrightarrow> in_i64 y"
  by (simp add: in_i64_def i64_min_def)

lemma pages_cover:
  assumes l: "0 < l" and n: "N \<le> b + int n * l" and top: "in_i64 (b + int n * l)" "0 \<le> b"
    and page: "\<And>k. k < n \<Longrightarrow>
      items k = map f (List.map_filter g [i64_wrap (b + int k * l + 1)..min (i64_wrap (b + int k * l + l)) N])"
  shows "concat (map items [0..<n]) = map f (List.map_filter g [b + 1..N])"
proof -
  have "items k = map f (List.map_filter g [b + int k * l + 1..min (b + int k * l + l) N])" if "k < n" for k
  proof -
    have "int k * l + l \<le> int n * l"
      using mult_right_mono [of "int k + 1" "int n" l] that l by (simp add: algebra_simps)
    moreover have "0 \<le> int k * l" using l by simp
    ultimately have "0 \<le> b + int k * l + 1" "b + int k * l + 1 \<le> b + int n * l"
      "0 \<le> b + int k * l + l" "b + int k * l + l \<le> b + int n * l"
      using l top(2) by linarith+
    then have "in_i64 (b + int k * l + 1)" "in_i64 (b + int k * l + l)"
      using in_i64_below [OF _ _ top(1)] by blast+
    then show ?thesis using page [OF that] by simp
  qed
  then have "concat (map items [0..<n])
      = concat (map (\<lambda>k. map f (List.map_filter g [b + int k * l + 1..min (b + int k * l + l) N])) [0..<n])"
    by (intro arg_cong [where f = concat] map_cong) auto
  also have "\<dots> = map f (List.map_filter g [b + 1..min (b + int n * l) N])"
    by (simp only: concat_map_filter_pages upto_chunks [OF l])
  finally show ?thesis using n by simp
qed

lemma page_offset:
  assumes "0 < l" "l \<le> 100" "in_i64 (b + int n * l)" "0 \<le> b" "k < n"
  shows "in_i64 (int k * l)" "in_i64 l" "0 \<le> int k * l"
proof -
  have "int k * l \<le> int n * l" using assms by (intro mult_right_mono) auto
  then have le: "int k * l \<le> b + int n * l" using assms(4) by linarith
  show nn: "0 \<le> int k * l" using assms by simp
  show "in_i64 (int k * l)" by (rule in_i64_below [OF nn le assms(3)])
  show "in_i64 l" using assms by (simp add: in_i64_def i64_min_def i64_max_def)
qed

text \<open>
  C40: Paging through a listing loses and repeats nothing.  For proposals, exchanges and tokens, the pages at offsets 0,
  \<open>l\<close>, \<open>2 l\<close> and so on, put together until they pass the last id, are exactly the answer of the endpoint that lists
  everything, in the same order, as long as a page asks for at most 100 entries.
\<close>

theorem http_pages_cover:
  assumes l: "0 < l" "l \<le> 100" and top: "in_i64 (TOKEN_ID_BASE + int n * l)"
    and n: "get_prop_i64 s LATEST_PROPOSAL_NUM \<le> int n * l" "get_prop_i64 s LATEST_EXCHANGE_NUM \<le> int n * l"
      "get_token_id_num s \<le> TOKEN_ID_BASE + int n * l"
  shows "concat (map (\<lambda>k. json_items ''proposals'' (http_get_paginated_proposal_list x t s (page_req (int k * l) l))) [0..<n])
      = json_items ''proposals'' (http_list_proposals x t s)
    \<and> concat (map (\<lambda>k. json_items ''exchanges'' (http_get_paginated_exchange_list x t s (page_req (int k * l) l))) [0..<n])
      = json_items ''exchanges'' (http_list_exchanges x t s)
    \<and> concat (map (\<lambda>k. json_items ''assetIssue'' (http_get_paginated_asset_issue_list x t s (page_req (int k * l) l))) [0..<n])
      = json_items ''assetIssue'' (http_get_asset_issue_list x t s)"
proof (intro conjI)
  have b: "0 \<le> TOKEN_ID_BASE" by (simp add: TOKEN_ID_BASE_def)
  have nl: "0 \<le> int n * l" using l by simp
  then have top0: "in_i64 (0 + int n * l)" using top b by (simp add: in_i64_def i64_min_def)
  note off = page_offset [OF l top b]
  show "concat (map (\<lambda>k. json_items ''proposals'' (http_get_paginated_proposal_list x t s (page_req (int k * l) l))) [0..<n])
      = json_items ''proposals'' (http_list_proposals x t s)"
    using pages_cover [OF l(1) _ top0, of "get_prop_i64 s LATEST_PROPOSAL_NUM" _ "proposal_to_json x t False" "read_proposal s"] n l off
    by (simp add: http_get_paginated_proposal_list_def http_list_proposals_def page_req_fields page_range_def)
  show "concat (map (\<lambda>k. json_items ''exchanges'' (http_get_paginated_exchange_list x t s (page_req (int k * l) l))) [0..<n])
      = json_items ''exchanges'' (http_list_exchanges x t s)"
    using pages_cover [OF l(1) _ top0, of "get_prop_i64 s LATEST_EXCHANGE_NUM" _ "exchange_to_json x t False" "read_exchange s"] n l off
    by (simp add: http_get_paginated_exchange_list_def http_list_exchanges_def page_req_fields page_range_def)
  show "concat (map (\<lambda>k. json_items ''assetIssue'' (http_get_paginated_asset_issue_list x t s (page_req (int k * l) l))) [0..<n])
      = json_items ''assetIssue'' (http_get_asset_issue_list x t s)"
    using pages_cover [OF l(1) _ top b, of "get_token_id_num s" _ "asset_to_json x t False" "get_asset_issue s"] n l off
    by (simp add: http_get_paginated_asset_issue_list_def http_get_asset_issue_list_def page_req_fields all_assets_def Let_def
        algebra_simps)
qed

definition sample_listing :: world_state where
  "sample_listing = (put_prop_i64 LATEST_PROPOSAL_NUM 3 ws_empty)\<lparr>ws_proposals :=
     (\<lambda>i. if i \<in> {1, 2, 3} then Some \<lparr>prop_id = i, prop_proposer = [], prop_parameters = [(1, 100)], prop_expiration_time = 0,
        prop_create_time = 0, prop_approvals = [], prop_state = 0\<rparr> else None)\<rparr>"

theorem http_pages_cover_witness:
  "\<forall>(x :: (byte, byte) externals) t.
     concat (map (\<lambda>k. json_items ''proposals'' (http_get_paginated_proposal_list x t sample_listing (page_req (int k * 2) 2))) [0..<2])
       = json_items ''proposals'' (http_list_proposals x t sample_listing)
     \<and> length (json_items ''proposals'' (http_list_proposals x t sample_listing)) = 3"
proof -
  have "get_prop_i64 sample_listing LATEST_PROPOSAL_NUM = 3" "get_prop_i64 sample_listing LATEST_EXCHANGE_NUM = 0"
    "get_token_id_num sample_listing = TOKEN_ID_BASE"
    by (simp_all add: sample_listing_def get_token_id_num_def get_prop_i64_def put_prop_i64_def ws_empty_def
        LATEST_PROPOSAL_NUM_def LATEST_EXCHANGE_NUM_def TOKEN_ID_NUM_def Let_def)
  moreover from this have "length (json_items ''proposals'' (http_list_proposals x t sample_listing)) = 3"
    for x :: "(byte, byte) externals" and t
    by (simp add: http_list_proposals_def List.map_filter_def read_proposal_def sample_listing_def upto.simps)
  ultimately show ?thesis
    by (intro allI conjI http_pages_cover [THEN conjunct1]) (simp_all add: in_i64_def i64_min_def i64_max_def TOKEN_ID_BASE_def)
qed

section \<open>The routes\<close>

text \<open>The interface changes the pool only through the admission of a transaction, so it keeps what holds of every pool.\<close>

lemma broadcast_keeps_pool: "node_pool x capacity p \<Longrightarrow> node_pool x capacity (snd (route_broadcast_hex x t s now req p))"
  by (auto simp: route_broadcast_hex_def Let_def intro: node_pool.pool_admit split: option.split sum.split)

text \<open>
  \<open>end - start\<close> wraps around: the widest request passes the check of the span, and the loop runs over all block numbers.
\<close>

lemma limit_next_wraps:
  "http_get_block_by_limit_next x s (JObj [(''startNum'', JNum (- (2 ^ 63))), (''endNum'', JNum (2 ^ 63 - 1))])
     = blocks_between x s (- (2 ^ 63)) (2 ^ 63 - 2)"
  by (simp add: http_get_block_by_limit_next_def int_field_or_def int_field_def json_get_def as_int_def in_i64_def i64_min_def
      i64_max_def i64_wrap_def)

end
