(* ===== verification/Spec2Isabelle.thy ===== *)
theory Spec2Isabelle
  imports Executor Node_Sync Rpc
begin

text \<open>
  A verification development for \<open>tron-rs\<close>, a Tron full node written in Rust (\<open>src/crates\<close>).

  \<^bold>\<open>The program.\<close>  Transactions reach the node over the peer-to-peer channel (\<open>p2p\<close>, \<open>node/src/net.rs\<close>) or the HTTP API
  (\<open>rpc\<close>) and pass an admission pipeline into the mempool.  In its slot a witness puts pending transactions into a
  block and signs it (\<open>consensus\<close>, \<open>node/src/production.rs\<close>).  Blocks are gated on receipt, stored (\<open>chain\<close>, \<open>state\<close>),
  gossiped, and finalised by signed commits of two thirds of the witnesses.  The executor applies the transactions of
  a block to the world state, one actuator per contract type (\<open>actuators\<close>); calls and deployments of smart contracts
  run on a metered virtual machine (\<open>vm\<close>).  The state lives in the column families of a key-value store (\<open>storage\<close>).

  \<^bold>\<open>Shared vocabulary.\<close>
  \<^item> \<open>Prelude\<close>: Rust integers with their checked, saturating and wrapping operations, byte strings, results
    (\<open>'e + 'a\<close>), and state transformers (\<open>st\<close>) that return the state reached also on failure, since the node writes in place.
  \<^item> \<open>Rust_Text\<close>, \<open>Rust_Order\<close>: the text operations, comparisons and the stable sort of the Rust library.
  \<^item> \<open>Tron_Types\<close>: \<open>types/src/lib.rs\<close>, addresses and hashes.

  \<^bold>\<open>Virtual machine\<close> (\<open>vm/src\<close>).
  \<^item> \<open>Vm_Opcode\<close> (\<open>opcode.rs\<close>, \<open>energy.rs\<close>, \<open>lib.rs\<close>), \<open>Vm_Memory\<close> (\<open>memory.rs\<close>, \<open>precompile.rs\<close>), \<open>Vm_World\<close> (\<open>frame.rs\<close>),
    \<open>Vm_Engine\<close> (\<open>engine.rs\<close>), \<open>Vm_Interp\<close> (\<open>interp.rs\<close>, \<open>call.rs\<close>) follow the files.  A frame is a record, the macros of the
    loop are a small machine monad, a Rust panic is a value.
  \<^item> Shown: reverting to a checkpoint restores the world (\<open>Vm_World\<close>, through the locale \<open>undo_log\<close>); every run ends, within
    its energy limit and the stack bound (\<open>Vm_Engine_Props\<close>); bytecode keeps balances non-negative and their sum
    (\<open>Vm_Value\<close>).  Two programs on which the loop misbehaves are exhibited.

  \<^bold>\<open>State\<close> (\<open>storage/src/lib.rs\<close>, \<open>state/src\<close>).
  \<^item> \<open>Storage\<close>: the trait \<open>KvStore\<close> is the locale \<open>kv_store\<close>, interpreted by \<open>MemoryStore\<close>; the locale \<open>column\<close> derives the typed
    view of a column family from a \<open>codec\<close>.
  \<^item> \<open>State\<close>: the record \<open>world_state\<close>, a map per column family, with its operations, the feature gates and the genesis block;
    the values the node encodes itself refine their byte-level form.

  \<^bold>\<open>Actuators\<close> (\<open>actuators/src\<close>).  Every actuator is a pair \<open>_validate\<close>, \<open>_execute\<close> over a record of its message.
  \<^item> \<open>Actuator_Base\<close> defines the well-formed ledger \<open>wf_state\<close>, the total \<open>total_trx\<close> of all TRX wherever it is held, and the locale
    \<open>actuator\<close>: on a well-formed ledger a validated message executes, keeps the ledger well formed and conserves the total.
    Every native actuator but the market sell interprets it; where an actuator needs more than the code checks, the
    third argument of the interpretation says what (a clock or a sum that fits an \<open>i64\<close>).  The sell has the same
    conclusion for a sell that returns.
  \<^item> \<open>Act_Transfer\<close> (\<open>transfer.rs\<close>, \<open>account.rs\<close>), \<open>Act_Stake_V2\<close> (\<open>freeze_v2.rs\<close>, \<open>withdraw_unfreeze.rs\<close>, \<open>cancel_unfreeze.rs\<close>),
    \<open>Act_Stake_V1\<close> (\<open>freeze_v1.rs\<close>), \<open>Act_Delegate\<close> (\<open>delegate.rs\<close>), \<open>Act_Governance\<close> (\<open>vote.rs\<close>, \<open>witness.rs\<close>, \<open>brokerage.rs\<close>,
    \<open>withdraw.rs\<close>, \<open>permission.rs\<close>, \<open>proposal.rs\<close>), \<open>Act_Asset\<close> (the five token actuators), \<open>Act_Setting\<close> (\<open>update_setting.rs\<close>,
    \<open>update_energy_limit.rs\<close>, \<open>clear_abi.rs\<close>).  Shown beyond the contract: what each moves and where, locks and expiry,
    that closed proposals stay closed, that votes are backed by stake, that only the creator changes a contract.
  \<^item> \<open>Act_Exchange\<close>, \<open>Act_Bancor\<close> (\<open>exchange.rs\<close>): the pools and their prices; with exact arithmetic a swap never decreases the
    product of the reserves.
  \<^item> \<open>Market\<close>, \<open>Market_Props\<close>, \<open>Market_Sell\<close> (\<open>market/\<close>): the order book, the matching loop, and conservation of every token.
  \<^item> \<open>Smart_Contract\<close> (\<open>smart_contract.rs\<close>, \<open>vm_host.rs\<close>): calls and deployments; a call by an account that holds the value it
    sends adds no TRX, a failed call only pays its fee, and what goes wrong when the value is not held.
  \<^item> \<open>Executor\<close> (\<open>executor.rs\<close>): the dispatch and the processing of a block, and conservation over whole blocks.

  \<^bold>\<open>Chain and consensus.\<close>
  \<^item> \<open>Chain\<close> (\<open>chain\<close>, \<open>crypto\<close>, \<open>state/src/blocks.rs\<close>): ids, merkle root, signers, the block columns.
  \<^item> \<open>Consensus\<close> (\<open>consensus/src/lib.rs\<close>, \<open>election.rs\<close>, \<open>fork.rs\<close>, \<open>reward.rs\<close>, \<open>actuators/src/maintenance.rs\<close>), \<open>Mempool\<close> (\<open>mempool.rs\<close>),
    \<open>Production\<close> (\<open>producer.rs\<close>, \<open>node/src/production.rs\<close>, \<open>node/src/sync.rs\<close>), \<open>Pbft\<close> (\<open>pbft.rs\<close>, \<open>node/src/net.rs\<close>).  Shown: the
    invariant of every reachable pool; a produced block is accepted by an equal node, an active witness gets a slot in
    every round and uses it once, the chain only grows by signed consecutive blocks; what a solidified number implies
    and when solidification stops.

  \<^bold>\<open>Network and interface.\<close>
  \<^item> \<open>Wire\<close> (\<open>message.rs\<close>, \<open>channel.rs\<close>, \<open>sync.rs\<close>, \<open>discovery_codec.rs\<close>), \<open>Discovery\<close> (\<open>peer.rs\<close>, \<open>discovery.rs\<close>,
    \<open>discovery_service.rs\<close>), \<open>Service\<close> (\<open>service.rs\<close>, over the locale \<open>gossip_handler\<close> that the handler of the node interprets),
    \<open>Node_Sync\<close> (\<open>node/src/lib.rs\<close>, \<open>sync.rs\<close>).  Shown: round trips of the frames, the invariant of the routing table under
    arbitrary datagrams, gossip that neither circulates nor gets lost, and a sync round that converges.
  \<^item> \<open>Rpc\<close> (\<open>rpc/src\<close>): the HTTP handlers; the pages of a listing are the listing.

  \<^bold>\<open>Bounds and fuel.\<close>  Plain operators wrap, as in the release profile.  The loop of the virtual machine has
  \<open>energy_limit + 1\<close> units of fuel: every iteration that goes on costs energy and a callee gets at most what its caller has
  left, so it never runs out.  All other loops end by a measure: the bytes left of a stream, the matches a taker order has
  left, the hashes of a merkle level, the block numbers up to the head.

  \<^bold>\<open>Parameters.\<close>  Code outside \<open>src/\<close> is an argument: hashes, signatures, hex and protobuf (\<open>externals\<close>, \<open>codecs\<close>, \<open>crypto\<close>,
  \<open>rpc_text\<close>), with \<open>good_externals\<close> stating the documented behaviour some theorems use, and the \<open>f64\<close> operations of the
  exchange.  The clock, the iteration order of hash maps and the bytes a peer sends are arguments too.

  \<^bold>\<open>Not modelled.\<close>  The RocksDB backend, sockets, tasks and locks (\<open>storage/src/rocks.rs\<close>, the spawning parts of \<open>p2p\<close>, \<open>node\<close>
  and \<open>rpc/src/server.rs\<close>) and the command line (\<open>node/src/main.rs\<close>) are I/O; the protobuf messages are generated by the
  build; \<open>verify/\<close> and the tests are not part of the node.  Handlers run one at a time, as the locks make them.
  Exhaustion of memory and failing stores are left out.
\<close>

end
